(* ===== verification/Prelude.thy ===== *)
theory Prelude
  imports Main "HOL-Library.Word" "HOL-Library.AList" "HOL-Library.Char_ord" "HOL-Library.List_Lexorder"
begin

text \<open>
  Shared material of the development: actions over a state that may fail (Go functions that
  return \<open>(T, error)\<close>), contracts of actions, loops over slices, and the few functions of
  Go's \<open>strings\<close>, \<open>encoding/hex\<close> and \<open>fmt\<close> packages the code uses, with their laws.
  Bytes are characters, so a Go \<open>string\<close> or \<open>[]byte\<close> is a \<^typ>\<open>string\<close>.
\<close>

section \<open>Theorem collections\<close>

named_theorems act_simps \<open>unfolding of actions\<close>
named_theorems act_elims \<open>what a successful action did\<close>

type_synonym u64 = "64 word"

section \<open>Actions\<close>

text \<open>
  An action takes the state and returns an error or a value, with the new state: effects made
  before an error are kept, as in the code.
\<close>

type_synonym ('s, 'e, 'a) action = "'s \<Rightarrow> ('e + 'a) \<times> 's"

definition ret :: "'a \<Rightarrow> ('s, 'e, 'a) action" where
  "ret x s = (Inr x, s)"

definition fail :: "'e \<Rightarrow> ('s, 'e, 'a) action" where
  "fail e s = (Inl e, s)"

text \<open>
  \<open>ecase m h k\<close> runs \<open>m\<close> and goes on with \<open>h\<close> on an error and with \<open>k\<close> on a value:
  Go's \<open>if err != nil\<close>.  \<open>ebind m k\<close> is the common case that returns the error.
\<close>

definition ecase :: "('s, 'e, 'a) action \<Rightarrow> ('e \<Rightarrow> ('s, 'f, 'b) action) \<Rightarrow>
    ('a \<Rightarrow> ('s, 'f, 'b) action) \<Rightarrow> ('s, 'f, 'b) action" where
  "ecase m h k s = (case m s of (r, s') \<Rightarrow> (case r of Inl e \<Rightarrow> h e s' | Inr x \<Rightarrow> k x s'))"

definition ebind :: "('s, 'e, 'a) action \<Rightarrow> ('a \<Rightarrow> ('s, 'e, 'b) action) \<Rightarrow> ('s, 'e, 'b) action" where
  "ebind m k = ecase m fail k"

definition lift_sum :: "'e + 'a \<Rightarrow> ('s, 'e, 'a) action" where
  "lift_sum r s = (r, s)"

definition wrap_err :: "('e \<Rightarrow> 'e) \<Rightarrow> ('s, 'e, 'a) action \<Rightarrow> ('s, 'e, 'a) action" where
  "wrap_err f m = ecase m (\<lambda>e. fail (f e)) ret"

text \<open>Loops over a slice with an accumulator; the first error ends the loop.\<close>

fun efold :: "('b \<Rightarrow> 'a \<Rightarrow> ('s, 'e, 'b) action) \<Rightarrow> 'b \<Rightarrow> 'a list \<Rightarrow> ('s, 'e, 'b) action" where
  "efold f b [] = ret b"
| "efold f b (x # xs) = ebind (f b x) (\<lambda>b'. efold f b' xs)"

fun sfold :: "('b \<Rightarrow> 'a \<Rightarrow> 'e + 'b) \<Rightarrow> 'b \<Rightarrow> 'a list \<Rightarrow> 'e + 'b" where
  "sfold f b [] = Inr b"
| "sfold f b (x # xs) = (case f b x of Inl e \<Rightarrow> Inl e | Inr b' \<Rightarrow> sfold f b' xs)"

definition sbind :: "'e + 'a \<Rightarrow> ('a \<Rightarrow> 'e + 'b) \<Rightarrow> 'e + 'b" where
  "sbind r k = (case r of Inl e \<Rightarrow> Inl e | Inr x \<Rightarrow> k x)"

lemma ret_apply [simp, act_simps]: "ret x s = (Inr x, s)"
  by (simp add: ret_def)

lemma fail_apply [simp, act_simps]: "fail e s = (Inl e, s)"
  by (simp add: fail_def)

lemma lift_sum_apply [simp, act_simps]: "lift_sum r s = (r, s)"
  by (simp add: lift_sum_def)

lemma ecase_apply [act_simps]:
  "ecase m h k s = (case m s of (Inl e, s') \<Rightarrow> h e s' | (Inr x, s') \<Rightarrow> k x s')"
  by (simp add: ecase_def split: prod.split sum.split)

lemma ebind_apply [act_simps]:
  "ebind m k s = (case m s of (Inl e, s') \<Rightarrow> (Inl e, s') | (Inr x, s') \<Rightarrow> k x s')"
  by (simp add: ebind_def ecase_def split: prod.split sum.split)

lemma wrap_err_apply [act_simps]:
  "wrap_err f m s = (case m s of (Inl e, s') \<Rightarrow> (Inl (f e), s') | (Inr x, s') \<Rightarrow> (Inr x, s'))"
  by (simp add: wrap_err_def ecase_def split: prod.split sum.split)

lemma ecase_ok: "m s = (Inr x, s') \<Longrightarrow> ecase m h k s = k x s'"
  by (simp add: ecase_apply)

lemma ecase_err: "m s = (Inl e, s') \<Longrightarrow> ecase m h k s = h e s'"
  by (simp add: ecase_apply)

lemma ebind_ok: "m s = (Inr x, s') \<Longrightarrow> ebind m k s = k x s'"
  by (simp add: ebind_apply)

lemma ebind_err: "m s = (Inl e, s') \<Longrightarrow> ebind m k s = (Inl e, s')"
  by (simp add: ebind_apply)

lemma ebind_Inr_iff [act_elims]:
  "ebind m k s = (Inr y, t) \<longleftrightarrow> (\<exists>x s'. m s = (Inr x, s') \<and> k x s' = (Inr y, t))"
  by (auto simp: ebind_apply split: prod.splits sum.splits)

lemma ebind_Inl_iff:
  "ebind m k s = (Inl e, t) \<longleftrightarrow> m s = (Inl e, t) \<or> (\<exists>x s'. m s = (Inr x, s') \<and> k x s' = (Inl e, t))"
  by (auto simp: ebind_apply split: prod.splits sum.splits)

lemma ecase_eq_iff:
  "ecase m h k s = r \<longleftrightarrow> (\<exists>e s'. m s = (Inl e, s') \<and> h e s' = r) \<or> (\<exists>x s'. m s = (Inr x, s') \<and> k x s' = r)"
  by (auto simp: ecase_apply split: prod.splits sum.splits)

lemma wrap_err_Inr_iff [act_elims]: "wrap_err f m s = (Inr y, t) \<longleftrightarrow> m s = (Inr y, t)"
  by (auto simp: wrap_err_apply split: prod.splits sum.splits)

lemma sbind_simps [simp]: "sbind (Inl e) k = Inl e" "sbind (Inr x) k = k x"
  by (simp_all add: sbind_def)

lemma sbind_Inr_iff [act_elims]: "sbind r k = Inr y \<longleftrightarrow> (\<exists>x. r = Inr x \<and> k x = Inr y)"
  by (cases r) simp_all

section \<open>Contracts of actions\<close>

text \<open>
  \<open>steps R m\<close>: whatever \<open>m\<close> returns, it relates the state before to the state after by
  \<open>R\<close>.  For a preorder \<open>R\<close> (only this bucket changes; the log only grows; an invariant is kept)
  the rules of \<open>step_contract\<close> reduce the contract of a handler to those of its calls.
\<close>

definition steps :: "('s \<Rightarrow> 's \<Rightarrow> bool) \<Rightarrow> ('s, 'e, 'a) action \<Rightarrow> bool" where
  "steps R m \<longleftrightarrow> (\<forall>s. R s (snd (m s)))"

lemma stepsI: "(\<And>s. R s (snd (m s))) \<Longrightarrow> steps R m"
  by (simp add: steps_def)

lemma stepsD: "steps R m \<Longrightarrow> m s = (r, s') \<Longrightarrow> R s s'"
  by (metis snd_conv steps_def)

lemma steps_mono: "steps R m \<Longrightarrow> (\<And>s t. R s t \<Longrightarrow> Q s t) \<Longrightarrow> steps Q m"
  by (simp add: steps_def)

locale step_contract =
  fixes R :: "'s \<Rightarrow> 's \<Rightarrow> bool"
  assumes contract_refl: "R s s"
    and contract_trans: "R s t \<Longrightarrow> R t u \<Longrightarrow> R s u"
begin

lemma steps_ret: "steps R (ret x)"
  by (simp add: steps_def contract_refl)

lemma steps_fail: "steps R (fail e)"
  by (simp add: steps_def contract_refl)

lemma steps_lift: "steps R (lift_sum r)"
  by (simp add: steps_def contract_refl)

lemma steps_ecase:
  assumes "steps R m" and "\<And>e. steps R (h e)" and "\<And>x. steps R (k x)"
  shows "steps R (ecase m h k)"
proof (rule stepsI)
  fix s
  obtain r t where m: "m s = (r, t)" by (cases "m s")
  have "R s t" using assms(1) m by (rule stepsD)
  moreover have "R t (snd (case r of Inl e \<Rightarrow> h e t | Inr x \<Rightarrow> k x t))"
    using assms(2,3) by (cases r) (simp_all add: steps_def)
  ultimately show "R s (snd (ecase m h k s))"
    by (simp add: ecase_def m) (rule contract_trans)
qed

lemma steps_ebind: "steps R m \<Longrightarrow> (\<And>x. steps R (k x)) \<Longrightarrow> steps R (ebind m k)"
  unfolding ebind_def by (rule steps_ecase) (simp_all add: steps_fail)

lemma steps_wrap: "steps R m \<Longrightarrow> steps R (wrap_err f m)"
  unfolding wrap_err_def by (rule steps_ecase) (simp_all add: steps_fail steps_ret)

lemma steps_if: "steps R m \<Longrightarrow> steps R k \<Longrightarrow> steps R (if b then m else k)"
  by simp

lemma steps_option: "steps R m \<Longrightarrow> (\<And>x. steps R (k x)) \<Longrightarrow> steps R (case v of None \<Rightarrow> m | Some x \<Rightarrow> k x)"
  by (simp split: option.split)

lemma steps_sum: "(\<And>e. steps R (h e)) \<Longrightarrow> (\<And>x. steps R (k x)) \<Longrightarrow> steps R (case v of Inl e \<Rightarrow> h e | Inr x \<Rightarrow> k x)"
  by (simp split: sum.split)

lemma steps_prod: "(\<And>x y. steps R (k x y)) \<Longrightarrow> steps R (case v of (x, y) \<Rightarrow> k x y)"
  by (simp split: prod.split)

lemma steps_let: "(\<And>x. steps R (k x)) \<Longrightarrow> steps R (let x = v in k x)"
  by simp

lemma steps_efold: "(\<And>b x. steps R (f b x)) \<Longrightarrow> steps R (efold f b xs)"
  by (induction xs arbitrary: b) (simp_all add: steps_ret steps_ebind)

lemmas steps_rules = steps_ret steps_fail steps_lift steps_ecase steps_ebind steps_wrap steps_if
  steps_option steps_sum steps_prod steps_let steps_efold

end

text \<open>Keeping a predicate is the simplest contract.\<close>

definition keeps :: "('s \<Rightarrow> bool) \<Rightarrow> 's \<Rightarrow> 's \<Rightarrow> bool" where
  "keeps P s t \<longleftrightarrow> (P s \<longrightarrow> P t)"

interpretation keeps: step_contract "keeps P" for P
  by unfold_locales (auto simp: keeps_def)

definition same :: "('s \<Rightarrow> 'v) \<Rightarrow> 's \<Rightarrow> 's \<Rightarrow> bool" where
  "same f s t \<longleftrightarrow> f t = f s"

interpretation same: step_contract "same f" for f
  by unfold_locales (auto simp: same_def)

section \<open>Go's strings package\<close>

definition has_prefix :: "string \<Rightarrow> string \<Rightarrow> bool" where
  "has_prefix s p \<longleftrightarrow> take (length p) s = p"

definition trim_prefix :: "string \<Rightarrow> string \<Rightarrow> string" where
  "trim_prefix s p = (if has_prefix s p then drop (length p) s else s)"

definition cut_prefix :: "string \<Rightarrow> string \<Rightarrow> string option" where
  "cut_prefix s p = (if has_prefix s p then Some (drop (length p) s) else None)"

text \<open>\<open>strings.Cut\<close> at a separator of one byte.\<close>

fun cut_at :: "char \<Rightarrow> string \<Rightarrow> (string \<times> string) option" where
  "cut_at c [] = None"
| "cut_at c (x # xs) =
     (if x = c then Some ([], xs)
      else (case cut_at c xs of None \<Rightarrow> None | Some (a, b) \<Rightarrow> Some (x # a, b)))"

fun split_at :: "char \<Rightarrow> string \<Rightarrow> string list" where
  "split_at c [] = [[]]"
| "split_at c (x # xs) =
     (if x = c then [] # split_at c xs
      else (case split_at c xs of [] \<Rightarrow> [[x]] | p # ps \<Rightarrow> (x # p) # ps))"

fun join_with :: "string \<Rightarrow> string list \<Rightarrow> string" where
  "join_with sep [] = []"
| "join_with sep [x] = x"
| "join_with sep (x # y # ys) = x @ sep @ join_with sep (y # ys)"

fun contains_sub :: "string \<Rightarrow> string \<Rightarrow> bool" where
  "contains_sub [] p = (p = [])"
| "contains_sub (x # xs) p = (has_prefix (x # xs) p \<or> contains_sub xs p)"

definition is_space :: "char \<Rightarrow> bool" where
  "is_space c \<longleftrightarrow> of_char c \<in> {9, 10, 11, 12, 13, 32 :: nat}"

definition trim_space :: "string \<Rightarrow> string" where
  "trim_space s = rev (dropWhile is_space (rev (dropWhile is_space s)))"

lemma cut_prefix_append [simp]: "cut_prefix (p @ s) p = Some s"
  by (simp add: cut_prefix_def has_prefix_def)

lemma cut_prefix_Some: "cut_prefix s p = Some t \<longleftrightarrow> s = p @ t"
  by (auto simp: cut_prefix_def has_prefix_def) (metis append_take_drop_id)

lemma has_prefix_append [simp]: "has_prefix (p @ s) p"
  by (simp add: has_prefix_def)

lemma trim_prefix_append [simp]: "trim_prefix (p @ s) p = s"
  by (simp add: trim_prefix_def)

lemma cut_at_append: "c \<notin> set a \<Longrightarrow> cut_at c (a @ c # b) = Some (a, b)"
  by (induction a) auto

lemma cut_at_SomeD: "cut_at c s = Some (a, b) \<Longrightarrow> s = a @ c # b \<and> c \<notin> set a"
  by (induction s arbitrary: a b) (auto split: option.splits if_splits)

lemma cut_at_Some: "cut_at c s = Some (a, b) \<longleftrightarrow> s = a @ c # b \<and> c \<notin> set a"
  using cut_at_SomeD cut_at_append by metis

lemma cut_at_None: "cut_at c s = None \<longleftrightarrow> c \<notin> set s"
  by (induction s) (auto split: option.splits)

lemma split_at_nonempty [simp]: "split_at c s \<noteq> []"
  by (induction s) (auto split: list.splits)

lemma split_at_single: "c \<notin> set s \<Longrightarrow> split_at c s = [s]"
  by (induction s) auto

lemma split_at_append: "c \<notin> set a \<Longrightarrow> split_at c (a @ c # b) = a # split_at c b"
  by (induction a) auto

lemma contains_sub_iff: "contains_sub s p \<longleftrightarrow> (\<exists>a b. s = a @ p @ b)"
proof (induction s)
  case (Cons x xs)
  have "has_prefix (x # xs) p \<longleftrightarrow> (\<exists>b. x # xs = p @ b)"
    by (metis append_take_drop_id has_prefix_append has_prefix_def)
  with Cons show ?case
    by (auto simp: Cons_eq_append_conv)
qed auto

lemma dropWhile_is_id: "(\<And>c. c \<in> set s \<Longrightarrow> \<not> P c) \<Longrightarrow> dropWhile P s = s"
  by (cases s) auto

lemma trim_space_id: "(\<And>c. c \<in> set s \<Longrightarrow> \<not> is_space c) \<Longrightarrow> trim_space s = s"
  using dropWhile_is_id [of s is_space] dropWhile_is_id [of "rev s" is_space]
  by (simp add: trim_space_def)

lemma dropWhile_append_none: "(\<And>c. c \<in> set t \<Longrightarrow> \<not> P c) \<Longrightarrow> dropWhile P (s @ t) = dropWhile P s @ t"
  by (induction s) (auto simp: dropWhile_is_id)

lemma trim_space_newline:
  assumes "\<And>c. c \<in> set s \<Longrightarrow> \<not> is_space c"
  shows "trim_space (s @ [CHR 0x0A]) = s"
proof (cases s)
  case Nil
  then show ?thesis by (simp add: trim_space_def is_space_def)
next
  case (Cons x xs)
  have "dropWhile is_space (s @ [CHR 0x0A]) = s @ [CHR 0x0A]"
    using assms Cons by simp
  moreover have "dropWhile is_space (rev s) = rev s"
    by (rule dropWhile_is_id) (use assms in auto)
  ultimately show ?thesis
    by (simp add: trim_space_def is_space_def)
qed

section \<open>Hexadecimal and decimal text\<close>

definition hex_digit :: "nat \<Rightarrow> char" where
  "hex_digit n = (if n < 10 then char_of (48 + n) else char_of (87 + n))"

definition hex_value :: "char \<Rightarrow> nat option" where
  "hex_value c = (let n = of_char c in
     if 48 \<le> n \<and> n \<le> 57 then Some (n - 48)
     else if 97 \<le> n \<and> n \<le> 102 then Some (n - 87)
     else if 65 \<le> n \<and> n \<le> 70 then Some (n - 55) else None)"

text \<open>\<open>hex.EncodeToString\<close> and \<open>hex.DecodeString\<close> (which accepts both cases).\<close>

fun hex_encode :: "string \<Rightarrow> string" where
  "hex_encode [] = []"
| "hex_encode (c # s) = hex_digit (of_char c div 16) # hex_digit (of_char c mod 16) # hex_encode s"

fun hex_decode :: "string \<Rightarrow> string option" where
  "hex_decode [] = Some []"
| "hex_decode [x] = None"
| "hex_decode (x # y # s) =
     (case (hex_value x, hex_value y) of
        (Some a, Some b) \<Rightarrow> map_option (\<lambda>t. char_of (16 * a + b) # t) (hex_decode s)
      | _ \<Rightarrow> None)"

definition lower_hex_char :: "char \<Rightarrow> bool" where
  "lower_hex_char c \<longleftrightarrow> (let n = of_char c :: nat in (48 \<le> n \<and> n \<le> 57) \<or> (97 \<le> n \<and> n \<le> 102))"

lemma of_char_bound: "of_char c < (256 :: nat)"
  using nat_of_char_less_256 by blast

lemma of_char_div_bound: "of_char c div 16 < (16 :: nat)"
  by (rule less_mult_imp_div_less) (use of_char_bound in simp)

lemma of_char_hex_digit: "n < 16 \<Longrightarrow> of_char (hex_digit n) = (if n < 10 then 48 + n else 87 + n)"
  by (simp add: hex_digit_def)

lemma hex_value_digit [simp]: "n < 16 \<Longrightarrow> hex_value (hex_digit n) = Some n"
  by (simp add: hex_value_def Let_def of_char_hex_digit)

lemma lower_hex_digit [simp]: "n < 16 \<Longrightarrow> lower_hex_char (hex_digit n)"
  by (simp add: lower_hex_char_def Let_def of_char_hex_digit)

lemma hex_decode_encode [simp]: "hex_decode (hex_encode s) = Some s"
proof (induction s)
  case (Cons c s)
  have "of_char c div 16 < (16 :: nat)" by (rule of_char_div_bound)
  moreover have "of_char c mod 16 < (16 :: nat)" by simp
  ultimately show ?case using Cons by simp
qed simp

lemma hex_encode_inject [simp]: "hex_encode s = hex_encode t \<longleftrightarrow> s = t"
  by (metis hex_decode_encode option.inject)

lemma length_hex_encode [simp]: "length (hex_encode s) = 2 * length s"
  by (induction s) simp_all

lemma hex_encode_eq_Nil [simp]: "hex_encode s = [] \<longleftrightarrow> s = []"
  by (cases s) simp_all

lemma hex_encode_chars: "c \<in> set (hex_encode s) \<Longrightarrow> lower_hex_char c"
proof (induction s)
  case (Cons d s)
  have "of_char d div 16 < (16 :: nat)" by (rule of_char_div_bound)
  moreover have "of_char d mod 16 < (16 :: nat)" by simp
  ultimately show ?case using Cons by auto
qed simp

lemma lower_hex_not_space: "lower_hex_char c \<Longrightarrow> \<not> is_space c"
  by (auto simp: lower_hex_char_def is_space_def Let_def)

text \<open>Decimal text of naturals and integers (\<open>%d\<close>, \<open>fmt.Sprint\<close>, \<open>big.Int.String\<close>).\<close>

definition digit :: "nat \<Rightarrow> char" where
  "digit n = char_of (48 + n)"

fun dec :: "nat \<Rightarrow> string" where
  "dec n = (if n < 10 then [digit n] else dec (n div 10) @ [digit (n mod 10)])"

declare dec.simps [simp del]

definition dec_int :: "int \<Rightarrow> string" where
  "dec_int i = (if i < 0 then CHR ''-'' # dec (nat (- i)) else dec (nat i))"

definition digit_value :: "char \<Rightarrow> nat option" where
  "digit_value c = (let n = of_char c in if 48 \<le> n \<and> n \<le> 57 then Some (n - 48) else None)"

fun undec_from :: "nat \<Rightarrow> string \<Rightarrow> nat option" where
  "undec_from a [] = Some a"
| "undec_from a (c # s) = (case digit_value c of None \<Rightarrow> None | Some d \<Rightarrow> undec_from (10 * a + d) s)"

definition undec :: "string \<Rightarrow> nat option" where
  "undec s = (if s = [] then None else undec_from 0 s)"

lemma of_char_digit: "n < 10 \<Longrightarrow> of_char (digit n) = 48 + n"
  by (simp add: digit_def)

lemma digit_value_digit [simp]: "n < 10 \<Longrightarrow> digit_value (digit n) = Some n"
  by (simp add: digit_value_def Let_def of_char_digit)

lemma undec_from_append:
  "undec_from a (s @ t) = (case undec_from a s of None \<Rightarrow> None | Some b \<Rightarrow> undec_from b t)"
  by (induction s arbitrary: a) (auto split: option.split)

lemma dec_nonempty [simp]: "dec n \<noteq> []"
  by (subst dec.simps) simp

lemma undec_from_dec: "undec_from 0 (dec n) = Some n"
proof (induction n rule: dec.induct)
  case (1 n)
  show ?case
  proof (cases "n < 10")
    case True
    then show ?thesis by (subst dec.simps) simp
  next
    case False
    with 1 have "undec_from 0 (dec (n div 10)) = Some (n div 10)" by simp
    with False show ?thesis by (subst dec.simps) (simp add: undec_from_append)
  qed
qed

lemma undec_dec [simp]: "undec (dec n) = Some n"
  by (simp add: undec_def undec_from_dec)

lemma dec_inject [simp]: "dec m = dec n \<longleftrightarrow> m = n"
  by (metis option.inject undec_dec)

lemma dec_digits: "c \<in> set (dec n) \<Longrightarrow> 48 \<le> (of_char c :: nat) \<and> of_char c \<le> (57 :: nat)"
proof (induction n rule: dec.induct)
  case (1 n)
  show ?case
  proof (cases "n < 10")
    case True
    with 1 have "c = digit n" by (subst (asm) (2) dec.simps) simp
    with True show ?thesis by (simp add: of_char_digit)
  next
    case False
    with 1 have "c \<in> set (dec (n div 10)) \<or> c = digit (n mod 10)"
      by (subst (asm) (2) dec.simps) auto
    with 1 False show ?thesis by (auto simp: of_char_digit)
  qed
qed

section \<open>Fixed-width decimal text\<close>

fun fixdec :: "nat \<Rightarrow> nat \<Rightarrow> string" where
  "fixdec 0 n = []"
| "fixdec (Suc w) n = fixdec w (n div 10) @ [digit (n mod 10)]"

text \<open>\<open>fmt.Sprintf("%0wd")\<close>.\<close>

definition pad_dec :: "nat \<Rightarrow> nat \<Rightarrow> string" where
  "pad_dec w n = replicate (w - length (dec n)) (CHR ''0'') @ dec n"

lemma length_fixdec [simp]: "length (fixdec w n) = w"
  by (induction w arbitrary: n) simp_all

lemma digit_zero: "digit 0 = CHR ''0''"
  by (simp add: digit_def char_of_def bit_0)

lemma fixdec_zero: "fixdec w 0 = replicate w (CHR ''0'')"
  by (induction w) (simp_all add: digit_zero replicate_append_same)

lemma length_dec: "0 < w \<Longrightarrow> n < 10 ^ w \<Longrightarrow> length (dec n) \<le> w"
proof (induction w arbitrary: n)
  case (Suc w)
  show ?case
  proof (cases "n < 10")
    case True
    then show ?thesis by (subst dec.simps) simp
  next
    case False
    with Suc.prems have "0 < w" by (cases w) auto
    moreover have "n div 10 < 10 ^ w" using Suc.prems by (simp add: less_mult_imp_div_less mult.commute)
    ultimately have "length (dec (n div 10)) \<le> w" by (rule Suc.IH)
    with False show ?thesis by (subst dec.simps) simp
  qed
qed simp

lemma pad_dec_fixdec: "0 < w \<Longrightarrow> n < 10 ^ w \<Longrightarrow> pad_dec w n = fixdec w n"
proof (induction w arbitrary: n)
  case (Suc w)
  show ?case
  proof (cases "n < 10")
    case True
    then have "dec n = [digit n]" by (subst dec.simps) simp
    with True show ?thesis by (simp add: pad_dec_def fixdec_zero)
  next
    case False
    then have d: "dec n = dec (n div 10) @ [digit (n mod 10)]" by (subst dec.simps) simp
    from False Suc.prems have "0 < w" by (cases w) auto
    moreover have "n div 10 < 10 ^ w" using Suc.prems by (simp add: less_mult_imp_div_less mult.commute)
    ultimately have "pad_dec w (n div 10) = fixdec w (n div 10)" by (rule Suc.IH)
    then show ?thesis by (simp add: pad_dec_def d)
  qed
qed simp

lemma string_less_append_left: "s < t \<Longrightarrow> u @ s < u @ (t :: string)"
  by (simp add: list_less_def lexord_append_leftI)

lemma string_less_append_right: "s < t \<Longrightarrow> length s = length t \<Longrightarrow> s @ u < t @ (v :: string)"
  by (auto simp: list_less_def intro: lexord_sufI)

lemma digit_less: "m < n \<Longrightarrow> n < 10 \<Longrightarrow> digit m < digit n"
  by (simp add: less_char_def of_char_digit)

lemma fixdec_less: "m < n \<Longrightarrow> n < 10 ^ w \<Longrightarrow> fixdec w m < fixdec w n"
proof (induction w arbitrary: m n)
  case (Suc w)
  have n: "n div 10 < 10 ^ w" using Suc.prems by (simp add: less_mult_imp_div_less mult.commute)
  show ?case
  proof (cases "m div 10 < n div 10")
    case True
    with n have "fixdec w (m div 10) < fixdec w (n div 10)" by (rule Suc.IH [rotated])
    then show ?thesis by (simp add: string_less_append_right)
  next
    case False
    moreover have "m div 10 \<le> n div 10" using Suc.prems by (simp add: div_le_mono)
    ultimately have eq: "m div 10 = n div 10" by simp
    have "m mod 10 < n mod 10"
      using Suc.prems(1) eq mult_div_mod_eq [of 10 m] mult_div_mod_eq [of 10 n] by linarith
    then have "[digit (m mod 10)] < [digit (n mod 10)]" by (simp add: digit_less)
    then show ?thesis by (simp add: eq string_less_append_left)
  qed
qed simp

end
