(* ===== verification/Json.thy ===== *)
theory Json
  imports Prelude "HOL-Library.Monad_Syntax"
begin

text \<open>
  Documents as \<open>encoding/json\<close> sees them.  Every value the program stores is the JSON form of a
  Go struct, so a stored document is a \<open>json\<close> value and each component defines the marshalling
  of its structs from their field tags (names, \<open>omitempty\<close>).  The text forms of
  \<open>time.Time\<close> (RFC 3339) and \<open>[]byte\<close> (base64) are kept as leaves.  Struct fields are matched by
  their exact names, the last of duplicates wins and a missing or null field leaves the zero value.
\<close>

section \<open>Values and fields\<close>

datatype json =
    JNull
  | JBool bool
  | JNum int
  | JStr string
  | JBytes string
  | JTime int
  | JArr "json list"
  | JObj "(string \<times> json) list"

named_theorems json_simps \<open>decoding of encoded fields\<close>

fun jfind :: "(string \<times> 'v) list \<Rightarrow> string \<Rightarrow> 'v option" where
  "jfind [] k = None"
| "jfind ((k', v) # fs) k = (case jfind fs k of Some x \<Rightarrow> Some x | None \<Rightarrow> if k' = k then Some v else None)"

definition jget :: "(string \<times> json) list \<Rightarrow> string \<Rightarrow> json" where
  "jget fs k = (case jfind fs k of None \<Rightarrow> JNull | Some v \<Rightarrow> v)"

definition fld :: "string \<Rightarrow> json \<Rightarrow> (string \<times> json) list" where
  "fld k j = [(k, j)]"

text \<open>A field with \<open>omitempty\<close>: left out when the value is the zero value.\<close>

definition omit :: "bool \<Rightarrow> string \<Rightarrow> json \<Rightarrow> (string \<times> json) list" where
  "omit z k j = (if z then [] else [(k, j)])"

lemma jfind_append: "jfind (xs @ ys) k = (case jfind ys k of Some v \<Rightarrow> Some v | None \<Rightarrow> jfind xs k)"
  by (induction xs) (auto split: option.split)

lemma jget_append: "jget (xs @ ys) k = (case jfind ys k of Some v \<Rightarrow> v | None \<Rightarrow> jget xs k)"
  by (simp add: jget_def jfind_append split: option.split)

lemma jfind_fld [json_simps]: "jfind (fld k j) k' = (if k = k' then Some j else None)"
  by (simp add: fld_def)

lemma jfind_omit [json_simps]: "jfind (omit z k j) k' = (if k = k' \<and> \<not> z then Some j else None)"
  by (simp add: omit_def)

lemma jget_fld [json_simps]: "jget (fld k j) k' = (if k = k' then j else JNull)"
  by (simp add: jget_def jfind_fld)

lemma jget_omit [json_simps]: "jget (omit z k j) k' = (if k = k' \<and> \<not> z then j else JNull)"
  by (simp add: jget_def jfind_omit)

lemma jfind_map: "jfind (map (\<lambda>(k, v). (k, f v)) xs) k = map_option f (jfind xs k)"
  by (induction xs) (auto split: option.splits)

lemma jget_append_fld [json_simps]: "jget (xs @ fld k j) k' = (if k = k' then j else jget xs k')"
  by (simp add: jget_append jfind_fld)

lemma jget_append_omit [json_simps]: "jget (xs @ omit z k j) k' = (if k = k' \<and> \<not> z then j else jget xs k')"
  by (simp add: jget_append jfind_omit)

lemma jget_fld_append [json_simps]:
  "jget (fld k j @ ys) k' = (if k \<noteq> k' then jget ys k' else (case jfind ys k' of Some v \<Rightarrow> v | None \<Rightarrow> j))"
  by (auto simp: jget_def jfind_append jfind_fld split: option.split)

lemma jget_omit_append [json_simps]:
  "jget (omit z k j @ ys) k' =
     (if k \<noteq> k' \<or> z then jget ys k' else (case jfind ys k' of Some v \<Rightarrow> v | None \<Rightarrow> j))"
  by (auto simp: jget_def jfind_append jfind_omit split: option.split)

lemma jfind_fld_append [json_simps]:
  "jfind (fld k j @ ys) k' = (case jfind ys k' of Some v \<Rightarrow> Some v | None \<Rightarrow> if k = k' then Some j else None)"
  by (simp add: jfind_append jfind_fld split: option.split)

lemma jfind_omit_append [json_simps]:
  "jfind (omit z k j @ ys) k' =
     (case jfind ys k' of Some v \<Rightarrow> Some v | None \<Rightarrow> if k = k' \<and> \<not> z then Some j else None)"
  by (simp add: jfind_append jfind_omit split: option.split)

section \<open>Go's zero values and the leaf codecs\<close>

text \<open>Instants and durations are nanoseconds; the zero \<open>time.Time\<close> is 1 January of year 1.\<close>

definition zero_time :: int where
  "zero_time = - 62135596800 * 1000000000"

definition of_str :: "json \<Rightarrow> string option" where
  "of_str j = (case j of JNull \<Rightarrow> Some [] | JStr s \<Rightarrow> Some s | _ \<Rightarrow> None)"

definition of_bytes :: "json \<Rightarrow> string option" where
  "of_bytes j = (case j of JNull \<Rightarrow> Some [] | JBytes s \<Rightarrow> Some s | _ \<Rightarrow> None)"

definition of_bool :: "json \<Rightarrow> bool option" where
  "of_bool j = (case j of JNull \<Rightarrow> Some False | JBool b \<Rightarrow> Some b | _ \<Rightarrow> None)"

definition of_int :: "json \<Rightarrow> int option" where
  "of_int j = (case j of JNull \<Rightarrow> Some 0 | JNum i \<Rightarrow> Some i | _ \<Rightarrow> None)"

definition of_u64 :: "json \<Rightarrow> u64 option" where
  "of_u64 j = (case j of JNull \<Rightarrow> Some 0
     | JNum i \<Rightarrow> if 0 \<le> i \<and> i < 18446744073709551616 then Some (word_of_int i) else None | _ \<Rightarrow> None)"

definition of_time :: "json \<Rightarrow> int option" where
  "of_time j = (case j of JNull \<Rightarrow> Some zero_time | JTime t \<Rightarrow> Some t | _ \<Rightarrow> None)"

fun all_some :: "'a option list \<Rightarrow> 'a list option" where
  "all_some [] = Some []"
| "all_some (None # xs) = None"
| "all_some (Some x # xs) = map_option (Cons x) (all_some xs)"

definition of_list :: "(json \<Rightarrow> 'a option) \<Rightarrow> json \<Rightarrow> 'a list option" where
  "of_list f j = (case j of JNull \<Rightarrow> Some [] | JArr js \<Rightarrow> all_some (map f js) | _ \<Rightarrow> None)"

definition of_obj :: "json \<Rightarrow> (string \<times> json) list option" where
  "of_obj j = (case j of JNull \<Rightarrow> Some [] | JObj fs \<Rightarrow> Some fs | _ \<Rightarrow> None)"

text \<open>A nil slice or byte slice marshals as null; an empty one is never stored as anything else.\<close>

definition slice_json :: "('a \<Rightarrow> json) \<Rightarrow> 'a list \<Rightarrow> json" where
  "slice_json f xs = (if xs = [] then JNull else JArr (map f xs))"

definition bytes_json :: "string \<Rightarrow> json" where
  "bytes_json s = (if s = [] then JNull else JBytes s)"

lemma all_some_map: "(\<And>x. x \<in> set xs \<Longrightarrow> g (f x) = Some x) \<Longrightarrow> all_some (map g (map f xs)) = Some xs"
  by (induction xs) auto

lemma of_str_str [json_simps]: "of_str (JStr s) = Some s" "of_str JNull = Some []"
  by (simp_all add: of_str_def)

lemma of_bytes_bytes [json_simps]: "of_bytes (bytes_json s) = Some s"
  "of_bytes (JBytes s) = Some s" "of_bytes JNull = Some []"
  by (simp_all add: of_bytes_def bytes_json_def)

lemma of_bool_bool [json_simps]: "of_bool (JBool b) = Some b" "of_bool JNull = Some False"
  by (simp_all add: of_bool_def)

lemma of_int_num [json_simps]: "of_int (JNum i) = Some i" "of_int JNull = Some 0"
  by (simp_all add: of_int_def)

lemma of_time_time [json_simps]: "of_time (JTime t) = Some t" "of_time JNull = Some zero_time"
  by (simp_all add: of_time_def)

lemma uint_u64_bound: "uint (w :: u64) < 18446744073709551616"
  using uint_lt2p [of w] by simp

lemma of_u64_num [json_simps]: "of_u64 (JNum (uint w)) = Some w" "of_u64 JNull = Some 0"
  by (simp_all add: of_u64_def uint_u64_bound)

lemma of_obj_obj [json_simps]: "of_obj (JObj fs) = Some fs" "of_obj JNull = Some []"
  by (simp_all add: of_obj_def)

lemma of_list_null [json_simps]: "of_list f JNull = Some []"
  by (simp add: of_list_def)

lemma of_list_slice:
  "(\<And>x. x \<in> set xs \<Longrightarrow> g (f x) = Some x) \<Longrightarrow> of_list g (slice_json f xs) = Some xs"
  by (cases xs) (simp_all add: of_list_def slice_json_def all_some_map del: map_map)

lemma of_list_strs [json_simps]: "of_list of_str (slice_json JStr xs) = Some xs"
  by (rule of_list_slice) (simp add: json_simps)

section \<open>String maps\<close>

text \<open>
  A Go map with string keys marshals with its keys sorted.  The model keeps such a map as an
  association list in that order, \<open>canon_map\<close> puts any list of entries (the last one of a key
  wins) into it, and \<open>wf_map\<close> says that a list is one.
\<close>

definition canon_map :: "(string \<times> 'v) list \<Rightarrow> (string \<times> 'v) list" where
  "canon_map m = map (\<lambda>k. (k, the (jfind m k))) (sort (remdups (map fst m)))"

definition wf_map :: "(string \<times> 'v) list \<Rightarrow> bool" where
  "wf_map m \<longleftrightarrow> sorted (map fst m) \<and> distinct (map fst m)"

lemma jfind_mem: "jfind m k = Some v \<Longrightarrow> (k, v) \<in> set m"
  by (induction m) (auto split: option.splits if_splits)

lemma jfind_None_iff: "jfind m k = None \<longleftrightarrow> k \<notin> fst ` set m"
  by (induction m) (auto split: option.splits)

lemma jfind_distinct: "distinct (map fst m) \<Longrightarrow> (k, v) \<in> set m \<Longrightarrow> jfind m k = Some v"
proof (induction m)
  case (Cons a m)
  obtain k' v' where a: "a = (k', v')" by (cases a)
  show ?case
  proof (cases "(k, v) = (k', v')")
    case True
    with Cons.prems a have "jfind m k = None" by (simp add: jfind_None_iff)
    with True a show ?thesis by simp
  next
    case False
    with Cons a show ?thesis by auto
  qed
qed simp

lemma canon_map_wf: "wf_map m \<Longrightarrow> canon_map m = m"
proof -
  assume "wf_map m"
  then have keys: "sort (remdups (map fst m)) = map fst m" and d: "distinct (map fst m)"
    by (auto simp: wf_map_def sorted_sort_id distinct_remdups_id)
  have "map (\<lambda>k. (k, the (jfind m k))) (map fst m) = map (\<lambda>kv. kv) m"
    unfolding map_map o_def by (rule map_cong) (auto simp: jfind_distinct [OF d])
  then show ?thesis by (simp add: canon_map_def keys)
qed

lemma wf_canon_map [simp]: "wf_map (canon_map m)"
  by (simp add: canon_map_def wf_map_def o_def)

definition strmap_json :: "(string \<times> string) list \<Rightarrow> json" where
  "strmap_json m = JObj (map (\<lambda>(k, v). (k, JStr v)) m)"

definition of_strmap :: "json \<Rightarrow> (string \<times> string) list option" where
  "of_strmap j = do { fs \<leftarrow> of_obj j;
     kvs \<leftarrow> all_some (map (\<lambda>(k, v). map_option (Pair k) (of_str v)) fs);
     Some (canon_map kvs) }"

lemma of_strmap_strmap:
  assumes "wf_map m"
  shows "of_strmap (strmap_json m) = Some m"
proof -
  have "all_some (map (\<lambda>(k, v). map_option (Pair k) (of_str v)) (map (\<lambda>(k, v). (k, JStr v)) m)) = Some m"
    by (rule all_some_map) (auto simp: json_simps)
  with assms show ?thesis
    by (simp add: of_strmap_def strmap_json_def json_simps canon_map_wf)
qed

lemma of_strmap_null [json_simps]: "of_strmap JNull = Some []"
  by (simp add: of_strmap_def json_simps canon_map_def)

end
