(* ===== verification/World.thy ===== *)
theory World
  imports Json
begin

text \<open>
  Errors, the environment and the state shared by the components.  The environment holds what the
  program reads from outside (clock, random bytes, faults of I/O, hash functions, the text of
  \<open>json.Marshal\<close>); the state holds what it writes (store documents and counters, key files, the
  audit file).  Every outside call takes one tick, and the environment answers by the tick, so a
  run is a function of the environment and the state.
\<close>

section \<open>Errors\<close>

text \<open>
  A Go error is its text and the sentinel or typed error that \<open>errors.Is\<close> or
  \<open>errors.As\<close> finds in its chain; \<open>%w\<close> keeps the sentinel and extends the text.
\<close>

datatype sentinel =
    Plain
  | NotFoundS
  | ExperimentalS
  | NotImplementedS
  | UnauthorizedS
  | MalformedKeyS
  | LastOperatorS
  | RevokeInProgressS
  | IOS
  | AcmeS nat string string

datatype err = Err (sentinel_of: sentinel) (text_of: string)

definition errorf :: "string \<Rightarrow> err" where
  "errorf t = Err Plain t"

definition wrapf :: "string \<Rightarrow> err \<Rightarrow> err" where
  "wrapf t e = Err (sentinel_of e) (t @ text_of e)"

definition wrap_sum :: "string \<Rightarrow> err + 'a \<Rightarrow> err + 'a" where
  "wrap_sum t r = (case r of Inl e \<Rightarrow> Inl (wrapf t e) | Inr x \<Rightarrow> Inr x)"

lemma wrap_sum_Inr [act_elims]: "wrap_sum t r = Inr x \<longleftrightarrow> r = Inr x"
  by (simp add: wrap_sum_def split: sum.split)

lemma wrap_sum_simps [simp]: "wrap_sum t (Inr x) = Inr x" "wrap_sum t (Inl e) = Inl (wrapf t e)"
  by (simp_all add: wrap_sum_def)

definition is_not_found :: "err \<Rightarrow> bool" where
  "is_not_found e \<longleftrightarrow> sentinel_of e = NotFoundS"

text \<open>
  \<open>%q\<close>: quotes, backslashes and control characters are escaped; other characters, UTF-8 sequences
  included, are kept.
\<close>

definition quote_char :: "char \<Rightarrow> string" where
  "quote_char c = (let n = of_char c :: nat in
     if n = 34 \<or> n = 92 then [CHR 0x5C, c]
     else if 7 \<le> n \<and> n \<le> 13 then [CHR 0x5C, ''abtnvfr'' ! (n - 7)]
     else if n < 32 \<or> n = 127 then [CHR 0x5C, CHR ''x''] @ hex_encode [c]
     else [c])"

definition quoted :: "string \<Rightarrow> string" where
  "quoted s = CHR 0x22 # concat (map quote_char s) @ [CHR 0x22]"

lemma sentinel_wrapf [simp]: "sentinel_of (wrapf t e) = sentinel_of e"
  by (simp add: wrapf_def)

lemma sentinel_errorf [simp]: "sentinel_of (errorf t) = Plain"
  by (simp add: errorf_def)

lemma text_errorf [simp]: "text_of (errorf t) = t"
  by (simp add: errorf_def)

lemma not_found_simps [simp]: "\<not> is_not_found (errorf t)" "is_not_found (wrapf t e) = is_not_found e"
  by (simp_all add: is_not_found_def)

section \<open>Environment and state\<close>

text \<open>
  A call that does I/O works, fails without effect, or fails after its effect (a write that
  committed although the caller sees an error).
\<close>

datatype fault = NoFault | FailClean string | FailCommitted string

record env =
  now_at :: "nat \<Rightarrow> int"
  rnd_at :: "nat \<Rightarrow> nat \<Rightarrow> char"
  fault_at :: "nat \<Rightarrow> fault"
  sha256 :: "string \<Rightarrow> string"
  sha384 :: "string \<Rightarrow> string"
  sha512 :: "string \<Rightarrow> string"
  json_bytes :: "json \<Rightarrow> string"

type_synonym bpath = "string list"

record world =
  docs :: "((bpath \<times> string) \<times> json) list"
  seqs :: "(bpath \<times> u64) list"
  key_files :: "(string \<times> json) list"
  text_files :: "(string \<times> string) list"
  log_lines :: "json list"
  log_seq :: u64
  log_head :: string
  tick :: nat

type_synonym 'a act = "(world, err, 'a) action"

definition empty_world :: world where
  "empty_world = \<lparr>docs = [], seqs = [], key_files = [], text_files = [], log_lines = [],
     log_seq = 0, log_head = [], tick = 0\<rparr>"

definition advance :: "world \<Rightarrow> world" where
  "advance w = w\<lparr>tick := Suc (tick w)\<rparr>"

definition io_error :: "string \<Rightarrow> err" where
  "io_error t = Err IOS t"

text \<open>An outside call with the body \<open>f\<close>.\<close>

definition effect :: "'x env_scheme \<Rightarrow> 'a act \<Rightarrow> 'a act" where
  "effect E f w = (let w' = advance w in
     case fault_at E (tick w) of
       NoFault \<Rightarrow> f w'
     | FailClean t \<Rightarrow> (Inl (io_error t), w')
     | FailCommitted t \<Rightarrow> (Inl (io_error t), snd (f w')))"

definition clock :: "'x env_scheme \<Rightarrow> int act" where
  "clock E w = (Inr (now_at E (tick w)), advance w)"

definition rand_read :: "'x env_scheme \<Rightarrow> nat \<Rightarrow> string act" where
  "rand_read E n w = effect E (ret (map (rnd_at E (tick w)) [0..<n])) w"

definition reading :: "(world \<Rightarrow> 'a) \<Rightarrow> 'a act" where
  "reading f w = (Inr (f w), w)"

lemma sentinel_io_error [simp]: "sentinel_of (io_error t) = IOS" "\<not> is_not_found (io_error t)"
  by (simp_all add: io_error_def is_not_found_def)

lemma advance_simps [simp]:
  "docs (advance w) = docs w" "seqs (advance w) = seqs w" "key_files (advance w) = key_files w"
  "text_files (advance w) = text_files w" "log_lines (advance w) = log_lines w"
  "log_seq (advance w) = log_seq w" "log_head (advance w) = log_head w"
  "tick (advance w) = Suc (tick w)"
  by (simp_all add: advance_def)

text \<open>What a call that succeeded did: no fault was injected.\<close>

lemma effect_InrD:
  "effect E f w = (Inr x, w') \<Longrightarrow> fault_at E (tick w) = NoFault \<and> f (advance w) = (Inr x, w')"
  by (auto simp: effect_def Let_def split: fault.splits)

lemma effect_ok: "fault_at E (tick w) = NoFault \<Longrightarrow> effect E f w = f (advance w)"
  by (simp add: effect_def)

lemma effect_cases:
  obtains (ok) "fault_at E (tick w) = NoFault" "effect E f w = f (advance w)"
  | (clean) t where "fault_at E (tick w) = FailClean t" "effect E f w = (Inl (io_error t), advance w)"
  | (committed) t where "fault_at E (tick w) = FailCommitted t"
      "effect E f w = (Inl (io_error t), snd (f (advance w)))"
  by (cases "fault_at E (tick w)") (auto simp: effect_def)

lemma effect_not_found:
  "effect E f w = (Inl e, w') \<Longrightarrow> is_not_found e \<Longrightarrow> f (advance w) = (Inl e, w')"
  by (cases rule: effect_cases [where E = E and w = w and f = f]) auto

context step_contract
begin

lemma steps_pure: "(\<And>s. R s (g s)) \<Longrightarrow> steps R (\<lambda>s. (f s, g s))"
  by (simp add: steps_def)

end

text \<open>A contract that time may pass under.\<close>

locale world_contract = step_contract R for R :: "world \<Rightarrow> world \<Rightarrow> bool" +
  assumes advance_ok: "R w (advance w)"
begin

lemma steps_effect:
  assumes "steps R f"
  shows "steps R (effect E f)"
proof (rule stepsI)
  fix w
  have "R (advance w) (snd (f (advance w)))"
    using assms by (simp add: steps_def)
  with advance_ok have "R w (snd (f (advance w)))"
    by (rule contract_trans)
  then show "R w (snd (effect E f w))"
    by (cases rule: effect_cases [where E = E and w = w and f = f]) (simp_all add: advance_ok)
qed

lemma steps_clock: "steps R (clock E)"
  by (simp add: steps_def clock_def advance_ok)

lemma steps_rand: "steps R (rand_read E n)"
proof (rule stepsI)
  fix w
  show "R w (snd (rand_read E n w))"
    using steps_effect [OF steps_ret, of E "map (rnd_at E (tick w)) [0..<n]"]
    by (simp add: rand_read_def steps_def)
qed

lemma steps_reading: "steps R (reading f)"
  by (simp add: steps_def reading_def contract_refl)

lemmas world_rules = steps_rules steps_effect steps_clock steps_rand steps_reading

end

lemma length_rand_read: "rand_read E n w = (Inr b, w') \<Longrightarrow> length b = n"
  by (auto simp: rand_read_def dest!: effect_InrD)

end
