(* ===== verification/Store.thy ===== *)
theory Store
  imports World
begin

text \<open>
  The document store (internal/store): the operations of the \<open>Store\<close> interface over documents
  addressed by bucket path and key, with the JSON helpers of store.go.  A failed call leaves the
  store as it was or has committed (see \<open>effect\<close>).  The interface's contract is the locale
  \<open>doc_store\<close>, which this model interprets.
\<close>

section \<open>Documents by path and key\<close>

definition lookup :: "world \<Rightarrow> bpath \<Rightarrow> string \<Rightarrow> json option" where
  "lookup w p k = map_of (docs w) (p, k)"

definition set_doc :: "world \<Rightarrow> bpath \<Rightarrow> string \<Rightarrow> json \<Rightarrow> world" where
  "set_doc w p k d = w\<lparr>docs := AList.update (p, k) d (docs w)\<rparr>"

definition del_doc :: "world \<Rightarrow> bpath \<Rightarrow> string \<Rightarrow> world" where
  "del_doc w p k = w\<lparr>docs := AList.delete (p, k) (docs w)\<rparr>"

text \<open>The documents of a bucket in key order.\<close>

definition keys_of :: "world \<Rightarrow> bpath \<Rightarrow> string list" where
  "keys_of w p = sort (remdups (map (snd \<circ> fst) (filter (\<lambda>d. fst (fst d) = p) (docs w))))"

definition bucket :: "world \<Rightarrow> bpath \<Rightarrow> (string \<times> json) list" where
  "bucket w p = map (\<lambda>k. (k, the (lookup w p k))) (keys_of w p)"

lemma lookup_advance [simp]: "lookup (advance w) = lookup w"
  by (intro ext) (simp add: lookup_def)

lemma lookup_set_doc: "lookup (set_doc w p k d) q l = (if q = p \<and> l = k then Some d else lookup w q l)"
  by (simp add: lookup_def set_doc_def update_conv')

lemma lookup_del_doc: "lookup (del_doc w p k) q l = (if q = p \<and> l = k then None else lookup w q l)"
  by (simp add: lookup_def del_doc_def delete_conv')

lemma set_doc_simps [simp]:
  "seqs (set_doc w p k d) = seqs w" "key_files (set_doc w p k d) = key_files w"
  "text_files (set_doc w p k d) = text_files w" "log_lines (set_doc w p k d) = log_lines w"
  "log_seq (set_doc w p k d) = log_seq w" "log_head (set_doc w p k d) = log_head w"
  "tick (set_doc w p k d) = tick w"
  by (simp_all add: set_doc_def)

lemma del_doc_simps [simp]:
  "seqs (del_doc w p k) = seqs w" "key_files (del_doc w p k) = key_files w"
  "text_files (del_doc w p k) = text_files w" "log_lines (del_doc w p k) = log_lines w"
  "log_seq (del_doc w p k) = log_seq w" "log_head (del_doc w p k) = log_head w"
  "tick (del_doc w p k) = tick w"
  by (simp_all add: del_doc_def)

lemma mem_keys_of: "k \<in> set (keys_of w p) \<longleftrightarrow> lookup w p k \<noteq> None"
  by (force simp: keys_of_def lookup_def map_of_eq_None_iff image_iff)

lemma sorted_keys_of [simp]: "sorted (keys_of w p)" "distinct (keys_of w p)"
  by (simp_all add: keys_of_def)

lemma bucket_keys: "map fst (bucket w p) = keys_of w p"
  by (simp add: bucket_def o_def)

lemma mem_bucket: "(k, d) \<in> set (bucket w p) \<longleftrightarrow> lookup w p k = Some d"
  using mem_keys_of [of k w p] by (auto simp: bucket_def image_iff)

text \<open>The listing of a bucket is determined by its lookups.\<close>

lemma keys_of_cong: "(\<And>k. lookup w p k = lookup v p k) \<Longrightarrow> keys_of w p = keys_of v p"
  by (rule sorted_distinct_set_unique) (simp_all add: mem_keys_of set_eq_iff)

lemma bucket_cong: "(\<And>k. lookup w p k = lookup v p k) \<Longrightarrow> bucket w p = bucket v p"
  using keys_of_cong [of w p v] by (simp add: bucket_def)

section \<open>The contract of the Store interface\<close>

text \<open>
  What store.go promises of a store for one document: a lookup after a write returns the written
  value, other documents are not touched.  From the laws of \<open>get\<close>, \<open>put\<close> and \<open>delete\<close> alone the
  compound operations of the interface have their promised behaviour.
\<close>

locale doc_store =
  fixes get_doc :: "'s \<Rightarrow> 'p \<Rightarrow> 'd option"
    and put_doc :: "'s \<Rightarrow> 'p \<Rightarrow> 'd \<Rightarrow> 's"
    and rem_doc :: "'s \<Rightarrow> 'p \<Rightarrow> 's"
  assumes get_put: "get_doc (put_doc s p d) q = (if q = p then Some d else get_doc s q)"
    and get_rem: "get_doc (rem_doc s p) q = (if q = p then None else get_doc s q)"
begin

lemma put_overwrites: "get_doc (put_doc (put_doc s p d) p d') = get_doc (put_doc s p d')"
  by (auto simp: get_put fun_eq_iff)

lemma put_commute: "p \<noteq> q \<Longrightarrow> get_doc (put_doc (put_doc s p d) q d') = get_doc (put_doc (put_doc s q d') p d)"
  by (auto simp: get_put fun_eq_iff)

lemma taken_is_gone: "get_doc (rem_doc s p) p = None"
  by (simp add: get_rem)

lemma taken_stays_gone: "get_doc s p = None \<Longrightarrow> q \<noteq> p \<Longrightarrow> get_doc (put_doc s q d) p = None"
  by (simp add: get_put)

text \<open>Of two creations of one document the first wins.\<close>

definition create_doc :: "'s \<Rightarrow> 'p \<Rightarrow> 'd \<Rightarrow> bool \<times> 's" where
  "create_doc s p d = (if get_doc s p = None then (True, put_doc s p d) else (False, s))"

lemma create_wins_once:
  "create_doc s p d = (b, t) \<Longrightarrow> create_doc t p d' = (c, u) \<Longrightarrow> \<not> c \<and> get_doc u p = get_doc t p"
  by (auto simp: create_doc_def get_put split: if_splits)

lemma create_stored: "create_doc s p d = (True, t) \<Longrightarrow> get_doc t p = Some d"
  by (auto simp: create_doc_def get_put split: if_splits)

end

interpretation ds: doc_store "\<lambda>w (p, k). lookup w p k" "\<lambda>w (p, k) d. set_doc w p k d" "\<lambda>w (p, k). del_doc w p k"
  by unfold_locales (simp_all add: lookup_set_doc lookup_del_doc split: prod.split)

section \<open>Operations\<close>

definition err_not_found :: err where
  "err_not_found = Err NotFoundS ''store: not found''"

definition err_empty_path :: err where
  "err_empty_path = errorf ''store: empty bucket path''"

definition put :: "'x env_scheme \<Rightarrow> bpath \<Rightarrow> string \<Rightarrow> json \<Rightarrow> unit act" where
  "put E p k d = effect E (\<lambda>w. if p = [] then (Inl err_empty_path, w) else (Inr (), set_doc w p k d))"

definition put_if_absent :: "'x env_scheme \<Rightarrow> bpath \<Rightarrow> string \<Rightarrow> json \<Rightarrow> bool act" where
  "put_if_absent E p k d = effect E (\<lambda>w. if p = [] then (Inl err_empty_path, w)
     else if lookup w p k \<noteq> None then (Inr False, w) else (Inr True, set_doc w p k d))"

definition get :: "'x env_scheme \<Rightarrow> bpath \<Rightarrow> string \<Rightarrow> json act" where
  "get E p k = effect E (\<lambda>w. if p = [] then (Inl err_empty_path, w)
     else case lookup w p k of None \<Rightarrow> (Inl err_not_found, w) | Some d \<Rightarrow> (Inr d, w))"

definition take_doc :: "'x env_scheme \<Rightarrow> bpath \<Rightarrow> string \<Rightarrow> json act" where
  "take_doc E p k = effect E (\<lambda>w. if p = [] then (Inl err_empty_path, w)
     else case lookup w p k of None \<Rightarrow> (Inl err_not_found, w) | Some d \<Rightarrow> (Inr d, del_doc w p k))"

definition delete :: "'x env_scheme \<Rightarrow> bpath \<Rightarrow> string \<Rightarrow> unit act" where
  "delete E p k = effect E (\<lambda>w. if p = [] then (Inl err_empty_path, w) else (Inr (), del_doc w p k))"

text \<open>The callback of an iteration reads and returns an accumulator; its error ends the iteration.\<close>

definition for_each :: "'x env_scheme \<Rightarrow> bpath \<Rightarrow> ('a \<Rightarrow> string \<times> json \<Rightarrow> err + 'a) \<Rightarrow> 'a \<Rightarrow> 'a act" where
  "for_each E p f a = effect E (\<lambda>w. if p = [] then (Inl err_empty_path, w)
     else (sfold f a (bucket w p), w))"

text \<open>
  An atomic read-modify-write: the callback runs inside it, and its error stores nothing.  What the
  callback leaves in variables of its caller is the second component of its result.
\<close>

definition update_out ::
  "'x env_scheme \<Rightarrow> bpath \<Rightarrow> string \<Rightarrow> bool \<Rightarrow> (json option \<Rightarrow> (json \<times> 'o) act) \<Rightarrow> 'o act" where
  "update_out E p k create fn = effect E (\<lambda>w. if p = [] then (Inl err_empty_path, w)
     else if lookup w p k = None \<and> \<not> create then (Inl err_not_found, w)
     else case fn (lookup w p k) w of
            (Inl e, w') \<Rightarrow> (Inl e, w')
          | (Inr (d, out), w') \<Rightarrow> (Inr out, set_doc w' p k d))"

definition update :: "'x env_scheme \<Rightarrow> bpath \<Rightarrow> string \<Rightarrow> bool \<Rightarrow> (json option \<Rightarrow> json act) \<Rightarrow> unit act" where
  "update E p k create fn = update_out E p k create (\<lambda>data. ebind (fn data) (\<lambda>d. ret (d, ())))"

definition seq_of :: "world \<Rightarrow> bpath \<Rightarrow> u64" where
  "seq_of w p = (case map_of (seqs w) p of None \<Rightarrow> 0 | Some n \<Rightarrow> n)"

definition next_seq :: "'x env_scheme \<Rightarrow> bpath \<Rightarrow> u64 act" where
  "next_seq E p = effect E (\<lambda>w. if p = [] then (Inl err_empty_path, w)
     else let n = seq_of w p + 1 in (Inr n, w\<lparr>seqs := AList.update p n (seqs w)\<rparr>))"

section \<open>JSON helpers\<close>

definition err_json :: err where
  "err_json = errorf ''json: cannot unmarshal''"

definition decode :: "(json \<Rightarrow> 'v option) \<Rightarrow> json \<Rightarrow> err + 'v" where
  "decode dc j = (case dc j of None \<Rightarrow> Inl err_json | Some v \<Rightarrow> Inr v)"

definition put_json :: "'x env_scheme \<Rightarrow> ('v \<Rightarrow> json) \<Rightarrow> bpath \<Rightarrow> string \<Rightarrow> 'v \<Rightarrow> unit act" where
  "put_json E enc p k v = put E p k (enc v)"

definition get_json :: "'x env_scheme \<Rightarrow> (json \<Rightarrow> 'v option) \<Rightarrow> bpath \<Rightarrow> string \<Rightarrow> 'v act" where
  "get_json E dc p k = ebind (get E p k) (\<lambda>d. lift_sum (decode dc d))"

definition take_json :: "'x env_scheme \<Rightarrow> (json \<Rightarrow> 'v option) \<Rightarrow> bpath \<Rightarrow> string \<Rightarrow> 'v act" where
  "take_json E dc p k = ebind (take_doc E p k) (\<lambda>d. lift_sum (decode dc d))"

definition corrupt :: "bpath \<Rightarrow> string \<Rightarrow> err \<Rightarrow> err" where
  "corrupt p k e = wrapf (''store: corrupt document ['' @ join_with '' '' p @ '']/'' @ k @ '': '') e"

definition for_each_json :: "'x env_scheme \<Rightarrow> (json \<Rightarrow> 'v option) \<Rightarrow> bpath \<Rightarrow>
    ('a \<Rightarrow> string \<Rightarrow> 'v \<Rightarrow> err + 'a) \<Rightarrow> 'a \<Rightarrow> 'a act" where
  "for_each_json E dc p f a = for_each E p (\<lambda>b (k, d).
     case decode dc d of Inl e \<Rightarrow> Inl (corrupt p k e) | Inr v \<Rightarrow> f b k v) a"

definition update_json_out :: "'x env_scheme \<Rightarrow> (json \<Rightarrow> 'v option) \<Rightarrow> ('v \<Rightarrow> json) \<Rightarrow> 'v \<Rightarrow> bpath \<Rightarrow> string \<Rightarrow>
    bool \<Rightarrow> ('v \<Rightarrow> ('v \<times> 'o) act) \<Rightarrow> 'o act" where
  "update_json_out E dc enc zero p k create fn = update_out E p k create (\<lambda>data.
     ebind (lift_sum (case data of None \<Rightarrow> Inr zero | Some d \<Rightarrow> decode dc d))
       (\<lambda>v. ebind (fn v) (\<lambda>(v', out). ret (enc v', out))))"

definition update_json :: "'x env_scheme \<Rightarrow> (json \<Rightarrow> 'v option) \<Rightarrow> ('v \<Rightarrow> json) \<Rightarrow> 'v \<Rightarrow> bpath \<Rightarrow> string \<Rightarrow>
    bool \<Rightarrow> ('v \<Rightarrow> 'v act) \<Rightarrow> unit act" where
  "update_json E dc enc zero p k create fn =
     update_json_out E dc enc zero p k create (\<lambda>v. ebind (fn v) (\<lambda>v'. ret (v', ())))"

section \<open>What the operations did\<close>

lemma put_Inr [act_elims]:
  "put E p k d w = (Inr u, w') \<longleftrightarrow>
     p \<noteq> [] \<and> fault_at E (tick w) = NoFault \<and> w' = set_doc (advance w) p k d"
  by (auto simp: put_def effect_def Let_def split: fault.splits)

lemma put_ok: "p \<noteq> [] \<Longrightarrow> fault_at E (tick w) = NoFault \<Longrightarrow> put E p k d w = (Inr (), set_doc (advance w) p k d)"
  by (simp add: put_Inr)

lemma get_Inr [act_elims]:
  "get E p k w = (Inr d, w') \<longleftrightarrow>
     p \<noteq> [] \<and> fault_at E (tick w) = NoFault \<and> lookup w p k = Some d \<and> w' = advance w"
  by (auto simp: get_def effect_def Let_def split: fault.splits option.splits)

lemma get_world: "snd (get E p k w) = advance w"
  by (auto simp: get_def effect_def Let_def split: fault.splits option.splits)

lemma get_not_found:
  "get E p k w = (Inl e, w') \<and> is_not_found e \<longleftrightarrow>
     p \<noteq> [] \<and> fault_at E (tick w) = NoFault \<and> lookup w p k = None \<and> w' = advance w \<and> e = err_not_found"
  by (auto simp: get_def effect_def Let_def err_empty_path_def err_not_found_def is_not_found_def
      errorf_def io_error_def split: fault.splits option.splits)

lemma take_Inr [act_elims]:
  "take_doc E p k w = (Inr d, w') \<longleftrightarrow>
     p \<noteq> [] \<and> fault_at E (tick w) = NoFault \<and> lookup w p k = Some d \<and> w' = del_doc (advance w) p k"
  by (auto simp: take_doc_def effect_def Let_def split: fault.splits option.splits)

lemma delete_Inr [act_elims]:
  "delete E p k w = (Inr u, w') \<longleftrightarrow>
     p \<noteq> [] \<and> fault_at E (tick w) = NoFault \<and> w' = del_doc (advance w) p k"
  by (auto simp: delete_def effect_def Let_def split: fault.splits)

lemma put_if_absent_Inr [act_elims]:
  "put_if_absent E p k d w = (Inr b, w') \<longleftrightarrow>
     p \<noteq> [] \<and> fault_at E (tick w) = NoFault \<and>
     (if lookup w p k = None then b \<and> w' = set_doc (advance w) p k d else \<not> b \<and> w' = advance w)"
  by (auto simp: put_if_absent_def effect_def Let_def split: fault.splits)

lemma for_each_Inr [act_elims]:
  "for_each E p f a w = (Inr b, w') \<longleftrightarrow>
     p \<noteq> [] \<and> fault_at E (tick w) = NoFault \<and> sfold f a (bucket w p) = Inr b \<and> w' = advance w"
  by (auto simp: for_each_def effect_def Let_def split: fault.splits intro: bucket_cong)
    (metis bucket_cong lookup_advance)+

lemma for_each_world: "snd (for_each E p f a w) = advance w"
  by (auto simp: for_each_def effect_def Let_def split: fault.splits)

lemma update_out_Inr [act_elims]:
  "update_out E p k c fn w = (Inr u, w') \<longleftrightarrow>
     p \<noteq> [] \<and> fault_at E (tick w) = NoFault \<and> (lookup w p k \<noteq> None \<or> c) \<and>
     (\<exists>d w1. fn (lookup w p k) (advance w) = (Inr (d, u), w1) \<and> w' = set_doc w1 p k d)"
  by (auto simp: update_out_def effect_def Let_def split: fault.splits prod.splits sum.splits)

lemma update_Inr [act_elims]:
  "update E p k c fn w = (Inr u, w') \<longleftrightarrow>
     p \<noteq> [] \<and> fault_at E (tick w) = NoFault \<and> (lookup w p k \<noteq> None \<or> c) \<and>
     (\<exists>d w1. fn (lookup w p k) (advance w) = (Inr d, w1) \<and> w' = set_doc w1 p k d)"
  by (auto simp: update_def act_elims)

lemma next_seq_Inr [act_elims]:
  "next_seq E p w = (Inr n, w') \<longleftrightarrow>
     p \<noteq> [] \<and> fault_at E (tick w) = NoFault \<and> n = seq_of w p + 1 \<and>
     w' = (advance w)\<lparr>seqs := AList.update p n (seqs w)\<rparr>"
  by (auto simp: next_seq_def effect_def Let_def seq_of_def split: fault.splits)

lemma decode_Inr [act_elims]: "decode dc j = Inr v \<longleftrightarrow> dc j = Some v"
  by (auto simp: decode_def split: option.splits)

lemma put_json_Inr [act_elims]:
  "put_json E enc p k v w = (Inr u, w') \<longleftrightarrow>
     p \<noteq> [] \<and> fault_at E (tick w) = NoFault \<and> w' = set_doc (advance w) p k (enc v)"
  by (simp add: put_json_def put_Inr)

lemma get_json_Inr [act_elims]:
  "get_json E dc p k w = (Inr v, w') \<longleftrightarrow>
     p \<noteq> [] \<and> fault_at E (tick w) = NoFault \<and> w' = advance w \<and>
     (\<exists>d. lookup w p k = Some d \<and> dc d = Some v)"
  by (auto simp: get_json_def act_elims)

lemma get_json_world: "snd (get_json E dc p k w) = advance w"
  using get_world [of E p k w] by (auto simp: get_json_def ebind_apply split: prod.splits sum.splits)

lemma get_json_not_found:
  "get_json E dc p k w = (Inl e, w') \<and> is_not_found e \<longleftrightarrow>
     p \<noteq> [] \<and> fault_at E (tick w) = NoFault \<and> lookup w p k = None \<and> w' = advance w \<and> e = err_not_found"
proof -
  have "\<And>d. decode dc d = Inl e \<Longrightarrow> \<not> is_not_found e"
    by (auto simp: decode_def err_json_def split: option.splits)
  then show ?thesis
    using get_not_found [of E p k w e w'] by (auto simp: get_json_def ebind_Inl_iff)
qed

lemma take_json_Inr [act_elims]:
  "take_json E dc p k w = (Inr v, w') \<longleftrightarrow>
     p \<noteq> [] \<and> fault_at E (tick w) = NoFault \<and> w' = del_doc (advance w) p k \<and>
     (\<exists>d. lookup w p k = Some d \<and> dc d = Some v)"
  by (auto simp: take_json_def act_elims)

lemma update_json_out_Inr [act_elims]:
  "update_json_out E dc enc z p k c fn w = (Inr u, w') \<longleftrightarrow>
     p \<noteq> [] \<and> fault_at E (tick w) = NoFault \<and> (lookup w p k \<noteq> None \<or> c) \<and>
     (\<exists>v v' w1. (case lookup w p k of None \<Rightarrow> Some z | Some d \<Rightarrow> dc d) = Some v \<and>
        fn v (advance w) = (Inr (v', u), w1) \<and> w' = set_doc w1 p k (enc v'))"
  by (cases "lookup w p k") (auto simp: update_json_out_def act_elims split: prod.splits)

lemma update_json_Inr [act_elims]:
  "update_json E dc enc z p k c fn w = (Inr u, w') \<longleftrightarrow>
     p \<noteq> [] \<and> fault_at E (tick w) = NoFault \<and> (lookup w p k \<noteq> None \<or> c) \<and>
     (\<exists>v v' w1. (case lookup w p k of None \<Rightarrow> Some z | Some d \<Rightarrow> dc d) = Some v \<and>
        fn v (advance w) = (Inr v', w1) \<and> w' = set_doc w1 p k (enc v'))"
  by (auto simp: update_json_def act_elims)

text \<open>What an update can have done, whatever it returned.\<close>

lemma update_json_cases:
  assumes "update_json E dc enc z p k c fn w = (res, w')"
  obtains (untouched) e where "res = Inl e" "w' = advance w"
  | (refused) v e e' where "(case lookup w p k of None \<Rightarrow> Some z | Some d \<Rightarrow> dc d) = Some v" "fn v (advance w) = (Inl e', w')" "res = Inl e"
  | (written) v v' w1 where "(case lookup w p k of None \<Rightarrow> Some z | Some d \<Rightarrow> dc d) = Some v" "lookup w p k \<noteq> None \<or> c"
      "fn v (advance w) = (Inr v', w1)" "w' = set_doc w1 p k (enc v')"
proof -
  define f where "f = (\<lambda>w. if p = [] then (Inl err_empty_path, w)
     else if lookup w p k = None \<and> \<not> c then (Inl err_not_found, w)
     else case ebind (lift_sum (case lookup w p k of None \<Rightarrow> Inr z | Some d \<Rightarrow> decode dc d))
       (\<lambda>v. ebind (ebind (fn v) (\<lambda>v'. ret (v', ()))) (\<lambda>(v', out). ret (enc v', out))) w of (Inl e, w') \<Rightarrow> (Inl e, w')
          | (Inr (d, out), w') \<Rightarrow> (Inr out, set_doc w' p k d))"
  have e: "update_json E dc enc z p k c fn = effect E f"
    by (simp only: update_json_def update_json_out_def update_out_def f_def)
  have f: "snd (f (advance w)) = advance w \<and> (\<exists>e. fst (f (advance w)) = Inl e) \<or>
      (\<exists>v e' . (case lookup w p k of None \<Rightarrow> Some z | Some d \<Rightarrow> dc d) = Some v \<and> fn v (advance w) = (Inl e', snd (f (advance w))) \<and>
         (\<exists>e. fst (f (advance w)) = Inl e)) \<or>
      (\<exists>v v' w1. (case lookup w p k of None \<Rightarrow> Some z | Some d \<Rightarrow> dc d) = Some v \<and> (lookup w p k \<noteq> None \<or> c) \<and>
         fn v (advance w) = (Inr v', w1) \<and> snd (f (advance w)) = set_doc w1 p k (enc v'))"
    by (cases "lookup w p k")
      (auto simp: f_def ebind_apply decode_def split: prod.splits sum.splits option.splits)
  have "(\<exists>e. res = Inl e) \<and> w' = advance w \<or> w' = snd (f (advance w)) \<and> ((\<exists>e. res = Inl e) \<or> res = fst (f (advance w)))"
    using assms unfolding e by (cases rule: effect_cases [where E = E and w = w and f = f]) auto
  with f show thesis using untouched refused written by metis
qed

text \<open>Iterating with decoding is decoding all documents and folding over them.\<close>

definition decode_all :: "(json \<Rightarrow> 'v option) \<Rightarrow> (string \<times> json) list \<Rightarrow> (string \<times> 'v) list option" where
  "decode_all dc kds = all_some (map (\<lambda>(k, d). map_option (Pair k) (dc d)) kds)"

lemma decode_all_simps [simp]:
  "decode_all dc [] = Some []"
  "decode_all dc ((k, d) # kds) = (case dc d of None \<Rightarrow> None | Some v \<Rightarrow> map_option (Cons (k, v)) (decode_all dc kds))"
  by (simp_all add: decode_all_def split: option.split)

lemma sfold_decode:
  "decode_all dc kds = Some kvs \<Longrightarrow>
   sfold (\<lambda>b (k, d). case decode dc d of Inl e \<Rightarrow> Inl (corrupt p k e) | Inr v \<Rightarrow> f b k v) a kds =
   sfold (\<lambda>b (k, v). f b k v) a kvs"
  by (induction kds arbitrary: kvs a) (auto simp: decode_def split: option.splits sum.splits)

lemma sfold_decode_Inr:
  "sfold (\<lambda>b (k, d). case decode dc d of Inl e \<Rightarrow> Inl (corrupt p k e) | Inr v \<Rightarrow> f b k v) a kds = Inr r \<longleftrightarrow>
   (\<exists>kvs. decode_all dc kds = Some kvs \<and> sfold (\<lambda>b (k, v). f b k v) a kvs = Inr r)"
  by (induction kds arbitrary: a) (auto simp: decode_def split: option.splits sum.splits)

lemma for_each_json_Inr [act_elims]:
  "for_each_json E dc p f a w = (Inr b, w') \<longleftrightarrow>
     p \<noteq> [] \<and> fault_at E (tick w) = NoFault \<and> w' = advance w \<and>
     (\<exists>kvs. decode_all dc (bucket w p) = Some kvs \<and> sfold (\<lambda>b (k, v). f b k v) a kvs = Inr b)"
  by (auto simp: for_each_json_def for_each_Inr sfold_decode_Inr)

lemma decode_all_keys: "decode_all dc kds = Some kvs \<Longrightarrow> map fst kvs = map fst kds"
  by (induction kds arbitrary: kvs) (auto split: option.splits)

lemma decode_all_mem:
  "decode_all dc kds = Some kvs \<Longrightarrow> (k, v) \<in> set kvs \<longleftrightarrow> (\<exists>d. (k, d) \<in> set kds \<and> dc d = Some v)"
  by (induction kds arbitrary: kvs) (fastforce split: option.splits)+

section \<open>Contracts of the operations\<close>

context world_contract
begin

lemma steps_put: "(\<And>w. R w (set_doc w p k d)) \<Longrightarrow> steps R (put E p k d)"
  unfolding put_def by (rule steps_effect) (simp add: steps_def contract_refl)

lemma steps_put_json: "(\<And>w. R w (set_doc w p k (enc v))) \<Longrightarrow> steps R (put_json E enc p k v)"
  unfolding put_json_def by (rule steps_put)

lemma steps_put_if_absent: "(\<And>w. R w (set_doc w p k d)) \<Longrightarrow> steps R (put_if_absent E p k d)"
  unfolding put_if_absent_def by (rule steps_effect) (simp add: steps_def contract_refl)

lemma steps_get: "steps R (get E p k)"
  by (simp add: steps_def get_world advance_ok)

lemma steps_get_json: "steps R (get_json E dc p k)"
  by (simp add: steps_def get_json_world advance_ok)

lemma steps_take: "(\<And>w. R w (del_doc w p k)) \<Longrightarrow> steps R (take_doc E p k)"
  unfolding take_doc_def by (rule steps_effect) (simp add: steps_def contract_refl split: option.split)

lemma steps_take_json: "(\<And>w. R w (del_doc w p k)) \<Longrightarrow> steps R (take_json E dc p k)"
  unfolding take_json_def by (intro steps_ebind steps_take steps_lift)

lemma steps_delete: "(\<And>w. R w (del_doc w p k)) \<Longrightarrow> steps R (delete E p k)"
  unfolding delete_def by (rule steps_effect) (simp add: steps_def contract_refl)

lemma steps_for_each: "steps R (for_each E p f a)"
  by (simp add: steps_def for_each_world advance_ok)

lemma steps_for_each_json: "steps R (for_each_json E dc p f a)"
  by (simp add: for_each_json_def steps_for_each)

lemma steps_update_out:
  assumes "\<And>w d. R w (set_doc w p k d)" and "\<And>v. steps R (fn v)"
  shows "steps R (update_out E p k c fn)"
proof -
  have "R w (snd (case fn (lookup w p k) w of (Inl e, w') \<Rightarrow> (Inl e, w')
      | (Inr (d, out), w') \<Rightarrow> (Inr out, set_doc w' p k d)))" for w :: world
  proof -
    obtain r v where fn: "fn (lookup w p k) w = (r, v)" by (cases "fn (lookup w p k) w")
    have wv: "R w v" using assms(2) fn by (rule stepsD)
    with assms(1) have "R w (set_doc v p k d)" for d by (rule contract_trans [rotated])
    with wv show ?thesis by (simp add: fn split: sum.split prod.split)
  qed
  then have "steps R (\<lambda>w. if p = [] then (Inl err_empty_path, w)
     else if lookup w p k = None \<and> \<not> c then (Inl err_not_found, w)
     else case fn (lookup w p k) w of (Inl e, w') \<Rightarrow> (Inl e, w')
          | (Inr (d, out), w') \<Rightarrow> (Inr out, set_doc w' p k d))"
    by (simp add: steps_def contract_refl)
  then show ?thesis
    unfolding update_out_def by (rule steps_effect)
qed

lemma steps_update:
  assumes "\<And>w d. R w (set_doc w p k d)" and "\<And>v. steps R (fn v)"
  shows "steps R (update E p k c fn)"
  unfolding update_def by (intro steps_update_out steps_ebind steps_ret assms)

lemma steps_update_json_out:
  assumes "\<And>w d. R w (set_doc w p k d)" and "\<And>v. steps R (fn v)"
  shows "steps R (update_json_out E dc enc z p k c fn)"
  unfolding update_json_out_def by (intro steps_update_out steps_ebind steps_lift steps_prod steps_ret assms)

lemma steps_update_json:
  assumes "\<And>w d. R w (set_doc w p k d)" and "\<And>v. steps R (fn v)"
  shows "steps R (update_json E dc enc z p k c fn)"
  unfolding update_json_def by (intro steps_update_json_out steps_ebind steps_ret assms)

lemmas store_rules = world_rules steps_put steps_put_json steps_put_if_absent steps_get steps_get_json
  steps_take steps_take_json steps_delete steps_for_each steps_for_each_json steps_update steps_update_json
  steps_update_out steps_update_json_out

end

text \<open>Documents outside the given buckets are as before.\<close>

definition only_buckets :: "bpath set \<Rightarrow> world \<Rightarrow> world \<Rightarrow> bool" where
  "only_buckets B w w' \<longleftrightarrow> (\<forall>p k. p \<notin> B \<longrightarrow> lookup w' p k = lookup w p k)"

interpretation only: world_contract "only_buckets B" for B
  by unfold_locales (auto simp: only_buckets_def)

lemma only_set_doc [simp]: "p \<in> B \<Longrightarrow> only_buckets B w (set_doc w p k d)"
  by (auto simp: only_buckets_def lookup_set_doc)

lemma only_del_doc [simp]: "p \<in> B \<Longrightarrow> only_buckets B w (del_doc w p k)"
  by (auto simp: only_buckets_def lookup_del_doc)

lemma only_buckets_mono: "only_buckets B w w' \<Longrightarrow> B \<subseteq> C \<Longrightarrow> only_buckets C w w'"
  by (auto simp: only_buckets_def)

lemma only_bucketsD: "only_buckets B w w' \<Longrightarrow> p \<notin> B \<Longrightarrow> lookup w' p k = lookup w p k"
  by (simp add: only_buckets_def)

text \<open>A part of the state that no document write and no passing of time changes is kept.\<close>

lemma same_advance_contract:
  "(\<And>w. f (advance w) = f w) \<Longrightarrow> world_contract (same f)"
  by unfold_locales (auto simp: same_def)

end
