(* ===== verification/Pkix_Algs.thy ===== *)
theory Pkix_Algs
  imports Store
begin

text \<open>
  The algorithm registry and the signature rules of internal/pkix/algs.go: which algorithms may
  sign, which are only verified, the RSA floor, and the choice between digest and message signing.
  The cryptographic primitives are fields of the environment.
\<close>

section \<open>Algorithms\<close>

type_synonym algorithm = string

definition ECDSAP256 :: algorithm where "ECDSAP256 = ''ecdsa-p256''"
definition ECDSAP384 :: algorithm where "ECDSAP384 = ''ecdsa-p384''"
definition Ed25519 :: algorithm where "Ed25519 = ''ed25519''"
definition MLDSA44 :: algorithm where "MLDSA44 = ''ml-dsa-44''"
definition MLDSA65 :: algorithm where "MLDSA65 = ''ml-dsa-65''"
definition MLDSA87 :: algorithm where "MLDSA87 = ''ml-dsa-87''"
definition RSA2048 :: algorithm where "RSA2048 = ''rsa-2048''"
definition RSA3072 :: algorithm where "RSA3072 = ''rsa-3072''"
definition RSA4096 :: algorithm where "RSA4096 = ''rsa-4096''"
definition RSASHA256 :: algorithm where "RSASHA256 = ''rsa-sha256''"
definition RSASHA384 :: algorithm where "RSASHA384 = ''rsa-sha384''"
definition RSASHA512 :: algorithm where "RSASHA512 = ''rsa-sha512''"
definition CompositeMLDSA65ECDSAP256 :: algorithm where
  "CompositeMLDSA65ECDSAP256 = ''composite-draft-19-mldsa65-ecdsa-p256-sha256''"
definition CompositeMLDSA44Ed25519 :: algorithm where
  "CompositeMLDSA44Ed25519 = ''composite-draft-19-mldsa44-ed25519-sha512''"

lemmas alg_defs = ECDSAP256_def ECDSAP384_def Ed25519_def MLDSA44_def MLDSA65_def MLDSA87_def
  RSA2048_def RSA3072_def RSA4096_def RSASHA256_def RSASHA384_def RSASHA512_def
  CompositeMLDSA65ECDSAP256_def CompositeMLDSA44Ed25519_def

text \<open>\<open>crypto.Hash\<close>; the zero value stands for signing the message itself.\<close>

datatype hash = NoHash | SHA256 | SHA384 | SHA512

type_synonym oid = "nat list"

record info =
  i_alg :: algorithm
  i_oid :: oid
  i_hash :: hash
  i_pq :: bool
  i_hybrid :: bool
  i_experimental :: bool
  i_key_only :: bool
  i_verify_only :: bool

text \<open>An entry with the flags it sets; the rest have their zero values.\<close>

definition plain_info :: "algorithm \<Rightarrow> oid \<Rightarrow> hash \<Rightarrow> info" where
  "plain_info a oid h = \<lparr>i_alg = a, i_oid = oid, i_hash = h, i_pq = False, i_hybrid = False,
     i_experimental = False, i_key_only = False, i_verify_only = False\<rparr>"

definition registry :: "(algorithm \<times> info) list" where
  "registry =
    [(ECDSAP256, plain_info ECDSAP256 [1, 2, 840, 10045, 4, 3, 2] SHA256),
     (ECDSAP384, plain_info ECDSAP384 [1, 2, 840, 10045, 4, 3, 3] SHA384),
     (Ed25519, plain_info Ed25519 [1, 3, 101, 112] NoHash),
     (MLDSA44, (plain_info MLDSA44 [2, 16, 840, 1, 101, 3, 4, 3, 17] NoHash)\<lparr>i_pq := True\<rparr>),
     (MLDSA65, (plain_info MLDSA65 [2, 16, 840, 1, 101, 3, 4, 3, 18] NoHash)\<lparr>i_pq := True\<rparr>),
     (MLDSA87, (plain_info MLDSA87 [2, 16, 840, 1, 101, 3, 4, 3, 19] NoHash)\<lparr>i_pq := True\<rparr>),
     (CompositeMLDSA65ECDSAP256, (plain_info CompositeMLDSA65ECDSAP256 [1, 3, 6, 1, 5, 5, 7, 6, 45] NoHash)
        \<lparr>i_pq := True, i_hybrid := True, i_experimental := True\<rparr>),
     (CompositeMLDSA44Ed25519, (plain_info CompositeMLDSA44Ed25519 [1, 3, 6, 1, 5, 5, 7, 6, 39] NoHash)
        \<lparr>i_pq := True, i_hybrid := True, i_experimental := True\<rparr>)]"

definition aux_registry :: "(algorithm \<times> info) list" where
  "aux_registry =
    [(RSA2048, (plain_info RSA2048 [] NoHash)\<lparr>i_key_only := True\<rparr>),
     (RSA3072, (plain_info RSA3072 [] NoHash)\<lparr>i_key_only := True\<rparr>),
     (RSA4096, (plain_info RSA4096 [] NoHash)\<lparr>i_key_only := True\<rparr>),
     (RSASHA256, (plain_info RSASHA256 [1, 2, 840, 113549, 1, 1, 11] SHA256)\<lparr>i_verify_only := True\<rparr>),
     (RSASHA384, (plain_info RSASHA384 [1, 2, 840, 113549, 1, 1, 12] SHA384)\<lparr>i_verify_only := True\<rparr>),
     (RSASHA512, (plain_info RSASHA512 [1, 2, 840, 113549, 1, 1, 13] SHA512)\<lparr>i_verify_only := True\<rparr>)]"

definition lookup_alg :: "algorithm \<Rightarrow> err + info" where
  "lookup_alg alg = (case map_of registry alg of Some i \<Rightarrow> Inr i
     | None \<Rightarrow> (case map_of aux_registry alg of Some i \<Rightarrow> Inr i
     | None \<Rightarrow> Inl (errorf (''pkix: unknown algorithm '' @ quoted alg))))"

definition algorithms :: "algorithm list" where
  "algorithms = map fst registry"

definition key_algorithms :: "algorithm list" where
  "key_algorithms = algorithms @ map fst (filter (\<lambda>(a, i). i_key_only i) aux_registry)"

definition by_oid :: "oid \<Rightarrow> err + info" where
  "by_oid oid = (case find (\<lambda>i. i_oid i = oid) (map snd registry) of Some i \<Rightarrow> Inr i
     | None \<Rightarrow> (case find (\<lambda>i. 0 < length (i_oid i) \<and> i_oid i = oid) (map snd aux_registry) of Some i \<Rightarrow> Inr i
     | None \<Rightarrow> Inl (errorf (''pkix: unknown signature algorithm OID '' @ join_with ''.'' (map dec oid)))))"

text \<open>An algorithm a CA key may have: registered and neither key-only nor verify-only.\<close>

definition sign_capable :: "algorithm \<Rightarrow> bool" where
  "sign_capable alg \<longleftrightarrow> (case lookup_alg alg of Inl _ \<Rightarrow> False | Inr i \<Rightarrow> \<not> i_key_only i \<and> \<not> i_verify_only i)"

lemmas registry_defs = registry_def aux_registry_def plain_info_def

lemma registry_distinct: "distinct (map fst (registry @ aux_registry))"
  by (simp add: registry_defs alg_defs)

lemma lookup_alg_map_of: "lookup_alg alg = Inr i \<longleftrightarrow> map_of (registry @ aux_registry) alg = Some i"
  by (auto simp: lookup_alg_def map_add_def split: option.splits)

lemma lookup_alg_cases: "lookup_alg alg = Inr i \<longleftrightarrow> (alg, i) \<in> set (registry @ aux_registry)"
  unfolding lookup_alg_map_of by (rule map_of_eq_Some_iff [OF registry_distinct])

lemma lookup_alg_name: "lookup_alg alg = Inr i \<Longrightarrow> i_alg i = alg"
  by (auto simp: lookup_alg_cases registry_defs)

section \<open>Keys\<close>

datatype curve = P256 | P384 | OtherCurve string

text \<open>
  Public keys by their Go type; an elliptic-curve, Ed25519 or ML-DSA key carries its encoding, an
  ML-DSA key also the name of its parameter set.
\<close>

datatype public_key =
    EcdsaKey curve string
  | Ed25519Key string
  | RsaKey nat nat
  | MldsaKey string string
  | CompositePub algorithm string string public_key
  | OtherKey string

fun bit_len :: "nat \<Rightarrow> nat" where
  "bit_len n = (if n = 0 then 0 else Suc (bit_len (n div 2)))"

declare bit_len.simps [simp del]

definition mldsa_name :: "algorithm \<Rightarrow> string option" where
  "mldsa_name alg = (if alg = MLDSA44 then Some ''ML-DSA-44'' else if alg = MLDSA65 then Some ''ML-DSA-65''
     else if alg = MLDSA87 then Some ''ML-DSA-87'' else None)"

fun algorithm_for_key :: "public_key \<Rightarrow> err + algorithm" where
  "algorithm_for_key (EcdsaKey c k) = (case c of P256 \<Rightarrow> Inr ECDSAP256 | P384 \<Rightarrow> Inr ECDSAP384
     | OtherCurve n \<Rightarrow> Inl (errorf (''pkix: unsupported ECDSA curve '' @ n)))"
| "algorithm_for_key (Ed25519Key k) = Inr Ed25519"
| "algorithm_for_key (RsaKey n e) =
     (if bit_len n \<ge> 4096 then Inr RSA4096
      else if bit_len n \<ge> 3072 then Inr RSA3072
      else if bit_len n \<ge> 2048 then Inr RSA2048
      else Inl (errorf (''pkix: RSA keys below 2048 bits are not accepted (got '' @ dec (bit_len n) @ '')'')))"
| "algorithm_for_key (MldsaKey p k) =
     (if p = ''ML-DSA-44'' then Inr MLDSA44 else if p = ''ML-DSA-65'' then Inr MLDSA65
      else if p = ''ML-DSA-87'' then Inr MLDSA87
      else Inl (errorf ''pkix: unknown ML-DSA parameter set''))"
| "algorithm_for_key (CompositePub a p k t) = Inr a"
| "algorithm_for_key (OtherKey t) = Inl (errorf (''pkix: unsupported public key type '' @ t))"

lemma bit_len_ge: "Suc k \<le> bit_len n \<longleftrightarrow> 2 ^ k \<le> n"
proof (induction k arbitrary: n)
  case 0
  show ?case by (subst bit_len.simps) auto
next
  case (Suc k)
  show ?case
  proof (cases "n = 0")
    case True
    then show ?thesis by (subst bit_len.simps) simp
  next
    case False
    have "Suc (Suc k) \<le> bit_len n \<longleftrightarrow> Suc k \<le> bit_len (n div 2)"
      using False by (subst bit_len.simps) simp
    also have "\<dots> \<longleftrightarrow> 2 ^ k \<le> n div 2" by (rule Suc.IH)
    also have "\<dots> \<longleftrightarrow> 2 ^ Suc k \<le> n" by (simp add: less_eq_div_iff_mult_less_eq mult.commute)
    finally show ?thesis .
  qed
qed

lemma rsa_floor:
  "algorithm_for_key (RsaKey n e) = Inr a \<Longrightarrow> 2 ^ 2047 \<le> n"
proof -
  assume "algorithm_for_key (RsaKey n e) = Inr a"
  then have "2048 \<le> bit_len n" by (auto split: if_splits)
  then show ?thesis using bit_len_ge [of 2047 n] by simp
qed

end
