(* ===== verification/Externals.thy ===== *)
theory Externals
  imports Pkix_Algs
begin

text \<open>
  Keys, X.509 views and the libraries the program calls: the signature primitives, the DER codecs
  of \<open>encoding/asn1\<close> and \<open>crypto/x509\<close>, PEM, the ML-DSA package, key derivation and encryption.
  They are fields of the environment.
\<close>

section \<open>Keys and X.509 views\<close>

text \<open>
  Private keys: a classical key is a handle with its public key; an ML-DSA key is its parameter
  set, seed and public key; a composite key has an ML-DSA and a classical component.
\<close>

datatype private_key =
    ClassicKey string public_key
  | MldsaPriv string string string
  | CompositePriv algorithm string string string private_key

fun public_of :: "private_key \<Rightarrow> public_key" where
  "public_of (ClassicKey h pub) = pub"
| "public_of (MldsaPriv p seed pk) = MldsaKey p pk"
| "public_of (CompositePriv a p seed pk t) = CompositePub a p pk (public_of t)"

datatype subject = NamedSubject string "string list" "string list" | RawSubject string

text \<open>The fields of \<open>x509.Certificate\<close> the program sets in a template and reads from a parsed one.\<close>

record cert_template =
  t_serial :: nat
  t_subject :: subject
  t_not_before :: int
  t_not_after :: int
  t_is_ca :: bool
  t_max_path_zero :: bool
  t_key_usage :: "16 word"
  t_eku :: "nat list"
  t_dns :: "string list"
  t_emails :: "string list"
  t_ips :: "string list"
  t_uris :: "string list"
  t_ski :: string
  t_aki :: string
  t_sig_alg :: algorithm

record x509_cert =
  xc_raw_tbs :: string
  xc_sig :: string
  xc_raw_subject :: string
  xc_raw_issuer :: string
  xc_spki :: string
  xc_serial :: nat
  xc_not_before :: int
  xc_not_after :: int
  xc_is_ca :: bool
  xc_ski :: string

text \<open>The TBSCertificate the program assembles for post-quantum certificates.\<close>

record tbs_certificate =
  tbs_serial :: nat
  tbs_sig_oid :: oid
  tbs_issuer :: string
  tbs_not_before :: int
  tbs_not_after :: int
  tbs_subject :: string
  tbs_spki :: string
  tbs_extensions :: string

text \<open>Instants in DER have a resolution of one second.\<close>

definition sec_floor :: "int \<Rightarrow> int" where
  "sec_floor t = t div 1000000000 * 1000000000"

record certificate =
  crt_raw :: string
  crt_x509 :: x509_cert
  crt_alg :: algorithm
  crt_pub :: public_key
  crt_pub_alg :: algorithm

record cert_request =
  csr_raw :: string
  csr_cn :: string
  csr_raw_subject :: string
  csr_pub :: public_key
  csr_pub_alg :: algorithm
  csr_alg :: algorithm
  csr_dns :: "string list"
  csr_emails :: "string list"
  csr_ips :: "string list"
  csr_uris :: "string list"
  csr_extensions :: "(oid \<times> string) list"
  csr_cri :: string
  csr_sig :: string

record csr_template =
  ct_subject :: subject
  ct_dns :: "string list"
  ct_emails :: "string list"
  ct_ips :: "string list"
  ct_uris :: "string list"

text \<open>The TBSCertList of a CRL: revoked serials with time and entry extensions, and extensions.\<close>

record tbs_cert_list =
  tcl_sig_oid :: oid
  tcl_issuer :: string
  tcl_this :: int
  tcl_next :: int
  tcl_revoked :: "(int \<times> int \<times> (oid \<times> string) list) list"
  tcl_exts :: "(oid \<times> string) list"

section \<open>Libraries\<close>

text \<open>
  In order: verification of ECDSA over a digest, Ed25519 over a message, ML-DSA over a message
  under a context, RSA PKCS 1 v1.5 over a digest; the P-256 point check; sizes of an ML-DSA
  parameter set and its key expansion; signing at a tick; key generation at a tick; PKCS 8; scrypt
  and AES-GCM (key, nonce, data, associated data); PEM; SHA-1; DER of public keys, certificates
  (the outer structure with its trailing data) and templates; of certificate requests (the info,
  the outer structure, the common name of a subject, the elements of the attribute list and of a
  list of general names, URLs); of CRLs (integers, enumerations, the key identifier, the list, the
  outer structure); the texts of addresses, instants and durations.
\<close>

record cenv = env +
  ecdsa_ok :: "curve \<Rightarrow> string \<Rightarrow> string \<Rightarrow> string \<Rightarrow> bool"
  ed25519_ok :: "string \<Rightarrow> string \<Rightarrow> string \<Rightarrow> bool"
  mldsa_ok :: "string \<Rightarrow> string \<Rightarrow> string \<Rightarrow> string \<Rightarrow> string \<Rightarrow> bool"
  rsa_ok :: "nat \<Rightarrow> nat \<Rightarrow> hash \<Rightarrow> string \<Rightarrow> string \<Rightarrow> bool"
  p256_point_ok :: "string \<Rightarrow> bool"
  mldsa_pk_size :: "string \<Rightarrow> nat"
  mldsa_sig_size :: "string \<Rightarrow> nat"
  mldsa_expand :: "string \<Rightarrow> string \<Rightarrow> string option"
  classic_sign :: "nat \<Rightarrow> string \<Rightarrow> hash \<Rightarrow> string \<Rightarrow> string option"
  mldsa_sign :: "nat \<Rightarrow> string \<Rightarrow> string \<Rightarrow> hash \<Rightarrow> string \<Rightarrow> string \<Rightarrow> string option"
  classic_gen :: "nat \<Rightarrow> algorithm \<Rightarrow> private_key option"
  pkcs8_of :: "private_key \<Rightarrow> string option"
  pkcs8_parse :: "string \<Rightarrow> private_key option"
  scrypt :: "string \<Rightarrow> string \<Rightarrow> int \<Rightarrow> int \<Rightarrow> int \<Rightarrow> string option"
  gcm_seal :: "string \<Rightarrow> string \<Rightarrow> string \<Rightarrow> string \<Rightarrow> string"
  gcm_open :: "string \<Rightarrow> string \<Rightarrow> string \<Rightarrow> string \<Rightarrow> string option"
  pem_encode :: "string \<Rightarrow> string \<Rightarrow> string"
  pem_decode :: "string \<Rightarrow> (string \<times> string \<times> string) option"
  sha1 :: "string \<Rightarrow> string"
  pkix_key_der :: "public_key \<Rightarrow> string option"
  pkix_key_parse :: "string \<Rightarrow> public_key option"
  spki_der :: "oid \<Rightarrow> string \<Rightarrow> string"
  spki_parse :: "string \<Rightarrow> (oid \<times> string \<times> string) option"
  x509_create :: "nat \<Rightarrow> cert_template \<Rightarrow> x509_cert option \<Rightarrow> public_key \<Rightarrow> private_key \<Rightarrow> string option"
  x509_encode :: "cert_template \<Rightarrow> (string \<times> string) option"
  x509_parse :: "string \<Rightarrow> x509_cert option"
  tbs_der :: "tbs_certificate \<Rightarrow> string"
  cert_der :: "string \<Rightarrow> oid \<Rightarrow> string \<Rightarrow> string"
  cert_outer :: "string \<Rightarrow> (oid \<times> string) option"
  csr_create :: "nat \<Rightarrow> csr_template \<Rightarrow> algorithm \<Rightarrow> private_key \<Rightarrow> string option"
  csr_encode :: "csr_template \<Rightarrow> (string \<times> string) option"
  cri_der :: "string \<Rightarrow> string \<Rightarrow> string \<Rightarrow> string"
  cri_parse :: "string \<Rightarrow> (string \<times> string \<times> string) option"
  csr_der :: "string \<Rightarrow> oid \<Rightarrow> string \<Rightarrow> string"
  csr_outer :: "string \<Rightarrow> (string \<times> oid \<times> string \<times> string) option"
  rdn_cn :: "string \<Rightarrow> string option"
  attr_next :: "string \<Rightarrow> (oid \<times> string \<times> string) option"
  exts_parse :: "string \<Rightarrow> (oid \<times> string) list option"
  san_seq :: "string \<Rightarrow> string option"
  gn_next :: "string \<Rightarrow> (nat \<times> nat \<times> string \<times> string) option"
  url_parse :: "string \<Rightarrow> string option"
  aki_der :: "string \<Rightarrow> string"
  asn1_int :: "int \<Rightarrow> string"
  asn1_int_of :: "string \<Rightarrow> int option"
  asn1_enum :: "int \<Rightarrow> string"
  asn1_enum_of :: "string \<Rightarrow> int option"
  crl_tbs_der :: "tbs_cert_list \<Rightarrow> string"
  crl_tbs_parse :: "string \<Rightarrow> tbs_cert_list option"
  crl_der :: "string \<Rightarrow> oid \<Rightarrow> string \<Rightarrow> string"
  crl_outer :: "string \<Rightarrow> (string \<times> oid \<times> string \<times> string) option"
  ip_text :: "string \<Rightarrow> string"
  time_text :: "int \<Rightarrow> string"
  duration_text :: "int \<Rightarrow> string"

end
