(* ===== verification/Sample_Env.thy ===== *)
theory Sample_Env
  imports Externals
begin

text \<open>
  One concrete environment, on which the hypotheses of the theorems are shown to hold.  Its DER is
  a length-prefixed packing of the fields, hashing puts a marker in front of its input, a classical
  signature is the signed data after a marker, an ML-DSA signature has four bytes, encryption
  prefixes the key, and nothing fails.
\<close>

section \<open>Packing\<close>

fun pack :: "string list \<Rightarrow> string" where
  "pack [] = []"
| "pack (s # ss) = dec (length s) @ CHR '':'' # s @ pack ss"

definition unpack1 :: "string \<Rightarrow> (string \<times> string) option" where
  "unpack1 s = (case cut_at (CHR '':'') s of None \<Rightarrow> None | Some (d, r) \<Rightarrow>
     (case undec d of None \<Rightarrow> None | Some n \<Rightarrow> Some (take n r, drop n r)))"

function unpack :: "string \<Rightarrow> string list" where
  "unpack s = (case unpack1 s of None \<Rightarrow> [] | Some (a, r) \<Rightarrow> a # unpack r)"
  by auto

lemma unpack1_shorter: "unpack1 s = Some (a, r) \<Longrightarrow> length r < length s"
  by (auto simp: unpack1_def cut_at_Some split: option.splits)

termination unpack
  by (relation "measure length") (auto simp: unpack1_shorter)

declare unpack.simps [simp del]

lemma unpack1_pack [simp]: "unpack1 (pack (s # ss)) = Some (s, pack ss)"
proof -
  have "CHR '':'' \<notin> set (dec (length s))"
    using dec_digits [of "CHR '':''" "length s"] by auto
  then show ?thesis by (simp add: unpack1_def cut_at_append)
qed

lemma unpack1_Nil [simp]: "unpack1 [] = None"
  by (simp add: unpack1_def)

lemma unpack_pack [simp]: "unpack (pack ss) = ss"
proof (induction ss)
  case Nil
  then show ?case by (subst unpack.simps) simp
next
  case (Cons s ss)
  have "unpack (pack (s # ss)) = s # unpack (pack ss)"
    by (subst unpack.simps) (simp only: unpack1_pack option.case prod.case)
  with Cons show ?case by simp
qed

lemma pack_inject [simp]: "pack ss = pack ts \<longleftrightarrow> ss = ts"
  by (metis unpack_pack)

definition pack_nat :: "nat \<Rightarrow> string" where "pack_nat n = dec n"
definition unpack_nat :: "string \<Rightarrow> nat" where "unpack_nat s = (case undec s of None \<Rightarrow> 0 | Some n \<Rightarrow> n)"
definition pack_int :: "int \<Rightarrow> string" where "pack_int i = pack [dec (nat i), dec (nat (- i))]"
definition unpack_int :: "string \<Rightarrow> int" where
  "unpack_int s = (case unpack s of [a, b] \<Rightarrow> int (unpack_nat a) - int (unpack_nat b) | _ \<Rightarrow> 0)"
definition pack_oid :: "oid \<Rightarrow> string" where "pack_oid o' = pack (map dec o')"
definition unpack_oid :: "string \<Rightarrow> oid" where "unpack_oid s = map unpack_nat (unpack s)"
definition pack_bool :: "bool \<Rightarrow> string" where "pack_bool b = (if b then ''1'' else [])"
definition unpack_bool :: "string \<Rightarrow> bool" where "unpack_bool s \<longleftrightarrow> s \<noteq> []"

lemma unpack_nat_dec [simp]: "unpack_nat (dec n) = n"
  by (simp add: unpack_nat_def)

lemma unpack_nat_pack [simp]: "unpack_nat (pack_nat n) = n"
  by (simp add: pack_nat_def)

lemma unpack_int_pack [simp]: "unpack_int (pack_int i) = i"
  by (simp add: pack_int_def unpack_int_def del: pack.simps)

lemma unpack_oid_pack [simp]: "unpack_oid (pack_oid o') = o'"
  by (simp add: pack_oid_def unpack_oid_def o_def)

lemma unpack_bool_pack [simp]: "unpack_bool (pack_bool b) = b"
  by (simp add: pack_bool_def unpack_bool_def)

definition pack_ext :: "oid \<times> string \<Rightarrow> string" where "pack_ext e = pack [pack_oid (fst e), snd e]"
definition unpack_ext :: "string \<Rightarrow> oid \<times> string" where
  "unpack_ext s = (case unpack s of [a, b] \<Rightarrow> (unpack_oid a, b) | _ \<Rightarrow> ([], []))"

lemma unpack_ext_pack [simp]: "unpack_ext (pack_ext e) = e"
  by (simp add: pack_ext_def unpack_ext_def del: pack.simps)

section \<open>Keys and signatures\<close>

definition sample_pub :: string where
  "sample_pub = replicate 32 (CHR ''p'')"

lemma length_sample_pub [simp]: "length sample_pub = 32"
  by (simp add: sample_pub_def)

definition sample_key :: private_key where
  "sample_key = ClassicKey ''k'' (Ed25519Key sample_pub)"

definition sample_ecdsa_key :: private_key where
  "sample_ecdsa_key = ClassicKey ''e'' (EcdsaKey P256 ''pub'')"

fun sample_text :: "json \<Rightarrow> string" where
  "sample_text (JStr s) = s"
| "sample_text (JObj fs) = concat (map (\<lambda>(k, v). k @ sample_text v) fs)"
| "sample_text _ = []"

fun pack_key :: "public_key \<Rightarrow> string option" where
  "pack_key (EcdsaKey P256 k) = Some (pack [pack_oid [1, 2, 840, 10045, 2, 1], pack [''p256'', k]])"
| "pack_key (EcdsaKey P384 k) = Some (pack [pack_oid [1, 2, 840, 10045, 2, 1], pack [''p384'', k]])"
| "pack_key (Ed25519Key k) = Some (pack [pack_oid [1, 3, 101, 112], pack [''ed25519'', k]])"
| "pack_key (MldsaKey p k) = Some (pack [pack_oid [2, 16, 840, 1, 101, 3, 4, 3, 18], pack [''mldsa'', p, k]])"
| "pack_key (RsaKey n e) = Some (pack [pack_oid [1, 2, 840, 113549, 1, 1, 1], pack [''rsa'', dec n, dec e]])"
| "pack_key _ = None"

definition unpack_key :: "string \<Rightarrow> public_key option" where
  "unpack_key s = (case unpack s of [a, b] \<Rightarrow> (case unpack b of
       [t, k] \<Rightarrow> if t = ''p256'' then Some (EcdsaKey P256 k) else if t = ''p384'' then Some (EcdsaKey P384 k)
         else if t = ''ed25519'' then Some (Ed25519Key k) else None
     | [t, p, k] \<Rightarrow> if t = ''mldsa'' then Some (MldsaKey p k)
         else if t = ''rsa'' then Some (RsaKey (unpack_nat p) (unpack_nat k)) else None
     | _ \<Rightarrow> None) | _ \<Rightarrow> None)"

lemma unpack_key_pack: "pack_key k = Some s \<Longrightarrow> unpack_key s = Some k"
  by (cases k rule: pack_key.cases) (auto simp: unpack_key_def simp del: pack.simps)

section \<open>Certificates, requests and lists\<close>

definition pack_subject :: "subject \<Rightarrow> string" where
  "pack_subject sb = (case sb of NamedSubject cn o' ou \<Rightarrow> pack (cn # o' @ ou) | RawSubject s \<Rightarrow> s)"

definition pack_exts :: "cert_template \<Rightarrow> string" where
  "pack_exts t = pack [pack_bool (t_is_ca t), t_ski t]"

definition pack_tbs :: "tbs_certificate \<Rightarrow> string" where
  "pack_tbs t = pack [dec (tbs_serial t), pack_oid (tbs_sig_oid t), tbs_issuer t, pack_int (tbs_not_before t),
     pack_int (tbs_not_after t), tbs_subject t, tbs_spki t, tbs_extensions t]"

definition pack_signed :: "string \<Rightarrow> oid \<Rightarrow> string \<Rightarrow> string" where
  "pack_signed tbs o' sg = pack [tbs, pack_oid o', sg]"

definition unpack_signed :: "string \<Rightarrow> (string \<times> oid \<times> string \<times> string) option" where
  "unpack_signed s = (case unpack s of [tbs, o', sg] \<Rightarrow> Some (tbs, unpack_oid o', sg, []) | _ \<Rightarrow> None)"

definition unpack_cert :: "string \<Rightarrow> x509_cert option" where
  "unpack_cert d = (case unpack_signed d of None \<Rightarrow> None | Some (tbs, o', sg, r) \<Rightarrow>
     (case unpack tbs of
        [ser, so, iss, nb, na, sub, spki, exts] \<Rightarrow> (case unpack exts of
            [ca, ski] \<Rightarrow> Some \<lparr>xc_raw_tbs = tbs, xc_sig = sg, xc_raw_subject = sub, xc_raw_issuer = iss, xc_spki = spki,
               xc_serial = unpack_nat ser, xc_not_before = sec_floor (unpack_int nb), xc_not_after = sec_floor (unpack_int na),
               xc_is_ca = unpack_bool ca, xc_ski = ski\<rparr>
          | _ \<Rightarrow> None)
      | _ \<Rightarrow> None))"

text \<open>A signature over the data, or over its digest, as the algorithm has it.\<close>

definition sample_sig :: "algorithm \<Rightarrow> string \<Rightarrow> string" where
  "sample_sig alg d = CHR ''s'' # (if alg = ECDSAP256 then CHR ''h'' # d else d)"

definition sample_x509_create ::
  "nat \<Rightarrow> cert_template \<Rightarrow> x509_cert option \<Rightarrow> public_key \<Rightarrow> private_key \<Rightarrow> string option" where
  "sample_x509_create n t par pub key = (case (lookup_alg (t_sig_alg t), pack_key pub) of
     (Inr i, Some spki) \<Rightarrow> (let sub = pack_subject (t_subject t);
         tbs = pack_tbs \<lparr>tbs_serial = t_serial t, tbs_sig_oid = i_oid i,
           tbs_issuer = (case par of None \<Rightarrow> sub | Some xc \<Rightarrow> xc_raw_subject xc), tbs_not_before = t_not_before t,
           tbs_not_after = t_not_after t, tbs_subject = sub, tbs_spki = spki, tbs_extensions = pack_exts t\<rparr> in
       Some (pack_signed tbs (i_oid i) (sample_sig (t_sig_alg t) tbs)))
   | _ \<Rightarrow> None)"

definition pack_san :: "csr_template \<Rightarrow> string" where
  "pack_san t = pack (map (\<lambda>(g, s). pack [dec g, s])
     (map (Pair 2) (ct_dns t) @ map (Pair 1) (ct_emails t) @ map (Pair 7) (ct_ips t) @ map (Pair 6) (ct_uris t)))"

definition pack_attrs :: "csr_template \<Rightarrow> string" where
  "pack_attrs t = pack [pack [pack_oid [1, 2, 840, 113549, 1, 9, 14], pack [pack_ext ([2, 5, 29, 17], pack_san t)]]]"

definition sample_csr_create :: "nat \<Rightarrow> csr_template \<Rightarrow> algorithm \<Rightarrow> private_key \<Rightarrow> string option" where
  "sample_csr_create n t alg key = (case (lookup_alg alg, pack_key (public_of key)) of
     (Inr i, Some spki) \<Rightarrow> (let cri = pack [pack_subject (ct_subject t), spki, pack_attrs t] in
       Some (pack_signed cri (i_oid i) (sample_sig alg cri)))
   | _ \<Rightarrow> None)"

definition pack_revoked :: "int \<times> int \<times> (oid \<times> string) list \<Rightarrow> string" where
  "pack_revoked = (\<lambda>(s, t, es). pack [pack_int s, pack_int (sec_floor t), pack (map pack_ext es)])"

definition unpack_revoked :: "string \<Rightarrow> int \<times> int \<times> (oid \<times> string) list" where
  "unpack_revoked s = (case unpack s of [a, b, c] \<Rightarrow> (unpack_int a, unpack_int b, map unpack_ext (unpack c)) | _ \<Rightarrow> (0, 0, []))"

definition pack_tcl :: "tbs_cert_list \<Rightarrow> string" where
  "pack_tcl t = pack [pack_oid (tcl_sig_oid t), tcl_issuer t, pack_int (sec_floor (tcl_this t)), pack_int (sec_floor (tcl_next t)),
     pack (map pack_revoked (tcl_revoked t)), pack (map pack_ext (tcl_exts t))]"

definition unpack_tcl :: "string \<Rightarrow> tbs_cert_list option" where
  "unpack_tcl s = (case unpack s of
     [so, iss, th, nx, rs, es] \<Rightarrow> Some \<lparr>tcl_sig_oid = unpack_oid so, tcl_issuer = iss, tcl_this = unpack_int th,
        tcl_next = unpack_int nx, tcl_revoked = map unpack_revoked (unpack rs), tcl_exts = map unpack_ext (unpack es)\<rparr>
   | _ \<Rightarrow> None)"

section \<open>The environment\<close>

definition sample_at :: "'x \<Rightarrow> 'x cenv_scheme" where
  "sample_at xe = \<lparr>
     now_at = (\<lambda>n. 1000000000 * int n), rnd_at = (\<lambda>n i. char_of (n + i)), fault_at = (\<lambda>n. NoFault),
     sha256 = (\<lambda>s. CHR ''h'' # s), sha384 = (\<lambda>s. s), sha512 = (\<lambda>s. s), json_bytes = sample_text,
     ecdsa_ok = (\<lambda>c k d s. s = CHR ''s'' # d), ed25519_ok = (\<lambda>k m s. s = CHR ''s'' # m),
     mldsa_ok = (\<lambda>p k m s c. s = ''sign''), rsa_ok = (\<lambda>n e h d s. s = CHR ''s'' # d),
     p256_point_ok = (\<lambda>b. b \<noteq> []), mldsa_pk_size = (\<lambda>p. 4), mldsa_sig_size = (\<lambda>p. 4),
     mldsa_expand = (\<lambda>p s. if length s = 32 then Some (take 4 s) else None),
     classic_sign = (\<lambda>n h hs d. Some (CHR ''s'' # d)), mldsa_sign = (\<lambda>n p s hs m c. Some ''sign''),
     classic_gen = (\<lambda>n a. if a = Ed25519 then Some sample_key else if a = ECDSAP256 then Some sample_ecdsa_key else None),
     pkcs8_of = (\<lambda>k. case k of ClassicKey h pub \<Rightarrow> Some h | _ \<Rightarrow> None),
     pkcs8_parse = (\<lambda>s. if s = ''k'' then Some sample_key else if s = ''e'' then Some sample_ecdsa_key else None),
     scrypt = (\<lambda>p s n r q. Some p), gcm_seal = (\<lambda>k n d a. k @ d),
     gcm_open = (\<lambda>k n d a. if has_prefix d k then Some (drop (length k) d) else None),
     pem_encode = (\<lambda>t d. pack [t, d]),
     pem_decode = (\<lambda>s. case unpack1 s of None \<Rightarrow> None | Some (t, r) \<Rightarrow>
        (case unpack1 r of None \<Rightarrow> None | Some (d, r') \<Rightarrow> Some (t, d, r'))),
     sha1 = (\<lambda>s. s), pkix_key_der = pack_key, pkix_key_parse = unpack_key,
     spki_der = (\<lambda>o' s. pack [pack_oid o', s]),
     spki_parse = (\<lambda>s. case unpack s of [a, b] \<Rightarrow> Some (unpack_oid a, b, []) | _ \<Rightarrow> None),
     x509_create = sample_x509_create, x509_encode = (\<lambda>t. Some (pack_subject (t_subject t), pack_exts t)),
     x509_parse = unpack_cert, tbs_der = pack_tbs, cert_der = pack_signed,
     cert_outer = (\<lambda>s. map_option (\<lambda>(tbs, o', sg, r). (o', r)) (unpack_signed s)),
     csr_create = sample_csr_create, csr_encode = (\<lambda>t. Some (pack_subject (ct_subject t), pack_attrs t)),
     cri_der = (\<lambda>sub spki at. pack [sub, spki, at]),
     cri_parse = (\<lambda>s. case unpack s of [sub, spki, at] \<Rightarrow> Some (sub, spki, at) | _ \<Rightarrow> None),
     csr_der = pack_signed, csr_outer = unpack_signed,
     rdn_cn = (\<lambda>s. case unpack s of [] \<Rightarrow> Some [] | cn # r \<Rightarrow> Some cn),
     attr_next = (\<lambda>s. case unpack1 s of None \<Rightarrow> None | Some (a, r) \<Rightarrow>
        (case unpack a of [o', v] \<Rightarrow> Some (unpack_oid o', v, r) | _ \<Rightarrow> None)),
     exts_parse = (\<lambda>s. Some (map unpack_ext (unpack s))), san_seq = (\<lambda>s. Some s),
     gn_next = (\<lambda>s. case unpack1 s of None \<Rightarrow> None | Some (a, r) \<Rightarrow>
        (case unpack a of [g, v] \<Rightarrow> Some (2, unpack_nat g, v, r) | _ \<Rightarrow> None)),
     url_parse = (\<lambda>s. Some s), aki_der = (\<lambda>s. pack [s]),
     asn1_int = pack_int, asn1_int_of = (\<lambda>s. Some (unpack_int s)),
     asn1_enum = pack_int, asn1_enum_of = (\<lambda>s. Some (unpack_int s)),
     crl_tbs_der = pack_tcl, crl_tbs_parse = unpack_tcl, crl_der = pack_signed, crl_outer = unpack_signed,
     ip_text = (\<lambda>s. s), time_text = dec_int, duration_text = dec_int, \<dots> = xe\<rparr>"

abbreviation sample_env :: cenv where "sample_env \<equiv> sample_at ()"

lemmas sample_env_def = sample_at_def

lemma sample_no_fault [simp]: "fault_at (sample_at xe) n = NoFault"
  by (simp add: sample_env_def)

end
