(* ===== verification/Pkix_Sign.thy ===== *)
theory Pkix_Sign
  imports Sample_Env
begin

text \<open>
  Signing and verification (internal/pkix/algs.go, composite.go): the dispatch on the algorithm,
  the composite ML-DSA signatures of draft-19, and the encoding of composite public keys.
\<close>

definition digest_of :: "'x env_scheme \<Rightarrow> hash \<Rightarrow> string \<Rightarrow> string" where
  "digest_of E h m = (case h of SHA256 \<Rightarrow> sha256 E m | SHA384 \<Rightarrow> sha384 E m | SHA512 \<Rightarrow> sha512 E m | NoHash \<Rightarrow> m)"

section \<open>Composite profiles\<close>

record composite_profile =
  cp_mldsa :: algorithm
  cp_trad :: algorithm
  cp_label :: string
  cp_prehash :: hash

definition composite_prefix :: string where
  "composite_prefix = ''CompositeAlgorithmSignatures2025''"

definition composite_profiles :: "(algorithm \<times> composite_profile) list" where
  "composite_profiles =
    [(CompositeMLDSA65ECDSAP256, \<lparr>cp_mldsa = MLDSA65, cp_trad = ECDSAP256,
        cp_label = ''COMPSIG-MLDSA65-ECDSA-P256-SHA256'', cp_prehash = SHA256\<rparr>),
     (CompositeMLDSA44Ed25519, \<lparr>cp_mldsa = MLDSA44, cp_trad = Ed25519,
        cp_label = ''COMPSIG-MLDSA44-Ed25519-SHA512'', cp_prehash = SHA512\<rparr>)]"

definition message_prime :: "'x env_scheme \<Rightarrow> composite_profile \<Rightarrow> string \<Rightarrow> err + string" where
  "message_prime E p m =
     (if cp_prehash p = SHA256 \<or> cp_prehash p = SHA512
      then Inr (composite_prefix @ cp_label p @ [CHR 0x00] @ digest_of E (cp_prehash p) m)
      else Inl (errorf ''pkix: unsupported composite pre-hash''))"

definition not_composite :: "algorithm \<Rightarrow> err" where
  "not_composite alg = errorf (''pkix: '' @ quoted alg @ '' is not a composite algorithm'')"

section \<open>Signing\<close>

text \<open>A call of \<open>crypto.Signer.Sign\<close> on a component key, which takes a tick.\<close>

definition prim_sign :: "'x cenv_scheme \<Rightarrow> (nat \<Rightarrow> string option) \<Rightarrow> string act" where
  "prim_sign E f w = (case f (tick w) of
     None \<Rightarrow> (Inl (errorf ''signing failed''), advance w) | Some s \<Rightarrow> (Inr s, advance w))"

fun simple_sign :: "'x cenv_scheme \<Rightarrow> private_key \<Rightarrow> hash \<Rightarrow> string \<Rightarrow> string act" where
  "simple_sign E (ClassicKey h pub) hs m = prim_sign E (\<lambda>n. classic_sign E n h hs m)"
| "simple_sign E (MldsaPriv p seed pk) hs m = prim_sign E (\<lambda>n. mldsa_sign E n p seed hs m [])"
| "simple_sign E (CompositePriv a p seed pk t) hs m = fail (errorf ''pkix: composite component key'')"

definition sign_trad_component :: "'x cenv_scheme \<Rightarrow> private_key \<Rightarrow> algorithm \<Rightarrow> string \<Rightarrow> string act" where
  "sign_trad_component E key alg mp =
     (if alg = ECDSAP256 then simple_sign E key SHA256 (sha256 E mp)
      else if alg = Ed25519 then simple_sign E key NoHash mp
      else fail (errorf (''pkix: unsupported composite traditional component '' @ quoted alg)))"

text \<open>
  \<open>CompositeKey.Sign\<close>; the zero profile of an algorithm that is not composite has no pre-hash.
\<close>

definition composite_sign ::
  "'x cenv_scheme \<Rightarrow> algorithm \<Rightarrow> string \<Rightarrow> string \<Rightarrow> private_key \<Rightarrow> hash \<Rightarrow> string \<Rightarrow> string act" where
  "composite_sign E alg par seed trad hs m =
     (if hs \<noteq> NoHash then fail (errorf ''pkix: composite keys sign messages, not digests'')
      else (let p = (case map_of composite_profiles alg of Some p \<Rightarrow> p
                       | None \<Rightarrow> \<lparr>cp_mldsa = [], cp_trad = [], cp_label = [], cp_prehash = NoHash\<rparr>) in
        ebind (lift_sum (message_prime E p m)) (\<lambda>mp.
        ebind (prim_sign E (\<lambda>n. mldsa_sign E n par seed NoHash mp (cp_label p))) (\<lambda>s1.
        ebind (sign_trad_component E trad (cp_trad p) mp) (\<lambda>s2. ret (s1 @ s2))))))"

fun key_sign :: "'x cenv_scheme \<Rightarrow> private_key \<Rightarrow> hash \<Rightarrow> string \<Rightarrow> string act" where
  "key_sign E (CompositePriv a p seed pk t) hs m = composite_sign E a p seed t hs m"
| "key_sign E key hs m = simple_sign E key hs m"

definition sign_tbs :: "'x cenv_scheme \<Rightarrow> private_key \<Rightarrow> algorithm \<Rightarrow> string \<Rightarrow> string act" where
  "sign_tbs E key alg m = (case lookup_alg alg of
     Inl e \<Rightarrow> fail e
   | Inr i \<Rightarrow>
      if i_key_only i \<or> i_verify_only i
      then fail (errorf (''pkix: '' @ quoted alg @ '' is not a CA signing algorithm (RSA is verify-only)''))
      else if i_hash i \<noteq> NoHash
      then (if i_hash i = SHA256 then key_sign E key SHA256 (sha256 E m)
            else if i_hash i = SHA384 then key_sign E key SHA384 (sha384 E m)
            else fail (errorf ''pkix: unsupported hash''))
      else key_sign E key NoHash m)"

section \<open>Verification\<close>

definition key_mismatch :: "algorithm \<Rightarrow> err" where
  "key_mismatch alg = errorf (''pkix: key type does not match '' @ quoted alg)"

text \<open>\<open>mldsaParams\<close> of an algorithm that is not ML-DSA is nil, a panic the callers never reach.\<close>

definition composite_verify ::
  "'x cenv_scheme \<Rightarrow> algorithm \<Rightarrow> string \<Rightarrow> string \<Rightarrow> public_key \<Rightarrow> string \<Rightarrow> string \<Rightarrow> err + unit" where
  "composite_verify E alg par pk trad m sg = (case map_of composite_profiles alg of
     None \<Rightarrow> Inl (not_composite alg)
   | Some p \<Rightarrow> (let n = mldsa_sig_size E (the (mldsa_name (cp_mldsa p))) in
      if length sg \<le> n then Inl (errorf ''pkix: composite signature too short'')
      else sbind (message_prime E p m) (\<lambda>mp.
        if \<not> mldsa_ok E par pk mp (take n sg) (cp_label p)
        then Inl (errorf ''pkix: composite ML-DSA component'')
        else if cp_trad p = ECDSAP256 then
          (case trad of EcdsaKey c k \<Rightarrow>
             if ecdsa_ok E c k (sha256 E mp) (drop n sg) then Inr ()
             else Inl (errorf ''pkix: composite ECDSA component: invalid signature'')
           | _ \<Rightarrow> Inl (errorf ''pkix: composite traditional key type''))
        else if cp_trad p = Ed25519 then
          (case trad of Ed25519Key k \<Rightarrow>
             if ed25519_ok E k mp (drop n sg) then Inr ()
             else Inl (errorf ''pkix: composite Ed25519 component: invalid signature'')
           | _ \<Rightarrow> Inl (errorf ''pkix: composite traditional key type''))
        else Inl (errorf (''pkix: unsupported composite traditional component '' @ quoted (cp_trad p))))))"

definition verify_signature ::
  "'x cenv_scheme \<Rightarrow> public_key \<Rightarrow> algorithm \<Rightarrow> string \<Rightarrow> string \<Rightarrow> err + unit" where
  "verify_signature E pub alg m sg =
     (if alg = ECDSAP256 \<or> alg = ECDSAP384 then
        (case pub of EcdsaKey c k \<Rightarrow>
           if ecdsa_ok E c k (if alg = ECDSAP256 then sha256 E m else sha384 E m) sg then Inr ()
           else Inl (errorf ''pkix: invalid ECDSA signature'')
         | _ \<Rightarrow> Inl (key_mismatch alg))
      else if alg = Ed25519 then
        (case pub of Ed25519Key k \<Rightarrow>
           if ed25519_ok E k m sg then Inr () else Inl (errorf ''pkix: invalid Ed25519 signature'')
         | _ \<Rightarrow> Inl (key_mismatch alg))
      else if alg = MLDSA44 \<or> alg = MLDSA65 \<or> alg = MLDSA87 then
        (case pub of MldsaKey p k \<Rightarrow>
           if mldsa_ok E p k m sg [] then Inr () else Inl (errorf ''mldsa: invalid signature'')
         | _ \<Rightarrow> Inl (key_mismatch alg))
      else if alg = CompositeMLDSA65ECDSAP256 \<or> alg = CompositeMLDSA44Ed25519 then
        (case pub of CompositePub a p k t \<Rightarrow> composite_verify E a p k t m sg
         | _ \<Rightarrow> Inl (key_mismatch alg))
      else if alg = RSASHA256 \<or> alg = RSASHA384 \<or> alg = RSASHA512 then
        (case pub of RsaKey n e \<Rightarrow> sbind (algorithm_for_key pub) (\<lambda>_.
           let h = i_hash (the (map_of aux_registry alg)) in
           if rsa_ok E n e h (digest_of E h m) sg then Inr ()
           else Inl (errorf ''pkix: invalid RSA signature: ''))
         | _ \<Rightarrow> Inl (key_mismatch alg))
      else Inl (errorf (''pkix: cannot verify algorithm '' @ quoted alg)))"

definition verify_raw_signature ::
  "'x cenv_scheme \<Rightarrow> public_key \<Rightarrow> algorithm \<Rightarrow> string \<Rightarrow> string \<Rightarrow> err + unit" where
  "verify_raw_signature E pub alg m sg = verify_signature E pub alg m sg"

end
