(* ===== verification/Pkix_Keys.thy ===== *)
theory Pkix_Keys
  imports Pkix_Sign
begin

text \<open>
  Composite keys (assembly, encoding of the public key) and the agreement of signing with
  verification for every key the program can hold.
\<close>

section \<open>Composite keys\<close>

definition new_composite_key :: "algorithm \<Rightarrow> private_key \<Rightarrow> private_key \<Rightarrow> err + private_key" where
  "new_composite_key alg mk trad = (case map_of composite_profiles alg of
     None \<Rightarrow> Inl (not_composite alg)
   | Some p \<Rightarrow>
      if algorithm_for_key (public_of mk) \<noteq> Inr (cp_mldsa p)
      then Inl (errorf (''pkix: composite '' @ quoted alg @ '' requires ML-DSA component '' @ quoted (cp_mldsa p)))
      else if algorithm_for_key (public_of trad) \<noteq> Inr (cp_trad p)
      then Inl (errorf (''pkix: composite '' @ quoted alg @ '' requires traditional component '' @ quoted (cp_trad p)))
      else (case mk of MldsaPriv par seed pk \<Rightarrow> Inr (CompositePriv alg par seed pk trad)
            | _ \<Rightarrow> Inl (errorf ''pkix: not an ML-DSA key'')))"

definition marshal_composite_public_key :: "public_key \<Rightarrow> err + string" where
  "marshal_composite_public_key pub = (case pub of
     CompositePub a par k t \<Rightarrow> (case map_of composite_profiles a of
       None \<Rightarrow> Inl (not_composite a)
     | Some p \<Rightarrow>
        if cp_trad p = ECDSAP256 then
          (case t of EcdsaKey c b \<Rightarrow> Inr (k @ b) | _ \<Rightarrow> Inl (errorf ''pkix: composite traditional key type''))
        else if cp_trad p = Ed25519 then
          (case t of Ed25519Key b \<Rightarrow> Inr (k @ b) | _ \<Rightarrow> Inl (errorf ''pkix: composite traditional key type''))
        else Inl (errorf (''pkix: unsupported composite traditional component '' @ quoted (cp_trad p))))
   | _ \<Rightarrow> Inl (errorf ''pkix: not a composite key''))"

text \<open>\<open>mldsa.NewPublicKey\<close> accepts the encodings of the parameter set's length.\<close>

definition parse_composite_public_key :: "'x cenv_scheme \<Rightarrow> algorithm \<Rightarrow> string \<Rightarrow> err + public_key" where
  "parse_composite_public_key E alg raw = (case map_of composite_profiles alg of
     None \<Rightarrow> Inl (not_composite alg)
   | Some p \<Rightarrow> (let par = the (mldsa_name (cp_mldsa p)); n = mldsa_pk_size E par in
      if length raw \<le> n then Inl (errorf ''pkix: composite public key too short'')
      else if cp_trad p = ECDSAP256 then
        (if p256_point_ok E (drop n raw) then Inr (CompositePub alg par (take n raw) (EcdsaKey P256 (drop n raw)))
         else Inl (errorf ''pkix: composite ECDSA public key''))
      else if cp_trad p = Ed25519 then
        (if length (drop n raw) \<noteq> 32
         then Inl (errorf (''pkix: composite Ed25519 public key: wrong length '' @ dec (length (drop n raw))))
         else Inr (CompositePub alg par (take n raw) (Ed25519Key (drop n raw))))
      else Inl (errorf (''pkix: unsupported composite traditional component '' @ quoted (cp_trad p)))))"

text \<open>
  A well-formed composite public key: the components its profile asks for, each with an encoding
  of the right length.
\<close>

definition wf_composite :: "'x cenv_scheme \<Rightarrow> public_key \<Rightarrow> bool" where
  "wf_composite E pub = (case pub of
     CompositePub a par k t \<Rightarrow> (case map_of composite_profiles a of
       None \<Rightarrow> False
     | Some p \<Rightarrow> mldsa_name (cp_mldsa p) = Some par \<and> length k = mldsa_pk_size E par \<and>
        (case t of EcdsaKey c b \<Rightarrow> c = P256 \<and> cp_trad p = ECDSAP256 \<and> b \<noteq> [] \<and> p256_point_ok E b
         | Ed25519Key b \<Rightarrow> cp_trad p = Ed25519 \<and> length b = 32
         | _ \<Rightarrow> False))
   | _ \<Rightarrow> False)"

lemma composite_profiles_Some:
  "map_of composite_profiles a = Some p \<Longrightarrow>
     (a = CompositeMLDSA65ECDSAP256 \<and> cp_mldsa p = MLDSA65 \<and> cp_trad p = ECDSAP256 \<and> cp_prehash p = SHA256) \<or>
     (a = CompositeMLDSA44Ed25519 \<and> cp_mldsa p = MLDSA44 \<and> cp_trad p = Ed25519 \<and> cp_prehash p = SHA512)"
  by (auto simp: composite_profiles_def split: if_splits)

lemma trad_alg_neq: "Ed25519 \<noteq> ECDSAP256" "ECDSAP256 \<noteq> Ed25519"
  by (simp_all add: alg_defs)

lemma composite_round_trip:
  assumes wf: "wf_composite E (CompositePub a par k t)"
  shows "\<exists>raw. marshal_composite_public_key (CompositePub a par k t) = Inr raw \<and>
    parse_composite_public_key E a raw = Inr (CompositePub a par k t)"
proof -
  obtain p where p: "map_of composite_profiles a = Some p" and par: "mldsa_name (cp_mldsa p) = Some par"
    and k: "length k = mldsa_pk_size E par"
    using wf by (auto simp: wf_composite_def split: option.splits)
  show ?thesis
    using wf p par k
    by (cases t) (auto simp: wf_composite_def marshal_composite_public_key_def parse_composite_public_key_def
        trad_alg_neq Let_def)
qed

lemma mldsa_name_simps [simp]:
  "mldsa_name MLDSA44 = Some ''ML-DSA-44''" "mldsa_name MLDSA65 = Some ''ML-DSA-65''"
  "mldsa_name MLDSA87 = Some ''ML-DSA-87''"
  by (simp_all add: mldsa_name_def alg_defs)

lemma composite_mldsa_name: "map_of composite_profiles a = Some p \<Longrightarrow> \<exists>par. mldsa_name (cp_mldsa p) = Some par"
  by (auto dest!: composite_profiles_Some)

lemma parse_composite_sound:
  assumes "parse_composite_public_key E a raw = Inr pub"
  shows "wf_composite E pub \<and> marshal_composite_public_key pub = Inr raw"
proof -
  obtain p where p: "map_of composite_profiles a = Some p"
    using assms by (auto simp: parse_composite_public_key_def split: option.splits)
  obtain par where par: "mldsa_name (cp_mldsa p) = Some par"
    using composite_mldsa_name [OF p] by blast
  let ?n = "mldsa_pk_size E par"
  have len: "\<not> length raw \<le> ?n"
    using assms by (auto simp: parse_composite_public_key_def p par Let_def)
  show ?thesis
  proof (cases "cp_trad p = ECDSAP256")
    case True
    with assms len have "pub = CompositePub a par (take ?n raw) (EcdsaKey P256 (drop ?n raw))"
      and "p256_point_ok E (drop ?n raw)"
      by (auto simp: parse_composite_public_key_def p par Let_def split: if_splits)
    with True len show ?thesis
      by (simp add: wf_composite_def marshal_composite_public_key_def p par)
  next
    case False
    with assms len have "pub = CompositePub a par (take ?n raw) (Ed25519Key (drop ?n raw))"
      and "length (drop ?n raw) = 32" and "cp_trad p = Ed25519"
      by (auto simp: parse_composite_public_key_def p par Let_def split: if_splits)
    with False len show ?thesis
      by (simp add: wf_composite_def marshal_composite_public_key_def p par)
  qed
qed

section \<open>Signing agrees with verification\<close>

text \<open>
  What the cryptographic libraries promise of a key: a signature they make under it verifies under
  its public key, and ML-DSA signatures have the fixed length of their parameter set.
\<close>

fun prims_correct :: "'x cenv_scheme \<Rightarrow> private_key \<Rightarrow> bool" where
  "prims_correct E (ClassicKey h pub) \<longleftrightarrow> (\<forall>n hs d s. classic_sign E n h hs d = Some s \<longrightarrow> s \<noteq> [] \<and>
     (case pub of EcdsaKey c k \<Rightarrow> ecdsa_ok E c k d s
      | Ed25519Key k \<Rightarrow> hs = NoHash \<longrightarrow> ed25519_ok E k d s
      | _ \<Rightarrow> True))"
| "prims_correct E (MldsaPriv p seed pk) \<longleftrightarrow> (\<forall>n m c s. mldsa_sign E n p seed NoHash m c = Some s \<longrightarrow>
     mldsa_ok E p pk m s c \<and> length s = mldsa_sig_size E p)"
| "prims_correct E (CompositePriv a p seed pk t) \<longleftrightarrow>
     prims_correct E (MldsaPriv p seed pk) \<and> prims_correct E t"

text \<open>A key assembled by \<open>GenerateKey\<close> or \<open>NewCompositeKey\<close>: its parts are what its algorithm says.\<close>

fun wf_key :: "private_key \<Rightarrow> bool" where
  "wf_key (ClassicKey h pub) \<longleftrightarrow> (case pub of EcdsaKey _ _ \<Rightarrow> True | Ed25519Key _ \<Rightarrow> True | RsaKey _ _ \<Rightarrow> True | _ \<Rightarrow> False)"
| "wf_key (MldsaPriv p seed pk) \<longleftrightarrow> True"
| "wf_key (CompositePriv a p seed pk t) \<longleftrightarrow> (\<exists>q. map_of composite_profiles a = Some q \<and>
     algorithm_for_key (MldsaKey p pk) = Inr (cp_mldsa q) \<and>
     algorithm_for_key (public_of t) = Inr (cp_trad q) \<and> wf_key t)"

lemma new_composite_key_wf:
  "new_composite_key alg mk trad = Inr k \<Longrightarrow> wf_key trad \<Longrightarrow> wf_key k \<and> algorithm_for_key (public_of k) = Inr alg"
  by (cases mk) (auto simp: new_composite_key_def split: option.splits if_splits)

lemma prim_sign_Inr [act_elims]:
  "prim_sign E f w = (Inr s, w') \<longleftrightarrow> f (tick w) = Some s \<and> w' = advance w"
  by (auto simp: prim_sign_def split: option.splits)

text \<open>The Go type of a well-formed key's public half by its algorithm.\<close>

lemma wf_key_cases:
  assumes "wf_key key" and "algorithm_for_key (public_of key) = Inr alg"
  shows "(\<exists>h c k. key = ClassicKey h (EcdsaKey c k) \<and> (alg = ECDSAP256 \<or> alg = ECDSAP384)) \<or>
    (\<exists>h k. key = ClassicKey h (Ed25519Key k) \<and> alg = Ed25519) \<or>
    (\<exists>h n e. key = ClassicKey h (RsaKey n e) \<and> alg \<in> {RSA2048, RSA3072, RSA4096}) \<or>
    (\<exists>p s k. key = MldsaPriv p s k \<and> alg \<in> {MLDSA44, MLDSA65, MLDSA87}) \<or>
    (\<exists>p s k t q. key = CompositePriv alg p s k t \<and> map_of composite_profiles alg = Some q)"
proof (cases key)
  case (ClassicKey h pub)
  with assms show ?thesis
    by (cases pub) (auto split: curve.splits if_splits)
qed (use assms in \<open>auto split: if_splits\<close>)

lemma wf_key_trad:
  assumes "wf_key t" and "algorithm_for_key (public_of t) = Inr alg" and "alg = ECDSAP256 \<or> alg = Ed25519"
  obtains h c k where "t = ClassicKey h (EcdsaKey c k)" "alg = ECDSAP256"
  | h k where "t = ClassicKey h (Ed25519Key k)" "alg = Ed25519"
proof -
  have "map_of composite_profiles alg = None" "alg \<notin> {RSA2048, RSA3072, RSA4096}"
    "alg \<notin> {MLDSA44, MLDSA65, MLDSA87}" "alg \<noteq> ECDSAP384"
    using assms(3) by (auto simp: composite_profiles_def alg_defs)
  with wf_key_cases [OF assms(1,2)] that show thesis by auto
qed

lemma lookup_alg_simps [simp]:
  "lookup_alg ECDSAP256 = Inr (plain_info ECDSAP256 [1, 2, 840, 10045, 4, 3, 2] SHA256)"
  "lookup_alg ECDSAP384 = Inr (plain_info ECDSAP384 [1, 2, 840, 10045, 4, 3, 3] SHA384)"
  "lookup_alg Ed25519 = Inr (plain_info Ed25519 [1, 3, 101, 112] NoHash)"
  "lookup_alg MLDSA44 = Inr ((plain_info MLDSA44 [2, 16, 840, 1, 101, 3, 4, 3, 17] NoHash)\<lparr>i_pq := True\<rparr>)"
  "lookup_alg MLDSA65 = Inr ((plain_info MLDSA65 [2, 16, 840, 1, 101, 3, 4, 3, 18] NoHash)\<lparr>i_pq := True\<rparr>)"
  "lookup_alg MLDSA87 = Inr ((plain_info MLDSA87 [2, 16, 840, 1, 101, 3, 4, 3, 19] NoHash)\<lparr>i_pq := True\<rparr>)"
  "lookup_alg CompositeMLDSA65ECDSAP256 =
     Inr ((plain_info CompositeMLDSA65ECDSAP256 [1, 3, 6, 1, 5, 5, 7, 6, 45] NoHash)
       \<lparr>i_pq := True, i_hybrid := True, i_experimental := True\<rparr>)"
  "lookup_alg CompositeMLDSA44Ed25519 =
     Inr ((plain_info CompositeMLDSA44Ed25519 [1, 3, 6, 1, 5, 5, 7, 6, 39] NoHash)
       \<lparr>i_pq := True, i_hybrid := True, i_experimental := True\<rparr>)"
  by (simp_all add: lookup_alg_cases registry_defs)

lemma lookup_alg_rsa [simp]:
  "lookup_alg RSA2048 = Inr ((plain_info RSA2048 [] NoHash)\<lparr>i_key_only := True\<rparr>)"
  "lookup_alg RSA3072 = Inr ((plain_info RSA3072 [] NoHash)\<lparr>i_key_only := True\<rparr>)"
  "lookup_alg RSA4096 = Inr ((plain_info RSA4096 [] NoHash)\<lparr>i_key_only := True\<rparr>)"
  "lookup_alg RSASHA256 = Inr ((plain_info RSASHA256 [1, 2, 840, 113549, 1, 1, 11] SHA256)\<lparr>i_verify_only := True\<rparr>)"
  "lookup_alg RSASHA384 = Inr ((plain_info RSASHA384 [1, 2, 840, 113549, 1, 1, 12] SHA384)\<lparr>i_verify_only := True\<rparr>)"
  "lookup_alg RSASHA512 = Inr ((plain_info RSASHA512 [1, 2, 840, 113549, 1, 1, 13] SHA512)\<lparr>i_verify_only := True\<rparr>)"
  by (simp_all add: lookup_alg_cases registry_defs)

text \<open>Message-signing algorithms: ML-DSA and the composites.\<close>

lemma lookup_alg_message:
  assumes "alg \<in> {MLDSA44, MLDSA65, MLDSA87} \<or> map_of composite_profiles alg = Some q"
  shows "\<exists>i. lookup_alg alg = Inr i \<and> i_hash i = NoHash \<and> \<not> i_key_only i \<and> \<not> i_verify_only i"
  using assms by (auto simp: plain_info_def dest!: composite_profiles_Some)

lemma classic_sign_correct:
  "prims_correct E (ClassicKey h pub) \<Longrightarrow> classic_sign E n h hs d = Some s \<Longrightarrow> s \<noteq> []"
  "prims_correct E (ClassicKey h (EcdsaKey c k)) \<Longrightarrow> classic_sign E n h hs d = Some s \<Longrightarrow> ecdsa_ok E c k d s"
  "prims_correct E (ClassicKey h (Ed25519Key k)) \<Longrightarrow> classic_sign E n h NoHash d = Some s \<Longrightarrow> ed25519_ok E k d s"
proof -
  show "prims_correct E (ClassicKey h pub) \<Longrightarrow> classic_sign E n h hs d = Some s \<Longrightarrow> s \<noteq> []"
    by fastforce
  show "prims_correct E (ClassicKey h (EcdsaKey c k)) \<Longrightarrow> classic_sign E n h hs d = Some s \<Longrightarrow> ecdsa_ok E c k d s"
    by fastforce
  show "prims_correct E (ClassicKey h (Ed25519Key k)) \<Longrightarrow> classic_sign E n h NoHash d = Some s \<Longrightarrow> ed25519_ok E k d s"
    by fastforce
qed

lemma composite_sign_verifies:
  assumes wf: "wf_key (CompositePriv alg par seed pk t)"
    and prims: "prims_correct E (CompositePriv alg par seed pk t)"
    and run: "composite_sign E alg par seed t NoHash m w = (Inr s, w')"
  shows "composite_verify E alg par pk (public_of t) m s = Inr ()"
proof -
  obtain q where q: "map_of composite_profiles alg = Some q"
    and mk: "algorithm_for_key (MldsaKey par pk) = Inr (cp_mldsa q)"
    and tk: "algorithm_for_key (public_of t) = Inr (cp_trad q)" and wt: "wf_key t"
    using wf by auto
  have prof: "(cp_mldsa q = MLDSA65 \<and> cp_trad q = ECDSAP256) \<or> (cp_mldsa q = MLDSA44 \<and> cp_trad q = Ed25519)"
    using composite_profiles_Some [OF q] by auto
  have par: "mldsa_name (cp_mldsa q) = Some par"
    using mk prof by (auto simp: alg_defs split: if_splits simp: mldsa_name_def)
  obtain mp s1 s2 w1 w2 where mp: "message_prime E q m = Inr mp"
    and s1: "mldsa_sign E (tick w) par seed NoHash mp (cp_label q) = Some s1"
    and s2: "sign_trad_component E t (cp_trad q) mp w1 = (Inr s2, w2)" and s: "s = s1 @ s2"
    using run by (auto simp: composite_sign_def q act_elims)
  have m1: "mldsa_ok E par pk mp s1 (cp_label q)" and len: "length s1 = mldsa_sig_size E par"
    using prims s1 by auto
  have tt: "cp_trad q = ECDSAP256 \<or> cp_trad q = Ed25519" using prof by auto
  show ?thesis
  proof (cases rule: wf_key_trad [OF wt tk tt])
    case (1 h c k)
    with s2 have "classic_sign E (tick w1) h SHA256 (sha256 E mp) = Some s2"
      by (simp add: sign_trad_component_def act_elims)
    moreover have "prims_correct E (ClassicKey h (EcdsaKey c k))" using prims 1 by simp
    ultimately have "s2 \<noteq> []" "ecdsa_ok E c k (sha256 E mp) s2"
      using classic_sign_correct by blast+
    with 1 q par len m1 s mp show ?thesis
      by (simp add: composite_verify_def Let_def)
  next
    case (2 h k)
    with s2 have "classic_sign E (tick w1) h NoHash mp = Some s2"
      by (simp add: sign_trad_component_def act_elims trad_alg_neq)
    moreover have "prims_correct E (ClassicKey h (Ed25519Key k))" using prims 2 by simp
    ultimately have "s2 \<noteq> []" and "ed25519_ok E k mp s2"
      using classic_sign_correct(1) classic_sign_correct(3) [of E h k] by blast+
    with 2 q par len m1 s mp show ?thesis
      by (simp add: composite_verify_def Let_def trad_alg_neq)
  qed
qed

text \<open>What signing produces verifies, by the kinds of key.\<close>

lemma sign_tbs_sound:
  assumes wf: "wf_key key" and alg: "algorithm_for_key (public_of key) = Inr alg"
    and prims: "prims_correct E key" and run: "sign_tbs E key alg m w = (Inr s, w')"
  shows "verify_signature E (public_of key) alg m s = Inr ()"
  using wf_key_cases [OF wf alg]
proof (elim disjE exE conjE)
  fix h c k assume k: "key = ClassicKey h (EcdsaKey c k)" "alg = ECDSAP256"
  with run have "classic_sign E (tick w) h SHA256 (sha256 E m) = Some s"
    by (simp add: sign_tbs_def plain_info_def act_elims)
  with prims k have "ecdsa_ok E c k (sha256 E m) s" using classic_sign_correct(2) by blast
  with k show ?thesis by (simp add: verify_signature_def)
next
  fix h c k assume k: "key = ClassicKey h (EcdsaKey c k)" "alg = ECDSAP384"
  with run have "classic_sign E (tick w) h SHA384 (sha384 E m) = Some s"
    by (simp add: sign_tbs_def plain_info_def act_elims)
  with prims k have "ecdsa_ok E c k (sha384 E m) s" using classic_sign_correct(2) by blast
  with k show ?thesis by (simp add: verify_signature_def alg_defs)
next
  fix h k assume k: "key = ClassicKey h (Ed25519Key k)" "alg = Ed25519"
  with run have "classic_sign E (tick w) h NoHash m = Some s"
    by (simp add: sign_tbs_def plain_info_def act_elims)
  with prims k have "ed25519_ok E k m s" using classic_sign_correct(3) by blast
  with k show ?thesis by (simp add: verify_signature_def alg_defs)
next
  fix h n e assume "key = ClassicKey h (RsaKey n e)" "alg \<in> {RSA2048, RSA3072, RSA4096}"
  with run show ?thesis
    by (auto simp: sign_tbs_def)
next
  fix p sd k assume key: "key = MldsaPriv p sd k" and a: "alg \<in> {MLDSA44, MLDSA65, MLDSA87}"
  then have n: "alg \<notin> {ECDSAP256, ECDSAP384, Ed25519}" by (auto simp: alg_defs)
  obtain i where "lookup_alg alg = Inr i" "i_hash i = NoHash" "\<not> i_key_only i" "\<not> i_verify_only i"
    using lookup_alg_message a by blast
  with key prims run have "mldsa_ok E p k m s []" by (auto simp: sign_tbs_def act_elims)
  with key a n show ?thesis by (auto simp: verify_signature_def)
next
  fix p sd k t q assume key: "key = CompositePriv alg p sd k t" and q: "map_of composite_profiles alg = Some q"
  then have a: "alg = CompositeMLDSA65ECDSAP256 \<or> alg = CompositeMLDSA44Ed25519"
    using composite_profiles_Some [OF q] by auto
  then have n: "alg \<notin> {ECDSAP256, ECDSAP384, Ed25519, MLDSA44, MLDSA65, MLDSA87}" by (auto simp: alg_defs)
  obtain i where "lookup_alg alg = Inr i" "i_hash i = NoHash" "\<not> i_key_only i" "\<not> i_verify_only i"
    using lookup_alg_message q by blast
  with key run have "composite_sign E alg p sd t NoHash m w = (Inr s, w')"
    by (auto simp: sign_tbs_def)
  with wf prims key have "composite_verify E alg p k (public_of t) m s = Inr ()"
    by (metis composite_sign_verifies)
  with key a n show ?thesis by (auto simp: verify_signature_def)
qed

text \<open>
  Claim C30: a signature the program makes over a to-be-signed structure (a certificate, a CRL, a
  CSR, an audit hash) verifies under the public half of the key, for every algorithm including the
  composite ones, whenever the libraries' own signatures verify.
\<close>

theorem sign_tbs_verifies:
  assumes "wf_key key" and "algorithm_for_key (public_of key) = Inr alg"
    and "prims_correct E key" and "sign_tbs E key alg m w = (Inr s, w')"
  shows "verify_signature E (public_of key) alg m s = Inr ()"
  using assms by (rule sign_tbs_sound)

theorem sign_tbs_verifies_witness:
  "sign_tbs sample_env sample_key Ed25519 ''m'' empty_world = (Inr ''sm'', advance empty_world) \<and>
   verify_signature sample_env (public_of sample_key) Ed25519 ''m'' ''sm'' = Inr ()"
proof -
  have run: "sign_tbs sample_env sample_key Ed25519 ''m'' empty_world = (Inr ''sm'', advance empty_world)"
    by (simp add: sign_tbs_def sample_key_def sample_env_def plain_info_def prim_sign_def)
  have "prims_correct sample_env sample_key"
    by (simp add: sample_key_def sample_env_def)
  with run show ?thesis
    using sign_tbs_verifies [of sample_key Ed25519 sample_env] by (simp add: sample_key_def)
qed

text \<open>
  RSA is verify-only. A key-only or verify-only algorithm never signs: the call fails
  whatever the key, without calling the signer.
\<close>

theorem rsa_never_signs:
  assumes "alg \<in> {RSA2048, RSA3072, RSA4096, RSASHA256, RSASHA384, RSASHA512}"
  shows "\<exists>e. sign_tbs E key alg m w = (Inl e, w)"
proof -
  have "\<exists>i. lookup_alg alg = Inr i \<and> (i_key_only i \<or> i_verify_only i)"
    using assms by auto
  then show ?thesis by (auto simp: sign_tbs_def)
qed

theorem rsa_never_signs_witness:
  "\<exists>e. sign_tbs sample_env sample_key RSA2048 ''m'' empty_world = (Inl e, empty_world)"
  by (rule rsa_never_signs) simp

text \<open>
  Claim C29: a composite signature verifies only if both of its components do: the ML-DSA part over
  the domain-separated message under the label as context, and the classical part over the same
  message.
\<close>

theorem composite_needs_both:
  assumes "composite_verify E alg par pk trad m sg = Inr ()"
  shows "\<exists>p mp n. map_of composite_profiles alg = Some p \<and>
    mp = composite_prefix @ cp_label p @ [CHR 0x00] @ digest_of E (cp_prehash p) m \<and>
    n < length sg \<and> mldsa_ok E par pk mp (take n sg) (cp_label p) \<and>
    ((\<exists>c k. trad = EcdsaKey c k \<and> ecdsa_ok E c k (sha256 E mp) (drop n sg)) \<or>
     (\<exists>k. trad = Ed25519Key k \<and> ed25519_ok E k mp (drop n sg)))"
proof -
  obtain p where p: "map_of composite_profiles alg = Some p"
    using assms by (auto simp: composite_verify_def split: option.splits)
  let ?n = "mldsa_sig_size E (the (mldsa_name (cp_mldsa p)))"
  have len: "?n < length sg"
    using assms by (auto simp: composite_verify_def p Let_def not_le split: if_splits)
  obtain mp where mp: "message_prime E p m = Inr mp"
    using assms len by (auto simp: composite_verify_def p Let_def not_le act_elims)
  then have "mp = composite_prefix @ cp_label p @ [CHR 0x00] @ digest_of E (cp_prehash p) m"
    by (auto simp: message_prime_def split: if_splits)
  moreover have ok: "mldsa_ok E par pk mp (take ?n sg) (cp_label p)"
    by (rule ccontr) (use assms len mp in \<open>simp add: composite_verify_def p Let_def\<close>)
  moreover have "(\<exists>c k. trad = EcdsaKey c k \<and> ecdsa_ok E c k (sha256 E mp) (drop ?n sg)) \<or>
     (\<exists>k. trad = Ed25519Key k \<and> ed25519_ok E k mp (drop ?n sg))"
    using assms len mp ok
    by (cases trad) (simp_all add: composite_verify_def p Let_def split: if_splits)
  ultimately show ?thesis using p len by blast
qed

theorem composite_needs_both_witness:
  "\<exists>p mp n. map_of composite_profiles CompositeMLDSA44Ed25519 = Some p \<and>
    mp = composite_prefix @ cp_label p @ [CHR 0x00] @ digest_of sample_env (cp_prehash p) ''m'' \<and>
    n < length (''sign'' @ CHR ''s'' # composite_prefix @ ''COMPSIG-MLDSA44-Ed25519-SHA512'' @ [CHR 0x00] @ ''m'') \<and>
    mldsa_ok sample_env ''ML-DSA-44'' ''pk'' mp
      (take n (''sign'' @ CHR ''s'' # composite_prefix @ ''COMPSIG-MLDSA44-Ed25519-SHA512'' @ [CHR 0x00] @ ''m''))
      (cp_label p) \<and>
    ((\<exists>c k. Ed25519Key ''t'' = EcdsaKey c k \<and> ecdsa_ok sample_env c k (sha256 sample_env mp)
        (drop n (''sign'' @ CHR ''s'' # composite_prefix @ ''COMPSIG-MLDSA44-Ed25519-SHA512'' @ [CHR 0x00] @ ''m''))) \<or>
     (\<exists>k. Ed25519Key ''t'' = Ed25519Key k \<and> ed25519_ok sample_env k mp
        (drop n (''sign'' @ CHR ''s'' # composite_prefix @ ''COMPSIG-MLDSA44-Ed25519-SHA512'' @ [CHR 0x00] @ ''m''))))"
  by (rule composite_needs_both)
    (simp add: composite_verify_def composite_profiles_def alg_defs sample_env_def message_prime_def digest_of_def)

end
