(* ===== verification/Key_Refs.thy ===== *)
theory Key_Refs
  imports Store
begin

text \<open>
  Key references (internal/signer/signer.go, pkcs11.go, softkey.go, storekey.go): the scheme of a
  reference, the PKCS 11 form with its parser, and the file path a software key's reference names.
\<close>

type_synonym key_ref = string

definition scheme_of :: "key_ref \<Rightarrow> string" where
  "scheme_of r = (case cut_at (CHR '':'') r of None \<Rightarrow> [] | Some (s, _) \<Rightarrow> s)"

section \<open>PKCS 11 references\<close>

definition pkcs11_scheme :: string where
  "pkcs11_scheme = ''pkcs11''"

definition check_ref_part :: "string \<Rightarrow> string \<Rightarrow> err + unit" where
  "check_ref_part name val =
     (if val = [] then Inl (errorf (''pkcs11: key reference '' @ name @ '' must not be empty''))
      else if CHR '';'' \<in> set val
      then Inl (errorf (''pkcs11: key reference '' @ name @ '' '' @ quoted val @ '' must not contain ';'' @ [CHR 0x27]))
      else Inr ())"

definition format_pkcs11_ref :: "string \<Rightarrow> string \<Rightarrow> string \<Rightarrow> err + key_ref" where
  "format_pkcs11_ref module token label =
     sbind (sfold (\<lambda>_ (n, v). check_ref_part n v) ()
       [(''module'', module), (''token'', token), (''label'', label)])
     (\<lambda>_. Inr (pkcs11_scheme @ '':module='' @ module @ '';token='' @ token @ '';label='' @ label))"

text \<open>The attributes read so far: those seen, and the three values.\<close>

type_synonym ref_parts = "string list \<times> string \<times> string \<times> string"

definition parse_ref_part :: "key_ref \<Rightarrow> ref_parts \<Rightarrow> string \<Rightarrow> err + ref_parts" where
  "parse_ref_part ref st part = (case st of (seen, m, t, l) \<Rightarrow>
     (case cut_at (CHR ''='') part of
        None \<Rightarrow> Inl (errorf (''pkcs11: malformed component '' @ quoted part @ '' in key reference '' @ quoted ref))
      | Some (k, v) \<Rightarrow>
         if v = [] then Inl (errorf (''pkcs11: malformed component '' @ quoted part @ '' in key reference '' @ quoted ref))
         else if k \<in> set seen
         then Inl (errorf (''pkcs11: duplicate attribute '' @ quoted k @ '' in key reference '' @ quoted ref))
         else if k = ''module'' then Inr (k # seen, v, t, l)
         else if k = ''token'' then Inr (k # seen, m, v, l)
         else if k = ''label'' then Inr (k # seen, m, t, v)
         else Inl (errorf (''pkcs11: unknown attribute '' @ quoted k @ '' in key reference '' @ quoted ref))))"

definition parse_pkcs11_ref :: "key_ref \<Rightarrow> err + string \<times> string \<times> string" where
  "parse_pkcs11_ref ref =
     (if scheme_of ref \<noteq> pkcs11_scheme
      then Inl (errorf (''pkcs11: not a pkcs11 key reference: '' @ quoted ref))
      else sbind (sfold (parse_ref_part ref) ([], [], [], [])
             (split_at (CHR '';'') (trim_prefix ref (pkcs11_scheme @ '':''))))
        (\<lambda>(seen, m, t, l).
           if m = [] \<or> t = [] \<or> l = []
           then Inl (errorf (''pkcs11: key reference '' @ quoted ref @ '' must carry module, token, and label''))
           else Inr (m, t, l)))"

lemma cut_at_key: "CHR ''='' \<notin> set k \<Longrightarrow> cut_at (CHR ''='') (k @ CHR ''='' # v) = Some (k, v)"
  by (rule cut_at_append)

lemma format_pkcs11_Inr:
  "format_pkcs11_ref m t l = Inr r \<longleftrightarrow>
     m \<noteq> [] \<and> t \<noteq> [] \<and> l \<noteq> [] \<and> CHR '';'' \<notin> set m \<and> CHR '';'' \<notin> set t \<and> CHR '';'' \<notin> set l \<and>
     r = pkcs11_scheme @ '':module='' @ m @ '';token='' @ t @ '';label='' @ l"
  by (auto simp: format_pkcs11_ref_def check_ref_part_def)

lemma split_ref_body:
  assumes "CHR '';'' \<notin> set m" "CHR '';'' \<notin> set t" "CHR '';'' \<notin> set l"
  shows "split_at (CHR '';'') (''module='' @ m @ '';token='' @ t @ '';label='' @ l) =
    [''module='' @ m, ''token='' @ t, ''label='' @ l]"
proof -
  have "split_at (CHR '';'') ((''module='' @ m) @ CHR '';'' # (''token='' @ t) @ CHR '';'' # (''label='' @ l)) =
    [''module='' @ m, ''token='' @ t, ''label='' @ l]"
    using assms by (subst split_at_append, simp, subst split_at_append, simp, subst split_at_single, simp_all)
  then show ?thesis by simp
qed

text \<open>
  A PKCS 11 reference the program formats parses back to the same module, token and key
  label; in particular an equals sign in a value does not confuse the parser.
\<close>

theorem pkcs11_ref_round_trip:
  assumes "format_pkcs11_ref module token label = Inr r"
  shows "parse_pkcs11_ref r = Inr (module, token, label)"
proof -
  have ne: "module \<noteq> []" "token \<noteq> []" "label \<noteq> []"
    and sc: "CHR '';'' \<notin> set module" "CHR '';'' \<notin> set token" "CHR '';'' \<notin> set label"
    and r: "r = pkcs11_scheme @ '':module='' @ module @ '';token='' @ token @ '';label='' @ label"
    using assms by (simp_all add: format_pkcs11_Inr)
  have "scheme_of r = pkcs11_scheme"
    by (simp add: scheme_of_def r pkcs11_scheme_def)
  moreover have tp: "trim_prefix r (pkcs11_scheme @ '':'') = ''module='' @ module @ '';token='' @ token @ '';label='' @ label"
    using trim_prefix_append [of "pkcs11_scheme @ '':''"] by (simp add: r)
  have "split_at (CHR '';'') (trim_prefix r (pkcs11_scheme @ '':'')) =
    [''module='' @ module, ''token='' @ token, ''label='' @ label]"
    by (simp only: tp split_ref_body [OF sc])
  ultimately show ?thesis
    using ne by (simp add: parse_pkcs11_ref_def parse_ref_part_def)
qed

theorem pkcs11_ref_round_trip_witness:
  "format_pkcs11_ref ''/lib/hsm.so'' ''tok=1'' ''root'' = Inr ''pkcs11:module=/lib/hsm.so;token=tok=1;label=root'' \<and>
   parse_pkcs11_ref ''pkcs11:module=/lib/hsm.so;token=tok=1;label=root'' = Inr (''/lib/hsm.so'', ''tok=1'', ''root'')"
proof -
  have f: "format_pkcs11_ref ''/lib/hsm.so'' ''tok=1'' ''root'' =
    Inr ''pkcs11:module=/lib/hsm.so;token=tok=1;label=root''"
    by (simp add: format_pkcs11_Inr pkcs11_scheme_def)
  show ?thesis using f pkcs11_ref_round_trip [OF f] by simp
qed

text \<open>An accepted reference has exactly one value for each attribute, none of them empty.\<close>

lemma parse_pkcs11_nonempty:
  "parse_pkcs11_ref r = Inr (m, t, l) \<Longrightarrow> m \<noteq> [] \<and> t \<noteq> [] \<and> l \<noteq> [] \<and> scheme_of r = pkcs11_scheme"
  by (auto simp: parse_pkcs11_ref_def act_elims split: if_splits prod.splits)

section \<open>Paths of software keys\<close>

text \<open>
  \<open>filepath.Clean\<close> on the elements of a slash-separated path: empty and dot elements go, a
  dot-dot removes the element before it, or stays at the front of a relative path.  The
  accumulator is the output in reverse.
\<close>

definition dot :: string where
  "dot = ''.''"

definition dotdot :: string where
  "dotdot = ''..''"

fun clean_elems :: "bool \<Rightarrow> string list \<Rightarrow> string list \<Rightarrow> string list" where
  "clean_elems rooted out [] = rev out"
| "clean_elems rooted out (e # es) =
     (if e = [] \<or> e = dot then clean_elems rooted out es
      else if e = dotdot then
        (case out of
           x # xs \<Rightarrow> if x = dotdot then clean_elems rooted (e # out) es else clean_elems rooted xs es
         | [] \<Rightarrow> if rooted then clean_elems rooted [] es else clean_elems rooted [e] es)
      else clean_elems rooted (e # out) es)"

definition is_abs :: "string \<Rightarrow> bool" where
  "is_abs p \<longleftrightarrow> has_prefix p ''/''"

definition clean_path :: "string \<Rightarrow> string" where
  "clean_path p = (let es = clean_elems (is_abs p) [] (split_at (CHR ''/'') p) in
     if is_abs p then CHR ''/'' # join_with ''/'' es
     else if es = [] then dot else join_with ''/'' es)"

text \<open>\<open>Softkey.path\<close> up to the join with the key directory: the cleaned path under it.\<close>

definition softkey_rel :: "key_ref \<Rightarrow> err + string" where
  "softkey_rel ref = (let clean = clean_path (trim_prefix ref ''softkey:'') in
     if is_abs clean \<or> clean = dotdot \<or> has_prefix clean ''../''
     then Inl (errorf (''softkey: invalid key reference '' @ quoted ref)) else Inr clean)"

text \<open>
  What cleaning keeps of its output stack: no element is empty, a dot or has a slash, dot-dots are
  only at the bottom, and a rooted path has none.
\<close>

definition clean_stack :: "bool \<Rightarrow> string list \<Rightarrow> bool" where
  "clean_stack rooted out \<longleftrightarrow> (\<forall>e \<in> set out. e \<noteq> [] \<and> e \<noteq> dot \<and> CHR ''/'' \<notin> set e) \<and>
     set (dropWhile (\<lambda>e. e \<noteq> dotdot) out) \<subseteq> {dotdot} \<and> (rooted \<longrightarrow> dotdot \<notin> set out)"

lemma split_at_no_sep: "e \<in> set (split_at c s) \<Longrightarrow> c \<notin> set e"
proof (induction s arbitrary: e)
  case (Cons x xs)
  obtain p ps where "split_at c xs = p # ps" using split_at_nonempty by (cases "split_at c xs") blast+
  with Cons show ?case by (cases "x = c") auto
qed simp

lemma clean_stack_Nil: "clean_stack r []"
  by (simp add: clean_stack_def)

lemma clean_stack_push:
  "clean_stack r out \<Longrightarrow> e \<notin> {[], dot, dotdot} \<Longrightarrow> CHR ''/'' \<notin> set e \<Longrightarrow> clean_stack r (e # out)"
  by (auto simp: clean_stack_def)

lemma clean_stack_pop: "clean_stack r (x # xs) \<Longrightarrow> x \<noteq> dotdot \<Longrightarrow> clean_stack r xs"
  by (simp add: clean_stack_def)

lemma clean_stack_up:
  "clean_stack False out \<Longrightarrow> out = [] \<or> hd out = dotdot \<Longrightarrow> clean_stack False (dotdot # out)"
  by (cases out) (auto simp: clean_stack_def dotdot_def dot_def)

lemma clean_stack_rooted: "clean_stack True (x # xs) \<Longrightarrow> x \<noteq> dotdot"
  by (auto simp: clean_stack_def)

lemma clean_elems_stack:
  "clean_stack rooted out \<Longrightarrow> \<forall>e \<in> set es. CHR ''/'' \<notin> set e \<Longrightarrow>
     clean_stack rooted (rev (clean_elems rooted out es))"
proof (induction rooted out es rule: clean_elems.induct)
  case (2 rooted out e es)
  show ?case
  proof (cases "e = [] \<or> e = dot \<or> e \<noteq> dotdot")
    case True
    with 2 show ?thesis by (cases "e = [] \<or> e = dot") (simp_all add: clean_stack_push)
  next
    case False
    then have e: "e = dotdot" "\<not> (e = [] \<or> e = dot)" by auto
    show ?thesis
    proof (cases out)
      case Nil
      with 2 e show ?thesis by (cases rooted) (simp_all add: clean_stack_Nil clean_stack_up)
    next
      case (Cons x xs)
      show ?thesis
      proof (cases "x = dotdot")
        case True
        with 2 Cons have "\<not> rooted" using clean_stack_rooted by (cases rooted) auto
        with 2 e Cons True show ?thesis by (simp add: clean_stack_up)
      next
        case False
        with 2 e Cons show ?thesis by (simp add: clean_stack_pop)
      qed
    qed
  qed
qed simp

lemma last_dotdot:
  "set (dropWhile (\<lambda>e. e \<noteq> dotdot) out) \<subseteq> {dotdot} \<Longrightarrow> dotdot \<in> set out \<Longrightarrow> last out = dotdot"
  by (induction out) (auto split: if_splits dest: last_in_set)

lemma join_dotdot: "es \<noteq> [] \<Longrightarrow> hd es = dotdot \<Longrightarrow> join_with ''/'' es = dotdot \<or> has_prefix (join_with ''/'' es) ''../''"
  by (cases "(''/'', es)" rule: join_with.cases) (auto simp: has_prefix_def dotdot_def)

text \<open>
  The file a software key reference names is inside the key directory: an accepted
  reference resolves to a relative path none of whose elements is a dot-dot.
\<close>

theorem softkey_path_contained:
  assumes "softkey_rel ref = Inr p"
  shows "\<exists>es. p = (if es = [] then dot else join_with ''/'' es) \<and>
    (\<forall>e \<in> set es. e \<noteq> [] \<and> e \<noteq> dot \<and> e \<noteq> dotdot \<and> CHR ''/'' \<notin> set e)"
proof -
  define q where "q = trim_prefix ref ''softkey:''"
  define es where "es = clean_elems (is_abs q) [] (split_at (CHR ''/'') q)"
  have st: "clean_stack (is_abs q) (rev es)"
    unfolding es_def by (rule clean_elems_stack) (auto simp: clean_stack_def dest: split_at_no_sep)
  have p: "p = clean_path q" and na: "\<not> is_abs p" and nd: "p \<noteq> dotdot" "\<not> has_prefix p ''../''"
    using assms by (auto simp: softkey_rel_def Let_def q_def split: if_splits)
  have "\<not> is_abs q"
    using na p by (auto simp: clean_path_def Let_def is_abs_def has_prefix_def)
  then have pe: "p = (if es = [] then dot else join_with ''/'' es)"
    unfolding p clean_path_def es_def Let_def by simp
  have "dotdot \<notin> set es"
  proof
    assume "dotdot \<in> set es"
    then have "es \<noteq> []" "hd es = dotdot"
      using st last_dotdot [of "rev es"] by (auto simp: clean_stack_def hd_rev [symmetric] last_rev)
    with join_dotdot [of es] pe nd show False by auto
  qed
  with st pe show ?thesis by (auto simp: clean_stack_def)
qed

theorem softkey_path_contained_witness:
  "softkey_rel ''softkey:tenants/../root/primary.key'' = Inr ''root/primary.key'' \<and>
   (\<exists>es. ''root/primary.key'' = (if es = [] then dot else join_with ''/'' es) \<and>
     (\<forall>e \<in> set es. e \<noteq> [] \<and> e \<noteq> dot \<and> e \<noteq> dotdot \<and> CHR ''/'' \<notin> set e))"
proof -
  have r: "softkey_rel ''softkey:tenants/../root/primary.key'' = Inr ''root/primary.key''"
    by (simp add: softkey_rel_def clean_path_def is_abs_def has_prefix_def trim_prefix_def Let_def dot_def dotdot_def)
  show ?thesis using r softkey_path_contained [OF r] by blast
qed

lemma softkey_rejects_escape: "softkey_rel ''softkey:../../etc/shadow'' = Inl (errorf (''softkey: invalid key reference '' @ quoted ''softkey:../../etc/shadow''))"
  by (simp add: softkey_rel_def clean_path_def is_abs_def has_prefix_def trim_prefix_def Let_def dot_def dotdot_def)

text \<open>\<open>Storekey.label\<close>: the part of a reference after its scheme.\<close>

definition storekey_label :: "key_ref \<Rightarrow> err + string" where
  "storekey_label ref = (let label = trim_prefix ref ''storekey:'' in
     if label = [] \<or> label = ref then Inl (errorf (''storekey: invalid key reference '' @ quoted ref))
     else Inr label)"

lemma storekey_label_ref: "label \<noteq> [] \<Longrightarrow> storekey_label (''storekey:'' @ label) = Inr label"
  using trim_prefix_append [of "''storekey:''" label] by (simp add: storekey_label_def Let_def)

end
