(* ===== verification/Signer.thy ===== *)
theory Signer
  imports Pkix_Keys Key_Refs
begin

text \<open>
  The signing backends (internal/signer): the encrypted envelope, the serialisation of key material,
  the software backend over key files, the store-backed one over documents, and the registry that
  routes references to backends.
\<close>

section \<open>Envelopes\<close>

record envelope =
  env_version :: int
  env_algorithm :: algorithm
  env_kdf :: string
  env_n :: int
  env_r :: int
  env_p :: int
  env_salt :: string
  env_nonce :: string
  env_ciphertext :: string

definition envelope_json :: "envelope \<Rightarrow> json" where
  "envelope_json v = JObj (fld ''version'' (JNum (env_version v)) @ fld ''algorithm'' (JStr (env_algorithm v)) @
     fld ''kdf'' (JStr (env_kdf v)) @ fld ''scrypt_n'' (JNum (env_n v)) @ fld ''scrypt_r'' (JNum (env_r v)) @
     fld ''scrypt_p'' (JNum (env_p v)) @ fld ''salt'' (bytes_json (env_salt v)) @
     fld ''nonce'' (bytes_json (env_nonce v)) @ fld ''ciphertext'' (bytes_json (env_ciphertext v)))"

definition envelope_of :: "json \<Rightarrow> envelope option" where
  "envelope_of j = do { fs \<leftarrow> of_obj j;
     ver \<leftarrow> of_int (jget fs ''version''); alg \<leftarrow> of_str (jget fs ''algorithm''); kdf \<leftarrow> of_str (jget fs ''kdf'');
     n \<leftarrow> of_int (jget fs ''scrypt_n''); r \<leftarrow> of_int (jget fs ''scrypt_r''); p \<leftarrow> of_int (jget fs ''scrypt_p'');
     salt \<leftarrow> of_bytes (jget fs ''salt''); nonce \<leftarrow> of_bytes (jget fs ''nonce'');
     ct \<leftarrow> of_bytes (jget fs ''ciphertext'');
     Some \<lparr>env_version = ver, env_algorithm = alg, env_kdf = kdf, env_n = n, env_r = r, env_p = p,
       env_salt = salt, env_nonce = nonce, env_ciphertext = ct\<rparr> }"

lemma envelope_of_json [simp]: "envelope_of (envelope_json v) = Some v"
  by (simp add: envelope_of_def envelope_json_def json_simps)

definition zero_envelope :: envelope where
  "zero_envelope = \<lparr>env_version = 0, env_algorithm = [], env_kdf = [], env_n = 0, env_r = 0, env_p = 0,
     env_salt = [], env_nonce = [], env_ciphertext = []\<rparr>"

definition gcm_nonce_size :: nat where
  "gcm_nonce_size = 12"

definition seal_envelope :: "'x cenv_scheme \<Rightarrow> string \<Rightarrow> algorithm \<Rightarrow> string \<Rightarrow> envelope act" where
  "seal_envelope E passphrase alg plaintext =
     ebind (rand_read E 32) (\<lambda>salt.
     case scrypt E passphrase salt 32768 8 1 of
       None \<Rightarrow> fail (errorf ''scrypt: parameters are too large'')
     | Some kek \<Rightarrow> ebind (rand_read E gcm_nonce_size) (\<lambda>nonce.
         ret \<lparr>env_version = 1, env_algorithm = alg, env_kdf = ''scrypt'', env_n = 32768, env_r = 8, env_p = 1,
           env_salt = salt, env_nonce = nonce, env_ciphertext = gcm_seal E kek nonce plaintext alg\<rparr>))"

definition unseal_envelope :: "'x cenv_scheme \<Rightarrow> string \<Rightarrow> envelope \<Rightarrow> err + string" where
  "unseal_envelope E passphrase v =
     (if env_kdf v \<noteq> ''scrypt'' \<or> env_version v \<noteq> 1 then Inl (errorf ''softkey: unsupported envelope version/KDF'')
      else case scrypt E passphrase (env_salt v) (env_n v) (env_r v) (env_p v) of
        None \<Rightarrow> Inl (errorf ''scrypt: parameters are too large'')
      | Some kek \<Rightarrow> (case gcm_open E kek (env_nonce v) (env_ciphertext v) (env_algorithm v) of
          None \<Rightarrow> Inl (errorf ''softkey: decryption failed (wrong passphrase or tampered file)'')
        | Some m \<Rightarrow> Inr m))"

section \<open>Key material\<close>

text \<open>The seed of an ML-DSA key has 32 bytes (\<open>mldsa.PrivateKeySize\<close>).\<close>

definition mldsa_seed_size :: nat where
  "mldsa_seed_size = 32"

definition new_mldsa_private_key :: "'x cenv_scheme \<Rightarrow> algorithm \<Rightarrow> string \<Rightarrow> err + private_key" where
  "new_mldsa_private_key E alg seed = (case mldsa_name alg of
     None \<Rightarrow> Inl (errorf (''pkix: '' @ quoted alg @ '' is not an ML-DSA algorithm''))
   | Some par \<Rightarrow> (case mldsa_expand E par seed of
       None \<Rightarrow> Inl (errorf ''mldsa: invalid seed length'') | Some pk \<Rightarrow> Inr (MldsaPriv par seed pk)))"

definition pkcs8_marshal :: "'x cenv_scheme \<Rightarrow> private_key \<Rightarrow> err + string" where
  "pkcs8_marshal E key = (case pkcs8_of E key of None \<Rightarrow> Inl (errorf ''x509: unknown key type'') | Some d \<Rightarrow> Inr d)"

definition pkcs8_unmarshal :: "'x cenv_scheme \<Rightarrow> string \<Rightarrow> err + private_key" where
  "pkcs8_unmarshal E d = (case pkcs8_parse E d of None \<Rightarrow> Inl (errorf ''x509: failed to parse private key'') | Some k \<Rightarrow> Inr k)"

fun marshal_key_material :: "'x cenv_scheme \<Rightarrow> private_key \<Rightarrow> err + string" where
  "marshal_key_material E (MldsaPriv p seed pk) = Inr seed"
| "marshal_key_material E (CompositePriv a p seed pk t) = sbind (pkcs8_marshal E t) (\<lambda>d.
     Inr (seed @ [char_of (length d div 256), char_of (length d)] @ d))"
| "marshal_key_material E (ClassicKey h pub) = pkcs8_marshal E (ClassicKey h pub)"

definition unmarshal_composite :: "'x cenv_scheme \<Rightarrow> algorithm \<Rightarrow> string \<Rightarrow> err + private_key" where
  "unmarshal_composite E alg material =
     (if length material < mldsa_seed_size + 2 then Inl (errorf ''softkey: composite key material too short'')
      else (let seed = take mldsa_seed_size material; rest = drop mldsa_seed_size material;
              tl = of_char (rest ! 0) * 256 + of_char (rest ! 1) in
        if length rest \<noteq> 2 + tl then Inl (errorf ''softkey: composite key material length mismatch'')
        else if alg \<noteq> CompositeMLDSA65ECDSAP256 \<and> alg \<noteq> CompositeMLDSA44Ed25519
        then Inl (errorf (''softkey: unknown composite '' @ quoted alg))
        else sbind (new_mldsa_private_key E (if alg = CompositeMLDSA65ECDSAP256 then MLDSA65 else MLDSA44) seed)
          (\<lambda>mk. sbind (pkcs8_unmarshal E (drop 2 rest)) (\<lambda>trad. new_composite_key alg mk trad))))"

definition unmarshal_key_material :: "'x cenv_scheme \<Rightarrow> algorithm \<Rightarrow> string \<Rightarrow> err + private_key" where
  "unmarshal_key_material E alg material = sbind (lookup_alg alg) (\<lambda>i.
     if i_hybrid i then unmarshal_composite E alg material
     else if i_pq i then new_mldsa_private_key E alg material
     else pkcs8_unmarshal E material)"

text \<open>
  What the key libraries promise of a key: PKCS 8 of a classical key parses back, an ML-DSA key is
  determined by its 32-byte seed.
\<close>

fun material_ok :: "'x cenv_scheme \<Rightarrow> private_key \<Rightarrow> bool" where
  "material_ok E (ClassicKey h pub) \<longleftrightarrow> (\<exists>d. pkcs8_of E (ClassicKey h pub) = Some d \<and> pkcs8_parse E d = Some (ClassicKey h pub))"
| "material_ok E (MldsaPriv p seed pk) \<longleftrightarrow> length seed = mldsa_seed_size \<and> mldsa_expand E p seed = Some pk"
| "material_ok E (CompositePriv a p seed pk t) \<longleftrightarrow> length seed = mldsa_seed_size \<and> mldsa_expand E p seed = Some pk \<and>
     (\<exists>d. pkcs8_of E t = Some d \<and> pkcs8_parse E d = Some t)"

lemma two_byte_length: "n < 65536 \<Longrightarrow> of_char (char_of (n div 256)) * 256 + of_char (char_of n) = (n :: nat)"
  by (simp add: less_mult_imp_div_less)

lemma mldsa_name_of_key:
  "algorithm_for_key (MldsaKey p pk) = Inr alg \<Longrightarrow> mldsa_name alg = Some p"
  by (auto simp: mldsa_name_def alg_defs split: if_splits)

text \<open>Key material is read back, by the kinds of key.\<close>

lemma key_material_sound:
  assumes wf: "wf_key key" and alg: "algorithm_for_key (public_of key) = Inr alg"
    and lib: "material_ok E key" and m: "marshal_key_material E key = Inr material"
    and fits: "\<And>a p sd k t d. key = CompositePriv a p sd k t \<Longrightarrow> pkcs8_of E t = Some d \<Longrightarrow> length d < 65536"
  shows "unmarshal_key_material E alg material = Inr key"
proof (cases key)
  case (ClassicKey h pub)
  have "\<exists>i. lookup_alg alg = Inr i \<and> \<not> i_hybrid i \<and> \<not> i_pq i"
    using wf_key_cases [OF wf alg] ClassicKey by (auto simp: plain_info_def)
  with ClassicKey lib m show ?thesis
    by (auto simp: unmarshal_key_material_def pkcs8_marshal_def pkcs8_unmarshal_def split: option.splits)
next
  case (MldsaPriv p seed pk)
  then have n: "mldsa_name alg = Some p" using alg mldsa_name_of_key by simp
  have "\<exists>i. lookup_alg alg = Inr i \<and> \<not> i_hybrid i \<and> i_pq i"
    using wf_key_cases [OF wf alg] MldsaPriv by (auto simp: plain_info_def)
  with MldsaPriv lib m n show ?thesis
    by (auto simp: unmarshal_key_material_def new_mldsa_private_key_def)
next
  case (CompositePriv a p seed pk t)
  with alg have a: "a = alg" by simp
  obtain q where q: "map_of composite_profiles alg = Some q" "algorithm_for_key (MldsaKey p pk) = Inr (cp_mldsa q)"
    and tk: "algorithm_for_key (public_of t) = Inr (cp_trad q)"
    using wf CompositePriv a by auto
  obtain d where d: "pkcs8_of E t = Some d" "pkcs8_parse E d = Some t" using lib CompositePriv by auto
  have len: "length d < 65536" using fits CompositePriv d by blast
  have mat: "material = seed @ [char_of (length d div 256), char_of (length d)] @ d"
    using m CompositePriv d by (simp add: pkcs8_marshal_def)
  have sl: "length seed = mldsa_seed_size" and ex: "mldsa_expand E p seed = Some pk"
    using lib CompositePriv by auto
  have al: "(alg = CompositeMLDSA65ECDSAP256 \<and> cp_mldsa q = MLDSA65) \<or> (alg = CompositeMLDSA44Ed25519 \<and> cp_mldsa q = MLDSA44)"
    using composite_profiles_Some [OF q(1)] by auto
  have "\<exists>i. lookup_alg alg = Inr i \<and> i_hybrid i" using al by (auto simp: plain_info_def)
  moreover have "new_mldsa_private_key E (if alg = CompositeMLDSA65ECDSAP256 then MLDSA65 else MLDSA44) seed =
      Inr (MldsaPriv p seed pk)"
    using al mldsa_name_of_key [OF q(2)] ex by (auto simp: new_mldsa_private_key_def alg_defs)
  ultimately show ?thesis
    using q tk d al sl two_byte_length [OF len] CompositePriv a
    by (auto simp: unmarshal_key_material_def unmarshal_composite_def mat Let_def pkcs8_unmarshal_def
        new_composite_key_def)
qed

text \<open>
  Key material written to an envelope is read back as the same key, for every kind of key
  the program generates; a composite key needs its classical part's PKCS 8 form to fit the two-byte
  length prefix.
\<close>

theorem key_material_round_trip:
  assumes "wf_key key" and "algorithm_for_key (public_of key) = Inr alg"
    and "material_ok E key" and "marshal_key_material E key = Inr material"
    and "\<And>a p sd k t d. key = CompositePriv a p sd k t \<Longrightarrow> pkcs8_of E t = Some d \<Longrightarrow> length d < 65536"
  shows "unmarshal_key_material E alg material = Inr key"
  using assms by (rule key_material_sound)

theorem key_material_round_trip_witness:
  "marshal_key_material sample_env sample_key = Inr ''k'' \<and>
   unmarshal_key_material sample_env Ed25519 ''k'' = Inr sample_key"
proof -
  have m: "marshal_key_material sample_env sample_key = Inr ''k''"
    by (simp add: sample_key_def sample_env_def pkcs8_marshal_def)
  have "unmarshal_key_material sample_env Ed25519 ''k'' = Inr sample_key"
    by (rule key_material_round_trip [OF _ _ _ m]) (simp_all add: sample_key_def sample_env_def)
  with m show ?thesis by blast
qed

end
