(* ===== verification/Backends.thy ===== *)
theory Backends
  imports Signer
begin

text \<open>
  The key backends (internal/signer/softkey.go, storekey.go, pkcs11_nocgo.go, stubs.go) and the
  registry.  Software keys are envelopes in files under the key directory, store keys are envelopes
  in documents; the PKCS 11 backend is the one of builds without cgo.
\<close>

section \<open>Key generation\<close>

definition classic_generate :: "'x cenv_scheme \<Rightarrow> algorithm \<Rightarrow> private_key act" where
  "classic_generate E alg w = (case classic_gen E (tick w) alg of
     None \<Rightarrow> (Inl (errorf ''crypto: key generation failed''), advance w) | Some k \<Rightarrow> (Inr k, advance w))"

definition mldsa_generate :: "'x cenv_scheme \<Rightarrow> algorithm \<Rightarrow> private_key act" where
  "mldsa_generate E alg = ebind (rand_read E mldsa_seed_size) (\<lambda>seed. lift_sum (new_mldsa_private_key E alg seed))"

definition generate_composite_key :: "'x cenv_scheme \<Rightarrow> algorithm \<Rightarrow> algorithm \<Rightarrow> algorithm \<Rightarrow> private_key act" where
  "generate_composite_key E alg mldsa_alg trad_alg =
     ebind (mldsa_generate E mldsa_alg) (\<lambda>mk.
     ebind (classic_generate E trad_alg) (\<lambda>tk.
       case mk of MldsaPriv p seed pk \<Rightarrow> ret (CompositePriv alg p seed pk tk)
       | _ \<Rightarrow> fail (errorf ''pkix: not an ML-DSA key'')))"

definition generate_key :: "'x cenv_scheme \<Rightarrow> algorithm \<Rightarrow> private_key act" where
  "generate_key E alg =
     (if alg \<in> {ECDSAP256, ECDSAP384, Ed25519} then classic_generate E alg
      else if alg \<in> {MLDSA44, MLDSA65, MLDSA87} then mldsa_generate E alg
      else if alg \<in> {RSA2048, RSA3072, RSA4096} then classic_generate E alg
      else if alg = CompositeMLDSA65ECDSAP256 then generate_composite_key E alg MLDSA65 ECDSAP256
      else if alg = CompositeMLDSA44Ed25519 then generate_composite_key E alg MLDSA44 Ed25519
      else fail (errorf (''pkix: cannot generate key for '' @ quoted alg)))"

record signer =
  sg_key :: private_key
  sg_alg :: algorithm

section \<open>Software keys\<close>

definition key_file :: "world \<Rightarrow> string \<Rightarrow> json option" where
  "key_file w path = map_of (key_files w) path"

definition write_key_file :: "'x cenv_scheme \<Rightarrow> string \<Rightarrow> json \<Rightarrow> unit act" where
  "write_key_file E path j = effect E (\<lambda>w. (Inr (), w\<lparr>key_files := AList.update path j (key_files w)\<rparr>))"

definition read_key_file :: "'x cenv_scheme \<Rightarrow> string \<Rightarrow> json act" where
  "read_key_file E path = effect E (\<lambda>w. case key_file w path of
     None \<Rightarrow> (Inl (errorf ''file does not exist''), w) | Some j \<Rightarrow> (Inr j, w))"

definition open_envelope :: "'x cenv_scheme \<Rightarrow> string \<Rightarrow> envelope \<Rightarrow> err + signer" where
  "open_envelope E pass v = sbind (unseal_envelope E pass v) (\<lambda>m.
     sbind (unmarshal_key_material E (env_algorithm v) m) (\<lambda>key.
       Inr \<lparr>sg_key = key, sg_alg = env_algorithm v\<rparr>))"

definition softkey_generate :: "'x cenv_scheme \<Rightarrow> string \<Rightarrow> algorithm \<Rightarrow> string \<Rightarrow> (signer \<times> key_ref) act" where
  "softkey_generate E pass alg label =
     ebind (generate_key E alg) (\<lambda>key.
     ebind (lift_sum (marshal_key_material E key)) (\<lambda>material.
     let ref = ''softkey:'' @ label @ ''.key'' in
     ebind (lift_sum (softkey_rel ref)) (\<lambda>path.
     ebind (reading (\<lambda>w. key_file w path)) (\<lambda>existing.
     if existing \<noteq> None then fail (errorf (''softkey: key '' @ quoted label @ '' already exists''))
     else ebind (seal_envelope E pass alg material) (\<lambda>v.
       ebind (write_key_file E path (envelope_json v)) (\<lambda>_.
         ret (\<lparr>sg_key = key, sg_alg = alg\<rparr>, ref)))))))"

definition softkey_open :: "'x cenv_scheme \<Rightarrow> string \<Rightarrow> key_ref \<Rightarrow> signer act" where
  "softkey_open E pass ref =
     ebind (lift_sum (softkey_rel ref)) (\<lambda>path.
     ebind (wrap_err (wrapf ''softkey: '') (read_key_file E path)) (\<lambda>data.
     case envelope_of data of None \<Rightarrow> fail (errorf ''softkey: corrupt envelope'')
     | Some v \<Rightarrow> lift_sum (open_envelope E pass v)))"

text \<open>
  The overwrite before the unlink is best effort: its errors are dropped, and when the unlink fails
  after it, the file is left with random bytes, which are no envelope.
\<close>

definition softkey_destroy :: "'x cenv_scheme \<Rightarrow> key_ref \<Rightarrow> unit act" where
  "softkey_destroy E ref =
     ebind (lift_sum (softkey_rel ref)) (\<lambda>path.
     ebind (read_key_file E path) (\<lambda>j.
     ebind (ecase (rand_read E (length (json_bytes E j))) (\<lambda>e. ret ())
       (\<lambda>junk. ecase (write_key_file E path (JBytes junk)) (\<lambda>e. ret ()) ret)) (\<lambda>_.
     effect E (\<lambda>w. case key_file w path of
         None \<Rightarrow> (Inl (errorf ''file does not exist''), w)
       | Some _ \<Rightarrow> (Inr (), w\<lparr>key_files := AList.delete path (key_files w)\<rparr>)))))"

section \<open>Store keys\<close>

definition keys_bucket :: bpath where
  "keys_bucket = [''keys'']"

text \<open>The update callback of \<open>Generate\<close>: an existing key is not replaced.\<close>

definition insert_key :: "string \<Rightarrow> envelope \<Rightarrow> envelope \<Rightarrow> envelope act" where
  "insert_key label v existing =
     (if env_version existing \<noteq> 0
      then fail (errorf (''storekey: key '' @ quoted label @ '' already exists''))
      else ret v)"

definition storekey_generate :: "'x cenv_scheme \<Rightarrow> string \<Rightarrow> algorithm \<Rightarrow> string \<Rightarrow> (signer \<times> key_ref) act" where
  "storekey_generate E pass alg label =
     (if label = [] then fail (errorf ''storekey: empty label'')
      else ebind (generate_key E alg) (\<lambda>key.
        ebind (lift_sum (marshal_key_material E key)) (\<lambda>material.
        ebind (seal_envelope E pass alg material) (\<lambda>v.
        ebind (update_json E envelope_of envelope_json zero_envelope keys_bucket label True (insert_key label v)) (\<lambda>_.
          ret (\<lparr>sg_key = key, sg_alg = alg\<rparr>, ''storekey:'' @ label))))))"

definition storekey_open :: "'x cenv_scheme \<Rightarrow> string \<Rightarrow> key_ref \<Rightarrow> signer act" where
  "storekey_open E pass ref =
     ebind (lift_sum (storekey_label ref)) (\<lambda>label.
     ebind (wrap_err (\<lambda>e. if is_not_found e then errorf (''storekey: key '' @ quoted label @ '' not found'')
                          else wrapf (''storekey: loading key '' @ quoted label @ '': '') e)
             (get_json E envelope_of keys_bucket label)) (\<lambda>v.
       lift_sum (open_envelope E pass v)))"

definition storekey_destroy :: "'x cenv_scheme \<Rightarrow> key_ref \<Rightarrow> unit act" where
  "storekey_destroy E ref = ebind (lift_sum (storekey_label ref)) (\<lambda>label. delete E keys_bucket label)"

section \<open>Backends and the registry\<close>

datatype backend = Softkey string | Storekey string | Pkcs11 | Kms

definition err_not_implemented :: err where
  "err_not_implemented = Err NotImplementedS ''signer: backend not implemented''"

definition pkcs11_requires_cgo :: err where
  "pkcs11_requires_cgo = Err NotImplementedS
     ''signer: backend not implemented: PKCS#11 HSM support requires a cgo-enabled build''"

definition new_softkey :: "string \<Rightarrow> err + backend" where
  "new_softkey pass = (if pass = [] then Inl (errorf ''softkey: empty passphrase'') else Inr (Softkey pass))"

definition new_storekey :: "string \<Rightarrow> err + backend" where
  "new_storekey pass = (if pass = [] then Inl (errorf ''storekey: empty passphrase'') else Inr (Storekey pass))"

fun backend_name :: "backend \<Rightarrow> string" where
  "backend_name (Softkey _) = ''softkey''"
| "backend_name (Storekey _) = ''storekey''"
| "backend_name Pkcs11 = pkcs11_scheme"
| "backend_name Kms = ''kms''"

fun backend_generate :: "'x cenv_scheme \<Rightarrow> backend \<Rightarrow> algorithm \<Rightarrow> string \<Rightarrow> (signer \<times> key_ref) act" where
  "backend_generate E (Softkey p) alg label = softkey_generate E p alg label"
| "backend_generate E (Storekey p) alg label = storekey_generate E p alg label"
| "backend_generate E Pkcs11 alg label = fail pkcs11_requires_cgo"
| "backend_generate E Kms alg label = fail err_not_implemented"

fun backend_open :: "'x cenv_scheme \<Rightarrow> backend \<Rightarrow> key_ref \<Rightarrow> signer act" where
  "backend_open E (Softkey p) ref = softkey_open E p ref"
| "backend_open E (Storekey p) ref = storekey_open E p ref"
| "backend_open E Pkcs11 ref = fail pkcs11_requires_cgo"
| "backend_open E Kms ref = fail err_not_implemented"

fun backend_destroy :: "'x cenv_scheme \<Rightarrow> backend \<Rightarrow> key_ref \<Rightarrow> unit act" where
  "backend_destroy E (Softkey p) ref = softkey_destroy E ref"
| "backend_destroy E (Storekey p) ref = storekey_destroy E ref"
| "backend_destroy E Pkcs11 ref = fail pkcs11_requires_cgo"
| "backend_destroy E Kms ref = fail err_not_implemented"

type_synonym signers = "(string \<times> backend) list"

definition new_registry :: "backend list \<Rightarrow> signers" where
  "new_registry bs = fold (\<lambda>b. AList.update (backend_name b) b) bs []"

definition registry_backend :: "signers \<Rightarrow> string \<Rightarrow> err + backend" where
  "registry_backend r name = (case map_of r name of
     None \<Rightarrow> Inl (errorf (''signer: unknown backend '' @ quoted name)) | Some b \<Rightarrow> Inr b)"

definition registry_open :: "'x cenv_scheme \<Rightarrow> signers \<Rightarrow> key_ref \<Rightarrow> signer act" where
  "registry_open E r ref = ebind (lift_sum (registry_backend r (scheme_of ref))) (\<lambda>b. backend_open E b ref)"

section \<open>What a backend keeps\<close>

text \<open>
  The laws of the key libraries: decryption under the key, nonce and associated data of the
  encryption gives the plaintext, and a generated classical key is of its algorithm, with a PKCS 8
  form that parses back and fits a two-byte length.
\<close>

definition key_libs :: "'x cenv_scheme \<Rightarrow> bool" where
  "key_libs E \<longleftrightarrow> (\<forall>k n d a. gcm_open E k n (gcm_seal E k n d a) a = Some d) \<and>
     (\<forall>n alg key. classic_gen E n alg = Some key \<longrightarrow> (\<exists>h pub d. key = ClassicKey h pub \<and>
        wf_key key \<and> algorithm_for_key pub = Inr alg \<and> pkcs8_of E key = Some d \<and> pkcs8_parse E d = Some key \<and>
        length d < 65536))"

definition fits_envelope :: "'x cenv_scheme \<Rightarrow> private_key \<Rightarrow> bool" where
  "fits_envelope E key \<longleftrightarrow> (\<forall>a p sd k t d. key = CompositePriv a p sd k t \<longrightarrow> pkcs8_of E t = Some d \<longrightarrow> length d < 65536)"

definition good_key :: "'x cenv_scheme \<Rightarrow> algorithm \<Rightarrow> private_key \<Rightarrow> bool" where
  "good_key E alg key \<longleftrightarrow> wf_key key \<and> algorithm_for_key (public_of key) = Inr alg \<and> material_ok E key \<and>
     fits_envelope E key"

lemma gcm_round_trip: "key_libs E \<Longrightarrow> gcm_open E k n (gcm_seal E k n d a) a = Some d"
  by (simp add: key_libs_def)

lemma classic_generate_good:
  "key_libs E \<Longrightarrow> classic_generate E alg w = (Inr key, w') \<Longrightarrow> good_key E alg key \<and> (\<exists>h pub. key = ClassicKey h pub)"
  by (fastforce simp: classic_generate_def key_libs_def good_key_def fits_envelope_def split: option.splits)

lemma mldsa_generate_good:
  assumes "mldsa_generate E alg w = (Inr key, w')"
  shows "good_key E alg key \<and> (\<exists>p s k. key = MldsaPriv p s k)"
proof -
  obtain seed w1 where seed: "rand_read E mldsa_seed_size w = (Inr seed, w1)"
    and k: "new_mldsa_private_key E alg seed = Inr key"
    using assms by (auto simp: mldsa_generate_def act_elims)
  obtain p pk where "mldsa_name alg = Some p" "mldsa_expand E p seed = Some pk" "key = MldsaPriv p seed pk"
    using k by (auto simp: new_mldsa_private_key_def split: option.splits)
  with length_rand_read [OF seed] show ?thesis
    by (auto simp: good_key_def fits_envelope_def mldsa_name_def split: if_splits)
qed

lemma composite_generate_good:
  assumes libs: "key_libs E" and run: "generate_composite_key E alg ma ta w = (Inr key, w')"
    and prof: "map_of composite_profiles alg = Some q" "cp_mldsa q = ma" "cp_trad q = ta"
  shows "good_key E alg key"
proof -
  obtain mk tk w1 w2 where mk: "mldsa_generate E ma w = (Inr mk, w1)" and tk: "classic_generate E ta w1 = (Inr tk, w2)"
    and key: "(case mk of MldsaPriv p seed pk \<Rightarrow> ret (CompositePriv alg p seed pk tk)
       | _ \<Rightarrow> fail (errorf ''pkix: not an ML-DSA key'')) w2 = (Inr key, w')"
    using run by (auto simp: generate_composite_key_def act_elims)
  obtain p seed pk where m: "mk = MldsaPriv p seed pk" "good_key E ma mk"
    using mldsa_generate_good [OF mk] by blast
  have "key = CompositePriv alg p seed pk tk" using key m by simp
  moreover obtain h pub where "tk = ClassicKey h pub" "good_key E ta tk" and "classic_gen E (tick w1) ta = Some tk"
    using classic_generate_good [OF libs tk] tk by (auto simp: classic_generate_def split: option.splits)
  moreover have "pkcs8_of E tk = Some d \<Longrightarrow> length d < 65536" for d
    using libs \<open>classic_gen E (tick w1) ta = Some tk\<close> by (fastforce simp: key_libs_def)
  ultimately show ?thesis
    using m prof by (auto simp: good_key_def fits_envelope_def)
qed

lemma generate_key_good:
  assumes libs: "key_libs E" and run: "generate_key E alg w = (Inr key, w')"
  shows "good_key E alg key"
proof (cases "alg \<in> {CompositeMLDSA65ECDSAP256, CompositeMLDSA44Ed25519}")
  case True
  then have "\<exists>q ma ta. generate_composite_key E alg ma ta w = (Inr key, w') \<and> map_of composite_profiles alg = Some q \<and>
      cp_mldsa q = ma \<and> cp_trad q = ta"
    using run by (auto simp: generate_key_def composite_profiles_def alg_defs)
  then show ?thesis using composite_generate_good [OF libs] by blast
next
  case False
  then have "classic_generate E alg w = (Inr key, w') \<or> mldsa_generate E alg w = (Inr key, w')"
    using run by (auto simp: generate_key_def split: if_splits)
  then show ?thesis using classic_generate_good [OF libs] mldsa_generate_good by blast
qed

lemma seal_envelope_opens:
  assumes libs: "key_libs E" and good: "good_key E alg key" and m: "marshal_key_material E key = Inr material"
    and seal: "seal_envelope E pass alg material w = (Inr v, w')"
  shows "open_envelope E pass v = Inr \<lparr>sg_key = key, sg_alg = alg\<rparr> \<and> env_version v \<noteq> 0"
proof -
  obtain salt kek nonce where "scrypt E pass salt 32768 8 1 = Some kek"
    and v: "v = \<lparr>env_version = 1, env_algorithm = alg, env_kdf = ''scrypt'', env_n = 32768, env_r = 8, env_p = 1,
      env_salt = salt, env_nonce = nonce, env_ciphertext = gcm_seal E kek nonce material alg\<rparr>"
    using seal by (auto simp: seal_envelope_def act_elims split: option.splits)
  then have "unseal_envelope E pass v = Inr material"
    by (simp add: unseal_envelope_def gcm_round_trip [OF libs])
  moreover have "unmarshal_key_material E alg material = Inr key"
    by (rule key_material_sound) (use good m in \<open>auto simp: good_key_def fits_envelope_def\<close>)
  ultimately show ?thesis by (simp add: open_envelope_def v)
qed

text \<open>
  The contract a CA relies on, for any backend: a generated key is in the slot of its reference, an
  opened one comes from there, and generating never replaces a key that is there.
\<close>

definition occupied :: "json option \<Rightarrow> bool" where
  "occupied j \<longleftrightarrow> (\<exists>v. j = Some (envelope_json v) \<and> env_version v \<noteq> 0)"

locale key_backend =
  fixes gen :: "'x cenv_scheme \<Rightarrow> string \<Rightarrow> algorithm \<Rightarrow> string \<Rightarrow> (signer \<times> key_ref) act"
    and opn :: "'x cenv_scheme \<Rightarrow> string \<Rightarrow> key_ref \<Rightarrow> signer act"
    and slot :: "world \<Rightarrow> key_ref \<Rightarrow> json option"
  assumes gen_slot: "key_libs E \<Longrightarrow> gen E pass alg label w = (Inr (s, ref), w') \<Longrightarrow>
      \<exists>v. slot w' ref = Some (envelope_json v) \<and> env_version v \<noteq> 0 \<and> open_envelope E pass v = Inr s \<and>
        good_key E alg (sg_key s) \<and> sg_alg s = alg"
    and opn_slot: "slot w ref = Some (envelope_json v) \<Longrightarrow> fault_at E (tick w) = NoFault \<Longrightarrow>
      opn E pass ref w = (open_envelope E pass v, advance w)"
    and gen_keeps: "occupied (slot w r) \<Longrightarrow> slot (snd (gen E pass alg label w)) r = slot w r"
    and gen_fresh: "gen E pass alg label w = (Inr (s, ref), w') \<Longrightarrow> \<not> occupied (slot w ref)"
begin

lemma generated_opens:
  assumes "key_libs E" and "gen E pass alg label w = (Inr (s, ref), w')"
    and "slot u ref = slot w' ref" and "fault_at E (tick u) = NoFault"
  shows "opn E pass ref u = (Inr s, advance u)"
proof -
  obtain v where v: "slot w' ref = Some (envelope_json v)" "open_envelope E pass v = Inr s"
    using gen_slot [OF assms(1,2)] by blast
  then show ?thesis using opn_slot [of u ref v E pass] assms by simp
qed

lemma generated_key_good:
  "key_libs E \<Longrightarrow> gen E pass alg label w = (Inr (s, ref), w') \<Longrightarrow> good_key E alg (sg_key s) \<and> sg_alg s = alg"
  using gen_slot by blast

lemma earlier_key_survives:
  assumes "key_libs E" and "gen E pass alg label w = (Inr (s, ref), w')"
  shows "slot (snd (gen E pass' alg' label' w')) ref = slot w' ref"
proof -
  have "occupied (slot w' ref)" using gen_slot [OF assms] by (auto simp: occupied_def)
  then show ?thesis by (rule gen_keeps)
qed

end

definition soft_slot :: "world \<Rightarrow> key_ref \<Rightarrow> json option" where
  "soft_slot w ref = (case softkey_rel ref of Inl _ \<Rightarrow> None | Inr p \<Rightarrow> key_file w p)"

definition store_slot :: "world \<Rightarrow> key_ref \<Rightarrow> json option" where
  "store_slot w ref = (case storekey_label ref of Inl _ \<Rightarrow> None | Inr l \<Rightarrow> lookup w keys_bucket l)"

text \<open>Making and sealing a key writes neither key files nor documents.\<close>

definition slots :: "world \<Rightarrow> ((bpath \<times> string) \<times> json) list \<times> (string \<times> json) list" where
  "slots w = (docs w, key_files w)"

interpretation slots: world_contract "same slots"
  by (rule same_advance_contract) (simp add: slots_def)

lemma same_slots_classic: "steps (same slots) (classic_generate E alg)"
  by (simp add: steps_def classic_generate_def same_def slots_def split: option.split)

lemma same_slots_generate: "steps (same slots) (generate_key E alg)"
  unfolding generate_key_def generate_composite_key_def mldsa_generate_def
  by (intro slots.world_rules same_slots_classic) (auto intro!: slots.world_rules split: private_key.split)

lemma same_slots_envelope: "steps (same slots) (seal_envelope E pass alg m)"
  unfolding seal_envelope_def by (intro slots.world_rules)

lemma same_slots:
  assumes "steps (same slots) m" and "m w = (r, w')"
  shows "lookup w' = lookup w" "key_file w' = key_file w"
  using stepsD [OF assms] by (auto simp: same_def slots_def lookup_def key_file_def intro!: ext)

lemma key_file_advance [simp]: "key_file (advance w) = key_file w"
  by (rule ext) (simp add: key_file_def)

lemma write_key_file_Inr [act_elims]:
  "write_key_file E p j w = (Inr u, w') \<longleftrightarrow>
     fault_at E (tick w) = NoFault \<and> w' = (advance w)\<lparr>key_files := AList.update p j (key_files w)\<rparr>"
  by (auto simp: write_key_file_def effect_def Let_def split: fault.splits)

lemma write_key_file_other: "q \<noteq> p \<Longrightarrow> key_file (snd (write_key_file E p j w)) q = key_file w q"
  by (auto simp: write_key_file_def effect_def Let_def key_file_def update_conv' split: fault.split)

text \<open>Key files are only added.\<close>

definition keeps_files :: "world \<Rightarrow> world \<Rightarrow> bool" where
  "keeps_files w w' \<longleftrightarrow> (\<forall>p j. key_file w p = Some j \<longrightarrow> key_file w' p = Some j)"

interpretation keeps_files: world_contract keeps_files
  by unfold_locales (auto simp: keeps_files_def)

lemma slots_keeps_files: "steps (same slots) m \<Longrightarrow> steps keeps_files m"
  by (erule steps_mono) (auto simp: same_def slots_def keeps_files_def key_file_def)

lemma softkey_generate_keeps: "steps keeps_files (softkey_generate E pass alg label)"
proof -
  have last: "keeps_files w (snd ((if key_file w path \<noteq> None then fail (err :: err)
      else ebind (seal_envelope E pass alg material) (\<lambda>v.
        ebind (write_key_file E path (envelope_json v)) (\<lambda>_. ret (sg, ref)))) w))"
    for w path err material and sg :: signer and ref :: key_ref
  proof (cases "key_file w path = None")
    case True
    obtain r w1 where s: "seal_envelope E pass alg material w = (r, w1)" by fastforce
    have kf: "key_file w1 = key_file w" using same_slots [OF same_slots_envelope s] by simp
    have "key_file w q = Some j \<Longrightarrow> key_file (snd (write_key_file E path (envelope_json v) w1)) q = Some j" for q j v
      using True kf by (cases "q = path") (auto simp: write_key_file_other)
    with True s kf show ?thesis
      by (auto simp: keeps_files_def ebind_apply split: sum.split prod.split) (metis snd_conv)+
  qed (auto simp: keeps_files_def)
  then have end_ok: "steps keeps_files (ebind (reading (\<lambda>w. key_file w path)) (\<lambda>existing.
     if existing \<noteq> None then fail (err :: err)
     else ebind (seal_envelope E pass alg material) (\<lambda>v.
       ebind (write_key_file E path (envelope_json v)) (\<lambda>_. ret (sg, ref)))))"
    for path err material and sg :: signer and ref :: key_ref
    by (simp add: steps_def ebind_apply reading_def)
  then show ?thesis
    unfolding softkey_generate_def Let_def
    by (intro end_ok keeps_files.steps_ebind slots_keeps_files [OF same_slots_generate] keeps_files.steps_lift)
qed

lemma softkey_open_slot:
  assumes "soft_slot w ref = Some (envelope_json v)" and "fault_at E (tick w) = NoFault"
  shows "softkey_open E pass ref w = (open_envelope E pass v, advance w)"
  using assms
  by (auto simp: soft_slot_def softkey_open_def read_key_file_def effect_ok act_simps split: sum.splits)

interpretation soft: key_backend softkey_generate softkey_open soft_slot
proof (unfold_locales, goal_cases)
  case (1 E pass alg label w s ref w')
  then obtain key w1 material path v w2 where g: "generate_key E alg w = (Inr key, w1)"
    and m: "marshal_key_material E key = Inr material" and p: "softkey_rel ref = Inr path"
    and seal: "seal_envelope E pass alg material w1 = (Inr v, w2)"
    and w': "w' = (advance w2)\<lparr>key_files := AList.update path (envelope_json v) (key_files w2)\<rparr>"
    and s: "s = \<lparr>sg_key = key, sg_alg = alg\<rparr>"
    by (auto simp: softkey_generate_def act_elims Let_def reading_def split: if_splits)
  have good: "good_key E alg key" using 1(1) g by (rule generate_key_good)
  moreover have "soft_slot w' ref = Some (envelope_json v)"
    using p w' by (simp add: soft_slot_def key_file_def update_conv')
  ultimately show ?case
    using seal_envelope_opens [OF 1(1) good m seal] s by auto
next
  case 2
  then show ?case by (rule softkey_open_slot)
next
  case (3 w r E pass alg label)
  have "keeps_files w (snd (softkey_generate E pass alg label w))"
    using softkey_generate_keeps [of E] by (simp add: steps_def)
  with 3 show ?case by (auto simp: keeps_files_def soft_slot_def occupied_def split: sum.splits)
next
  case (4 E pass alg label w s ref w')
  then obtain key w1 path where g: "generate_key E alg w = (Inr key, w1)"
    and p: "softkey_rel ref = Inr path" and "key_file w1 path = None"
    by (auto simp: softkey_generate_def act_elims Let_def reading_def split: if_splits)
  with same_slots [OF same_slots_generate g] show ?case by (simp add: soft_slot_def occupied_def)
qed

text \<open>Documents of the keys bucket that hold a key are not replaced.\<close>

definition keeps_docs :: "world \<Rightarrow> world \<Rightarrow> bool" where
  "keeps_docs w w' \<longleftrightarrow> (\<forall>l. occupied (lookup w keys_bucket l) \<longrightarrow> lookup w' keys_bucket l = lookup w keys_bucket l)"

interpretation keeps_docs: world_contract keeps_docs
  by unfold_locales (auto simp: keeps_docs_def)

lemma slots_keeps_docs: "steps (same slots) m \<Longrightarrow> steps keeps_docs m"
  by (erule steps_mono) (auto simp: same_def slots_def keeps_docs_def lookup_def)

lemma insert_key_keeps:
  "steps keeps_docs (update_json E envelope_of envelope_json zero_envelope keys_bucket label True (insert_key label v))"
  unfolding update_json_def update_json_out_def update_out_def
  by (rule keeps_docs.steps_effect)
    (auto simp: steps_def keeps_docs_def ebind_apply insert_key_def lookup_set_doc occupied_def decode_def
      split: sum.splits prod.splits option.splits if_splits)

lemma storekey_generate_keeps: "steps keeps_docs (storekey_generate E pass alg label)"
  unfolding storekey_generate_def
  by (intro insert_key_keeps keeps_docs.store_rules slots_keeps_docs [OF same_slots_generate]
      slots_keeps_docs [OF same_slots_envelope])

lemma storekey_open_slot:
  assumes "store_slot w ref = Some (envelope_json v)" and "fault_at E (tick w) = NoFault"
  shows "storekey_open E pass ref w = (open_envelope E pass v, advance w)"
  using assms
  by (auto simp: store_slot_def storekey_open_def get_json_def get_def effect_ok act_simps keys_bucket_def decode_def
      split: sum.splits)

lemma storekey_generate_Inr:
  assumes "storekey_generate E pass alg label w = (Inr (s, ref), w')"
  obtains key w1 material v w2 where "generate_key E alg w = (Inr key, w1)" "marshal_key_material E key = Inr material"
    "seal_envelope E pass alg material w1 = (Inr v, w2)" "w' = set_doc (advance w2) keys_bucket label (envelope_json v)"
    "s = \<lparr>sg_key = key, sg_alg = alg\<rparr>" "storekey_label ref = Inr label" "\<not> occupied (lookup w keys_bucket label)"
proof -
  have l: "label \<noteq> []" and ref: "ref = ''storekey:'' @ label"
    using assms by (auto simp: storekey_generate_def act_elims split: if_splits)
  obtain key w1 material v w2 where g: "generate_key E alg w = (Inr key, w1)" "marshal_key_material E key = Inr material"
    "seal_envelope E pass alg material w1 = (Inr v, w2)" and s: "s = \<lparr>sg_key = key, sg_alg = alg\<rparr>"
    and u: "update_json E envelope_of envelope_json zero_envelope keys_bucket label True (insert_key label v) w2 = (Inr (), w')"
    using assms l by (auto simp: storekey_generate_def act_elims)
  have "lookup w2 = lookup w"
    using same_slots(1) [OF same_slots_generate g(1)] same_slots(1) [OF same_slots_envelope g(3)] by simp
  moreover have "w' = set_doc (advance w2) keys_bucket label (envelope_json v)" "\<not> occupied (lookup w2 keys_bucket label)"
    using u by (auto simp: update_json_Inr insert_key_def occupied_def split: if_splits option.splits)
  ultimately show thesis using that g s storekey_label_ref [OF l] ref by simp
qed

interpretation stored: key_backend storekey_generate storekey_open store_slot
proof (unfold_locales, goal_cases)
  case (1 E pass alg label w s ref w')
  from 1(2) show ?case
  proof (rule storekey_generate_Inr)
    fix key w1 material v w2
    assume g: "generate_key E alg w = (Inr key, w1)" and m: "marshal_key_material E key = Inr material"
      and seal: "seal_envelope E pass alg material w1 = (Inr v, w2)"
      and w': "w' = set_doc (advance w2) keys_bucket label (envelope_json v)"
      and s: "s = \<lparr>sg_key = key, sg_alg = alg\<rparr>" and l: "storekey_label ref = Inr label"
    have good: "good_key E alg key" using 1(1) g by (rule generate_key_good)
    then show ?thesis
      using seal_envelope_opens [OF 1(1) good m seal] s l w' by (auto simp: store_slot_def lookup_set_doc)
  qed
next
  case 2
  then show ?case by (rule storekey_open_slot)
next
  case (3 w r E pass alg label)
  have "keeps_docs w (snd (storekey_generate E pass alg label w))"
    using storekey_generate_keeps [of E] by (simp add: steps_def)
  with 3 show ?case by (auto simp: keeps_docs_def store_slot_def occupied_def split: sum.splits)
next
  case (4 E pass alg label w s ref w')
  then show ?case by (auto simp: store_slot_def elim: storekey_generate_Inr)
qed

lemma registry_open_backend:
  "registry_backend r (scheme_of ref) = Inr b \<Longrightarrow> registry_open E r ref = backend_open E b ref"
  by (rule ext) (simp add: registry_open_def ebind_apply)

lemma backend_generated:
  assumes libs: "key_libs E" and g: "backend_generate E b alg label w = (Inr (s, ref), w')"
  shows "good_key E alg (sg_key s)" "sg_alg s = alg"
    "docs u = docs w' \<Longrightarrow> key_files u = key_files w' \<Longrightarrow> fault_at E (tick u) = NoFault \<Longrightarrow>
       backend_open E b ref u = (Inr s, advance u)"
proof -
  have "good_key E alg (sg_key s) \<and> sg_alg s = alg \<and> (docs u = docs w' \<longrightarrow> key_files u = key_files w' \<longrightarrow>
      fault_at E (tick u) = NoFault \<longrightarrow> backend_open E b ref u = (Inr s, advance u))"
  proof (cases b)
    case (Softkey p)
    with g have g': "softkey_generate E p alg label w = (Inr (s, ref), w')" by simp
    have "soft_slot u ref = soft_slot w' ref" if "key_files u = key_files w'"
      using that by (simp add: soft_slot_def key_file_def split: sum.split)
    with soft.gen_slot [OF libs g'] soft.generated_opens [OF libs g'] Softkey show ?thesis by auto
  next
    case (Storekey p)
    with g have g': "storekey_generate E p alg label w = (Inr (s, ref), w')" by simp
    have "store_slot u ref = store_slot w' ref" if "docs u = docs w'"
      using that by (simp add: store_slot_def lookup_def split: sum.split)
    with stored.gen_slot [OF libs g'] stored.generated_opens [OF libs g'] Storekey show ?thesis by auto
  qed (use g in simp_all)
  then show "good_key E alg (sg_key s)" "sg_alg s = alg"
    "docs u = docs w' \<Longrightarrow> key_files u = key_files w' \<Longrightarrow> fault_at E (tick u) = NoFault \<Longrightarrow>
       backend_open E b ref u = (Inr s, advance u)" by auto
qed

text \<open>
  Claim C38: a key a software or store backend generates is found again: under the returned
  reference, in any later state with the same key files and documents, the backend opens the same
  signer, and the key is a well-formed key of the requested algorithm.
\<close>

theorem generated_key_opens:
  fixes E :: "'x cenv_scheme"
  assumes "key_libs E" and "backend_generate E b alg label w = (Inr (s, ref), w')"
    and "docs u = docs w'" and "key_files u = key_files w'" and "fault_at E (tick u) = NoFault"
  shows "backend_open E b ref u = (Inr s, advance u) \<and> wf_key (sg_key s) \<and>
    algorithm_for_key (public_of (sg_key s)) = Inr alg \<and> sg_alg s = alg"
  using backend_generated [OF assms(1,2)] assms(3-5) by (simp add: good_key_def)

lemma sample_key_libs: "key_libs (sample_at xe)"
  by (auto simp: key_libs_def sample_env_def sample_key_def sample_ecdsa_key_def has_prefix_def split: if_splits)

lemma sample_rand: "rand_read (sample_at xe) n w = (Inr (map (rnd_at (sample_at xe) (tick w)) [0..<n]), advance w)"
  by (simp add: rand_read_def effect_ok)

lemma sample_generate:
  "\<exists>s ref w. backend_generate (sample_at xe) (Storekey ''pw'') Ed25519 ''root'' empty_world = (Inr (s, ref), w)"
proof -
  have key: "generate_key (sample_at xe) Ed25519 empty_world = (Inr sample_key, advance empty_world)"
    by (simp add: generate_key_def classic_generate_def) (simp add: sample_env_def empty_world_def)
  have m: "marshal_key_material (sample_at xe) sample_key = Inr ''k''"
    by (simp add: sample_key_def sample_env_def pkcs8_marshal_def)
  have "scrypt (sample_at xe) = (\<lambda>p s n r q. Some p)" by (simp add: sample_env_def)
  then obtain v where v: "seal_envelope (sample_at xe) ''pw'' Ed25519 ''k'' (advance empty_world) =
      (Inr v, advance (advance (advance empty_world)))"
    by (simp add: seal_envelope_def sample_rand ebind_apply)
  have "update_json (sample_at xe) envelope_of envelope_json zero_envelope keys_bucket ''root'' True (insert_key ''root'' v)
      (advance (advance (advance empty_world))) =
      (Inr (), set_doc (advance (advance (advance (advance empty_world)))) keys_bucket ''root'' (envelope_json v))"
    by (simp add: update_json_Inr keys_bucket_def lookup_def empty_world_def insert_key_def zero_envelope_def)
  with key m v show ?thesis
    by (simp add: storekey_generate_def ebind_apply)
qed

theorem generated_key_opens_witness:
  "\<exists>s ref w. backend_generate sample_env (Storekey ''pw'') Ed25519 ''root'' empty_world = (Inr (s, ref), w) \<and>
     backend_open sample_env (Storekey ''pw'') ref w = (Inr s, advance w)"
proof -
  obtain s ref w where g: "backend_generate sample_env (Storekey ''pw'') Ed25519 ''root'' empty_world = (Inr (s, ref), w)"
    using sample_generate [where xe = "()"] by blast
  with generated_key_opens [OF sample_key_libs g refl refl] show ?thesis by auto
qed



end
