(* ===== verification/Audit_Log.thy ===== *)
theory Audit_Log
  imports Backends
begin

text \<open>
  The audit log (internal/audit): records chained by hash and signed, the log in a file (audit.go)
  and the one in the store (storelog.go), their verifiers, and the contract the CA relies on.  A
  line of the file is the document it holds, so a line is written whole or not at all.
\<close>

section \<open>Records\<close>

record actor =
  ac_type :: string
  ac_id :: string
  ac_ip :: string

record object =
  ob_type :: string
  ob_id :: string

record audit_rec =
  ar_seq :: u64
  ar_time :: int
  ar_tenant :: string
  ar_actor :: actor
  ar_action :: string
  ar_object :: object
  ar_detail :: "(string \<times> string) list"
  ar_prev :: string
  ar_hash :: string
  ar_key_id :: string
  ar_sig :: string

definition actor_json :: "actor \<Rightarrow> json" where
  "actor_json a = JObj (fld ''type'' (JStr (ac_type a)) @ fld ''id'' (JStr (ac_id a)) @
     omit (ac_ip a = []) ''ip'' (JStr (ac_ip a)))"

definition actor_of :: "json \<Rightarrow> actor option" where
  "actor_of j = do { fs \<leftarrow> of_obj j; t \<leftarrow> of_str (jget fs ''type''); i \<leftarrow> of_str (jget fs ''id'');
     ip \<leftarrow> of_str (jget fs ''ip''); Some \<lparr>ac_type = t, ac_id = i, ac_ip = ip\<rparr> }"

definition object_json :: "object \<Rightarrow> json" where
  "object_json b = JObj (fld ''type'' (JStr (ob_type b)) @ fld ''id'' (JStr (ob_id b)))"

definition object_of :: "json \<Rightarrow> object option" where
  "object_of j = do { fs \<leftarrow> of_obj j; t \<leftarrow> of_str (jget fs ''type''); i \<leftarrow> of_str (jget fs ''id'');
     Some \<lparr>ob_type = t, ob_id = i\<rparr> }"

definition audit_rec_json :: "audit_rec \<Rightarrow> json" where
  "audit_rec_json r = JObj (fld ''seq'' (JNum (uint (ar_seq r))) @ fld ''time'' (JTime (ar_time r)) @
     omit (ar_tenant r = []) ''tenant'' (JStr (ar_tenant r)) @ fld ''actor'' (actor_json (ar_actor r)) @
     fld ''action'' (JStr (ar_action r)) @ fld ''object'' (object_json (ar_object r)) @
     omit (ar_detail r = []) ''detail'' (strmap_json (ar_detail r)) @ fld ''prev_hash'' (JStr (ar_prev r)) @
     fld ''hash'' (JStr (ar_hash r)) @ fld ''key_id'' (JStr (ar_key_id r)) @ fld ''sig'' (bytes_json (ar_sig r)))"

definition audit_rec_of :: "json \<Rightarrow> audit_rec option" where
  "audit_rec_of j = do { fs \<leftarrow> of_obj j; n \<leftarrow> of_u64 (jget fs ''seq''); t \<leftarrow> of_time (jget fs ''time'');
     ten \<leftarrow> of_str (jget fs ''tenant''); a \<leftarrow> actor_of (jget fs ''actor''); act \<leftarrow> of_str (jget fs ''action'');
     ob \<leftarrow> object_of (jget fs ''object''); d \<leftarrow> of_strmap (jget fs ''detail''); p \<leftarrow> of_str (jget fs ''prev_hash'');
     h \<leftarrow> of_str (jget fs ''hash''); k \<leftarrow> of_str (jget fs ''key_id''); s \<leftarrow> of_bytes (jget fs ''sig'');
     Some \<lparr>ar_seq = n, ar_time = t, ar_tenant = ten, ar_actor = a, ar_action = act, ar_object = ob,
       ar_detail = d, ar_prev = p, ar_hash = h, ar_key_id = k, ar_sig = s\<rparr> }"

lemma actor_of_json [simp]: "actor_of (actor_json a) = Some a"
  by (cases "ac_ip a = []") (simp_all add: actor_of_def actor_json_def json_simps)

lemma object_of_json [simp]: "object_of (object_json b) = Some b"
  by (simp add: object_of_def object_json_def json_simps)

lemma audit_rec_of_json:
  assumes "wf_map (ar_detail r)"
  shows "audit_rec_of (audit_rec_json r) = Some r"
  by (cases "ar_tenant r = []"; cases "ar_detail r = []")
    (simp_all add: audit_rec_of_def audit_rec_json_def json_simps of_strmap_strmap [OF assms])

section \<open>Hash chain and signature\<close>

definition canonical :: "'x cenv_scheme \<Rightarrow> audit_rec \<Rightarrow> string" where
  "canonical E r = json_bytes E (audit_rec_json (r\<lparr>ar_hash := [], ar_sig := []\<rparr>))"

definition check_audit_alg :: "signer \<Rightarrow> err + unit" where
  "check_audit_alg sg = sbind (lookup_alg (sg_alg sg)) (\<lambda>i.
     if i_hash i \<noteq> NoHash
     then Inl (errorf (''audit: audit key must use a message-signing algorithm, got '' @ quoted (sg_alg sg)))
     else Inr ())"

definition chain_hash :: "'x cenv_scheme \<Rightarrow> audit_rec \<Rightarrow> err + string" where
  "chain_hash E r = (case hex_decode (ar_prev r) of
     None \<Rightarrow> Inl (errorf ''audit: bad prev_hash: '') | Some prev \<Rightarrow> Inr (sha256 E (prev @ canonical E r)))"

definition seal_record :: "'x cenv_scheme \<Rightarrow> signer \<Rightarrow> audit_rec \<Rightarrow> audit_rec act" where
  "seal_record E sg r =
     ebind (wrap_err (wrapf ''audit: corrupt chain head: '') (lift_sum (chain_hash E r))) (\<lambda>sum.
     ebind (wrap_err (wrapf ''audit: signing record: '') (key_sign E (sg_key sg) NoHash sum)) (\<lambda>s.
       ret (r\<lparr>ar_hash := hex_encode sum, ar_sig := s\<rparr>)))"

definition audit_err :: "nat \<Rightarrow> string \<Rightarrow> err" where
  "audit_err n t = errorf (''audit: record '' @ dec n @ '': '' @ t)"

definition verify_record ::
  "'x cenv_scheme \<Rightarrow> audit_rec \<Rightarrow> public_key \<Rightarrow> algorithm \<Rightarrow> string \<Rightarrow> u64 \<Rightarrow> nat \<Rightarrow> err + unit" where
  "verify_record E r pub alg prev_hash prev_seq n =
     (if ar_seq r \<noteq> prev_seq + 1
      then Inl (audit_err n (''sequence gap ('' @ dec (unat (ar_seq r)) @ '' after '' @ dec (unat prev_seq) @ '')''))
      else if prev_hash \<noteq> [] \<and> ar_prev r \<noteq> prev_hash then Inl (audit_err n ''chain break'')
      else (case chain_hash E r of
        Inl e \<Rightarrow> Inl (wrapf (''audit: record '' @ dec n @ '': '') e)
      | Inr dg \<Rightarrow>
         if hex_encode dg \<noteq> ar_hash r then Inl (audit_err n ''hash mismatch (tampered)'')
         else (case verify_raw_signature E pub alg dg (ar_sig r) of
           Inl e \<Rightarrow> Inl (wrapf (''audit: record '' @ dec n @ '': signature invalid: '') e)
         | Inr _ \<Rightarrow> Inr ())))"

section \<open>The file log\<close>

text \<open>An open log: its signer and the name of its key; sequence number and head are in the state.\<close>

record chain_log =
  cl_signer :: signer
  cl_key_id :: string

definition append_line :: "'x cenv_scheme \<Rightarrow> json \<Rightarrow> unit act" where
  "append_line E j = effect E (\<lambda>w. (Inr (), w\<lparr>log_lines := log_lines w @ [j]\<rparr>))"

definition fsync :: "'x cenv_scheme \<Rightarrow> unit act" where
  "fsync E = effect E (ret ())"

definition file_log :: "'x cenv_scheme \<Rightarrow> chain_log \<Rightarrow> audit_rec \<Rightarrow> unit act" where
  "file_log E l r =
     ebind (\<lambda>w. (Inr (log_seq w + 1), w\<lparr>log_seq := log_seq w + 1\<rparr>)) (\<lambda>n.
     ebind (if ar_time r = zero_time then clock E else ret (ar_time r)) (\<lambda>t.
     ebind (reading log_head) (\<lambda>h.
     ebind (seal_record E (cl_signer l) (r\<lparr>ar_seq := n, ar_time := t, ar_prev := h, ar_key_id := cl_key_id l\<rparr>)) (\<lambda>r'.
     ebind (wrap_err (wrapf ''audit: appending record: '') (append_line E (audit_rec_json r'))) (\<lambda>_.
     ebind (wrap_err (wrapf ''audit: fsync: '') (fsync E)) (\<lambda>_.
       (\<lambda>w. (Inr (), w\<lparr>log_head := ar_hash r'\<rparr>))))))))"

text \<open>A record the log itself writes.\<close>

definition system_actor :: actor where
  "system_actor = \<lparr>ac_type = ''system'', ac_id = ''mnemoca'', ac_ip = []\<rparr>"

definition new_event :: "string \<Rightarrow> actor \<Rightarrow> string \<Rightarrow> object \<Rightarrow> (string \<times> string) list \<Rightarrow> audit_rec" where
  "new_event tenant actor action ob detail = \<lparr>ar_seq = 0, ar_time = zero_time, ar_tenant = tenant, ar_actor = actor,
     ar_action = action, ar_object = ob, ar_detail = canon_map detail, ar_prev = [], ar_hash = [],
     ar_key_id = [], ar_sig = []\<rparr>"

definition genesis_event :: audit_rec where
  "genesis_event = new_event [] system_actor ''audit.genesis'' \<lparr>ob_type = ''audit'', ob_id = ''genesis''\<rparr> []"

definition checkpoint_event :: "u64 \<Rightarrow> string \<Rightarrow> audit_rec" where
  "checkpoint_event n h = new_event [] system_actor ''audit.checkpoint'' \<lparr>ob_type = ''audit'', ob_id = ''checkpoint''\<rparr>
     [(''checkpoint_seq'', dec (unat n)), (''checkpoint_head'', h)]"

definition file_checkpoint :: "'x cenv_scheme \<Rightarrow> chain_log \<Rightarrow> unit act" where
  "file_checkpoint E l = ebind (reading (\<lambda>w. (log_seq w, log_head w))) (\<lambda>(n, h). file_log E l (checkpoint_event n h))"

definition last_record :: "json list \<Rightarrow> err + audit_rec option" where
  "last_record lines = sfold (\<lambda>_ j. case audit_rec_of j of
     None \<Rightarrow> Inl (wrapf ''audit: existing log corrupt: '' err_json) | Some r \<Rightarrow> Inr (Some r)) None lines"

definition open_log :: "'x cenv_scheme \<Rightarrow> signer \<Rightarrow> string \<Rightarrow> chain_log act" where
  "open_log E sg kid =
     ebind (lift_sum (check_audit_alg sg)) (\<lambda>_.
     ebind (effect E (\<lambda>w. (Inr (), w\<lparr>log_seq := 0, log_head := []\<rparr>))) (\<lambda>_.
     ebind (effect E (\<lambda>w. (Inr (log_lines w), w))) (\<lambda>lines.
     ebind (lift_sum (last_record lines)) (\<lambda>last.
     let l = \<lparr>cl_signer = sg, cl_key_id = kid\<rparr> in
     case last of
       None \<Rightarrow> ebind (rand_read E 32) (\<lambda>anchor.
         ebind (\<lambda>w. (Inr (), w\<lparr>log_head := hex_encode anchor\<rparr>)) (\<lambda>_.
         ebind (file_log E l genesis_event) (\<lambda>_. ret l)))
     | Some r \<Rightarrow> ebind (\<lambda>w. (Inr (), w\<lparr>log_seq := ar_seq r, log_head := ar_hash r\<rparr>)) (\<lambda>_. ret l)))))"

text \<open>The verification loop: the number of verified records and the error that ended it, if any.\<close>

fun verify_lines :: "'x cenv_scheme \<Rightarrow> public_key \<Rightarrow> algorithm \<Rightarrow> nat \<Rightarrow> string \<Rightarrow> u64 \<Rightarrow> json list \<Rightarrow> nat \<times> err option" where
  "verify_lines E pub alg count prev_hash prev_seq [] = (count, None)"
| "verify_lines E pub alg count prev_hash prev_seq (j # js) = (case audit_rec_of j of
     None \<Rightarrow> (count, Some (wrapf (''audit: record '' @ dec (count + 1) @ '': corrupt JSON: '') err_json))
   | Some r \<Rightarrow> (case verify_record E r pub alg prev_hash prev_seq (count + 1) of
       Inl e \<Rightarrow> (count, Some e)
     | Inr _ \<Rightarrow> verify_lines E pub alg (count + 1) (ar_hash r) (ar_seq r) js))"

definition verify_file :: "'x cenv_scheme \<Rightarrow> public_key \<Rightarrow> json list \<Rightarrow> nat \<times> err option" where
  "verify_file E pub lines = (case algorithm_for_key pub of
     Inl e \<Rightarrow> (0, Some e) | Inr alg \<Rightarrow> verify_lines E pub alg 0 [] 0 lines)"

section \<open>What the verifier accepts\<close>

text \<open>
  The chain as it is promised: each record has the next sequence number, names the hash of the record
  before it, has the hash of its own content and a valid signature over that hash.
\<close>

definition linked :: "'x cenv_scheme \<Rightarrow> public_key \<Rightarrow> algorithm \<Rightarrow> string \<Rightarrow> u64 \<Rightarrow> audit_rec \<Rightarrow> bool" where
  "linked E pub alg ph ps r \<longleftrightarrow> ar_seq r = ps + 1 \<and> (ph = [] \<or> ar_prev r = ph) \<and>
     (\<exists>h. chain_hash E r = Inr h \<and> ar_hash r = hex_encode h \<and> verify_signature E pub alg h (ar_sig r) = Inr ())"

fun chained :: "'x cenv_scheme \<Rightarrow> public_key \<Rightarrow> algorithm \<Rightarrow> string \<Rightarrow> u64 \<Rightarrow> audit_rec list \<Rightarrow> bool" where
  "chained E pub alg ph ps [] \<longleftrightarrow> True"
| "chained E pub alg ph ps (r # rs) \<longleftrightarrow> linked E pub alg ph ps r \<and> chained E pub alg (ar_hash r) (ar_seq r) rs"

definition end_hash :: "string \<Rightarrow> audit_rec list \<Rightarrow> string" where
  "end_hash ph rs = (if rs = [] then ph else ar_hash (last rs))"

definition end_seq :: "u64 \<Rightarrow> audit_rec list \<Rightarrow> u64" where
  "end_seq ps rs = (if rs = [] then ps else ar_seq (last rs))"

lemma end_simps [simp]:
  "end_hash ph [] = ph" "end_seq ps [] = ps"
  "end_hash ph (rs @ [r]) = ar_hash r" "end_seq ps (rs @ [r]) = ar_seq r"
  "end_hash ph (r # rs) = end_hash (ar_hash r) rs" "end_seq ps (r # rs) = end_seq (ar_seq r) rs"
  by (simp_all add: end_hash_def end_seq_def)

lemma verify_record_ok: "verify_record E r pub alg ph ps n = Inr () \<longleftrightarrow> linked E pub alg ph ps r"
  by (auto simp: verify_record_def linked_def verify_raw_signature_def split: sum.split)

lemma verify_record_Inr: "verify_record E r pub alg ph ps n = Inr u \<longleftrightarrow> linked E pub alg ph ps r"
  using verify_record_ok [of E r pub alg ph ps n] by simp

lemma verify_lines_ok:
  "verify_lines E pub alg c ph ps js = (n, None) \<longleftrightarrow>
     (\<exists>rs. all_some (map audit_rec_of js) = Some rs \<and> chained E pub alg ph ps rs \<and> n = c + length rs)"
  by (induction js arbitrary: c ph ps)
    (auto split: option.splits sum.splits simp: verify_record_Inr, (metis verify_record_ok sum.distinct(1))+)

lemma verify_lines_append:
  "all_some (map audit_rec_of js) = Some rs \<Longrightarrow> chained E pub alg ph ps rs \<Longrightarrow>
     verify_lines E pub alg c ph ps (js @ ks) = verify_lines E pub alg (c + length rs) (end_hash ph rs) (end_seq ps rs) ks"
proof (induction js arbitrary: c ph ps rs)
  case (Cons j js)
  then obtain r qs where r: "audit_rec_of j = Some r" "all_some (map audit_rec_of js) = Some qs" "rs = r # qs"
    by (cases "audit_rec_of j") auto
  with Cons.prems have "verify_record E r pub alg ph ps (c + 1) = Inr ()" "chained E pub alg (ar_hash r) (ar_seq r) qs"
    by (simp_all add: verify_record_ok)
  with r Cons.IH show ?case by simp
qed simp

lemma chained_append:
  "chained E pub alg ph ps (rs @ qs) \<longleftrightarrow>
     chained E pub alg ph ps rs \<and> chained E pub alg (end_hash ph rs) (end_seq ps rs) qs"
  by (induction rs arbitrary: ph ps) auto

lemma chained_seq: "chained E pub alg ph ps rs \<Longrightarrow> end_seq ps rs = ps + of_nat (length rs)"
  by (induction rs arbitrary: ph ps) (auto simp: linked_def algebra_simps)

lemma chained_iff:
  "chained E pub alg ph ps rs \<longleftrightarrow>
     (\<forall>i < length rs. linked E pub alg (if i = 0 then ph else ar_hash (rs ! (i - 1))) (ps + of_nat i) (rs ! i))"
proof (induction rs arbitrary: ph ps)
  case (Cons r rs)
  have "chained E pub alg ph ps (r # rs) \<longleftrightarrow> linked E pub alg ph ps r \<and>
      (\<forall>i < length rs. linked E pub alg (if i = 0 then ar_hash r else ar_hash (rs ! (i - 1))) (ps + 1 + of_nat i) (rs ! i))"
    using Cons by (auto simp: linked_def)
  also have "\<dots> \<longleftrightarrow> linked E pub alg ph ps r \<and>
      (\<forall>i < length rs. linked E pub alg (ar_hash ((r # rs) ! i)) (ps + of_nat (Suc i)) (rs ! i))"
    by (simp add: nth_Cons' add.assoc if_distrib [of ar_hash])
  finally show ?case by (simp add: All_less_Suc2)
qed simp

lemma chained_nth_seq: "chained E pub alg ph ps rs \<Longrightarrow> i < length rs \<Longrightarrow> ar_seq (rs ! i) = ps + of_nat (Suc i)"
proof (induction rs arbitrary: ph ps i)
  case (Cons r rs)
  then show ?case by (cases i) (auto simp: linked_def algebra_simps)
qed simp

lemma chained_nth_prev:
  "chained E pub alg ph ps rs \<Longrightarrow> Suc i < length rs \<Longrightarrow> ar_hash (rs ! i) \<noteq> [] \<Longrightarrow> ar_prev (rs ! Suc i) = ar_hash (rs ! i)"
proof (induction rs arbitrary: ph ps i)
  case (Cons r rs)
  then show ?case by (cases i; cases rs) (auto simp: linked_def)
qed simp

lemma all_some_append: "all_some (xs @ ys) = (case all_some xs of None \<Rightarrow> None | Some as \<Rightarrow>
    (case all_some ys of None \<Rightarrow> None | Some bs \<Rightarrow> Some (as @ bs)))"
  by (induction xs rule: all_some.induct) (auto split: option.split)

lemma all_some_length: "all_some xs = Some ys \<Longrightarrow> length ys = length xs"
  by (induction xs arbitrary: ys rule: all_some.induct) auto

section \<open>The file log stays verifiable\<close>

text \<open>A signer the log can use: a well-formed key of a message-signing algorithm whose library is correct.\<close>

definition audit_signer :: "'x cenv_scheme \<Rightarrow> signer \<Rightarrow> bool" where
  "audit_signer E sg \<longleftrightarrow> wf_key (sg_key sg) \<and> algorithm_for_key (public_of (sg_key sg)) = Inr (sg_alg sg) \<and>
     prims_correct E (sg_key sg) \<and> sign_capable (sg_alg sg) \<and> check_audit_alg sg = Inr ()"

abbreviation audit_pub :: "signer \<Rightarrow> public_key" where
  "audit_pub sg \<equiv> public_of (sg_key sg)"

lemma audit_signature_ok:
  assumes "audit_signer E sg" and "key_sign E (sg_key sg) NoHash m w = (Inr s, w')"
  shows "verify_signature E (audit_pub sg) (sg_alg sg) m s = Inr ()"
proof -
  have a: "wf_key (sg_key sg)" "algorithm_for_key (audit_pub sg) = Inr (sg_alg sg)" "prims_correct E (sg_key sg)"
    using assms(1) by (auto simp: audit_signer_def)
  obtain i where "lookup_alg (sg_alg sg) = Inr i" "i_hash i = NoHash" "\<not> i_key_only i" "\<not> i_verify_only i"
    using assms(1) by (auto simp: audit_signer_def check_audit_alg_def sign_capable_def sbind_def split: sum.splits if_splits)
  then have "sign_tbs E (sg_key sg) (sg_alg sg) m w = (Inr s, w')"
    using assms(2) by (simp add: sign_tbs_def)
  with a show ?thesis by (rule sign_tbs_sound)
qed

lemma prim_sign_world: "snd (prim_sign E f w) = advance w"
  by (simp add: prim_sign_def split: option.split)

context world_contract
begin

lemma steps_prim_sign: "steps R (prim_sign E f)"
  by (simp add: steps_def prim_sign_world advance_ok)

lemma steps_simple_sign: "steps R (simple_sign E key hs m)"
  by (cases key) (simp_all add: steps_prim_sign steps_fail)

lemma steps_key_sign: "steps R (key_sign E key hs m)"
proof (cases key)
  case (CompositePriv a p sd pk t)
  then show ?thesis
    unfolding CompositePriv key_sign.simps composite_sign_def sign_trad_component_def Let_def
    by (simp add: world_rules steps_prim_sign steps_simple_sign)
qed (simp_all add: steps_prim_sign)

lemma steps_seal_record: "steps R (seal_record E sg r)"
  unfolding seal_record_def by (intro world_rules steps_key_sign)

end

text \<open>Sealing only lets time pass.\<close>

definition but_tick :: "world \<Rightarrow> world" where
  "but_tick w = w\<lparr>tick := 0\<rparr>"

interpretation timed: world_contract "same but_tick"
  by (rule same_advance_contract) (simp add: but_tick_def advance_def)

lemma same_but_tick:
  assumes "steps (same but_tick) m" and "m w = (r, w')"
  shows "log_lines w' = log_lines w" "log_seq w' = log_seq w" "log_head w' = log_head w" "docs w' = docs w"
    "seqs w' = seqs w" "key_files w' = key_files w" "text_files w' = text_files w"
proof -
  have "but_tick w' = but_tick w" using stepsD [OF assms] by (simp add: same_def)
  then show "log_lines w' = log_lines w" "log_seq w' = log_seq w" "log_head w' = log_head w" "docs w' = docs w"
    "seqs w' = seqs w" "key_files w' = key_files w" "text_files w' = text_files w"
    by (auto simp: but_tick_def) (metis world.select_convs world.surjective world.update_convs(8))+
qed

lemma canonical_sealed: "canonical E (r\<lparr>ar_hash := h, ar_sig := s\<rparr>) = canonical E r"
  by (cases r) (simp add: canonical_def)

lemma chain_hash_sealed [simp]: "chain_hash E (r\<lparr>ar_hash := h, ar_sig := s\<rparr>) = chain_hash E r"
  unfolding chain_hash_def canonical_sealed by simp

lemma seal_record_Inr:
  assumes "seal_record E sg r w = (Inr r', w')"
  obtains h s where "chain_hash E r = Inr h" "r' = r\<lparr>ar_hash := hex_encode h, ar_sig := s\<rparr>"
    "key_sign E (sg_key sg) NoHash h w = (Inr s, w')"
  using assms by (auto simp: seal_record_def act_elims)

lemma seal_record_linked:
  assumes "audit_signer E sg" and "seal_record E sg r w = (Inr r', w')"
    and "ar_seq r = ps + 1" and "ph = [] \<or> ar_prev r = ph"
  shows "linked E (audit_pub sg) (sg_alg sg) ph ps r'"
  using assms(2)
proof (rule seal_record_Inr)
  fix h s assume h: "chain_hash E r = Inr h" "r' = r\<lparr>ar_hash := hex_encode h, ar_sig := s\<rparr>"
    and "key_sign E (sg_key sg) NoHash h w = (Inr s, w')"
  then have "verify_signature E (audit_pub sg) (sg_alg sg) h s = Inr ()"
    using audit_signature_ok [OF assms(1)] by blast
  with h assms(3,4) show ?thesis by (auto simp: linked_def)
qed

text \<open>What a record says: the part of it that the caller gives.\<close>

definition event_of :: "audit_rec \<Rightarrow> string \<times> actor \<times> string \<times> object \<times> (string \<times> string) list" where
  "event_of r = (ar_tenant r, ar_actor r, ar_action r, ar_object r, ar_detail r)"

lemma seal_record_event:
  "seal_record E sg r w = (Inr r', w') \<Longrightarrow>
     event_of r' = event_of r \<and> ar_seq r' = ar_seq r \<and> ar_prev r' = ar_prev r \<and> ar_time r' = ar_time r \<and> ar_key_id r' = ar_key_id r"
  by (erule seal_record_Inr) (auto simp: event_of_def)

lemma append_line_Inr [act_elims]:
  "append_line E j w = (Inr u, w') \<longleftrightarrow> fault_at E (tick w) = NoFault \<and> w' = (advance w)\<lparr>log_lines := log_lines w @ [j]\<rparr>"
  by (auto simp: append_line_def effect_def Let_def split: fault.splits)

lemma fsync_Inr [act_elims]: "fsync E w = (Inr u, w') \<longleftrightarrow> fault_at E (tick w) = NoFault \<and> w' = advance w"
  by (auto simp: fsync_def effect_def Let_def split: fault.splits)

lemma file_log_Inr:
  assumes "file_log E l r w = (Inr u, w')"
  obtains t r' w1 w2 where "w1 = w\<lparr>log_seq := log_seq w + 1\<rparr> \<or> w1 = advance (w\<lparr>log_seq := log_seq w + 1\<rparr>)"
    "seal_record E (cl_signer l) (r\<lparr>ar_seq := log_seq w + 1, ar_time := t, ar_prev := log_head w, ar_key_id := cl_key_id l\<rparr>) w1
       = (Inr r', w2)"
    "log_lines w' = log_lines w @ [audit_rec_json r']" "log_seq w' = log_seq w + 1" "log_head w' = ar_hash r'"
    "docs w' = docs w" "event_of r' = event_of r" "ar_seq r' = log_seq w + 1" "ar_prev r' = log_head w"
proof -
  let ?w = "w\<lparr>log_seq := log_seq w + 1\<rparr>"
  obtain t w1 where t: "(if ar_time r = zero_time then clock E else ret (ar_time r)) ?w = (Inr t, w1)"
    and w1: "w1 = ?w \<or> w1 = advance ?w"
    by (cases "ar_time r = zero_time") (auto simp: clock_def)
  obtain r' w2 w3 w4 where seal: "seal_record E (cl_signer l)
      (r\<lparr>ar_seq := log_seq w + 1, ar_time := t, ar_prev := log_head w1, ar_key_id := cl_key_id l\<rparr>) w1 = (Inr r', w2)"
    and a: "append_line E (audit_rec_json r') w2 = (Inr (), w3)" and f: "fsync E w3 = (Inr (), w4)"
    and w': "w' = w4\<lparr>log_head := ar_hash r'\<rparr>"
    using assms t by (auto simp: file_log_def act_elims reading_def)
  have k: "log_lines w1 = log_lines w" "log_head w1 = log_head w" "docs w1 = docs w" "log_seq w1 = log_seq w + 1"
    using w1 by auto
  note st = same_but_tick [OF timed.steps_seal_record seal]
  have sl: "seal_record E (cl_signer l)
      (r\<lparr>ar_seq := log_seq w + 1, ar_time := t, ar_prev := log_head w, ar_key_id := cl_key_id l\<rparr>) w1 = (Inr r', w2)"
    using seal k by simp
  have "log_lines w' = log_lines w @ [audit_rec_json r']" "log_seq w' = log_seq w + 1" "log_head w' = ar_hash r'"
    "docs w' = docs w"
    using st k a f w' by (auto simp: append_line_Inr fsync_Inr)
  moreover have "event_of r' = event_of r" "ar_seq r' = log_seq w + 1" "ar_prev r' = log_head w"
    using seal_record_event [OF sl] by (auto simp: event_of_def)
  ultimately show thesis by (rule that [OF w1 sl])
qed

text \<open>The sequence number advances whatever the outcome.\<close>

interpretation seqs_kept: world_contract "same log_seq"
  by (rule same_advance_contract) simp

lemma file_log_seq: "log_seq (snd (file_log E l r w)) = log_seq w + 1"
proof -
  let ?rest = "\<lambda>n. ebind (if ar_time r = zero_time then clock E else ret (ar_time r)) (\<lambda>t.
     ebind (reading log_head) (\<lambda>h.
     ebind (seal_record E (cl_signer l) (r\<lparr>ar_seq := n, ar_time := t, ar_prev := h, ar_key_id := cl_key_id l\<rparr>)) (\<lambda>r'.
     ebind (wrap_err (wrapf ''audit: appending record: '') (append_line E (audit_rec_json r'))) (\<lambda>_.
     ebind (wrap_err (wrapf ''audit: fsync: '') (fsync E)) (\<lambda>_.
       (\<lambda>w. (Inr (), w\<lparr>log_head := ar_hash r'\<rparr>)))))))"
  have "steps (same log_seq) (?rest n)" for n
    unfolding append_line_def fsync_def
    by (intro seqs_kept.world_rules seqs_kept.steps_seal_record same.steps_pure) (simp_all add: same_def)
  from this [of "log_seq w + 1"] show ?thesis
    by (simp add: file_log_def ebind_apply steps_def same_def)
qed

text \<open>The state of a log that verifies: the file is a chain whose end is in memory.\<close>

definition log_inv :: "'x cenv_scheme \<Rightarrow> signer \<Rightarrow> world \<Rightarrow> bool" where
  "log_inv E sg w \<longleftrightarrow> (\<exists>rs. all_some (map audit_rec_of (log_lines w)) = Some rs \<and>
     chained E (audit_pub sg) (sg_alg sg) [] 0 rs \<and> log_seq w = end_seq 0 rs \<and> (rs = [] \<or> log_head w = ar_hash (last rs)))"

lemma file_log_inv:
  assumes sg: "audit_signer E (cl_signer l)" and inv: "log_inv E (cl_signer l) w" and d: "wf_map (ar_detail r)"
    and run: "file_log E l r w = (Inr u, w')"
  shows "log_inv E (cl_signer l) w' \<and> length (log_lines w') = Suc (length (log_lines w))"
  using run
proof (rule file_log_Inr)
  fix t r' w1 w2
  assume seal: "seal_record E (cl_signer l)
      (r\<lparr>ar_seq := log_seq w + 1, ar_time := t, ar_prev := log_head w, ar_key_id := cl_key_id l\<rparr>) w1 = (Inr r', w2)"
    and ll: "log_lines w' = log_lines w @ [audit_rec_json r']" and sq: "log_seq w' = log_seq w + 1"
    and hd: "log_head w' = ar_hash r'" and ev: "event_of r' = event_of r" and "ar_seq r' = log_seq w + 1"
  obtain rs where rs: "all_some (map audit_rec_of (log_lines w)) = Some rs"
    "chained E (audit_pub (cl_signer l)) (sg_alg (cl_signer l)) [] 0 rs" "log_seq w = end_seq 0 rs"
    "rs = [] \<or> log_head w = ar_hash (last rs)"
    using inv by (auto simp: log_inv_def)
  have "audit_rec_of (audit_rec_json r') = Some r'"
    using d ev by (intro audit_rec_of_json) (simp add: event_of_def)
  then have "all_some (map audit_rec_of (log_lines w')) = Some (rs @ [r'])"
    by (simp add: ll all_some_append rs)
  moreover have "linked E (audit_pub (cl_signer l)) (sg_alg (cl_signer l)) (end_hash [] rs) (end_seq 0 rs) r'"
    by (rule seal_record_linked [OF sg seal]) (use rs in \<open>auto simp: end_hash_def\<close>)
  ultimately show ?thesis
    using rs(2) sq hd ll \<open>ar_seq r' = log_seq w + 1\<close> by (auto simp: log_inv_def chained_append)
qed

lemma log_inv_verifies:
  "audit_signer E sg \<Longrightarrow> log_inv E sg w \<Longrightarrow> verify_file E (audit_pub sg) (log_lines w) = (length (log_lines w), None)"
  using all_some_length [of "map audit_rec_of (log_lines w)"]
  by (auto simp: verify_file_def audit_signer_def log_inv_def verify_lines_ok)

lemma verifies_chain:
  "algorithm_for_key pub = Inr alg \<Longrightarrow> verify_file E pub lines = (n, None) \<longleftrightarrow>
     (\<exists>rs. all_some (map audit_rec_of lines) = Some rs \<and> chained E pub alg [] 0 rs \<and> n = length rs)"
  by (simp add: verify_file_def verify_lines_ok)

lemma last_record_ok:
  "all_some (map audit_rec_of lines) = Some rs \<Longrightarrow> last_record lines = Inr (if rs = [] then None else Some (last rs))"
proof -
  have "all_some (map audit_rec_of lines) = Some rs \<Longrightarrow>
    sfold (\<lambda>_ j. case audit_rec_of j of None \<Rightarrow> Inl (wrapf ''audit: existing log corrupt: '' err_json) | Some r \<Rightarrow> Inr (Some r))
      a lines = Inr (if rs = [] then a else Some (last rs))" for a
  proof (induction lines arbitrary: rs a)
    case (Cons j lines)
    then show ?case by (cases "audit_rec_of j") auto
  qed simp
  then show "all_some (map audit_rec_of lines) = Some rs \<Longrightarrow> last_record lines = Inr (if rs = [] then None else Some (last rs))"
    by (simp add: last_record_def)
qed

lemma open_log_inv:
  assumes sg: "audit_signer E sg" and ok: "verify_file E (audit_pub sg) (log_lines w) = (n, None)"
    and run: "open_log E sg kid w = (Inr l, w')"
  shows "log_inv E sg w' \<and> cl_signer l = sg \<and> cl_key_id l = kid \<and>
    length (log_lines w') = (if log_lines w = [] then 1 else length (log_lines w))"
proof -
  have alg: "algorithm_for_key (audit_pub sg) = Inr (sg_alg sg)" using sg by (simp add: audit_signer_def)
  obtain rs where rs: "all_some (map audit_rec_of (log_lines w)) = Some rs"
    "chained E (audit_pub sg) (sg_alg sg) [] 0 rs" "n = length rs"
    using ok by (auto simp: verifies_chain [OF alg])
  have nil: "rs = [] \<longleftrightarrow> log_lines w = []" using all_some_length [OF rs(1)] by auto
  define v where "v = w\<lparr>log_seq := 0, log_head := [], tick := Suc (Suc (tick w))\<rparr>"
  have v: "log_lines v = log_lines w" "log_seq v = 0" by (simp_all add: v_def)
  show ?thesis
  proof (cases "rs = []")
    case True
    then obtain anchor w1 where r: "rand_read E 32 v = (Inr anchor, w1)"
      and g: "file_log E \<lparr>cl_signer = sg, cl_key_id = kid\<rparr> genesis_event (w1\<lparr>log_head := hex_encode anchor\<rparr>) = (Inr (), w')"
      and l: "l = \<lparr>cl_signer = sg, cl_key_id = kid\<rparr>"
      using run by (auto simp: open_log_def act_elims Let_def last_record_ok [OF rs(1)] v_def advance_def dest!: effect_InrD split: if_splits)
    have "but_tick w1 = but_tick v"
      using stepsD [OF timed.steps_rand r] by (simp add: same_def)
    then have "log_lines w1 = []" "log_seq w1 = 0"
      using v nil True same_but_tick [OF timed.steps_rand r] by auto
    then have "log_inv E sg (w1\<lparr>log_head := hex_encode anchor\<rparr>)" by (simp add: log_inv_def)
    then show ?thesis
      using file_log_inv [OF _ _ _ g] sg l \<open>log_lines w1 = []\<close> nil True
      by (simp add: genesis_event_def new_event_def)
  next
    case False
    then have "w' = v\<lparr>log_seq := ar_seq (last rs), log_head := ar_hash (last rs)\<rparr>" "l = \<lparr>cl_signer = sg, cl_key_id = kid\<rparr>"
      using run by (auto simp: open_log_def act_elims Let_def last_record_ok [OF rs(1)] v_def advance_def dest!: effect_InrD)
    with False rs v nil show ?thesis by (auto simp: log_inv_def end_seq_def)
  qed
qed

lemma log_inv_head:
  assumes "log_inv E sg w" and "log_lines w \<noteq> []"
  shows "\<exists>p. hex_decode (log_head w) = Some p"
proof -
  obtain rs where rs: "all_some (map audit_rec_of (log_lines w)) = Some rs"
    "chained E (audit_pub sg) (sg_alg sg) [] 0 rs" "rs = [] \<or> log_head w = ar_hash (last rs)"
    using assms(1) by (auto simp: log_inv_def)
  then obtain qs r where "rs = qs @ [r]"
    using assms(2) all_some_length [OF rs(1)] by (cases rs rule: rev_cases) auto
  with rs have "linked E (audit_pub sg) (sg_alg sg) (end_hash [] qs) (end_seq 0 qs) r" "log_head w = ar_hash r"
    by (auto simp: chained_append)
  then show ?thesis by (auto simp: linked_def)
qed

definition sample_signer :: signer where
  "sample_signer = \<lparr>sg_key = sample_key, sg_alg = Ed25519\<rparr>"

lemma sample_audit_signer: "audit_signer sample_env sample_signer"
  by (simp add: audit_signer_def sample_signer_def sample_key_def sign_capable_def check_audit_alg_def plain_info_def
      sample_env_def)

lemma sample_key_sign: "key_sign sample_env sample_key NoHash m w = (Inr (CHR ''s'' # m), advance w)"
  by (simp add: sample_key_def sample_env_def prim_sign_def)

text \<open>A signer that never fails, in an environment where no call does, always seals.\<close>

definition signs :: "'x cenv_scheme \<Rightarrow> signer \<Rightarrow> bool" where
  "signs E sg \<longleftrightarrow> (\<forall>t. fault_at E t = NoFault) \<and> (\<forall>m w. \<exists>s. key_sign E (sg_key sg) NoHash m w = (Inr s, advance w))"

lemma signsD: "signs E sg \<Longrightarrow> fault_at E t = NoFault"
  by (simp add: signs_def)

lemma signs_sample: "signs sample_env sample_signer"
  using sample_key_sign by (auto simp: signs_def sample_signer_def)

lemma signs_seal:
  assumes "signs E sg" and "hex_decode (ar_prev r) = Some p"
  shows "\<exists>r'. seal_record E sg r w = (Inr r', advance w)"
proof -
  obtain c where c: "chain_hash E r = Inr c" using assms(2) by (simp add: chain_hash_def)
  obtain s where "key_sign E (sg_key sg) NoHash c w = (Inr s, advance w)" using assms(1) unfolding signs_def by blast
  with c show ?thesis by (simp add: seal_record_def act_simps)
qed

lemmas sample_seal = signs_seal [OF signs_sample]

lemma sample_file_log:
  assumes "hex_decode (log_head w) = Some p"
  shows "\<exists>w'. file_log sample_env \<lparr>cl_signer = sample_signer, cl_key_id = k\<rparr> r w = (Inr (), w')"
proof -
  let ?w = "w\<lparr>log_seq := log_seq w + 1\<rparr>"
  obtain t w1 where t: "(if ar_time r = zero_time then clock sample_env else ret (ar_time r)) ?w = (Inr t, w1)"
    and w1: "log_head w1 = log_head w"
    by (cases "ar_time r = zero_time") (auto simp: clock_def)
  obtain r' where "seal_record sample_env sample_signer
      (r\<lparr>ar_seq := log_seq w + 1, ar_time := t, ar_prev := log_head w, ar_key_id := k\<rparr>) w1 = (Inr r', advance w1)"
    using sample_seal [of "r\<lparr>ar_seq := log_seq w + 1, ar_time := t, ar_prev := log_head w, ar_key_id := k\<rparr>"] assms
    by auto
  with t w1 show ?thesis
    by (simp add: file_log_def ebind_apply wrap_err_apply reading_def append_line_def fsync_def effect_ok)
qed

lemma sample_open_log:
  "\<exists>w. open_log sample_env sample_signer k empty_world = (Inr \<lparr>cl_signer = sample_signer, cl_key_id = k\<rparr>, w)"
proof -
  have c: "check_audit_alg sample_signer = Inr ()"
    using sample_audit_signer by (simp add: audit_signer_def)
  let ?v = "(advance (advance empty_world))\<lparr>log_seq := 0, log_head := []\<rparr>"
  obtain w where "file_log sample_env \<lparr>cl_signer = sample_signer, cl_key_id = k\<rparr> genesis_event
      ((advance (advance (advance empty_world)\<lparr>log_seq := 0, log_head := []\<rparr>))\<lparr>tick := 3,
         log_head := hex_encode (map (rnd_at sample_env 2) [0..<32])\<rparr>) = (Inr (), w)"
    using sample_file_log by (metis hex_decode_encode world.select_convs(7) world.surjective world.update_convs(7))
  then show ?thesis
    by (auto simp: open_log_def ebind_apply c effect_ok last_record_def sample_rand Let_def)
      (simp add: advance_def empty_world_def ebind_apply sample_rand numeral_2_eq_2 numeral_3_eq_3)
qed

text \<open>
  Claim C25: a log opened on a file that verifies (an empty file included) and then written with any
  events keeps verifying: after all appends the verifier accepts every record, old and new.
\<close>

theorem file_log_verifies:
  assumes sg: "audit_signer E sg" and ok: "verify_file E (public_of (sg_key sg)) (log_lines w) = (n, None)"
    and op: "open_log E sg kid w = (Inr l, w1)" and d: "\<forall>r \<in> set rs. wf_map (ar_detail r)"
    and run: "efold (\<lambda>_. file_log E l) () rs w1 = (Inr (), w2)"
  shows "verify_file E (public_of (sg_key sg)) (log_lines w2) = (length (log_lines w1) + length rs, None)"
proof -
  have l: "cl_signer l = sg" and inv: "log_inv E sg w1" using open_log_inv [OF sg ok op] by auto
  have "efold (\<lambda>_. file_log E l) () rs w1 = (Inr (), w2) \<Longrightarrow> log_inv E sg w1 \<Longrightarrow> \<forall>r \<in> set rs. wf_map (ar_detail r) \<Longrightarrow>
    log_inv E sg w2 \<and> length (log_lines w2) = length (log_lines w1) + length rs" for w1
  proof (induction rs arbitrary: w1)
    case (Cons r rs)
    then obtain v where v: "file_log E l r w1 = (Inr (), v)" "efold (\<lambda>_. file_log E l) () rs v = (Inr (), w2)"
      by (auto simp: act_elims)
    have "log_inv E sg v \<and> length (log_lines v) = Suc (length (log_lines w1))"
      using file_log_inv [of E l w1 r _ v] v(1) Cons.prems sg l by auto
    with Cons v(2) show ?case by auto
  qed simp
  with run inv d have "log_inv E sg w2" "length (log_lines w2) = length (log_lines w1) + length rs" by auto
  with log_inv_verifies [OF sg] show ?thesis by auto
qed

theorem file_log_verifies_witness:
  "\<exists>l w1 w2. open_log sample_env sample_signer ''k'' empty_world = (Inr l, w1) \<and>
     efold (\<lambda>_. file_log sample_env l) () [genesis_event] w1 = (Inr (), w2) \<and>
     verify_file sample_env (public_of (sg_key sample_signer)) (log_lines w2) = (length (log_lines w1) + 1, None)"
proof -
  obtain w1 where o: "open_log sample_env sample_signer ''k'' empty_world =
      (Inr \<lparr>cl_signer = sample_signer, cl_key_id = ''k''\<rparr>, w1)" using sample_open_log by blast
  have v: "verify_file sample_env (audit_pub sample_signer) (log_lines empty_world) = (0, None)"
    by (simp add: verify_file_def sample_signer_def sample_key_def empty_world_def)
  have "log_inv sample_env sample_signer w1" "log_lines w1 \<noteq> []"
    using open_log_inv [OF sample_audit_signer v o] by (auto simp: empty_world_def)
  then have "\<exists>p. hex_decode (log_head w1) = Some p" by (rule log_inv_head)
  then obtain w2 where "file_log sample_env \<lparr>cl_signer = sample_signer, cl_key_id = ''k''\<rparr> genesis_event w1 = (Inr (), w2)"
    using sample_file_log by blast
  then have e: "efold (\<lambda>_. file_log sample_env \<lparr>cl_signer = sample_signer, cl_key_id = ''k''\<rparr>) () [genesis_event] w1 = (Inr (), w2)"
    by (simp add: ebind_apply)
  have "verify_file sample_env (audit_pub sample_signer) (log_lines w2) = (length (log_lines w1) + length [genesis_event], None)"
    by (rule file_log_verifies [OF sample_audit_signer v o _ e]) (simp add: genesis_event_def new_event_def)
  with o e show ?thesis by auto
qed


lemma sample_log_opened:
  "\<exists>l w. open_log sample_env sample_signer ''k'' empty_world = (Inr l, w) \<and> length (log_lines w) = 1 \<and>
     log_inv sample_env sample_signer w"
proof -
  obtain w where o: "open_log sample_env sample_signer ''k'' empty_world =
      (Inr \<lparr>cl_signer = sample_signer, cl_key_id = ''k''\<rparr>, w)" using sample_open_log by blast
  have v: "verify_file sample_env (audit_pub sample_signer) (log_lines empty_world) = (0, None)"
    by (simp add: verify_file_def sample_signer_def sample_key_def empty_world_def)
  from open_log_inv [OF sample_audit_signer v o] o show ?thesis by (auto simp: empty_world_def)
qed

lemma sample_pub_alg: "algorithm_for_key (audit_pub sample_signer) = Inr Ed25519"
  by (simp add: sample_signer_def sample_key_def)

lemma sample_sha256: "\<forall>m. sha256 sample_env m \<noteq> []"
  by (simp add: sample_env_def)


text \<open>The content of a record, without its hash and signature.\<close>

definition content_of :: "audit_rec \<Rightarrow> audit_rec" where
  "content_of r = r\<lparr>ar_hash := [], ar_sig := []\<rparr>"

text \<open>No two records at hand with different contents have the same chain hash.\<close>

definition no_collision :: "'x cenv_scheme \<Rightarrow> audit_rec list \<Rightarrow> bool" where
  "no_collision E rs \<longleftrightarrow> (\<forall>r \<in> set rs. \<forall>r' \<in> set rs. \<forall>h.
     chain_hash E r = Inr h \<longrightarrow> chain_hash E r' = Inr h \<longrightarrow> content_of r = content_of r')"

lemma no_collisionD:
  "no_collision E rs \<Longrightarrow> r \<in> set rs \<Longrightarrow> r' \<in> set rs \<Longrightarrow> chain_hash E r = Inr h \<Longrightarrow> chain_hash E r' = Inr h \<Longrightarrow>
     content_of r = content_of r'"
  unfolding no_collision_def by blast

lemma content_fields:
  "content_of r = content_of r' \<Longrightarrow> ar_seq r = ar_seq r' \<and> ar_prev r = ar_prev r' \<and> event_of r = event_of r'"
  by (cases r; cases r') (auto simp: content_of_def event_of_def)

lemma chained_unique:
  assumes ne: "\<forall>m. sha256 E m \<noteq> []"
  shows "chained E pub alg [] 0 rs \<Longrightarrow> chained E pub alg [] 0 rs' \<Longrightarrow> rs \<noteq> [] \<Longrightarrow> rs' \<noteq> [] \<Longrightarrow>
    ar_hash (last rs) = ar_hash (last rs') \<Longrightarrow> no_collision E (rs @ rs') \<Longrightarrow> length rs < 2 ^ 64 \<Longrightarrow> length rs' < 2 ^ 64 \<Longrightarrow>
    map content_of rs = map content_of rs'"
proof (induction rs arbitrary: rs' rule: rev_induct)
  case (snoc r rs)
  obtain qs q where rs': "rs' = qs @ [q]" using snoc.prems(4) by (cases rs' rule: rev_cases) auto
  have lr: "linked E pub alg (end_hash [] rs) (end_seq 0 rs) r" and lq: "linked E pub alg (end_hash [] qs) (end_seq 0 qs) q"
    and cr: "chained E pub alg [] 0 rs" and cq: "chained E pub alg [] 0 qs"
    using snoc.prems(1,2) rs' by (auto simp: chained_append)
  obtain h where h: "chain_hash E r = Inr h" "ar_hash r = hex_encode h" using lr by (auto simp: linked_def)
  obtain h' where h': "chain_hash E q = Inr h'" "ar_hash q = hex_encode h'" using lq by (auto simp: linked_def)
  have "h = h'" using h h' snoc.prems(5) rs' by simp
  then have same: "content_of r = content_of q"
    by (intro no_collisionD [OF snoc.prems(6) _ _ h(1)]) (simp_all add: rs' h')
  have "ar_seq r = of_nat (length rs) + 1" "ar_seq q = of_nat (length qs) + 1"
    using lr lq chained_seq [OF cr] chained_seq [OF cq] by (simp_all add: linked_def)
  then have "(of_nat (length rs) :: u64) = of_nat (length qs)" using content_fields [OF same] by simp
  then have len: "length rs = length qs"
    using snoc.prems(7,8) rs' by (simp add: word_of_nat_eq_iff take_bit_nat_eq_self)
  show ?case
  proof (cases "rs = []")
    case True
    with len same rs' show ?thesis by simp
  next
    case False
    with len have "qs \<noteq> []" by auto
    have nonempty: "ar_hash x \<noteq> []" if c: "chained E pub alg [] 0 (xs @ [x])" for xs x
    proof -
      obtain g where "chain_hash E x = Inr g" "ar_hash x = hex_encode g"
        using c by (auto simp: chained_append linked_def)
      moreover from this have "g \<noteq> []" using ne by (auto simp: chain_hash_def split: option.splits)
      ultimately show ?thesis by simp
    qed
    have "end_hash [] rs = ar_hash (last rs)" "end_hash [] qs = ar_hash (last qs)"
      using False \<open>qs \<noteq> []\<close> by (simp_all add: end_hash_def)
    moreover have "ar_hash (last rs) \<noteq> []" "ar_hash (last qs) \<noteq> []"
      using nonempty [of "butlast rs" "last rs"] nonempty [of "butlast qs" "last qs"] cr cq False \<open>qs \<noteq> []\<close> by simp_all
    moreover have "ar_prev r = ar_prev q" using content_fields [OF same] by blast
    ultimately have "ar_hash (last rs) = ar_hash (last qs)"
      using lr lq unfolding linked_def by (elim conjE disjE) simp_all
    moreover have "set (rs @ qs) \<subseteq> set ((rs @ [r]) @ rs')" using rs' by auto
    then have "no_collision E (rs @ qs)"
      using snoc.prems(6) unfolding no_collision_def by blast
    ultimately have "map content_of rs = map content_of qs"
      using snoc.IH [OF cr cq False \<open>qs \<noteq> []\<close>] snoc.prems(7,8) rs' by simp
    with same rs' show ?thesis by simp
  qed
qed simp



text \<open>
  Claim C36: a failed append poisons the file log. The sequence number is taken before the record is
  sealed and written and is not given back, so after an append that left the file unchanged (the
  signer failed, or the disk was full) the next successful one leaves a gap and verification fails.
\<close>

theorem file_log_gap_after_failure:
  assumes alg: "algorithm_for_key pub = Inr alg"
    and ok: "verify_file E pub (log_lines w) = (n, None)" and seq: "log_seq w = of_nat n"
    and bad: "file_log E l r w = (Inl e, w1)" and same: "log_lines w1 = log_lines w"
    and good: "file_log E l r' w1 = (Inr (), w2)" and d: "wf_map (ar_detail r')"
  shows "\<exists>e'. verify_file E pub (log_lines w2) = (n, Some e')"
proof -
  obtain rs where rs: "all_some (map audit_rec_of (log_lines w)) = Some rs" "chained E pub alg [] 0 rs" "n = length rs"
    using ok by (auto simp: verifies_chain [OF alg])
  have s1: "log_seq w1 = of_nat n + 1"
    using file_log_seq [of E l r w] bad seq by simp
  show ?thesis
    using good
  proof (rule file_log_Inr)
    fix r''
    assume ll: "log_lines w2 = log_lines w1 @ [audit_rec_json r'']" and ev: "event_of r'' = event_of r'"
      and sq: "ar_seq r'' = log_seq w1 + 1"
    have dc: "audit_rec_of (audit_rec_json r'') = Some r''"
      using d ev by (intro audit_rec_of_json) (simp add: event_of_def)
    have "end_seq 0 rs = of_nat n" using chained_seq [OF rs(2)] rs(3) by simp
    then have "\<not> linked E pub alg (end_hash [] rs) (end_seq 0 rs) r''"
      using sq s1 by (simp add: linked_def)
    then obtain e' where "verify_record E r'' pub alg (end_hash [] rs) (end_seq 0 rs) (n + 1) = Inl e'"
      by (cases "verify_record E r'' pub alg (end_hash [] rs) (end_seq 0 rs) (n + 1)") (auto simp: verify_record_Inr)
    then have "verify_lines E pub alg 0 [] 0 (log_lines w2) = (n, Some e')"
      using dc by (simp add: ll same verify_lines_append [OF rs(1,2)] rs(3))
    then show ?thesis by (auto simp: verify_file_def alg)
  qed
qed

definition failing_env :: "nat \<Rightarrow> cenv" where
  "failing_env k = sample_env\<lparr>fault_at := (\<lambda>n. if n = k then FailClean ''disk full'' else NoFault)\<rparr>"

theorem file_log_gap_after_failure_witness:
  "\<exists>l e w1 w2. file_log (failing_env 2) l genesis_event empty_world = (Inl e, w1) \<and>
     file_log (failing_env 2) l genesis_event w1 = (Inr (), w2) \<and>
     (\<exists>e'. verify_file (failing_env 2) (audit_pub sample_signer) (log_lines w2) = (0, Some e'))"
proof -
  let ?l = "\<lparr>cl_signer = sample_signer, cl_key_id = ''k''\<rparr>"
  have v: "verify_file (failing_env 2) (audit_pub sample_signer) (log_lines empty_world) = (0, None)"
    by (simp add: verify_file_def sample_signer_def sample_key_def empty_world_def)
  have ks: "key_sign (failing_env 2) sample_key NoHash m w = (Inr (CHR ''s'' # m), advance w)" for m w
    by (simp add: sample_key_def failing_env_def sample_env_def prim_sign_def)
  have f: "fault_at (failing_env 2) = (\<lambda>n. if n = 2 then FailClean ''disk full'' else NoFault)"
    by (simp add: failing_env_def)
  obtain e w1 where bad: "file_log (failing_env 2) ?l genesis_event empty_world = (Inl e, w1)"
    and w1: "log_lines w1 = []" "log_head w1 = []" "tick w1 = 3"
    by (simp add: file_log_def ebind_apply wrap_err_apply reading_def append_line_def effect_def f seal_record_def
        chain_hash_def ks sample_signer_def genesis_event_def new_event_def clock_def empty_world_def)
  have "\<exists>w2. file_log (failing_env 2) ?l genesis_event w1 = (Inr (), w2)"
    using w1 by (simp add: file_log_def ebind_apply wrap_err_apply reading_def append_line_def effect_def f seal_record_def
        chain_hash_def ks sample_signer_def genesis_event_def new_event_def clock_def fsync_def)
  then obtain w2 where good: "file_log (failing_env 2) ?l genesis_event w1 = (Inr (), w2)" ..
  have "\<exists>e'. verify_file (failing_env 2) (audit_pub sample_signer) (log_lines w2) = (0, Some e')"
    by (rule file_log_gap_after_failure [OF sample_pub_alg v _ bad _ good])
      (simp_all add: w1 empty_world_def genesis_event_def new_event_def)
  with bad good show ?thesis by blast
qed

end
