(* ===== verification/Audit_Store.thy ===== *)
theory Audit_Store
  imports Audit_Log
begin

text \<open>
  The store-backed audit log (internal/audit/storelog.go): records are documents keyed by their
  zero-padded sequence number, and the head document is advanced by an atomic update before the
  record is written.  The contract of a log, for the file and the store, is the locale
  \<open>audit_sink\<close>.
\<close>

section \<open>Definitions\<close>

definition audit_records_bucket :: bpath where
  "audit_records_bucket = [''audit'', ''records'']"

definition audit_meta_bucket :: bpath where
  "audit_meta_bucket = [''audit'', ''meta'']"

definition head_key :: string where
  "head_key = ''head''"

record chain_head =
  ch_seq :: u64
  ch_hash :: string

definition chain_head_json :: "chain_head \<Rightarrow> json" where
  "chain_head_json h = JObj (fld ''seq'' (JNum (uint (ch_seq h))) @ fld ''hash'' (JStr (ch_hash h)))"

definition chain_head_of :: "json \<Rightarrow> chain_head option" where
  "chain_head_of j = do { fs \<leftarrow> of_obj j; n \<leftarrow> of_u64 (jget fs ''seq''); h \<leftarrow> of_str (jget fs ''hash'');
     Some \<lparr>ch_seq = n, ch_hash = h\<rparr> }"

definition zero_head :: chain_head where
  "zero_head = \<lparr>ch_seq = 0, ch_hash = []\<rparr>"

definition seq_key :: "u64 \<Rightarrow> string" where
  "seq_key n = pad_dec 20 (unat n)"

text \<open>The update callback of \<open>ensureGenesis\<close>: an existing head is kept.\<close>

definition make_genesis :: "'x cenv_scheme \<Rightarrow> chain_log \<Rightarrow> json option \<Rightarrow> (json \<times> audit_rec option) act" where
  "make_genesis E l data = (case data of
     Some d \<Rightarrow> ret (d, None)
   | None \<Rightarrow> ebind (rand_read E 32) (\<lambda>anchor.
       ebind (clock E) (\<lambda>t.
       ebind (seal_record E (cl_signer l) (genesis_event\<lparr>ar_seq := 1, ar_time := t,
           ar_prev := hex_encode anchor, ar_key_id := cl_key_id l\<rparr>)) (\<lambda>r.
         ret (chain_head_json \<lparr>ch_seq = ar_seq r, ch_hash = ar_hash r\<rparr>, Some r)))))"

definition ensure_genesis :: "'x cenv_scheme \<Rightarrow> chain_log \<Rightarrow> unit act" where
  "ensure_genesis E l =
     ebind (wrap_err (wrapf ''audit: initializing store chain: '')
       (update_out E audit_meta_bucket head_key True (make_genesis E l))) (\<lambda>genesis.
     case genesis of None \<Rightarrow> ret ()
     | Some r \<Rightarrow> wrap_err (wrapf ''audit: writing genesis record: '')
         (put_json E audit_rec_json audit_records_bucket (seq_key (ar_seq r)) r))"

definition open_store_log :: "'x cenv_scheme \<Rightarrow> signer \<Rightarrow> string \<Rightarrow> chain_log act" where
  "open_store_log E sg kid =
     ebind (lift_sum (check_audit_alg sg)) (\<lambda>_.
     let l = \<lparr>cl_signer = sg, cl_key_id = kid\<rparr> in
     ebind (ensure_genesis E l) (\<lambda>_. ret l))"

text \<open>The head update of \<open>Log\<close>: the new head, and the sealed record for the caller.\<close>

definition advance_head :: "'x cenv_scheme \<Rightarrow> chain_log \<Rightarrow> audit_rec \<Rightarrow> chain_head \<Rightarrow> (chain_head \<times> audit_rec) act" where
  "advance_head E l r h =
     ebind (seal_record E (cl_signer l) (r\<lparr>ar_seq := ch_seq h + 1, ar_prev := ch_hash h\<rparr>)) (\<lambda>s.
       ret (\<lparr>ch_seq = ar_seq s, ch_hash = ar_hash s\<rparr>, s))"

text \<open>The two steps of \<open>Log\<close>: claiming the next sequence number, and writing the record.\<close>

definition claim_head :: "'x cenv_scheme \<Rightarrow> chain_log \<Rightarrow> audit_rec \<Rightarrow> audit_rec act" where
  "claim_head E l r =
     wrap_err (\<lambda>e. if is_not_found e then errorf ''audit: store chain not initialized''
                   else wrapf ''audit: advancing chain head: '' e)
       (update_json_out E chain_head_of chain_head_json zero_head audit_meta_bucket head_key False (advance_head E l r))"

definition write_record :: "'x cenv_scheme \<Rightarrow> audit_rec \<Rightarrow> unit act" where
  "write_record E s = wrap_err (wrapf (''audit: appending record '' @ dec (unat (ar_seq s)) @ '': ''))
     (put_json E audit_rec_json audit_records_bucket (seq_key (ar_seq s)) s)"

definition store_log :: "'x cenv_scheme \<Rightarrow> chain_log \<Rightarrow> audit_rec \<Rightarrow> unit act" where
  "store_log E l r =
     ebind (if ar_time r = zero_time then clock E else ret (ar_time r)) (\<lambda>t.
     ebind (claim_head E l (r\<lparr>ar_time := t, ar_key_id := cl_key_id l\<rparr>)) (write_record E))"

definition store_checkpoint :: "'x cenv_scheme \<Rightarrow> chain_log \<Rightarrow> unit act" where
  "store_checkpoint E l =
     ebind (wrap_err (wrapf ''audit: reading chain head: '') (get_json E chain_head_of audit_meta_bucket head_key)) (\<lambda>h.
       store_log E l (checkpoint_event (ch_seq h) (ch_hash h)))"

text \<open>The number of records verified before an error is not kept.\<close>

definition verify_step ::
  "'x cenv_scheme \<Rightarrow> public_key \<Rightarrow> algorithm \<Rightarrow> nat \<times> string \<times> u64 \<Rightarrow> string \<Rightarrow> audit_rec \<Rightarrow> err + nat \<times> string \<times> u64" where
  "verify_step E pub alg st k r = (case st of (count, ph, ps) \<Rightarrow>
     sbind (verify_record E r pub alg ph ps (count + 1)) (\<lambda>_. Inr (count + 1, ar_hash r, ar_seq r)))"

definition verify_store :: "'x cenv_scheme \<Rightarrow> public_key \<Rightarrow> nat act" where
  "verify_store E pub =
     ebind (lift_sum (algorithm_for_key pub)) (\<lambda>alg.
     ebind (for_each_json E audit_rec_of audit_records_bucket (verify_step E pub alg) (0, [], 0)) (\<lambda>(count, ph, ps).
     ebind (wrap_err (\<lambda>e. if is_not_found e \<and> count = 0 then errorf ''audit: store chain not initialized''
                          else wrapf ''audit: reading chain head: '' e)
       (get_json E chain_head_of audit_meta_bucket head_key)) (\<lambda>h.
       if ch_seq h \<noteq> ps \<or> ch_hash h \<noteq> ph
       then fail (errorf (''audit: head (seq '' @ dec (unat (ch_seq h)) @ '') does not match last record (seq '' @
         dec (unat ps) @ ''): missing or extra record(s)''))
       else ret count)))"

lemma chain_head_of_json [simp]: "chain_head_of (chain_head_json h) = Some h"
  by (simp add: chain_head_of_def chain_head_json_def json_simps)

lemma audit_buckets: "audit_records_bucket \<noteq> []" "audit_meta_bucket \<noteq> []" "audit_records_bucket \<noteq> audit_meta_bucket"
  "audit_meta_bucket \<noteq> audit_records_bucket"
  by (simp_all add: audit_records_bucket_def audit_meta_bucket_def)

section \<open>Record keys sort in chain order\<close>

lemma unat_u64_bound: "unat (n :: u64) < 10 ^ 20"
proof -
  have "unat n < 2 ^ 64" using unsigned_less [of n] by simp
  then show ?thesis by simp
qed

lemma seq_key_mono: "m < n \<Longrightarrow> seq_key m < seq_key n"
proof -
  assume "m < n"
  then have "fixdec 20 (unat m) < fixdec 20 (unat n)"
    by (intro fixdec_less) (simp_all only: unat_u64_bound unat_mono)
  moreover have "pad_dec 20 (unat k) = fixdec 20 (unat k)" for k :: u64
    by (rule pad_dec_fixdec) (simp, rule unat_u64_bound)
  ultimately show ?thesis by (simp add: seq_key_def)
qed

lemma bucket_set_last:
  assumes "\<And>l. lookup w p l \<noteq> None \<Longrightarrow> l < k"
  shows "bucket (set_doc w p k d) p = bucket w p @ [(k, d)]"
proof -
  have less: "\<And>l. l \<in> set (keys_of w p) \<Longrightarrow> l < k" using assms by (simp add: mem_keys_of)
  have "keys_of (set_doc w p k d) p = keys_of w p @ [k]"
  proof (rule sorted_distinct_set_unique)
    show "sorted (keys_of w p @ [k])" using less by (auto simp: sorted_append intro: less_imp_le)
    show "distinct (keys_of w p @ [k])" using less by auto
    show "set (keys_of (set_doc w p k d) p) = set (keys_of w p @ [k])"
      by (auto simp: mem_keys_of lookup_set_doc set_eq_iff)
  qed simp_all
  then show ?thesis
    using less by (auto simp: bucket_def lookup_set_doc)
qed

section \<open>The store log stays verifiable\<close>

text \<open>
  The documents of the log: the records of a chain, each under the key of its sequence number, and a
  head that names the last one.
\<close>

definition chain_stored :: "'x cenv_scheme \<Rightarrow> signer \<Rightarrow> world \<Rightarrow> audit_rec list \<Rightarrow> bool" where
  "chain_stored E sg w rs \<longleftrightarrow> rs \<noteq> [] \<and> length rs < 2 ^ 64 \<and> (\<forall>r \<in> set rs. wf_map (ar_detail r)) \<and>
     bucket w audit_records_bucket = map (\<lambda>r. (seq_key (ar_seq r), audit_rec_json r)) rs \<and>
     chained E (audit_pub sg) (sg_alg sg) [] 0 rs \<and>
     lookup w audit_meta_bucket head_key =
       Some (chain_head_json \<lparr>ch_seq = ar_seq (last rs), ch_hash = ar_hash (last rs)\<rparr>)"

lemma verify_step_fold:
  "sfold (\<lambda>b (k, v). verify_step E pub alg b k v) (c, ph, ps) kvs = Inr (n, h, q) \<longleftrightarrow>
     chained E pub alg ph ps (map snd kvs) \<and> n = c + length kvs \<and> h = end_hash ph (map snd kvs) \<and>
     q = end_seq ps (map snd kvs)"
proof (induction kvs arbitrary: c ph ps)
  case (Cons kv kvs)
  obtain k r where kv: "kv = (k, r)" by fastforce
  show ?case
  proof (cases "verify_record E r pub alg ph ps (c + 1)")
    case (Inl e)
    then have "\<not> linked E pub alg ph ps r" using verify_record_ok [of E r pub alg ph ps "c + 1"] by simp
    moreover have "verify_step E pub alg (c, ph, ps) k r = Inl e" using Inl by (simp add: verify_step_def)
    ultimately show ?thesis by (simp add: kv)
  next
    case (Inr u)
    then have "linked E pub alg ph ps r" by (simp add: verify_record_Inr)
    moreover have "verify_step E pub alg (c, ph, ps) k r = Inr (c + 1, ar_hash r, ar_seq r)"
      using Inr by (simp add: verify_step_def)
    ultimately show ?thesis by (simp add: kv Cons)
  qed
qed auto

lemma verify_store_Inr:
  assumes "algorithm_for_key pub = Inr alg"
  shows "verify_store E pub w = (Inr n, w') \<longleftrightarrow>
    fault_at E (tick w) = NoFault \<and> fault_at E (Suc (tick w)) = NoFault \<and> w' = advance (advance w) \<and>
    (\<exists>kvs d. decode_all audit_rec_of (bucket w audit_records_bucket) = Some kvs \<and>
       chained E pub alg [] 0 (map snd kvs) \<and> n = length kvs \<and> lookup w audit_meta_bucket head_key = Some d \<and>
       chain_head_of d = Some \<lparr>ch_seq = end_seq 0 (map snd kvs), ch_hash = end_hash [] (map snd kvs)\<rparr>)"
proof -
  have h: "(ch_seq h \<noteq> a \<or> ch_hash h \<noteq> b) \<longleftrightarrow> h \<noteq> \<lparr>ch_seq = a, ch_hash = b\<rparr>" for h a b
    by (cases h) auto
  show ?thesis
    by (auto simp: verify_store_def assms act_elims verify_step_fold audit_buckets h split: if_splits)
      (metis chain_head.select_convs)
qed

lemma decode_all_records:
  "\<forall>r \<in> set rs. wf_map (ar_detail r) \<Longrightarrow>
     decode_all audit_rec_of (map (\<lambda>r. (seq_key (ar_seq r), audit_rec_json r)) rs) =
       Some (map (\<lambda>r. (seq_key (ar_seq r), r)) rs)"
  by (induction rs) (auto simp: audit_rec_of_json)

lemma map_snd_keyed: "map snd (map (\<lambda>r. (f r, r)) rs) = rs"
  by (simp add: o_def)

lemma chain_stored_verifies:
  assumes sg: "audit_signer E sg" and c: "chain_stored E sg w rs"
    and "fault_at E (tick w) = NoFault" "fault_at E (Suc (tick w)) = NoFault"
  shows "verify_store E (audit_pub sg) w = (Inr (length rs), advance (advance w))"
proof -
  have alg: "algorithm_for_key (audit_pub sg) = Inr (sg_alg sg)" using sg by (simp add: audit_signer_def)
  have "decode_all audit_rec_of (bucket w audit_records_bucket) = Some (map (\<lambda>r. (seq_key (ar_seq r), r)) rs)"
    using c decode_all_records [of rs] by (simp add: chain_stored_def)
  then show ?thesis
    using c assms by (simp add: verify_store_Inr [OF alg] map_snd_keyed chain_stored_def end_hash_def end_seq_def del: map_map)
qed

lemma chain_stored_cong:
  assumes "\<And>k. lookup w' audit_records_bucket k = lookup w audit_records_bucket k"
    and "lookup w' audit_meta_bucket head_key = lookup w audit_meta_bucket head_key"
  shows "chain_stored E sg w' rs \<longleftrightarrow> chain_stored E sg w rs"
  using bucket_cong [of w' audit_records_bucket w] assms by (simp add: chain_stored_def)

text \<open>Writing the next record of the chain under its key extends it.\<close>

lemma chain_stored_keys:
  assumes "chain_stored E sg w rs" and "lookup w audit_records_bucket k \<noteq> None"
  obtains i where "i < length rs" "k = seq_key (of_nat (Suc i))"
proof -
  obtain d where "(k, d) \<in> set (bucket w audit_records_bucket)" using assms(2) by (auto simp: mem_bucket)
  then obtain r where "r \<in> set rs" "k = seq_key (ar_seq r)" using assms(1) by (auto simp: chain_stored_def)
  moreover have "chained E (audit_pub sg) (sg_alg sg) [] 0 rs" using assms(1) by (simp add: chain_stored_def)
  ultimately show thesis using that chained_nth_seq by (fastforce simp: in_set_conv_nth)
qed

lemma chain_stored_extend:
  assumes c: "chain_stored E sg w rs" and room: "Suc (length rs) < 2 ^ 64"
    and r: "linked E (audit_pub sg) (sg_alg sg) (end_hash [] rs) (end_seq 0 rs) r" and d: "wf_map (ar_detail r)"
  shows "chain_stored E sg (set_doc (set_doc w audit_meta_bucket head_key
      (chain_head_json \<lparr>ch_seq = ar_seq r, ch_hash = ar_hash r\<rparr>)) audit_records_bucket (seq_key (ar_seq r)) (audit_rec_json r))
    (rs @ [r])"
proof -
  let ?h = "chain_head_json \<lparr>ch_seq = ar_seq r, ch_hash = ar_hash r\<rparr>"
  let ?w = "set_doc w audit_meta_bucket head_key ?h"
  have ch: "chained E (audit_pub sg) (sg_alg sg) [] 0 rs" using c by (simp add: chain_stored_def)
  have sq: "ar_seq r = of_nat (Suc (length rs))"
    using r chained_seq [OF ch] by (simp add: linked_def algebra_simps)
  have b: "bucket ?w audit_records_bucket = bucket w audit_records_bucket"
    by (rule bucket_cong) (simp add: lookup_set_doc audit_buckets)
  have "l < seq_key (ar_seq r)" if l: "lookup ?w audit_records_bucket l \<noteq> None" for l
  proof -
    have "lookup w audit_records_bucket l \<noteq> None" using l by (simp add: lookup_set_doc audit_buckets)
    with c obtain i where i: "i < length rs" "l = seq_key (of_nat (Suc i))" by (rule chain_stored_keys)
    have "(of_nat (Suc i) :: u64) < of_nat (Suc (length rs))"
      unfolding word_less_nat_alt unat_of_nat using i(1) room by (simp add: mod_less)
    with i sq show ?thesis by (simp add: seq_key_mono)
  qed
  then have "bucket (set_doc ?w audit_records_bucket (seq_key (ar_seq r)) (audit_rec_json r)) audit_records_bucket =
      bucket w audit_records_bucket @ [(seq_key (ar_seq r), audit_rec_json r)]"
    by (subst bucket_set_last) (simp_all only: b)
  then show ?thesis
    using c room r d by (simp add: chain_stored_def chained_append lookup_set_doc audit_buckets)
qed

text \<open>What one call of \<open>Log\<close> can leave behind: nothing, the new head only, or head and record.\<close>

definition next_head :: "audit_rec \<Rightarrow> world \<Rightarrow> world" where
  "next_head s w = set_doc w audit_meta_bucket head_key (chain_head_json \<lparr>ch_seq = ar_seq s, ch_hash = ar_hash s\<rparr>)"

definition next_rec :: "audit_rec \<Rightarrow> world \<Rightarrow> world" where
  "next_rec s w = set_doc w audit_records_bucket (seq_key (ar_seq s)) (audit_rec_json s)"

lemma docs_eq_lookup: "docs w' = docs w \<Longrightarrow> lookup w' = lookup w"
  by (intro ext) (simp add: lookup_def)

lemma lookup_set_cong: "lookup w' = lookup w \<Longrightarrow> lookup (set_doc w' p k d) = lookup (set_doc w p k d)"
  by (intro ext) (simp add: lookup_set_doc)

lemma advance_head_run:
  assumes "advance_head E l r h w = (res, w')"
  shows "lookup w' = lookup w \<and> (\<forall>h' s. res = Inr (h', s) \<longrightarrow> h' = \<lparr>ch_seq = ar_seq s, ch_hash = ar_hash s\<rparr> \<and>
    (\<exists>v. seal_record E (cl_signer l) (r\<lparr>ar_seq := ch_seq h + 1, ar_prev := ch_hash h\<rparr>) w = (Inr s, v)))"
proof -
  have "steps (same but_tick) (advance_head E l r h)"
    unfolding advance_head_def by (intro timed.world_rules timed.steps_seal_record)
  then have "lookup w' = lookup w" using same_but_tick(4) assms docs_eq_lookup by blast
  then show ?thesis using assms by (auto simp: advance_head_def act_elims)
qed

lemma put_run:
  "p \<noteq> [] \<Longrightarrow> put_json E enc p k v w = (res, w') \<Longrightarrow>
     (res \<noteq> Inr () \<and> lookup w' = lookup w) \<or> lookup w' = lookup (set_doc w p k (enc v))"
  by (cases "fault_at E (tick w)")
    (auto simp: put_json_def put_def effect_def Let_def intro!: lookup_set_cong)

lemma head_update_run:
  assumes h: "lookup w audit_meta_bucket head_key = Some (chain_head_json h)"
    and run: "update_json_out E chain_head_of chain_head_json zero_head audit_meta_bucket head_key False (advance_head E l r) w
      = (res, w')"
  shows "((\<exists>e. res = Inl e) \<and> lookup w' = lookup w) \<or>
    (\<exists>s v v'. seal_record E (cl_signer l) (r\<lparr>ar_seq := ch_seq h + 1, ar_prev := ch_hash h\<rparr>) v = (Inr s, v') \<and>
       lookup w' = lookup (next_head s w) \<and> (\<forall>s'. res = Inr s' \<longrightarrow> s' = s))"
proof -
  obtain q v where q: "advance_head E l r h (advance w) = (q, v)" by fastforce
  have lv: "lookup v = lookup w" using advance_head_run [OF q] by simp
  have upd: "update_json_out E chain_head_of chain_head_json zero_head audit_meta_bucket head_key False (advance_head E l r) =
    effect E (\<lambda>w. if lookup w audit_meta_bucket head_key = None then (Inl err_not_found, w)
      else case ebind (lift_sum (case lookup w audit_meta_bucket head_key of None \<Rightarrow> Inr zero_head | Some d \<Rightarrow> decode chain_head_of d))
         (\<lambda>v. ebind (advance_head E l r v) (\<lambda>(v', out). ret (chain_head_json v', out))) w of
       (Inl e, w') \<Rightarrow> (Inl e, w') | (Inr (d, out), w') \<Rightarrow> (Inr out, set_doc w' audit_meta_bucket head_key d))"
    by (simp add: update_json_out_def update_out_def audit_buckets)
  show ?thesis
  proof (cases q)
    case (Inl e)
    then have "(\<exists>e. res = Inl e) \<and> lookup w' = lookup w"
      using run h q lv
      by (cases "fault_at E (tick w)") (auto simp: upd effect_def Let_def ebind_apply decode_def)
    then show ?thesis ..
  next
    case (Inr hs)
    then obtain h' s where hs: "q = Inr (h', s)" by (cases hs) auto
    obtain v' where seal: "h' = \<lparr>ch_seq = ar_seq s, ch_hash = ar_hash s\<rparr>"
      "seal_record E (cl_signer l) (r\<lparr>ar_seq := ch_seq h + 1, ar_prev := ch_hash h\<rparr>) (advance w) = (Inr s, v')"
      using advance_head_run [OF q] hs by auto
    have "lookup (set_doc v audit_meta_bucket head_key (chain_head_json h')) = lookup (next_head s w)"
      unfolding next_head_def seal(1) by (rule lookup_set_cong [OF lv])
    then have "((\<exists>e. res = Inl e) \<and> lookup w' = lookup w) \<or> (lookup w' = lookup (next_head s w) \<and> (\<forall>s'. res = Inr s' \<longrightarrow> s' = s))"
      using run h q hs
      by (cases "fault_at E (tick w)") (auto simp: upd effect_def Let_def ebind_apply decode_def)
    then show ?thesis using seal(2) by blast
  qed
qed

lemma store_log_outcomes:
  assumes h: "lookup w audit_meta_bucket head_key = Some (chain_head_json h)" and run: "store_log E l r w = (res, w')"
  obtains (unchanged) e where "res = Inl e" "lookup w' = lookup w"
  | (head) e s t v v' where "res = Inl e" "lookup w' = lookup (next_head s w)"
      "seal_record E (cl_signer l) (r\<lparr>ar_time := t, ar_key_id := cl_key_id l, ar_seq := ch_seq h + 1, ar_prev := ch_hash h\<rparr>) v = (Inr s, v')"
  | (both) s t v v' where "lookup w' = lookup (next_rec s (next_head s w))"
      "seal_record E (cl_signer l) (r\<lparr>ar_time := t, ar_key_id := cl_key_id l, ar_seq := ch_seq h + 1, ar_prev := ch_hash h\<rparr>) v = (Inr s, v')"
proof -
  obtain t w1 where t: "(if ar_time r = zero_time then clock E else ret (ar_time r)) w = (Inr t, w1)"
    and l1: "lookup w1 = lookup w"
    by (cases "ar_time r = zero_time") (auto simp: clock_def)
  let ?r = "r\<lparr>ar_time := t, ar_key_id := cl_key_id l\<rparr>"
  obtain q w2 where q: "update_json_out E chain_head_of chain_head_json zero_head audit_meta_bucket head_key False
      (advance_head E l ?r) w1 = (q, w2)" by fastforce
  have h1: "lookup w1 audit_meta_bucket head_key = Some (chain_head_json h)" using h l1 by simp
  have nh: "lookup (next_head s w1) = lookup (next_head s w)" for s
    unfolding next_head_def by (rule lookup_set_cong [OF l1])
  show thesis
  proof (cases q)
    case (Inl e)
    then obtain e' where "res = Inl e'" "w' = w2"
      using run t q by (auto simp: store_log_def claim_head_def ebind_apply wrap_err_apply)
    moreover have "lookup w2 = lookup w \<or> (\<exists>s v v'. seal_record E (cl_signer l)
        (?r\<lparr>ar_seq := ch_seq h + 1, ar_prev := ch_hash h\<rparr>) v = (Inr s, v') \<and> lookup w2 = lookup (next_head s w))"
      using head_update_run [OF h1 q] l1 nh by auto
    ultimately show thesis using unchanged head by blast
  next
    case (Inr s)
    with head_update_run [OF h1 q] obtain v v' where seal: "seal_record E (cl_signer l)
        (?r\<lparr>ar_seq := ch_seq h + 1, ar_prev := ch_hash h\<rparr>) v = (Inr s, v')" and l2: "lookup w2 = lookup (next_head s w)"
      using nh by auto
    obtain p where p: "put_json E audit_rec_json audit_records_bucket (seq_key (ar_seq s)) s w2 = (p, w')"
      and res: "\<And>u. res = Inr u \<longleftrightarrow> p = Inr u"
      using run t q Inr
      by (cases "put_json E audit_rec_json audit_records_bucket (seq_key (ar_seq s)) s w2")
        (auto simp: store_log_def claim_head_def write_record_def ebind_apply wrap_err_apply split: sum.splits)
    have nr: "lookup (next_rec s w2) = lookup (next_rec s (next_head s w))"
      unfolding next_rec_def by (rule lookup_set_cong [OF l2])
    from put_run [OF audit_buckets(1) p] show thesis
    proof
      assume "p \<noteq> Inr () \<and> lookup w' = lookup w2"
      moreover from this obtain e where "res = Inl e" using res by (cases res) auto
      ultimately show thesis using head l2 seal by simp
    next
      assume "lookup w' = lookup (set_doc w2 audit_records_bucket (seq_key (ar_seq s)) (audit_rec_json s))"
      then have "lookup w' = lookup (next_rec s (next_head s w))" using nr by (simp add: next_rec_def)
      then show thesis using both seal by simp
    qed
  qed
qed

text \<open>A head that is ahead of the records is reported.\<close>

lemma head_only_fails:
  assumes sg: "audit_signer E sg" and c: "chain_stored E sg w rs" and l: "lookup w' = lookup (next_head s w)"
    and s: "ar_seq s = end_seq 0 rs + 1"
  shows "verify_store E (audit_pub sg) w' \<noteq> (Inr n, w'')"
proof
  assume v: "verify_store E (audit_pub sg) w' = (Inr n, w'')"
  have alg: "algorithm_for_key (audit_pub sg) = Inr (sg_alg sg)" using sg by (simp add: audit_signer_def)
  have "bucket w' audit_records_bucket = bucket w audit_records_bucket"
    by (rule bucket_cong) (simp add: l next_head_def lookup_set_doc audit_buckets)
  moreover have "decode_all audit_rec_of (bucket w audit_records_bucket) = Some (map (\<lambda>r. (seq_key (ar_seq r), r)) rs)"
    using c decode_all_records [of rs] by (simp add: chain_stored_def)
  moreover have "lookup w' audit_meta_bucket head_key = Some (chain_head_json \<lparr>ch_seq = ar_seq s, ch_hash = ar_hash s\<rparr>)"
    by (simp add: l next_head_def lookup_set_doc)
  ultimately have "ar_seq s = end_seq 0 rs"
    using v by (auto simp: verify_store_Inr [OF alg] map_snd_keyed simp del: map_map)
  with s show False by simp
qed

lemma sealed_next:
  assumes sg: "audit_signer E sg" and c: "chain_stored E sg w rs"
    and s: "seal_record E sg (r\<lparr>ar_time := t, ar_key_id := k, ar_seq := ar_seq (last rs) + 1, ar_prev := ar_hash (last rs)\<rparr>) v
      = (Inr s, v')"
  shows "linked E (audit_pub sg) (sg_alg sg) (end_hash [] rs) (end_seq 0 rs) s \<and> event_of s = event_of r \<and>
    ar_seq s = end_seq 0 rs + 1"
proof -
  have "rs \<noteq> []" using c by (simp add: chain_stored_def)
  then show ?thesis
    using seal_record_linked [OF sg s, of "end_seq 0 rs" "end_hash [] rs"] seal_record_event [OF s]
    by (simp add: end_hash_def end_seq_def event_of_def)
qed

lemma chain_stored_next:
  assumes sg: "audit_signer E sg" and c: "chain_stored E sg w rs" and room: "Suc (length rs) < 2 ^ 64"
    and d: "wf_map (ar_detail r)" and l: "lookup w' = lookup (next_rec s (next_head s w))"
    and s: "seal_record E sg (r\<lparr>ar_time := t, ar_key_id := k, ar_seq := ar_seq (last rs) + 1, ar_prev := ar_hash (last rs)\<rparr>) v
      = (Inr s, v')"
  shows "chain_stored E sg w' (rs @ [s]) \<and> event_of s = event_of r"
proof -
  note n = sealed_next [OF sg c s]
  have "chain_stored E sg (next_rec s (next_head s w)) (rs @ [s])"
    unfolding next_rec_def next_head_def
    by (rule chain_stored_extend [OF c room]) (use n d in \<open>auto simp: event_of_def\<close>)
  moreover have "chain_stored E sg w' (rs @ [s]) \<longleftrightarrow> chain_stored E sg (next_rec s (next_head s w)) (rs @ [s])"
    by (rule chain_stored_cong) (simp_all add: l)
  ultimately show ?thesis using n by simp
qed

lemma store_log_ok:
  assumes sg: "audit_signer E (cl_signer l)" and c: "chain_stored E (cl_signer l) w rs" and room: "Suc (length rs) < 2 ^ 64"
    and d: "wf_map (ar_detail r)" and run: "store_log E l r w = (Inr u, w')"
  shows "\<exists>s. chain_stored E (cl_signer l) w' (rs @ [s]) \<and> event_of s = event_of r"
proof -
  have h: "lookup w audit_meta_bucket head_key = Some (chain_head_json \<lparr>ch_seq = ar_seq (last rs), ch_hash = ar_hash (last rs)\<rparr>)"
    using c by (simp add: chain_stored_def)
  show ?thesis
  proof (cases rule: store_log_outcomes [OF h run])
    case (3 s t v v')
    with chain_stored_next [OF sg c room d] show ?thesis by fastforce
  qed simp_all
qed

text \<open>Runs in the concrete environment.\<close>

lemma chain_stored_head:
  assumes "chain_stored E sg w rs"
  shows "\<exists>p. hex_decode (ar_hash (last rs)) = Some p"
proof -
  obtain qs r where "rs = qs @ [r]" "chained E (audit_pub sg) (sg_alg sg) [] 0 rs"
    using assms by (cases rs rule: rev_cases) (auto simp: chain_stored_def)
  then have "linked E (audit_pub sg) (sg_alg sg) (end_hash [] qs) (end_seq 0 qs) r" by (simp add: chained_append)
  with \<open>rs = qs @ [r]\<close> show ?thesis by (auto simp: linked_def)
qed

text \<open>A signer that never fails can always append.\<close>

lemma signs_claim:
  assumes sg: "signs E sg" and c: "chain_stored E sg w rs"
  shows "\<exists>s w'. claim_head E \<lparr>cl_signer = sg, cl_key_id = k\<rparr> r w = (Inr s, w')"
proof -
  let ?h = "\<lparr>ch_seq = ar_seq (last rs), ch_hash = ar_hash (last rs)\<rparr>"
  let ?r = "r\<lparr>ar_seq := ar_seq (last rs) + 1, ar_prev := ar_hash (last rs)\<rparr>"
  have h: "lookup w audit_meta_bucket head_key = Some (chain_head_json ?h)" using c by (simp add: chain_stored_def)
  obtain p where "hex_decode (ar_prev ?r) = Some p" using chain_stored_head [OF c] by auto
  then obtain s where "seal_record E sg ?r (advance w) = (Inr s, advance (advance w))"
    using signs_seal [OF sg] by blast
  then have "advance_head E \<lparr>cl_signer = sg, cl_key_id = k\<rparr> r ?h (advance w) =
      (Inr (\<lparr>ch_seq = ar_seq s, ch_hash = ar_hash s\<rparr>, s), advance (advance w))"
    by (simp add: advance_head_def ebind_apply)
  with h signsD [OF sg] show ?thesis
    unfolding claim_head_def wrap_err_Inr_iff update_json_out_Inr by (auto simp: audit_buckets)
qed

lemma signs_write:
  "signs E sg \<Longrightarrow> write_record E s w = (Inr (), set_doc (advance w) audit_records_bucket (seq_key (ar_seq s)) (audit_rec_json s))"
  by (simp add: write_record_def act_elims audit_buckets signsD)

lemma signs_store_log:
  assumes sg: "signs E sg" and c: "chain_stored E sg w rs"
  shows "\<exists>w'. store_log E \<lparr>cl_signer = sg, cl_key_id = k\<rparr> r w = (Inr (), w')"
proof -
  obtain t w1 where t: "(if ar_time r = zero_time then clock E else ret (ar_time r)) w = (Inr t, w1)"
    and l1: "lookup w1 = lookup w"
    by (cases "ar_time r = zero_time") (auto simp: clock_def)
  have "chain_stored E sg w1 rs" using c by (subst chain_stored_cong [of _ w]) (simp_all add: l1)
  then obtain s w2 where "claim_head E \<lparr>cl_signer = sg, cl_key_id = k\<rparr> (r\<lparr>ar_time := t, ar_key_id := k\<rparr>) w1
      = (Inr s, w2)" using signs_claim [OF sg] by blast
  with t show ?thesis by (simp add: store_log_def ebind_apply signs_write [OF sg])
qed

lemmas sample_claim = signs_claim [OF signs_sample]
lemmas sample_write = signs_write [OF signs_sample]
lemmas sample_store_log = signs_store_log [OF signs_sample]

text \<open>
  Claim C23: the store log fails loudly, never silently. Whatever a call of \<open>Log\<close> returns, and
  wherever it is interrupted, if the store verifies afterwards then it either holds exactly the
  records it held before, or these and the new one; a head that was advanced without its record is
  always reported, and a call that returned success has left the record.
\<close>

theorem store_log_never_silent:
  assumes sg: "audit_signer E (cl_signer l)" and c: "chain_stored E (cl_signer l) w rs" and room: "Suc (length rs) < 2 ^ 64"
    and d: "wf_map (ar_detail r)" and run: "store_log E l r w = (res, w')"
    and v: "verify_store E (public_of (sg_key (cl_signer l))) w' = (Inr n, w'')"
  shows "(n = length rs \<and> chain_stored E (cl_signer l) w' rs \<and> (\<exists>e. res = Inl e)) \<or>
    (n = Suc (length rs) \<and> (\<exists>s. chain_stored E (cl_signer l) w' (rs @ [s]) \<and> event_of s = event_of r))"
proof -
  have alg: "algorithm_for_key (audit_pub (cl_signer l)) = Inr (sg_alg (cl_signer l))" using sg by (simp add: audit_signer_def)
  have count: "n = length qs" if "chain_stored E (cl_signer l) w' qs" for qs
    using chain_stored_verifies [OF sg that] v by (auto simp: verify_store_Inr [OF alg])
  have h: "lookup w audit_meta_bucket head_key = Some (chain_head_json \<lparr>ch_seq = ar_seq (last rs), ch_hash = ar_hash (last rs)\<rparr>)"
    using c by (simp add: chain_stored_def)
  show ?thesis
  proof (cases rule: store_log_outcomes [OF h run])
    case unchanged: (1 e)
    then have "chain_stored E (cl_signer l) w' rs"
      using c by (subst chain_stored_cong [of _ w]) simp_all
    with count unchanged show ?thesis by auto
  next
    case head: (2 e s t u u')
    then have "ar_seq s = end_seq 0 rs + 1" using sealed_next [OF sg c] by fastforce
    then show ?thesis using head_only_fails [OF sg c head(2)] v by auto
  next
    case both: (3 s t u u')
    then have "chain_stored E (cl_signer l) w' (rs @ [s]) \<and> event_of s = event_of r"
      using chain_stored_next [OF sg c room d] by simp
    with count show ?thesis by auto
  qed
qed

section \<open>Replicas\<close>

text \<open>
  Replicas share the chain.  A step of the system is one replica claiming a sequence number (the head
  update is atomic) or writing a record it has claimed; the second component holds the records that
  are claimed and not written.
\<close>

inductive replicas :: "'x cenv_scheme \<Rightarrow> signer \<Rightarrow> world \<times> audit_rec list \<Rightarrow> world \<times> audit_rec list \<Rightarrow> bool"
  for E sg where
  claimed: "cl_signer l = sg \<Longrightarrow> wf_map (ar_detail r) \<Longrightarrow> claim_head E l r w = (Inr s, w') \<Longrightarrow> ar_seq s \<noteq> 0 \<Longrightarrow>
     replicas E sg (w, P) (w', s # P)"
| written: "s \<in> set P \<Longrightarrow> write_record E s w = (Inr (), w') \<Longrightarrow> replicas E sg (w, P) (w', removeAll s P)"

definition keyed :: "audit_rec list \<Rightarrow> (string \<times> json) list" where
  "keyed rs = map (\<lambda>r. (seq_key (ar_seq r), audit_rec_json r)) rs"

definition replica_inv :: "'x cenv_scheme \<Rightarrow> signer \<Rightarrow> world \<times> audit_rec list \<Rightarrow> audit_rec list \<Rightarrow> bool" where
  "replica_inv E sg = (\<lambda>(w, P) rs. rs \<noteq> [] \<and> length rs < 2 ^ 64 \<and> (\<forall>r \<in> set rs. wf_map (ar_detail r)) \<and>
     chained E (audit_pub sg) (sg_alg sg) [] 0 rs \<and> set P \<subseteq> set rs \<and>
     lookup w audit_meta_bucket head_key = Some (chain_head_json \<lparr>ch_seq = ar_seq (last rs), ch_hash = ar_hash (last rs)\<rparr>) \<and>
     (\<forall>k j. lookup w audit_records_bucket k = Some j \<longleftrightarrow>
        (\<exists>r \<in> set rs. r \<notin> set P \<and> k = seq_key (ar_seq r) \<and> j = audit_rec_json r)))"

lemma bucket_eqI:
  assumes "sorted (map fst kds)" "distinct (map fst kds)" and l: "\<And>k. lookup w p k = map_of kds k"
  shows "bucket w p = kds"
proof -
  have "set (keys_of w p) = set (map fst kds)"
    unfolding set_eq_iff mem_keys_of l map_of_eq_None_iff by simp
  then have k: "keys_of w p = map fst kds"
    by (intro sorted_distinct_set_unique) (use assms in simp_all)
  have "map (\<lambda>k. (k, the (map_of kds k))) (map fst kds) = map (\<lambda>kd. kd) kds"
    unfolding map_map o_def
    by (rule map_cong [OF refl]) (use assms(2) in \<open>auto simp: map_of_is_SomeI\<close>)
  then show ?thesis by (simp add: bucket_def k l)
qed

lemma of_nat_u64_less: "i < j \<Longrightarrow> j < 2 ^ 64 \<Longrightarrow> (of_nat i :: u64) < of_nat j"
  unfolding word_less_nat_alt unat_of_nat by (simp add: mod_less)

lemma sorted_keyed:
  assumes "length rs < 2 ^ 64" and "chained E pub alg [] 0 rs"
  shows "sorted_wrt (<) (map fst (keyed rs))"
proof -
  have "seq_key (ar_seq (rs ! i)) < seq_key (ar_seq (rs ! j))" if "i < j" "j < length rs" for i j
  proof -
    have "(of_nat (Suc i) :: u64) < of_nat (Suc j)" using that assms(1) by (intro of_nat_u64_less) auto
    then show ?thesis
      using chained_nth_seq [OF assms(2)] that by (simp add: seq_key_mono)
  qed
  then show ?thesis by (simp add: sorted_wrt_iff_nth_less keyed_def)
qed

lemma claim_head_update:
  "claim_head E l r w = (Inr s, w') \<Longrightarrow>
     update_json_out E chain_head_of chain_head_json zero_head audit_meta_bucket head_key False (advance_head E l r) w = (Inr s, w')"
  by (simp only: claim_head_def wrap_err_Inr_iff)

lemma replica_claim:
  assumes sg: "audit_signer E sg" and inv: "replica_inv E sg (w, P) rs"
    and l: "cl_signer l = sg" and d: "wf_map (ar_detail r)" and run: "claim_head E l r w = (Inr s, w')" and nz: "ar_seq s \<noteq> 0"
  shows "replica_inv E sg (w', s # P) (rs @ [s])"
proof -
  let ?h = "\<lparr>ch_seq = ar_seq (last rs), ch_hash = ar_hash (last rs)\<rparr>"
  have rs: "rs \<noteq> []" "length rs < 2 ^ 64" "chained E (audit_pub sg) (sg_alg sg) [] 0 rs"
    and h: "lookup w audit_meta_bucket head_key = Some (chain_head_json ?h)"
    using inv by (auto simp: replica_inv_def)
  obtain v v' where seal: "seal_record E sg (r\<lparr>ar_seq := ar_seq (last rs) + 1, ar_prev := ar_hash (last rs)\<rparr>) v = (Inr s, v')"
    and lw: "lookup w' = lookup (next_head s w)"
    using head_update_run [OF h claim_head_update [OF run]] l by auto
  have ln: "linked E (audit_pub sg) (sg_alg sg) (end_hash [] rs) (end_seq 0 rs) s"
    by (rule seal_record_linked [OF sg seal]) (use rs in \<open>simp_all add: end_seq_def end_hash_def\<close>)
  then have sq: "ar_seq s = of_nat (Suc (length rs))"
    using chained_seq [OF rs(3)] by (simp add: linked_def)
  have len: "Suc (length rs) < 2 ^ 64"
  proof (rule ccontr)
    assume "\<not> ?thesis"
    with rs(2) have "Suc (length rs) = 2 ^ 64" by simp
    with sq nz show False by simp
  qed
  have "s \<notin> set rs"
  proof
    assume "s \<in> set rs"
    then obtain i where "i < length rs" "ar_seq s = of_nat (Suc i)"
      using chained_nth_seq [OF rs(3)] by (auto simp: in_set_conv_nth)
    with sq of_nat_u64_less [of "Suc i" "Suc (length rs)"] len show False by simp
  qed
  moreover have "wf_map (ar_detail s)" using seal_record_event [OF seal] d by (simp add: event_of_def)
  ultimately show ?thesis
    using inv ln len lw
    by (auto simp: replica_inv_def chained_append next_head_def lookup_set_doc audit_buckets)
qed

lemma replica_write:
  assumes inv: "replica_inv E sg (w, P) rs" and s: "s \<in> set P" and run: "write_record E s w = (Inr (), w')"
  shows "replica_inv E sg (w', removeAll s P) rs"
proof -
  have lw: "w' = set_doc (advance w) audit_records_bucket (seq_key (ar_seq s)) (audit_rec_json s)"
    using run by (simp add: write_record_def act_elims)
  have rs: "length rs < 2 ^ 64" "chained E (audit_pub sg) (sg_alg sg) [] 0 rs" "s \<in> set rs"
    using inv s by (auto simp: replica_inv_def)
  have "inj_on (\<lambda>r. seq_key (ar_seq r)) (set rs)"
    using sorted_keyed [OF rs(1,2)] by (simp add: keyed_def strict_sorted_iff distinct_map o_def)
  then have uniq: "seq_key (ar_seq r) = seq_key (ar_seq s) \<longleftrightarrow> r = s" if "r \<in> set rs" for r
    using that rs(3) by (auto dest: inj_onD)
  have old: "lookup w audit_records_bucket k = Some j \<longleftrightarrow>
      (\<exists>r \<in> set rs. r \<notin> set P \<and> k = seq_key (ar_seq r) \<and> j = audit_rec_json r)" for k j
    using inv by (auto simp: replica_inv_def)
  have "lookup w' audit_records_bucket k = Some j \<longleftrightarrow>
      (\<exists>r \<in> set rs. r \<notin> set (removeAll s P) \<and> k = seq_key (ar_seq r) \<and> j = audit_rec_json r)" for k j
  proof (cases "k = seq_key (ar_seq s)")
    case True
    have "(\<exists>r \<in> set rs. r \<notin> set (removeAll s P) \<and> k = seq_key (ar_seq r) \<and> j = audit_rec_json r) \<longleftrightarrow> j = audit_rec_json s"
    proof
      assume "\<exists>r \<in> set rs. r \<notin> set (removeAll s P) \<and> k = seq_key (ar_seq r) \<and> j = audit_rec_json r"
      then obtain r where "r \<in> set rs" "seq_key (ar_seq r) = seq_key (ar_seq s)" "j = audit_rec_json r" using True by auto
      with uniq show "j = audit_rec_json s" by simp
    next
      assume "j = audit_rec_json s"
      with rs(3) True show "\<exists>r \<in> set rs. r \<notin> set (removeAll s P) \<and> k = seq_key (ar_seq r) \<and> j = audit_rec_json r"
        by (intro bexI [of _ s]) simp_all
    qed
    with True show ?thesis by (auto simp: lw lookup_set_doc)
  next
    case False
    then have "lookup w' audit_records_bucket k = lookup w audit_records_bucket k" by (simp add: lw lookup_set_doc)
    moreover have "r \<notin> set (removeAll s P) \<and> k = seq_key (ar_seq r) \<longleftrightarrow> r \<notin> set P \<and> k = seq_key (ar_seq r)" for r
      using False by (cases "r = s") simp_all
    ultimately show ?thesis by (simp add: old) metis
  qed
  moreover have "lookup w' audit_meta_bucket head_key = lookup w audit_meta_bucket head_key"
    by (simp add: lw lookup_set_doc audit_buckets)
  ultimately show ?thesis
    using inv by (auto simp: replica_inv_def)
qed

lemma replica_inv_stored: "replica_inv E sg (w, []) rs \<longleftrightarrow> chain_stored E sg w rs"
proof
  assume inv: "replica_inv E sg (w, []) rs"
  then have rs: "length rs < 2 ^ 64" "chained E (audit_pub sg) (sg_alg sg) [] 0 rs" by (auto simp: replica_inv_def)
  then have sd: "sorted (map fst (keyed rs))" "distinct (map fst (keyed rs))"
    using sorted_keyed [OF rs] by (auto simp: strict_sorted_iff)
  have mem: "lookup w audit_records_bucket k = Some j \<longleftrightarrow> (k, j) \<in> set (keyed rs)" for k j
    using inv by (auto simp: replica_inv_def keyed_def)
  have "lookup w audit_records_bucket k = map_of (keyed rs) k" for k
  proof (cases "map_of (keyed rs) k")
    case None
    then have "\<And>j. (k, j) \<notin> set (keyed rs)" by (force simp: map_of_eq_None_iff)
    then show ?thesis using mem None by (cases "lookup w audit_records_bucket k") auto
  next
    case (Some j)
    then show ?thesis using mem map_of_SomeD by fastforce
  qed
  then have "bucket w audit_records_bucket = keyed rs" by (rule bucket_eqI [OF sd])
  with inv show "chain_stored E sg w rs" by (auto simp: replica_inv_def chain_stored_def keyed_def)
next
  assume c: "chain_stored E sg w rs"
  then have "bucket w audit_records_bucket = keyed rs" by (simp add: chain_stored_def keyed_def)
  then have "lookup w audit_records_bucket k = Some j \<longleftrightarrow> (k, j) \<in> set (keyed rs)" for k j
    using mem_bucket [of k j w audit_records_bucket] by simp
  with c show "replica_inv E sg (w, []) rs" by (auto simp: replica_inv_def chain_stored_def keyed_def)
qed

lemma replicas_inv:
  assumes sg: "audit_signer E sg" and steps: "(replicas E sg)\<^sup>*\<^sup>* st st'" and inv: "replica_inv E sg st rs"
  shows "\<exists>qs. replica_inv E sg st' (rs @ qs)"
  using steps
proof (induction rule: rtranclp_induct)
  case base
  then show ?case using inv by (metis append_Nil2)
next
  case (step y z)
  then obtain qs where qs: "replica_inv E sg y (rs @ qs)" by blast
  from step(2) show ?case
  proof cases
    case (claimed l r w s w' P)
    with replica_claim [OF sg, of w P "rs @ qs"] qs show ?thesis by (metis append_assoc)
  next
    case (written s P w w')
    with replica_write [of E sg w P "rs @ qs"] qs show ?thesis by blast
  qed
qed


section \<open>Genesis\<close>

lemma open_store_log_genesis:
  assumes sg: "audit_signer E sg" and empty: "\<And>k. lookup w audit_records_bucket k = None" "lookup w audit_meta_bucket head_key = None"
    and run: "open_store_log E sg kid w = (Inr l, w')"
  shows "cl_signer l = sg \<and> (\<exists>g. chain_stored E sg w' [g] \<and> event_of g = event_of genesis_event)"
proof -
  have l: "l = \<lparr>cl_signer = sg, cl_key_id = kid\<rparr>" and g: "ensure_genesis E l w = (Inr (), w')"
    using run by (auto simp: open_store_log_def act_elims Let_def)
  obtain anchor w1 t w2 s w3 where r: "rand_read E 32 (advance w) = (Inr anchor, w1)" and c: "clock E w1 = (Inr t, w2)"
    and seal: "seal_record E sg (genesis_event\<lparr>ar_seq := 1, ar_time := t, ar_prev := hex_encode anchor, ar_key_id := kid\<rparr>) w2
      = (Inr s, w3)"
    and p: "put_json E audit_rec_json audit_records_bucket (seq_key (ar_seq s)) s
      (set_doc w3 audit_meta_bucket head_key (chain_head_json \<lparr>ch_seq = ar_seq s, ch_hash = ar_hash s\<rparr>)) = (Inr (), w')"
    using g l empty(2) by (auto simp: ensure_genesis_def make_genesis_def act_elims split: prod.splits)
  have "lookup w3 = lookup w"
    using same_but_tick(4) [OF timed.steps_rand r] same_but_tick(4) [OF timed.steps_clock c]
      same_but_tick(4) [OF timed.steps_seal_record seal] by (intro docs_eq_lookup) simp
  then have w': "lookup w' = lookup (next_rec s (next_head s w))"
    using p by (auto simp: act_elims next_rec_def next_head_def intro!: lookup_set_cong)
  have ev: "ar_seq s = 1" "event_of s = event_of genesis_event"
    using seal_record_event [OF seal] by (simp_all add: event_of_def)
  have "linked E (audit_pub sg) (sg_alg sg) [] 0 s"
    by (rule seal_record_linked [OF sg seal]) simp_all
  moreover have "bucket (next_rec s (next_head s w)) audit_records_bucket = keyed [s]"
    by (rule bucket_eqI) (auto simp: keyed_def next_rec_def next_head_def lookup_set_doc audit_buckets empty)
  moreover have "wf_map (ar_detail s)" using ev by (simp add: event_of_def genesis_event_def new_event_def)
  ultimately have "chain_stored E sg (next_rec s (next_head s w)) [s]"
    by (simp add: chain_stored_def keyed_def) (simp add: next_rec_def next_head_def lookup_set_doc audit_buckets)
  then have "chain_stored E sg w' [s]"
    by (subst chain_stored_cong [of _ "next_rec s (next_head s w)"]) (simp_all add: w')
  with ev l show ?thesis by auto
qed

text \<open>On an existing chain opening writes nothing new.\<close>

lemma open_store_log_existing:
  assumes "lookup w audit_meta_bucket head_key = Some d" and "open_store_log E sg kid w = (Inr l, w')"
  shows "lookup w' = lookup w"
  using assms by (auto simp: open_store_log_def ensure_genesis_def make_genesis_def act_elims Let_def lookup_set_doc fun_eq_iff)

text \<open>
  Claim C8: the store log started on an empty store and written with any events keeps verifying:
  after every successful sequence of appends the store verifier counts the genesis record and one
  record for each event.
\<close>

theorem store_log_verifies:
  assumes sg: "audit_signer E sg" and empty: "\<And>k. lookup w audit_records_bucket k = None" "lookup w audit_meta_bucket head_key = None"
    and op: "open_store_log E sg kid w = (Inr l, w1)" and run: "efold (\<lambda>_. store_log E l) () rs w1 = (Inr (), w2)"
    and d: "\<forall>r \<in> set rs. wf_map (ar_detail r)" and room: "Suc (length rs) < 2 ^ 64"
    and "fault_at E (tick w2) = NoFault" "fault_at E (Suc (tick w2)) = NoFault"
  shows "verify_store E (public_of (sg_key sg)) w2 = (Inr (Suc (length rs)), advance (advance w2))"
proof -
  obtain g where l: "cl_signer l = sg" and g: "chain_stored E sg w1 [g]"
    using open_store_log_genesis [OF sg empty op] by blast
  have "efold (\<lambda>_. store_log E l) () rs w1 = (Inr (), w2) \<Longrightarrow> chain_stored E sg w1 qs \<Longrightarrow> \<forall>r \<in> set rs. wf_map (ar_detail r) \<Longrightarrow>
      length qs + length rs < 2 ^ 64 \<Longrightarrow> \<exists>ss. chain_stored E sg w2 (qs @ ss) \<and> length ss = length rs" for qs w1
  proof (induction rs arbitrary: qs w1)
    case (Cons r rs)
    then obtain v where v: "store_log E l r w1 = (Inr (), v)" "efold (\<lambda>_. store_log E l) () rs v = (Inr (), w2)"
      by (auto simp: act_elims)
    obtain s where s: "chain_stored E sg v (qs @ [s])"
      using store_log_ok [of E l w1 qs r _ v] sg l Cons.prems v(1) by auto
    then obtain ss where "chain_stored E sg w2 ((qs @ [s]) @ ss)" "length ss = length rs"
      using Cons.IH [OF v(2) s] Cons.prems by auto
    then show ?case by (intro exI [of _ "s # ss"]) simp
  qed auto
  from this [OF run g d] room obtain ss where "chain_stored E sg w2 ([g] @ ss)" "length ss = length rs" by auto
  with chain_stored_verifies [OF sg this(1)] assms(8,9) show ?thesis by simp
qed

section \<open>The contract of a log\<close>

text \<open>
  What the CA relies on: an append that succeeds has left a record of the event, and while the log
  has room for \<open>n\<close> more records, appending loses none of those it holds.
\<close>

locale audit_sink =
  fixes sink :: "'e \<Rightarrow> chain_log \<Rightarrow> audit_rec \<Rightarrow> unit act"
    and held :: "world \<Rightarrow> audit_rec \<Rightarrow> bool"
    and room :: "nat \<Rightarrow> world \<Rightarrow> bool"
  assumes sink_appends: "wf_map (ar_detail r) \<Longrightarrow> sink E l r w = (Inr (), w') \<Longrightarrow> \<exists>s. held w' s \<and> event_of s = event_of r"
    and sink_keeps: "room (Suc n) w \<Longrightarrow> held w s \<Longrightarrow> sink E l r w = (res, w') \<Longrightarrow> held w' s"
    and sink_room: "room (Suc n) w \<Longrightarrow> sink E l r w = (res, w') \<Longrightarrow> room n w'"
begin

lemma sink_all:
  "efold (\<lambda>_. sink E l) () rs w = (Inr (), w') \<Longrightarrow> room (length rs) w \<Longrightarrow> \<forall>r \<in> set rs. wf_map (ar_detail r) \<Longrightarrow>
     (\<forall>s. held w s \<longrightarrow> held w' s) \<and> (\<forall>r \<in> set rs. \<exists>s. held w' s \<and> event_of s = event_of r)"
proof (induction rs arbitrary: w)
  case (Cons r rs)
  then obtain v where v: "sink E l r w = (Inr (), v)" "efold (\<lambda>_. sink E l) () rs v = (Inr (), w')"
    by (auto simp: act_elims)
  have "\<exists>s. held v s \<and> event_of s = event_of r" using sink_appends v(1) Cons.prems by auto
  moreover have "room (length rs) v" "\<And>s. held w s \<Longrightarrow> held v s"
    using sink_room [OF _ v(1)] sink_keeps [OF _ _ v(1)] Cons.prems by auto
  ultimately show ?case using Cons.IH [OF v(2)] Cons.prems by auto
qed auto

end

definition in_file :: "world \<Rightarrow> audit_rec \<Rightarrow> bool" where
  "in_file w s \<longleftrightarrow> (\<exists>j \<in> set (log_lines w). audit_rec_of j = Some s)"

definition in_store :: "world \<Rightarrow> audit_rec \<Rightarrow> bool" where
  "in_store w s \<longleftrightarrow> (\<exists>k j. lookup w audit_records_bucket k = Some j \<and> audit_rec_of j = Some s)"

definition store_room :: "nat \<Rightarrow> world \<Rightarrow> bool" where
  "store_room n w \<longleftrightarrow> (\<exists>h. lookup w audit_meta_bucket head_key = Some (chain_head_json h) \<and> unat (ch_seq h) + n < 2 ^ 64 \<and>
     (\<forall>k. lookup w audit_records_bucket k \<noteq> None \<longrightarrow> (\<exists>m \<le> ch_seq h. k = seq_key m)))"

definition lines_grow :: "world \<Rightarrow> world \<Rightarrow> bool" where
  "lines_grow w w' \<longleftrightarrow> set (log_lines w) \<subseteq> set (log_lines w')"

interpretation grow: world_contract lines_grow
  by unfold_locales (auto simp: lines_grow_def)

lemma file_lines_grow: "steps lines_grow (file_log E l r)"
  unfolding file_log_def append_line_def fsync_def
  by (intro grow.world_rules grow.steps_seal_record grow.steps_pure) (auto simp: lines_grow_def)

interpretation file_sink: audit_sink file_log in_file "\<lambda>n w. True"
proof (unfold_locales, goal_cases)
  case (1 r E l w w')
  from 1(2) show ?case
  proof (rule file_log_Inr)
    fix s assume "log_lines w' = log_lines w @ [audit_rec_json s]" "event_of s = event_of r"
    moreover from this have "audit_rec_of (audit_rec_json s) = Some s"
      using 1(1) by (intro audit_rec_of_json) (simp add: event_of_def)
    ultimately show ?thesis by (auto simp: in_file_def)
  qed
next
  case (2 w s E l r res w')
  then show ?case using stepsD [OF file_lines_grow 2(3)] by (auto simp: in_file_def lines_grow_def)
qed simp

lemma seq_key_inject [simp]: "seq_key m = seq_key n \<longleftrightarrow> m = n"
  by (metis less_irrefl linorder_less_linear seq_key_mono)

lemma store_room_mono: "store_room (Suc n) w \<Longrightarrow> lookup w' = lookup w \<Longrightarrow> store_room n w'"
  by (auto simp: store_room_def)

lemma store_room_next:
  assumes h: "lookup w audit_meta_bucket head_key = Some (chain_head_json h)" and room: "store_room (Suc n) w"
    and s: "ar_seq s = ch_seq h + 1"
  shows "lookup w audit_records_bucket (seq_key (ar_seq s)) = None"
    and "lookup w' = lookup (next_head s w) \<Longrightarrow> store_room n w'"
    and "lookup w' = lookup (next_rec s (next_head s w)) \<Longrightarrow> store_room n w'"
proof -
  obtain h' where h': "lookup w audit_meta_bucket head_key = Some (chain_head_json h')" "unat (ch_seq h') + Suc n < 2 ^ 64"
    and keys: "\<And>k. lookup w audit_records_bucket k \<noteq> None \<Longrightarrow> \<exists>m \<le> ch_seq h'. k = seq_key m"
    using room by (auto simp: store_room_def)
  then have "chain_head_of (chain_head_json h) = chain_head_of (chain_head_json h')" using h by simp
  then have hh: "h' = h" by simp
  have up: "unat (ar_seq s) = Suc (unat (ch_seq h))"
    using h'(2) by (simp add: s hh unat_word_ariths)
  then have less: "ch_seq h < ar_seq s" by (simp add: word_less_nat_alt)
  show "lookup w audit_records_bucket (seq_key (ar_seq s)) = None"
    using keys [of "seq_key (ar_seq s)"] less hh by (cases "lookup w audit_records_bucket (seq_key (ar_seq s))") auto
  have k: "lookup w audit_records_bucket k \<noteq> None \<Longrightarrow> \<exists>m \<le> ar_seq s. k = seq_key m" for k
    using keys [of k] less hh by force
  have b: "unat (ar_seq s) + n < 2 ^ 64" using h'(2) up hh by simp
  show "store_room n w'" if "lookup w' = lookup (next_head s w)"
    unfolding store_room_def that next_head_def
    by (intro exI [of _ "\<lparr>ch_seq = ar_seq s, ch_hash = ar_hash s\<rparr>"])
      (use b k in \<open>auto simp: lookup_set_doc audit_buckets\<close>)
  show "store_room n w'" if "lookup w' = lookup (next_rec s (next_head s w))"
    unfolding store_room_def that next_head_def next_rec_def
    by (intro exI [of _ "\<lparr>ch_seq = ar_seq s, ch_hash = ar_hash s\<rparr>"])
      (use b k in \<open>auto simp: lookup_set_doc audit_buckets\<close>)
qed

lemma store_room_head: "store_room n w \<Longrightarrow> \<exists>h. lookup w audit_meta_bucket head_key = Some (chain_head_json h)"
  by (auto simp: store_room_def)

interpretation store_sink: audit_sink store_log in_store store_room
proof (unfold_locales, goal_cases)
  case (1 r E l w w')
  then obtain s v v' h where seal: "seal_record E (cl_signer l) h v = (Inr s, v')" and ev: "event_of h = event_of r"
    and w': "\<exists>u. w' = set_doc u audit_records_bucket (seq_key (ar_seq s)) (audit_rec_json s)"
    by (fastforce simp: store_log_def claim_head_def write_record_def advance_head_def act_elims event_of_def)
  have "event_of s = event_of r" using seal_record_event [OF seal] ev by simp
  moreover from this have "audit_rec_of (audit_rec_json s) = Some s"
    using 1(1) by (intro audit_rec_of_json) (simp add: event_of_def)
  ultimately show ?case
    using w' unfolding in_store_def by (intro exI [of _ s] conjI exI [of _ "seq_key (ar_seq s)"]) (auto simp: lookup_set_doc)
next
  case keep: (2 n w s E l r res w')
  obtain h where h: "lookup w audit_meta_bucket head_key = Some (chain_head_json h)" using store_room_head [OF keep(1)] by blast
  show ?case
  proof (cases rule: store_log_outcomes [OF h keep(3)])
    case 1
    with keep(2) show ?thesis by (simp add: in_store_def)
  next
    case (2 e s' t v v')
    with keep(2) show ?thesis by (auto simp: in_store_def next_head_def lookup_set_doc audit_buckets)
  next
    case (3 s' t v v')
    then have "ar_seq s' = ch_seq h + 1" using seal_record_event by fastforce
    then have "lookup w audit_records_bucket (seq_key (ar_seq s')) = None"
      using store_room_next(1) [OF h keep(1)] by simp
    with 3 keep(2) show ?thesis
      by (auto simp: in_store_def next_head_def next_rec_def lookup_set_doc audit_buckets) (metis option.distinct(1))
  qed
next
  case rm: (3 n w E l r res w')
  obtain h where h: "lookup w audit_meta_bucket head_key = Some (chain_head_json h)" using store_room_head [OF rm(1)] by blast
  show ?case
  proof (cases rule: store_log_outcomes [OF h rm(2)])
    case 1
    with rm(1) show ?thesis by (simp add: store_room_mono)
  next
    case (2 e s t v v')
    then have "ar_seq s = ch_seq h + 1" using seal_record_event by fastforce
    with 2 show ?thesis using store_room_next(2) [OF h rm(1)] by simp
  next
    case (3 s t v v')
    then have "ar_seq s = ch_seq h + 1" using seal_record_event by fastforce
    with 3 show ?thesis using store_room_next(3) [OF h rm(1)] by simp
  qed
qed

section \<open>Witnesses\<close>

lemma signs_open_store:
  assumes sg: "signs E sg" "audit_signer E sg" and none: "lookup w audit_meta_bucket head_key = None"
  shows "\<exists>w'. open_store_log E sg k w = (Inr \<lparr>cl_signer = sg, cl_key_id = k\<rparr>, w')"
proof -
  have c: "check_audit_alg sg = Inr ()"
    using sg(2) by (simp add: audit_signer_def)
  let ?l = "\<lparr>cl_signer = sg, cl_key_id = k\<rparr>"
  let ?v = "advance (advance (advance w))"
  let ?r = "genesis_event\<lparr>ar_seq := 1, ar_time := now_at E (tick (advance (advance w))),
    ar_prev := hex_encode (map (rnd_at E (tick (advance w))) [0..<32]), ar_key_id := k\<rparr>"
  obtain s where s: "seal_record E sg ?r ?v = (Inr s, advance ?v)"
    using signs_seal [OF sg(1), of ?r] by auto
  have "make_genesis E ?l None (advance w) =
      (Inr (chain_head_json \<lparr>ch_seq = ar_seq s, ch_hash = ar_hash s\<rparr>, Some s), advance ?v)"
    using s by (simp add: make_genesis_def ebind_apply rand_read_def effect_ok signsD [OF sg(1)] clock_def)
  then have "\<exists>w'. update_out E audit_meta_bucket head_key True (make_genesis E ?l) w = (Inr (Some s), w')"
    using none by (simp add: update_out_Inr audit_buckets signsD [OF sg(1)])
  then show ?thesis
    by (auto simp: open_store_log_def ensure_genesis_def ebind_apply c Let_def wrap_err_apply put_json_def put_def effect_ok
        audit_buckets signsD [OF sg(1)])
qed

lemma sample_open_store:
  "\<exists>w. open_store_log sample_env sample_signer ''k'' empty_world = (Inr \<lparr>cl_signer = sample_signer, cl_key_id = ''k''\<rparr>, w)"
  by (rule signs_open_store [OF signs_sample sample_audit_signer]) (simp add: lookup_def empty_world_def)

lemma sample_stored:
  "\<exists>w g. open_store_log sample_env sample_signer ''k'' empty_world = (Inr \<lparr>cl_signer = sample_signer, cl_key_id = ''k''\<rparr>, w) \<and>
     chain_stored sample_env sample_signer w [g]"
proof -
  obtain w where o: "open_store_log sample_env sample_signer ''k'' empty_world =
      (Inr \<lparr>cl_signer = sample_signer, cl_key_id = ''k''\<rparr>, w)" using sample_open_store by blast
  have "lookup empty_world p k = None" for p k by (simp add: lookup_def empty_world_def)
  then obtain g where "chain_stored sample_env sample_signer w [g]"
    using open_store_log_genesis [OF sample_audit_signer _ _ o] by auto
  with o show ?thesis by blast
qed

theorem store_log_verifies_witness:
  "\<exists>l w1 w2. open_store_log sample_env sample_signer ''k'' empty_world = (Inr l, w1) \<and>
     efold (\<lambda>_. store_log sample_env l) () [genesis_event] w1 = (Inr (), w2) \<and>
     verify_store sample_env (public_of (sg_key sample_signer)) w2 = (Inr 2, advance (advance w2))"
proof -
  obtain w g where o: "open_store_log sample_env sample_signer ''k'' empty_world =
      (Inr \<lparr>cl_signer = sample_signer, cl_key_id = ''k''\<rparr>, w)" and c: "chain_stored sample_env sample_signer w [g]"
    using sample_stored by blast
  obtain w2 where "store_log sample_env \<lparr>cl_signer = sample_signer, cl_key_id = ''k''\<rparr> genesis_event w = (Inr (), w2)"
    using sample_store_log [OF c] by blast
  then have e: "efold (\<lambda>_. store_log sample_env \<lparr>cl_signer = sample_signer, cl_key_id = ''k''\<rparr>) () [genesis_event] w = (Inr (), w2)"
    by (simp add: ebind_apply)
  have "lookup empty_world p k = None" for p k by (simp add: lookup_def empty_world_def)
  then have "verify_store sample_env (audit_pub sample_signer) w2 = (Inr (Suc (length [genesis_event])), advance (advance w2))"
    by (intro store_log_verifies [OF sample_audit_signer _ _ o e]) (simp_all add: genesis_event_def new_event_def)
  then have "verify_store sample_env (audit_pub sample_signer) w2 = (Inr 2, advance (advance w2))"
    by (simp add: numeral_2_eq_2)
  with o e show ?thesis by blast
qed

theorem store_log_never_silent_witness:
  "\<exists>l w g w' w''. store_log sample_env l genesis_event w = (Inr (), w') \<and> chain_stored sample_env sample_signer w [g] \<and>
     verify_store sample_env (audit_pub sample_signer) w' = (Inr 2, w'') \<and>
     (\<exists>s. chain_stored sample_env sample_signer w' ([g] @ [s]) \<and> event_of s = event_of genesis_event)"
proof -
  let ?l = "\<lparr>cl_signer = sample_signer, cl_key_id = ''k''\<rparr>"
  obtain w g where c: "chain_stored sample_env sample_signer w [g]" using sample_stored by blast
  obtain w' where r: "store_log sample_env ?l genesis_event w = (Inr (), w')" using sample_store_log [OF c] by blast
  have d: "wf_map (ar_detail genesis_event)" by (simp add: genesis_event_def new_event_def)
  have sg: "audit_signer sample_env (cl_signer ?l)" by (simp add: sample_audit_signer)
  obtain s where s: "chain_stored sample_env sample_signer w' ([g] @ [s])"
    using store_log_ok [OF sg _ _ d r, of "[g]"] c by auto
  have v: "verify_store sample_env (audit_pub sample_signer) w' = (Inr 2, advance (advance w'))"
    using chain_stored_verifies [OF sample_audit_signer s] by (simp add: numeral_2_eq_2)
  have "\<exists>s. chain_stored sample_env sample_signer w' ([g] @ [s]) \<and> event_of s = event_of genesis_event"
    using store_log_never_silent [OF sg _ _ d r, of "[g]" 2] c v by auto
  with c v r show ?thesis by blast
qed


end
