(* ===== verification/Pkix_X509.thy ===== *)
theory Pkix_X509
  imports Backends
begin

text \<open>
  Certificates (internal/pkix/cert.go, spki.go, pem.go): encoding and parsing of public keys,
  issuance by crypto/x509 for classical pairs and by the program's own TBSCertificate otherwise,
  parsing, signature checks and chain verification.
\<close>

section \<open>Subject public keys\<close>

definition marshal_public_key :: "'x cenv_scheme \<Rightarrow> public_key \<Rightarrow> err + string" where
  "marshal_public_key E pub = (case pub of
     CompositePub a par k t \<Rightarrow> sbind (marshal_composite_public_key pub) (\<lambda>raw.
       sbind (lookup_alg a) (\<lambda>i. Inr (spki_der E (i_oid i) raw)))
   | _ \<Rightarrow> (case pkix_key_der E pub of None \<Rightarrow> Inl (errorf ''x509: unsupported public key type'') | Some d \<Rightarrow> Inr d))"

text \<open>The composite algorithm of an OID, from the loop over the profiles.\<close>

definition composite_by_oid :: "oid \<Rightarrow> algorithm option" where
  "composite_by_oid oid = find (\<lambda>a. map_option i_oid (map_of registry a) = Some oid) (map fst composite_profiles)"

definition parse_public_key :: "'x cenv_scheme \<Rightarrow> string \<Rightarrow> err + public_key" where
  "parse_public_key E der = (case spki_parse E der of
     None \<Rightarrow> Inl (errorf ''pkix: invalid SubjectPublicKeyInfo: '')
   | Some (oid, bits, rest) \<Rightarrow>
      if rest \<noteq> [] then Inl (errorf ''pkix: trailing data after SubjectPublicKeyInfo'')
      else (case composite_by_oid oid of
        Some alg \<Rightarrow> parse_composite_public_key E alg bits
      | None \<Rightarrow> (case pkix_key_parse E der of
          None \<Rightarrow> Inl (errorf ''x509: failed to parse public key'') | Some k \<Rightarrow> Inr k)))"

definition signature_algorithm_identifier :: "algorithm \<Rightarrow> err + oid" where
  "signature_algorithm_identifier alg = sbind (lookup_alg alg) (\<lambda>i. Inr (i_oid i))"

definition subject_key_id :: "'x cenv_scheme \<Rightarrow> public_key \<Rightarrow> err + string" where
  "subject_key_id E pub = sbind (marshal_public_key E pub) (\<lambda>der. case spki_parse E der of
     None \<Rightarrow> Inl (errorf ''asn1: structure error'') | Some (oid, bits, rest) \<Rightarrow> Inr (sha1 E bits))"

section \<open>Parsing\<close>

definition parse_certificate :: "'x cenv_scheme \<Rightarrow> string \<Rightarrow> err + certificate" where
  "parse_certificate E der = (case x509_parse E der of
     None \<Rightarrow> Inl (errorf ''x509: malformed certificate'')
   | Some xc \<Rightarrow> (case cert_outer E der of
       None \<Rightarrow> Inl (errorf ''pkix: invalid certificate structure: '')
     | Some (oid, rest) \<Rightarrow>
        if rest \<noteq> [] then Inl (errorf ''pkix: trailing data after certificate'')
        else sbind (by_oid oid) (\<lambda>i.
          sbind (wrap_sum ''pkix: parsing subject public key: '' (parse_public_key E (xc_spki xc))) (\<lambda>pub.
          sbind (algorithm_for_key pub) (\<lambda>pub_alg.
            Inr \<lparr>crt_raw = der, crt_x509 = xc, crt_alg = i_alg i, crt_pub = pub, crt_pub_alg = pub_alg\<rparr>)))))"

section \<open>Issuance\<close>

definition err_create :: err where
  "err_create = errorf ''x509: cannot create certificate''"

definition x509_issue ::
  "'x cenv_scheme \<Rightarrow> cert_template \<Rightarrow> x509_cert option \<Rightarrow> public_key \<Rightarrow> private_key \<Rightarrow> string act" where
  "x509_issue E t parent pub key w = (case x509_create E (tick w) t parent pub key of
     None \<Rightarrow> (Inl err_create, advance w) | Some der \<Rightarrow> (Inr der, advance w))"

text \<open>The authority key identifier of a template is set from the issuer when the template has none.\<close>

definition with_aki :: "string \<Rightarrow> cert_template \<Rightarrow> cert_template" where
  "with_aki aki t = (if t_aki t = [] then t\<lparr>t_aki := aki\<rparr> else t)"

definition create_classical ::
  "'x cenv_scheme \<Rightarrow> cert_template \<Rightarrow> certificate option \<Rightarrow> public_key \<Rightarrow> private_key \<Rightarrow> algorithm \<Rightarrow> certificate act" where
  "create_classical E t issuer pub key alg =
     (if alg \<notin> {ECDSAP256, ECDSAP384, Ed25519}
      then fail (errorf (''pkix: '' @ quoted alg @ '' is not a classical signature algorithm''))
      else (let t1 = t\<lparr>t_sig_alg := alg\<rparr>;
              t2 = (case issuer of None \<Rightarrow> t1 | Some c \<Rightarrow> with_aki (xc_ski (crt_x509 c)) t1) in
        ebind (x509_issue E t2 (map_option crt_x509 issuer) pub key) (\<lambda>der. lift_sum (parse_certificate E der))))"

text \<open>The subject and the extensions are encoded by issuing a certificate under a key that is thrown away.\<close>

definition harvest_template :: "'x cenv_scheme \<Rightarrow> cert_template \<Rightarrow> certificate option \<Rightarrow> (string \<times> string) act" where
  "harvest_template E t issuer =
     (let t1 = (case issuer of None \<Rightarrow> t | Some c \<Rightarrow> with_aki (xc_ski (crt_x509 c)) t); t2 = with_aki (t_ski t1) t1 in
      ebind (classic_generate E ECDSAP256) (\<lambda>throwaway.
      case x509_encode E (t2\<lparr>t_sig_alg := ECDSAP256\<rparr>) of
        None \<Rightarrow> fail (wrapf ''pkix: encoding template: '' err_create) | Some se \<Rightarrow> ret se))"

definition create_pq ::
  "'x cenv_scheme \<Rightarrow> cert_template \<Rightarrow> certificate option \<Rightarrow> public_key \<Rightarrow> private_key \<Rightarrow> algorithm \<Rightarrow> certificate act" where
  "create_pq E t issuer pub key alg =
     ebind (harvest_template E t issuer) (\<lambda>(subject, exts).
     ebind (lift_sum (marshal_public_key E pub)) (\<lambda>spki.
     ebind (lift_sum (signature_algorithm_identifier alg)) (\<lambda>oid.
     let tbs = tbs_der E \<lparr>tbs_serial = t_serial t, tbs_sig_oid = oid,
           tbs_issuer = (case issuer of None \<Rightarrow> subject | Some c \<Rightarrow> xc_raw_subject (crt_x509 c)),
           tbs_not_before = t_not_before t, tbs_not_after = t_not_after t, tbs_subject = subject,
           tbs_spki = spki, tbs_extensions = exts\<rparr> in
     ebind (wrap_err (wrapf ''pkix: signing certificate: '') (sign_tbs E key alg tbs)) (\<lambda>sg.
       lift_sum (parse_certificate E (cert_der E tbs oid sg))))))"

definition create_certificate ::
  "'x cenv_scheme \<Rightarrow> cert_template \<Rightarrow> certificate option \<Rightarrow> public_key \<Rightarrow> private_key \<Rightarrow> algorithm \<Rightarrow> certificate act" where
  "create_certificate E t issuer pub key alg =
     ebind (lift_sum (lookup_alg alg)) (\<lambda>sig_info.
     if i_key_only sig_info \<or> i_verify_only sig_info
     then fail (errorf (''pkix: '' @ quoted alg @ '' cannot sign certificates (RSA is verify-only; use an ECDSA or ML-DSA CA)''))
     else ebind (lift_sum (algorithm_for_key pub)) (\<lambda>pub_alg.
     ebind (lift_sum (lookup_alg pub_alg)) (\<lambda>pub_info.
     ebind (if t_ski t = [] then ebind (lift_sum (subject_key_id E pub)) (\<lambda>ski. ret (t\<lparr>t_ski := ski\<rparr>)) else ret t) (\<lambda>t'.
       if \<not> i_pq sig_info \<and> \<not> i_pq pub_info then create_classical E t' issuer pub key alg
       else create_pq E t' issuer pub key alg))))"

section \<open>Verification\<close>

definition check_signature_from :: "'x cenv_scheme \<Rightarrow> certificate \<Rightarrow> certificate \<Rightarrow> err + unit" where
  "check_signature_from E c issuer =
     (if xc_raw_issuer (crt_x509 c) \<noteq> xc_raw_subject (crt_x509 issuer) then Inl (errorf ''pkix: issuer name mismatch'')
      else verify_signature E (crt_pub issuer) (crt_alg c) (xc_raw_tbs (crt_x509 c)) (xc_sig (crt_x509 c)))"

fun verify_links :: "'x cenv_scheme \<Rightarrow> int \<Rightarrow> nat \<Rightarrow> certificate list \<Rightarrow> err + unit" where
  "verify_links E now i [] = Inr ()"
| "verify_links E now i (c # cs) =
     (if now < xc_not_before (crt_x509 c) \<or> xc_not_after (crt_x509 c) < now
      then Inl (errorf (''pkix: certificate '' @ dec i @ '' outside validity window''))
      else if cs \<noteq> [] \<and> \<not> xc_is_ca (crt_x509 (hd cs))
      then Inl (errorf (''pkix: certificate '' @ dec i @ '' issuer is not a CA''))
      else sbind (wrap_sum (''pkix: certificate '' @ dec i @ '': '') (check_signature_from E c (if cs = [] then c else hd cs)))
        (\<lambda>_. verify_links E now (Suc i) cs))"

definition verify_chain :: "'x cenv_scheme \<Rightarrow> certificate list \<Rightarrow> int \<Rightarrow> err + unit" where
  "verify_chain E chain now = (if chain = [] then Inl (errorf ''pkix: empty chain'') else verify_links E now 0 chain)"

section \<open>PEM\<close>

definition pem_certificate :: string where "pem_certificate = ''CERTIFICATE''"
definition pem_csr :: string where "pem_csr = ''CERTIFICATE REQUEST''"
definition pem_crl :: string where "pem_crl = ''X509 CRL''"
definition pem_public_key :: string where "pem_public_key = ''PUBLIC KEY''"

definition encode_certificate_pem :: "'x cenv_scheme \<Rightarrow> certificate \<Rightarrow> string" where
  "encode_certificate_pem E c = pem_encode E pem_certificate (crt_raw c)"

definition encode_chain_pem :: "'x cenv_scheme \<Rightarrow> certificate list \<Rightarrow> string" where
  "encode_chain_pem E chain = concat (map (encode_certificate_pem E) chain)"

definition pem_block :: "'x cenv_scheme \<Rightarrow> string \<Rightarrow> string \<Rightarrow> err + string" where
  "pem_block E ty data = (case pem_decode E data of
     None \<Rightarrow> Inl (errorf (''pkix: no '' @ ty @ '' PEM block found''))
   | Some (t, d, rest) \<Rightarrow> if t \<noteq> ty then Inl (errorf (''pkix: no '' @ ty @ '' PEM block found'')) else Inr d)"

definition parse_certificate_pem :: "'x cenv_scheme \<Rightarrow> string \<Rightarrow> err + certificate" where
  "parse_certificate_pem E data = sbind (pem_block E pem_certificate data) (parse_certificate E)"

definition parse_public_key_pem :: "'x cenv_scheme \<Rightarrow> string \<Rightarrow> err + public_key" where
  "parse_public_key_pem E data = sbind (pem_block E pem_public_key data) (parse_public_key E)"

text \<open>The loop of \<open>ParseChainPEM\<close>; a block consumes input, so the length of the data is enough fuel.\<close>

fun chain_blocks :: "'x cenv_scheme \<Rightarrow> nat \<Rightarrow> string \<Rightarrow> certificate list \<Rightarrow> err + certificate list" where
  "chain_blocks E n data chain = (case pem_decode E data of
     None \<Rightarrow> Inr chain
   | Some (t, d, rest) \<Rightarrow> (case n of
       0 \<Rightarrow> Inr chain
     | Suc m \<Rightarrow>
        if t \<noteq> pem_certificate then chain_blocks E m rest chain
        else sbind (parse_certificate E d) (\<lambda>c. chain_blocks E m rest (chain @ [c]))))"

declare chain_blocks.simps [simp del]

definition parse_chain_pem :: "'x cenv_scheme \<Rightarrow> string \<Rightarrow> err + certificate list" where
  "parse_chain_pem E data = sbind (chain_blocks E (length data) data []) (\<lambda>chain.
     if chain = [] then Inl (errorf ''pkix: no CERTIFICATE PEM blocks found'') else Inr chain)"

section \<open>What chain verification accepts\<close>

definition link_ok :: "'x cenv_scheme \<Rightarrow> int \<Rightarrow> certificate \<Rightarrow> certificate \<Rightarrow> bool" where
  "link_ok E now c issuer \<longleftrightarrow> xc_not_before (crt_x509 c) \<le> now \<and> now \<le> xc_not_after (crt_x509 c) \<and>
     check_signature_from E c issuer = Inr ()"

lemma verify_links_ok:
  "verify_links E now i cs = Inr () \<longleftrightarrow>
     (\<forall>j < length cs. link_ok E now (cs ! j) (if Suc j < length cs then cs ! Suc j else cs ! j) \<and>
        (Suc j < length cs \<longrightarrow> xc_is_ca (crt_x509 (cs ! Suc j))))"
proof (induction cs arbitrary: i)
  case (Cons c cs)
  have "verify_links E now i (c # cs) = Inr () \<longleftrightarrow>
      link_ok E now c (if cs = [] then c else hd cs) \<and> (cs \<noteq> [] \<longrightarrow> xc_is_ca (crt_x509 (hd cs))) \<and>
      verify_links E now (Suc i) cs = Inr ()"
    by (auto simp: link_ok_def act_elims)
  then show ?case
    unfolding Cons length_Cons All_less_Suc2 by (auto simp: hd_conv_nth)
qed simp

text \<open>
  Claim C33: chain verification accepts a list of certificates if and only if it is not empty, every
  certificate is inside its validity window, names the subject of the next one as its issuer and
  carries a valid signature under that one's key, every issuer is a CA, and the last certificate is
  self-signed.
\<close>

theorem verify_chain_exact:
  "verify_chain E chain now = Inr () \<longleftrightarrow> chain \<noteq> [] \<and>
    (\<forall>i < length chain. let c = chain ! i; issuer = (if Suc i < length chain then chain ! Suc i else c) in
       xc_not_before (crt_x509 c) \<le> now \<and> now \<le> xc_not_after (crt_x509 c) \<and>
       xc_raw_issuer (crt_x509 c) = xc_raw_subject (crt_x509 issuer) \<and>
       verify_signature E (crt_pub issuer) (crt_alg c) (xc_raw_tbs (crt_x509 c)) (xc_sig (crt_x509 c)) = Inr () \<and>
       (Suc i < length chain \<longrightarrow> xc_is_ca (crt_x509 issuer)))"
proof -
  have "link_ok E now c d \<longleftrightarrow> xc_not_before (crt_x509 c) \<le> now \<and> now \<le> xc_not_after (crt_x509 c) \<and>
       xc_raw_issuer (crt_x509 c) = xc_raw_subject (crt_x509 d) \<and>
       verify_signature E (crt_pub d) (crt_alg c) (xc_raw_tbs (crt_x509 c)) (xc_sig (crt_x509 c)) = Inr ()" for c d
    by (auto simp: link_ok_def check_signature_from_def)
  then show ?thesis
    by (simp add: verify_chain_def verify_links_ok Let_def conj_assoc cong: conj_cong)
qed

text \<open>An implication over the indices is a hypothesis in form: the claim on a chain of one certificate.\<close>

definition sample_root :: certificate where
  "sample_root = \<lparr>crt_raw = [], crt_x509 = \<lparr>xc_raw_tbs = ''tbs'', xc_sig = ''stbs'', xc_raw_subject = ''ca'',
     xc_raw_issuer = ''ca'', xc_spki = [], xc_serial = 1, xc_not_before = 0, xc_not_after = 1000, xc_is_ca = True,
     xc_ski = []\<rparr>, crt_alg = Ed25519, crt_pub = Ed25519Key ''pub'', crt_pub_alg = Ed25519\<rparr>"

theorem verify_chain_exact_witness:
  "verify_chain sample_env [sample_root] 10 = Inr () \<and> verify_chain sample_env [sample_root] 2000 \<noteq> Inr ()"
proof -
  have e: "verify_signature sample_env (Ed25519Key ''pub'') Ed25519 ''tbs'' ''stbs'' = Inr ()"
    by (simp add: verify_signature_def sample_env_def alg_defs)
  have "verify_chain sample_env [sample_root] 10 = Inr ()"
    unfolding verify_chain_exact by (simp add: sample_root_def e)
  moreover have "verify_chain sample_env [sample_root] 2000 \<noteq> Inr ()"
    unfolding verify_chain_exact by (simp add: sample_root_def)
  ultimately show ?thesis ..
qed

section \<open>Issued certificates verify\<close>

text \<open>
  The laws of the DER libraries: a parsed certificate has the fields of the structure it was encoded
  from, and an encoded public key parses back, under an OID that is not a composite one.
\<close>

definition x509_laws :: "'x cenv_scheme \<Rightarrow> bool" where
  "x509_laws E \<longleftrightarrow>
     (\<forall>t oid sg xc. x509_parse E (cert_der E (tbs_der E t) oid sg) = Some xc \<longrightarrow>
        xc_raw_tbs xc = tbs_der E t \<and> xc_sig xc = sg \<and> xc_raw_subject xc = tbs_subject t \<and>
        xc_raw_issuer xc = tbs_issuer t \<and> xc_spki xc = tbs_spki t \<and> xc_serial xc = tbs_serial t \<and>
        xc_not_before xc = sec_floor (tbs_not_before t) \<and> xc_not_after xc = sec_floor (tbs_not_after t)) \<and>
     (\<forall>tbs oid sg oid' rest. cert_outer E (cert_der E tbs oid sg) = Some (oid', rest) \<longrightarrow> oid' = oid) \<and>
     (\<forall>u t oid sg xc sub. x509_encode E u = Some (sub, tbs_extensions t) \<longrightarrow>
        x509_parse E (cert_der E (tbs_der E t) oid sg) = Some xc \<longrightarrow> xc_is_ca xc = t_is_ca u)"

definition key_der_laws :: "'x cenv_scheme \<Rightarrow> bool" where
  "key_der_laws E \<longleftrightarrow> (\<forall>oid raw. spki_parse E (spki_der E oid raw) = Some (oid, raw, [])) \<and>
     (\<forall>k d. pkix_key_der E k = Some d \<longrightarrow> pkix_key_parse E d = Some k \<and> (\<exists>oid bits. spki_parse E d = Some (oid, bits, []) \<and>
        oid \<notin> {[1, 3, 6, 1, 5, 5, 7, 6, 45], [1, 3, 6, 1, 5, 5, 7, 6, 39]}))"

lemma composite_oids:
  "composite_by_oid oid =
     (if oid = [1, 3, 6, 1, 5, 5, 7, 6, 45] then Some CompositeMLDSA65ECDSAP256
      else if oid = [1, 3, 6, 1, 5, 5, 7, 6, 39] then Some CompositeMLDSA44Ed25519 else None)"
  by (simp add: composite_by_oid_def composite_profiles_def registry_defs alg_defs)

lemma public_key_round_trip:
  assumes laws: "key_der_laws E" and wf: "\<And>a p k t. pub = CompositePub a p k t \<Longrightarrow> wf_composite E pub"
    and m: "marshal_public_key E pub = Inr d"
  shows "parse_public_key E d = Inr pub"
proof -
  have other: "parse_public_key E d = Inr pub" if k: "pkix_key_der E pub = Some d"
  proof -
    obtain oid bits where "pkix_key_parse E d = Some pub" "spki_parse E d = Some (oid, bits, [])"
      "oid \<notin> {[1, 3, 6, 1, 5, 5, 7, 6, 45], [1, 3, 6, 1, 5, 5, 7, 6, 39]}"
      using laws k unfolding key_der_laws_def by blast
    moreover from this have "composite_by_oid oid = None" by (simp add: composite_oids)
    ultimately show ?thesis by (simp add: parse_public_key_def)
  qed
  show ?thesis
  proof (cases pub)
  case (CompositePub a p k t)
  obtain raw where raw: "marshal_composite_public_key pub = Inr raw" "parse_composite_public_key E a raw = Inr pub"
    using composite_round_trip [of E a p k t] wf CompositePub by blast
  obtain q where "map_of composite_profiles a = Some q"
    using wf CompositePub by (auto simp: wf_composite_def split: option.splits)
  then have a: "(a = CompositeMLDSA65ECDSAP256 \<and> d = spki_der E [1, 3, 6, 1, 5, 5, 7, 6, 45] raw) \<or>
      (a = CompositeMLDSA44Ed25519 \<and> d = spki_der E [1, 3, 6, 1, 5, 5, 7, 6, 39] raw)"
    using m raw(1) CompositePub by (auto simp: marshal_public_key_def plain_info_def dest!: composite_profiles_Some)
  have "spki_parse E (spki_der E oid raw) = Some (oid, raw, [])" for oid
    using laws by (simp add: key_der_laws_def)
  with a raw(2) show ?thesis by (auto simp: parse_public_key_def composite_oids)
  qed (use other m in \<open>simp_all add: marshal_public_key_def split: option.splits\<close>)
qed

lemma by_oid_lookup:
  assumes "lookup_alg alg = Inr i" and "\<not> i_key_only i"
  shows "by_oid (i_oid i) = Inr i \<and> i_alg i = alg"
proof -
  have "\<forall>(a, i) \<in> set (registry @ aux_registry). \<not> i_key_only i \<longrightarrow> by_oid (i_oid i) = Inr i \<and> i_alg i = a"
    by (simp add: by_oid_def registry_defs alg_defs)
  with assms show ?thesis by (auto simp: lookup_alg_cases)
qed

lemma create_pq_Inr:
  assumes "create_pq E t issuer pub key alg w = (Inr c, w')"
  obtains subject exts spki i tbs sg v v' u where "marshal_public_key E pub = Inr spki" "lookup_alg alg = Inr i"
    "tbs = \<lparr>tbs_serial = t_serial t, tbs_sig_oid = i_oid i,
       tbs_issuer = (case issuer of None \<Rightarrow> subject | Some c \<Rightarrow> xc_raw_subject (crt_x509 c)),
       tbs_not_before = t_not_before t, tbs_not_after = t_not_after t, tbs_subject = subject,
       tbs_spki = spki, tbs_extensions = exts\<rparr>"
    "sign_tbs E key alg (tbs_der E tbs) v = (Inr sg, v')" "parse_certificate E (cert_der E (tbs_der E tbs) (i_oid i) sg) = Inr c"
    "x509_encode E u = Some (subject, exts)" "t_is_ca u = t_is_ca t"
proof -
  obtain subject exts v1 w1 where h: "harvest_template E t issuer w = (Inr (subject, exts), v1)"
    and r: "\<exists>spki i sg v v'. marshal_public_key E pub = Inr spki \<and> lookup_alg alg = Inr i \<and>
      (let tbs = \<lparr>tbs_serial = t_serial t, tbs_sig_oid = i_oid i,
       tbs_issuer = (case issuer of None \<Rightarrow> subject | Some c \<Rightarrow> xc_raw_subject (crt_x509 c)),
       tbs_not_before = t_not_before t, tbs_not_after = t_not_after t, tbs_subject = subject,
       tbs_spki = spki, tbs_extensions = exts\<rparr> in
      sign_tbs E key alg (tbs_der E tbs) v = (Inr sg, v') \<and> parse_certificate E (cert_der E (tbs_der E tbs) (i_oid i) sg) = Inr c)"
    using assms by (fastforce simp: create_pq_def act_elims signature_algorithm_identifier_def Let_def)
  obtain u where "x509_encode E u = Some (subject, exts)" "t_is_ca u = t_is_ca t"
  proof -
    have "\<exists>u. x509_encode E u = Some (subject, exts) \<and> t_is_ca u = t_is_ca t"
      using h by (auto simp: harvest_template_def act_elims Let_def with_aki_def split: option.splits if_splits)
    then show thesis using that by blast
  qed
  with r that show thesis by (auto simp: Let_def)
qed

lemma parse_certificate_Inr:
  assumes "parse_certificate E der = Inr c"
  obtains xc oid i pub alg where "x509_parse E der = Some xc" "cert_outer E der = Some (oid, [])" "by_oid oid = Inr i"
    "parse_public_key E (xc_spki xc) = Inr pub" "algorithm_for_key pub = Inr alg"
    "c = \<lparr>crt_raw = der, crt_x509 = xc, crt_alg = i_alg i, crt_pub = pub, crt_pub_alg = alg\<rparr>"
proof -
  have "\<exists>xc oid i pub alg. x509_parse E der = Some xc \<and> cert_outer E der = Some (oid, []) \<and> by_oid oid = Inr i \<and>
      parse_public_key E (xc_spki xc) = Inr pub \<and> algorithm_for_key pub = Inr alg \<and>
      c = \<lparr>crt_raw = der, crt_x509 = xc, crt_alg = i_alg i, crt_pub = pub, crt_pub_alg = alg\<rparr>"
    using assms by (auto simp: parse_certificate_def act_elims split: option.splits sum.splits if_splits)
  then show thesis using that by blast
qed

text \<open>A public key that is well-formed if it is a composite one.\<close>

definition wf_pub :: "'x cenv_scheme \<Rightarrow> public_key \<Rightarrow> bool" where
  "wf_pub E pub \<longleftrightarrow> (\<forall>a p k t. pub = CompositePub a p k t \<longrightarrow> wf_composite E pub)"

lemma created_pq:
  assumes laws: "x509_laws E" "key_der_laws E"
    and key: "wf_key key" "algorithm_for_key (public_of key) = Inr alg" "prims_correct E key"
    and pub: "wf_pub E pub"
    and issuer: "case issuer of None \<Rightarrow> pub = public_of key | Some i \<Rightarrow> crt_pub i = public_of key"
    and pq: "lookup_alg alg = Inr si" "algorithm_for_key pub = Inr pa" "lookup_alg pa = Inr pi" "i_pq si \<or> i_pq pi"
    and run: "create_certificate E t issuer pub key alg w = (Inr c, w')"
  shows "check_signature_from E c (case issuer of None \<Rightarrow> c | Some i \<Rightarrow> i) = Inr () \<and> crt_pub c = pub \<and> crt_alg c = alg \<and>
    xc_serial (crt_x509 c) = t_serial t \<and> xc_not_before (crt_x509 c) = sec_floor (t_not_before t) \<and>
    xc_not_after (crt_x509 c) = sec_floor (t_not_after t) \<and> xc_is_ca (crt_x509 c) = t_is_ca t"
proof -
  have so: "\<not> i_key_only si" "\<not> i_verify_only si"
    using run pq by (auto simp: create_certificate_def act_elims split: if_splits)
  have "\<exists>ski v. create_pq E (t\<lparr>t_ski := ski\<rparr>) issuer pub key alg v = (Inr c, w') \<or> create_pq E t issuer pub key alg v = (Inr c, w')"
    using run pq so by (cases "t_ski t = []") (auto simp: create_certificate_def act_elims, blast+)
  then obtain t' v where pqr: "create_pq E t' issuer pub key alg v = (Inr c, w')"
    and t': "t_serial t' = t_serial t" "t_not_before t' = t_not_before t" "t_not_after t' = t_not_after t" "t_is_ca t' = t_is_ca t"
    by (metis cert_template.select_convs(1,3,4,5) cert_template.surjective cert_template.update_convs(13))
  from pqr show ?thesis
  proof (rule create_pq_Inr)
    fix subject exts spki i tbs sg u u' v
    assume spki: "marshal_public_key E pub = Inr spki" and i: "lookup_alg alg = Inr i"
      and tbs: "tbs = \<lparr>tbs_serial = t_serial t', tbs_sig_oid = i_oid i,
         tbs_issuer = (case issuer of None \<Rightarrow> subject | Some c \<Rightarrow> xc_raw_subject (crt_x509 c)),
         tbs_not_before = t_not_before t', tbs_not_after = t_not_after t', tbs_subject = subject,
         tbs_spki = spki, tbs_extensions = exts\<rparr>"
      and sg: "sign_tbs E key alg (tbs_der E tbs) u = (Inr sg, u')"
      and c: "parse_certificate E (cert_der E (tbs_der E tbs) (i_oid i) sg) = Inr c"
      and enc: "x509_encode E v = Some (subject, exts)" "t_is_ca v = t_is_ca t'"
    have "parse_public_key E spki = Inr pub"
      using public_key_round_trip [OF laws(2) _ spki] pub unfolding wf_pub_def by blast
    moreover have "by_oid (i_oid i) = Inr i \<and> i_alg i = alg"
      using by_oid_lookup [OF i] i pq(1) so by simp
    moreover have "verify_signature E (public_of key) alg (tbs_der E tbs) sg = Inr ()"
      using sign_tbs_sound [OF key sg] .
    moreover obtain xc oid j p a where xc: "x509_parse E (cert_der E (tbs_der E tbs) (i_oid i) sg) = Some xc"
      and oid: "cert_outer E (cert_der E (tbs_der E tbs) (i_oid i) sg) = Some (oid, [])" "by_oid oid = Inr j"
      and p: "parse_public_key E (xc_spki xc) = Inr p"
      and ce: "c = \<lparr>crt_raw = cert_der E (tbs_der E tbs) (i_oid i) sg, crt_x509 = xc, crt_alg = i_alg j, crt_pub = p, crt_pub_alg = a\<rparr>"
      using c by (rule parse_certificate_Inr)
    moreover have f: "xc_raw_tbs xc = tbs_der E tbs" "xc_sig xc = sg" "xc_raw_subject xc = tbs_subject tbs"
      "xc_raw_issuer xc = tbs_issuer tbs" "xc_spki xc = spki" "xc_serial xc = t_serial t"
      "xc_not_before xc = sec_floor (t_not_before t)" "xc_not_after xc = sec_floor (t_not_after t)"
      using laws(1) xc t' by (simp_all add: x509_laws_def tbs)
    moreover have "xc_is_ca xc = t_is_ca t"
      using laws(1) enc xc t'(4) tbs unfolding x509_laws_def by (metis tbs_certificate.select_convs(8))
    moreover have "oid = i_oid i" using laws(1) oid unfolding x509_laws_def by blast
    ultimately show ?thesis
      using issuer by (cases issuer) (simp_all add: check_signature_from_def tbs)
  qed
qed

text \<open>
  Claim C31: a certificate issued on the post-quantum path (an ML-DSA or composite issuer or subject
  key) verifies under its issuer, or under itself for a root, and carries the requested key, serial
  number and validity, whenever the libraries' signatures verify and their DER reads back.
\<close>

theorem pq_certificate_verifies:
  assumes laws: "x509_laws E" "key_der_laws E"
    and key: "wf_key key" "algorithm_for_key (public_of key) = Inr alg" "prims_correct E key"
    and pub: "\<And>a p k t. pub = CompositePub a p k t \<Longrightarrow> wf_composite E pub"
    and issuer: "case issuer of None \<Rightarrow> pub = public_of key | Some i \<Rightarrow> crt_pub i = public_of key"
    and pq: "lookup_alg alg = Inr si" "algorithm_for_key pub = Inr pa" "lookup_alg pa = Inr pi" "i_pq si \<or> i_pq pi"
    and run: "create_certificate E t issuer pub key alg w = (Inr c, w')"
  shows "check_signature_from E c (case issuer of None \<Rightarrow> c | Some i \<Rightarrow> i) = Inr () \<and> crt_pub c = pub \<and> crt_alg c = alg \<and>
    xc_serial (crt_x509 c) = t_serial t \<and> xc_not_before (crt_x509 c) = sec_floor (t_not_before t) \<and>
    xc_not_after (crt_x509 c) = sec_floor (t_not_after t)"
  proof -
  have "wf_pub E pub" using pub by (simp add: wf_pub_def)
  from created_pq [OF laws key this issuer pq run] show ?thesis by blast
qed

text \<open>
  The law of \<open>x509.CreateCertificate\<close> for a key of the requested algorithm: the certificate parses back
  with the fields of the template and the subject key, names its issuer, and its signature is valid.
\<close>

definition classic_laws :: "'x cenv_scheme \<Rightarrow> bool" where
  "classic_laws E \<longleftrightarrow> (\<forall>n t par pub key der xc. t_sig_alg t \<in> {ECDSAP256, ECDSAP384, Ed25519} \<longrightarrow>
     algorithm_for_key (public_of key) = Inr (t_sig_alg t) \<longrightarrow> prims_correct E key \<longrightarrow> wf_key key \<longrightarrow>
     x509_create E n t par pub key = Some der \<longrightarrow> x509_parse E der = Some xc \<longrightarrow>
       pkix_key_der E pub = Some (xc_spki xc) \<and> xc_serial xc = t_serial t \<and> xc_is_ca xc = t_is_ca t \<and>
       xc_raw_issuer xc = (case par of None \<Rightarrow> xc_raw_subject xc | Some p \<Rightarrow> xc_raw_subject p) \<and>
       xc_not_before xc = sec_floor (t_not_before t) \<and> xc_not_after xc = sec_floor (t_not_after t) \<and>
       verify_signature E (public_of key) (t_sig_alg t) (xc_raw_tbs xc) (xc_sig xc) = Inr () \<and>
       (\<forall>oid rest i. cert_outer E der = Some (oid, rest) \<longrightarrow> lookup_alg (t_sig_alg t) = Inr i \<longrightarrow> oid = i_oid i))"

lemma classic_not_key_only: "alg \<in> {ECDSAP256, ECDSAP384, Ed25519} \<Longrightarrow> \<exists>i. lookup_alg alg = Inr i \<and> \<not> i_key_only i"
  by (auto simp: plain_info_def)

lemma created_classical:
  assumes laws: "classic_laws E" "key_der_laws E"
    and key: "wf_key key" "algorithm_for_key (public_of key) = Inr alg" "prims_correct E key"
    and pub: "wf_pub E pub"
    and issuer: "case issuer of None \<Rightarrow> pub = public_of key | Some i \<Rightarrow> crt_pub i = public_of key"
    and run: "create_classical E t issuer pub key alg w = (Inr c, w')"
  shows "check_signature_from E c (case issuer of None \<Rightarrow> c | Some i \<Rightarrow> i) = Inr () \<and> crt_pub c = pub \<and> crt_alg c = alg \<and>
    xc_serial (crt_x509 c) = t_serial t \<and> xc_not_before (crt_x509 c) = sec_floor (t_not_before t) \<and>
    xc_not_after (crt_x509 c) = sec_floor (t_not_after t) \<and> xc_is_ca (crt_x509 c) = t_is_ca t"
proof -
  have a: "alg \<in> {ECDSAP256, ECDSAP384, Ed25519}" using run by (auto simp: create_classical_def split: if_splits)
  obtain t' n der where der: "x509_create E n t' (map_option crt_x509 issuer) pub key = Some der"
    and t': "t_sig_alg t' = alg" "t_serial t' = t_serial t" "t_not_before t' = t_not_before t" "t_not_after t' = t_not_after t"
      "t_is_ca t' = t_is_ca t"
    and p: "parse_certificate E der = Inr c"
  proof -
    define t2 where "t2 = (case issuer of None \<Rightarrow> t\<lparr>t_sig_alg := alg\<rparr> | Some c \<Rightarrow> with_aki (xc_ski (crt_x509 c)) (t\<lparr>t_sig_alg := alg\<rparr>))"
    have "\<exists>der. x509_create E (tick w) t2 (map_option crt_x509 issuer) pub key = Some der \<and> parse_certificate E der = Inr c"
      using run a by (auto simp: create_classical_def act_elims Let_def x509_issue_def t2_def split: option.splits)
    moreover have "t_sig_alg t2 = alg" "t_serial t2 = t_serial t" "t_not_before t2 = t_not_before t" "t_not_after t2 = t_not_after t"
      "t_is_ca t2 = t_is_ca t" by (simp_all add: t2_def with_aki_def split: option.split)
    ultimately show thesis using that by blast
  qed
  obtain xc oid i q qa where xc: "x509_parse E der = Some xc" and oid: "cert_outer E der = Some (oid, [])" "by_oid oid = Inr i"
    and q: "parse_public_key E (xc_spki xc) = Inr q"
    and c: "c = \<lparr>crt_raw = der, crt_x509 = xc, crt_alg = i_alg i, crt_pub = q, crt_pub_alg = qa\<rparr>"
    using p by (rule parse_certificate_Inr)
  have "t_sig_alg t' \<in> {ECDSAP256, ECDSAP384, Ed25519}" "algorithm_for_key (public_of key) = Inr (t_sig_alg t')"
    using a key t' by simp_all
  note law = laws(1) [unfolded classic_laws_def, rule_format, OF this key(3,1) der xc]
  have spki: "pkix_key_der E pub = Some (xc_spki xc)" using law by simp
  obtain oid' bits where "pkix_key_parse E (xc_spki xc) = Some pub" "spki_parse E (xc_spki xc) = Some (oid', bits, [])"
      "composite_by_oid oid' = None"
    using laws(2) spki unfolding key_der_laws_def composite_oids by force
  then have "q = pub" using q by (simp add: parse_public_key_def)
  obtain j where j: "lookup_alg alg = Inr j" "\<not> i_key_only j" using classic_not_key_only [OF a] by blast
  have "oid = i_oid j" using law oid(1) j(1) t'(1) by simp
  then have "i_alg i = alg" using by_oid_lookup [OF j] oid(2) by simp
  with law t' issuer c \<open>q = pub\<close> show ?thesis
    by (cases issuer) (simp_all add: check_signature_from_def)
qed

lemma created_certificate:
  assumes laws: "x509_laws E" "classic_laws E" "key_der_laws E"
    and key: "wf_key key" "algorithm_for_key (public_of key) = Inr alg" "prims_correct E key"
    and pub: "wf_pub E pub"
    and issuer: "case issuer of None \<Rightarrow> pub = public_of key | Some i \<Rightarrow> crt_pub i = public_of key"
    and run: "create_certificate E t issuer pub key alg w = (Inr c, w')"
  shows "check_signature_from E c (case issuer of None \<Rightarrow> c | Some i \<Rightarrow> i) = Inr () \<and> crt_pub c = pub \<and> crt_alg c = alg \<and>
    xc_serial (crt_x509 c) = t_serial t \<and> xc_not_before (crt_x509 c) = sec_floor (t_not_before t) \<and>
    xc_not_after (crt_x509 c) = sec_floor (t_not_after t) \<and> xc_is_ca (crt_x509 c) = t_is_ca t"
proof -
  obtain si pa pi where i: "lookup_alg alg = Inr si" "algorithm_for_key pub = Inr pa" "lookup_alg pa = Inr pi"
    using run by (auto simp: create_certificate_def act_elims split: if_splits)
  show ?thesis
  proof (cases "i_pq si \<or> i_pq pi")
    case True
    from created_pq [OF laws(1,3) key pub issuer i True run] show ?thesis .
  next
    case False
    then have "\<exists>k v. create_classical E (t\<lparr>t_ski := k\<rparr>) issuer pub key alg v = (Inr c, w') \<or> create_classical E t issuer pub key alg v = (Inr c, w')"
      using run i by (cases "t_ski t = []") (auto simp: create_certificate_def act_elims split: if_splits)
    then show ?thesis using created_classical [OF laws(2,3) key pub issuer] by fastforce
  qed
qed

definition sample_template :: cert_template where
  "sample_template = \<lparr>t_serial = 7, t_subject = NamedSubject ''Root'' [''MnemoCA''] [], t_not_before = 0,
     t_not_after = 2000000000, t_is_ca = True, t_max_path_zero = False, t_key_usage = 96, t_eku = [], t_dns = [],
     t_emails = [], t_ips = [], t_uris = [], t_ski = [], t_aki = [], t_sig_alg = []\<rparr>"

definition sample_mldsa_key :: private_key where
  "sample_mldsa_key = MldsaPriv ''ML-DSA-65'' (replicate 32 (CHR ''x'')) ''pk01''"

lemma unpack_exts: "unpack (pack_exts t) = [pack_bool (t_is_ca t), t_ski t]"
  by (simp add: pack_exts_def del: pack.simps)

lemma sample_x509_laws: "x509_laws (sample_at xe)"
  by (auto simp: x509_laws_def sample_env_def unpack_cert_def unpack_signed_def pack_signed_def pack_tbs_def unpack_exts
      simp del: pack.simps split: list.splits dest!: arg_cong [where f = unpack])

lemma sample_key_der_laws: "key_der_laws (sample_at xe)"
proof -
  have "\<exists>oid bits. spki_parse (sample_at xe) d = Some (oid, bits, []) \<and>
      oid \<notin> {[1, 3, 6, 1, 5, 5, 7, 6, 45], [1, 3, 6, 1, 5, 5, 7, 6, 39]}" if "pack_key k = Some d" for k d
    using that by (cases k rule: pack_key.cases) (auto simp: sample_env_def simp del: pack.simps)
  moreover have "pkix_key_der (sample_at xe) = pack_key" "pkix_key_parse (sample_at xe) = unpack_key"
    "spki_parse (sample_at xe) (spki_der (sample_at xe) oid raw) = Some (oid, raw, [])" for oid raw
    by (simp_all add: sample_env_def del: pack.simps)
  ultimately show ?thesis unfolding key_der_laws_def using unpack_key_pack by metis
qed

lemma sample_x509_create_parses:
  assumes "sample_x509_create n t par pub key = Some der" and "unpack_cert der = Some xc"
  shows "pack_key pub = Some (xc_spki xc) \<and> xc_serial xc = t_serial t \<and> xc_is_ca xc = t_is_ca t \<and>
    xc_raw_issuer xc = (case par of None \<Rightarrow> xc_raw_subject xc | Some p \<Rightarrow> xc_raw_subject p) \<and>
    xc_not_before xc = sec_floor (t_not_before t) \<and> xc_not_after xc = sec_floor (t_not_after t) \<and>
    xc_sig xc = sample_sig (t_sig_alg t) (xc_raw_tbs xc)"
  using assms by (auto simp: sample_x509_create_def unpack_cert_def unpack_signed_def pack_signed_def pack_tbs_def unpack_exts Let_def
      simp del: pack.simps split: sum.splits option.splits)

lemma sample_sig_verifies:
  assumes alg: "alg \<in> {ECDSAP256, ECDSAP384, Ed25519}" and key: "wf_key key" "algorithm_for_key (public_of key) = Inr alg"
  shows "verify_signature (sample_at xe) (public_of key) alg m (sample_sig alg m) = Inr ()"
proof -
  have "alg \<notin> {RSA2048, RSA3072, RSA4096}" "alg \<notin> {MLDSA44, MLDSA65, MLDSA87}" "map_of composite_profiles alg = None"
    using alg by (auto simp: composite_profiles_def alg_defs)
  with wf_key_cases [OF key] alg
  consider c k where "alg = ECDSAP256" "public_of key = EcdsaKey c k" | c k where "alg = ECDSAP384" "public_of key = EcdsaKey c k"
    | k where "alg = Ed25519" "public_of key = Ed25519Key k" by auto
  then show ?thesis
    by cases (simp add: verify_signature_def sample_sig_def; simp add: sample_env_def alg_defs)+
qed

lemma sample_classic_laws: "classic_laws (sample_at xe)"
proof -
  have env: "x509_create (sample_at xe) = sample_x509_create" "x509_parse (sample_at xe) = unpack_cert" "pkix_key_der (sample_at xe) = pack_key"
    "cert_outer (sample_at xe) s = map_option (\<lambda>(tbs, o', sg, r). (o', r)) (unpack_signed s)" for s
    by (simp_all add: sample_env_def)
  have oid: "sample_x509_create n t par pub key = Some der \<Longrightarrow> unpack_signed der = Some (a, o', b, c) \<Longrightarrow>
      lookup_alg (t_sig_alg t) = Inr i \<Longrightarrow> o' = i_oid i" for n t par pub key der a o' b c i
    by (auto simp: sample_x509_create_def unpack_signed_def pack_signed_def Let_def simp del: pack.simps split: option.splits)
  have "pack_key pub = Some (xc_spki xc) \<and> xc_serial xc = t_serial t \<and> xc_is_ca xc = t_is_ca t \<and>
       xc_raw_issuer xc = (case par of None \<Rightarrow> xc_raw_subject xc | Some p \<Rightarrow> xc_raw_subject p) \<and>
       xc_not_before xc = sec_floor (t_not_before t) \<and> xc_not_after xc = sec_floor (t_not_after t) \<and>
       verify_signature (sample_at xe) (public_of key) (t_sig_alg t) (xc_raw_tbs xc) (xc_sig xc) = Inr () \<and>
       (\<forall>oid rest i. map_option (\<lambda>(tbs, o', sg, r). (o', r)) (unpack_signed der) = Some (oid, rest) \<longrightarrow>
          lookup_alg (t_sig_alg t) = Inr i \<longrightarrow> oid = i_oid i)"
    if "t_sig_alg t \<in> {ECDSAP256, ECDSAP384, Ed25519}" "wf_key key" "algorithm_for_key (public_of key) = Inr (t_sig_alg t)"
      "sample_x509_create n t par pub key = Some der" "unpack_cert der = Some xc" for n t par pub key der xc
  proof -
    note f = sample_x509_create_parses [OF that(4,5)]
    have v: "verify_signature (sample_at xe) (public_of key) (t_sig_alg t) (xc_raw_tbs xc) (xc_sig xc) = Inr ()"
      using sample_sig_verifies [OF that(1-3)] f by simp
    have "\<forall>oid rest i. map_option (\<lambda>(tbs, o', sg, r). (o', r)) (unpack_signed der) = Some (oid, rest) \<longrightarrow>
          lookup_alg (t_sig_alg t) = Inr i \<longrightarrow> oid = i_oid i"
      using oid [OF that(4)] by fastforce
    with f v show ?thesis by blast
  qed
  then show ?thesis
    unfolding classic_laws_def env by blast
qed

lemma sample_pq_create:
  "\<exists>c w. create_certificate (sample_at xe) sample_template None (public_of sample_mldsa_key) sample_mldsa_key MLDSA65 empty_world = (Inr c, w)"
proof -
  have pub: "public_of sample_mldsa_key = MldsaKey ''ML-DSA-65'' ''pk01''" by (simp add: sample_mldsa_key_def)
  obtain d where d: "pkix_key_der (sample_at xe) (MldsaKey ''ML-DSA-65'' ''pk01'') = Some d"
    and dp: "spki_parse (sample_at xe) d = Some ([2, 16, 840, 1, 101, 3, 4, 3, 18], pack [''mldsa'', ''ML-DSA-65'', ''pk01''], [])"
    by (simp add: sample_env_def del: pack.simps)
  have m: "marshal_public_key (sample_at xe) (MldsaKey ''ML-DSA-65'' ''pk01'') = Inr d"
    by (simp add: marshal_public_key_def d)
  have p: "parse_public_key (sample_at xe) d = Inr (MldsaKey ''ML-DSA-65'' ''pk01'')"
    by (rule public_key_round_trip [OF sample_key_der_laws _ m]) simp
  have ski: "\<exists>s. subject_key_id (sample_at xe) (MldsaKey ''ML-DSA-65'' ''pk01'') = Inr s"
    by (simp add: subject_key_id_def m dp)
  have h: "\<exists>sub u. harvest_template (sample_at xe) t None w = (Inr (sub, pack_exts u), advance w)" for t w
    by (simp add: harvest_template_def classic_generate_def ebind_apply Let_def) (auto simp: sample_env_def alg_defs)
  have s: "sign_tbs (sample_at xe) sample_mldsa_key MLDSA65 m w = (Inr ''sign'', advance w)" for m w
    by (simp add: sign_tbs_def sample_mldsa_key_def plain_info_def prim_sign_def) (simp add: sample_env_def)
  define i where "i = (plain_info MLDSA65 [2, 16, 840, 1, 101, 3, 4, 3, 18] NoHash)\<lparr>i_pq := True\<rparr>"
  have i: "lookup_alg MLDSA65 = Inr i" by (simp add: i_def)
  have bo: "by_oid (i_oid i) = Inr i" using by_oid_lookup [OF i] by (simp add: i_def plain_info_def)
  have pc: "\<exists>c. parse_certificate (sample_at xe) (cert_der (sample_at xe) (tbs_der (sample_at xe) \<lparr>tbs_serial = n, tbs_sig_oid = o1,
      tbs_issuer = iss, tbs_not_before = nb, tbs_not_after = na, tbs_subject = sub, tbs_spki = d, tbs_extensions = pack_exts t\<rparr>)
      (i_oid i) sg) = Inr c" for n o1 iss nb na sub t sg
  proof -
    let ?der = "cert_der (sample_at xe) (tbs_der (sample_at xe) \<lparr>tbs_serial = n, tbs_sig_oid = o1,
      tbs_issuer = iss, tbs_not_before = nb, tbs_not_after = na, tbs_subject = sub, tbs_spki = d, tbs_extensions = pack_exts t\<rparr>)
      (i_oid i) sg"
    obtain xc where xc: "x509_parse (sample_at xe) ?der = Some xc" and spki: "xc_spki xc = d"
      by (simp add: sample_env_def unpack_cert_def unpack_signed_def pack_signed_def pack_tbs_def pack_exts_def del: pack.simps)
    moreover have "cert_outer (sample_at xe) ?der = Some (i_oid i, [])"
      by (simp add: sample_env_def unpack_signed_def pack_signed_def del: pack.simps)
    ultimately show ?thesis by (simp add: parse_certificate_def bo p spki)
  qed
  obtain k where k: "subject_key_id (sample_at xe) (MldsaKey ''ML-DSA-65'' ''pk01'') = Inr k" using ski by blast
  obtain sub u where hu: "harvest_template (sample_at xe) (sample_template\<lparr>t_ski := k\<rparr>) None empty_world =
      (Inr (sub, pack_exts u), advance empty_world)" using h by blast
  have "\<exists>c w. create_pq (sample_at xe) (sample_template\<lparr>t_ski := k\<rparr>) None (MldsaKey ''ML-DSA-65'' ''pk01'') sample_mldsa_key MLDSA65
      empty_world = (Inr c, w)"
    using pc by (simp add: create_pq_def ebind_apply hu m signature_algorithm_identifier_def i s wrap_err_apply Let_def
        del: lookup_alg_simps)
  moreover have "create_certificate (sample_at xe) sample_template None (public_of sample_mldsa_key) sample_mldsa_key MLDSA65 empty_world =
      create_pq (sample_at xe) (sample_template\<lparr>t_ski := k\<rparr>) None (MldsaKey ''ML-DSA-65'' ''pk01'') sample_mldsa_key MLDSA65 empty_world"
    by (simp add: create_certificate_def ebind_apply pub k plain_info_def sample_template_def)
  ultimately show ?thesis by simp
qed

theorem pq_certificate_verifies_witness:
  "\<exists>c w. create_certificate sample_env sample_template None (public_of sample_mldsa_key) sample_mldsa_key MLDSA65 empty_world
       = (Inr c, w) \<and> check_signature_from sample_env c c = Inr () \<and> xc_serial (crt_x509 c) = 7"
proof -
  obtain c w where c: "create_certificate sample_env sample_template None (public_of sample_mldsa_key) sample_mldsa_key MLDSA65
      empty_world = (Inr c, w)" using sample_pq_create [where xe = "()"] by blast
  have "check_signature_from sample_env c (case None of None \<Rightarrow> c | Some i \<Rightarrow> i) = Inr () \<and> crt_pub c = public_of sample_mldsa_key \<and>
    crt_alg c = MLDSA65 \<and> xc_serial (crt_x509 c) = t_serial sample_template \<and>
    xc_not_before (crt_x509 c) = sec_floor (t_not_before sample_template) \<and>
    xc_not_after (crt_x509 c) = sec_floor (t_not_after sample_template)"
    by (rule pq_certificate_verifies [OF sample_x509_laws sample_key_der_laws _ _ _ _ _ lookup_alg_simps(5) _ lookup_alg_simps(5) _ c])
      (simp_all add: sample_mldsa_key_def sample_env_def plain_info_def)
  with c show ?thesis by (auto simp: sample_template_def)
qed

section \<open>Chains in PEM\<close>

text \<open>
  The law of the PEM package: the first block of encoded data decodes to its type and bytes, with
  what follows it as the rest.
\<close>

definition pem_laws :: "'x cenv_scheme \<Rightarrow> bool" where
  "pem_laws E \<longleftrightarrow> (\<forall>t d r. pem_decode E (pem_encode E t d @ r) = Some (t, d, r)) \<and> pem_decode E [] = None"

lemma pem_nonempty: "pem_laws E \<Longrightarrow> pem_encode E t d \<noteq> []"
  unfolding pem_laws_def by (metis append_Nil2 option.distinct(1))

lemma chain_blocks_encoded:
  assumes laws: "pem_laws E"
  shows "\<forall>c \<in> set chain. parse_certificate E (crt_raw c) = Inr c \<Longrightarrow> length chain \<le> n \<Longrightarrow>
    chain_blocks E n (encode_chain_pem E chain) acc = Inr (acc @ chain)"
proof (induction chain arbitrary: n acc)
  case Nil
  then show ?case using laws by (subst chain_blocks.simps) (simp add: encode_chain_pem_def pem_laws_def)
next
  case (Cons c chain)
  then obtain m where n: "n = Suc m" by (cases n) auto
  have "pem_decode E (encode_chain_pem E (c # chain)) = Some (pem_certificate, crt_raw c, encode_chain_pem E chain)"
    using laws by (simp add: pem_laws_def encode_chain_pem_def encode_certificate_pem_def)
  with Cons n show ?case by (subst chain_blocks.simps) simp
qed

lemma encode_chain_length: "pem_laws E \<Longrightarrow> length chain \<le> length (encode_chain_pem E chain)"
proof (induction chain)
  case (Cons c chain)
  then have "encode_certificate_pem E c \<noteq> []" by (simp add: encode_certificate_pem_def pem_nonempty)
  then have "1 \<le> length (encode_certificate_pem E c)" by (cases "encode_certificate_pem E c") simp_all
  with Cons show ?case by (simp add: encode_chain_pem_def)
qed simp

text \<open>
  A chain written as PEM reads back as the same certificates in the same order, and the
  parser's loop always ends: it needs no more rounds than there are bytes.
\<close>

theorem chain_pem_round_trip:
  assumes "pem_laws E" and "chain \<noteq> []" and "\<forall>c \<in> set chain. parse_certificate E (crt_raw c) = Inr c"
  shows "parse_chain_pem E (encode_chain_pem E chain) = Inr chain"
  using chain_blocks_encoded [OF assms(1,3) encode_chain_length [OF assms(1)]] assms(2)
  by (simp add: parse_chain_pem_def)

lemma sample_pem_laws: "pem_laws (sample_at xe)"
proof -
  have "pem_decode (sample_at xe) (pack [t, d] @ r) = Some (t, d, r)" for t d r
  proof -
    have u: "unpack1 (dec (length s) @ CHR '':'' # s @ r) = Some (s, r)" for s r
    proof -
      have "CHR '':'' \<notin> set (dec (length s))" using dec_digits [of "CHR '':''" "length s"] by auto
      then show ?thesis by (simp add: unpack1_def cut_at_append)
    qed
    show ?thesis by (simp add: sample_env_def u)
  qed
  then show ?thesis by (simp add: pem_laws_def) (simp add: sample_env_def)
qed

lemma parse_certificate_raw: "parse_certificate E der = Inr c \<Longrightarrow> crt_raw c = der"
  by (erule parse_certificate_Inr) simp

lemma parse_certificate_again: "parse_certificate E der = Inr c \<Longrightarrow> parse_certificate E (crt_raw c) = Inr c"
  using parse_certificate_raw by fastforce

lemma create_certificate_parsed:
  assumes "create_certificate E t issuer pub key alg w = (Inr c, w')"
  shows "parse_certificate E (crt_raw c) = Inr c"
proof -
  have "create_pq E t' issuer pub key alg v = (Inr c, w') \<Longrightarrow> parse_certificate E (crt_raw c) = Inr c" for t' v
    by (erule create_pq_Inr) (rule parse_certificate_again)
  moreover have "create_classical E t' issuer pub key alg v = (Inr c, w') \<Longrightarrow> parse_certificate E (crt_raw c) = Inr c" for t' v
    by (auto simp: create_classical_def act_elims Let_def intro: parse_certificate_again split: if_splits)
  moreover have "\<exists>t' v. create_pq E t' issuer pub key alg v = (Inr c, w') \<or> create_classical E t' issuer pub key alg v = (Inr c, w')"
    using assms by (cases "t_ski t = []") (fastforce simp: create_certificate_def act_elims split: if_splits)+
  ultimately show ?thesis by blast
qed

theorem chain_pem_round_trip_witness:
  "\<exists>c w. create_certificate sample_env sample_template None (public_of sample_mldsa_key) sample_mldsa_key MLDSA65 empty_world
       = (Inr c, w) \<and> parse_chain_pem sample_env (encode_chain_pem sample_env [c, c]) = Inr [c, c]"
proof -
  obtain c w where c: "create_certificate sample_env sample_template None (public_of sample_mldsa_key) sample_mldsa_key MLDSA65
      empty_world = (Inr c, w)" using sample_pq_create [where xe = "()"] by blast
  with chain_pem_round_trip [OF sample_pem_laws, of "[c, c]"] create_certificate_parsed [OF c] show ?thesis by auto
qed

end
