(* ===== verification/Pkix_Csr.thy ===== *)
theory Pkix_Csr
  imports Pkix_X509
begin

text \<open>
  Certificate requests (internal/pkix/csr.go): creation, parsing with the subject alternative names
  of the extension request, and the self-signature.  The two parsing loops read one element at a
  time from a byte string; each element consumes input, so the length of the string is enough fuel.
\<close>

section \<open>Definitions\<close>

definition oid_extension_request :: oid where "oid_extension_request = [1, 2, 840, 113549, 1, 9, 14]"
definition oid_extension_san :: oid where "oid_extension_san = [2, 5, 29, 17]"

text \<open>One general name: emails, DNS names, URIs and addresses are kept, anything else is skipped.\<close>

definition add_general_name :: "'x cenv_scheme \<Rightarrow> nat \<Rightarrow> nat \<Rightarrow> string \<Rightarrow> cert_request \<Rightarrow> err + cert_request" where
  "add_general_name E cls tag bytes r =
     (if cls \<noteq> 2 then Inr r
      else if tag = 1 then Inr (r\<lparr>csr_emails := csr_emails r @ [bytes]\<rparr>)
      else if tag = 2 then Inr (r\<lparr>csr_dns := csr_dns r @ [bytes]\<rparr>)
      else if tag = 6 then (case url_parse E bytes of
          None \<Rightarrow> Inl (errorf ''pkix: invalid URI SAN: '') | Some u \<Rightarrow> Inr (r\<lparr>csr_uris := csr_uris r @ [u]\<rparr>))
      else if tag = 7 then
        (if length bytes = 4 \<or> length bytes = 16 then Inr (r\<lparr>csr_ips := csr_ips r @ [bytes]\<rparr>) else Inr r)
      else Inr r)"

fun parse_general_names :: "'x cenv_scheme \<Rightarrow> nat \<Rightarrow> string \<Rightarrow> cert_request \<Rightarrow> err + cert_request" where
  "parse_general_names E 0 rest r = Inr r"
| "parse_general_names E (Suc n) rest r =
     (if rest = [] then Inr r
      else (case gn_next E rest of
          None \<Rightarrow> Inl (errorf ''pkix: invalid GeneralName: '')
        | Some (cls, tag, bytes, rest') \<Rightarrow>
            sbind (add_general_name E cls tag bytes r) (parse_general_names E n rest')))"

definition parse_san :: "'x cenv_scheme \<Rightarrow> string \<Rightarrow> cert_request \<Rightarrow> err + cert_request" where
  "parse_san E value r = (case san_seq E value of
     None \<Rightarrow> Inl (errorf ''pkix: invalid SAN extension: '')
   | Some body \<Rightarrow> parse_general_names E (length body) body r)"

definition parse_extension :: "'x cenv_scheme \<Rightarrow> cert_request \<Rightarrow> oid \<times> string \<Rightarrow> err + cert_request" where
  "parse_extension E r ext = (if fst ext = oid_extension_san then parse_san E (snd ext) r else Inr r)"

definition parse_attribute :: "'x cenv_scheme \<Rightarrow> oid \<Rightarrow> string \<Rightarrow> cert_request \<Rightarrow> err + cert_request" where
  "parse_attribute E ty values r =
     (if ty \<noteq> oid_extension_request then Inr r
      else (case exts_parse E values of
          None \<Rightarrow> Inl (errorf ''pkix: invalid extensionRequest: '')
        | Some exts \<Rightarrow> sfold (parse_extension E) (r\<lparr>csr_extensions := exts\<rparr>) exts))"

fun parse_attributes :: "'x cenv_scheme \<Rightarrow> nat \<Rightarrow> string \<Rightarrow> cert_request \<Rightarrow> err + cert_request" where
  "parse_attributes E 0 rest r = Inr r"
| "parse_attributes E (Suc n) rest r =
     (if rest = [] then Inr r
      else (case attr_next E rest of
          None \<Rightarrow> Inl (errorf ''pkix: invalid CSR attribute: '')
        | Some (ty, values, rest') \<Rightarrow> sbind (parse_attribute E ty values r) (parse_attributes E n rest')))"

definition parse_certificate_request :: "'x cenv_scheme \<Rightarrow> string \<Rightarrow> err + cert_request" where
  "parse_certificate_request E der = (case csr_outer E der of
     None \<Rightarrow> Inl (errorf ''pkix: invalid CSR: '')
   | Some (cri, oid, sg, rest) \<Rightarrow>
      if rest \<noteq> [] then Inl (errorf ''pkix: trailing data after CSR'')
      else sbind (by_oid oid) (\<lambda>i. case cri_parse E cri of
          None \<Rightarrow> Inl (errorf ''pkix: invalid CertificationRequestInfo: '')
        | Some (subject, spki, attrs) \<Rightarrow>
            sbind (wrap_sum ''pkix: parsing CSR public key: '' (parse_public_key E spki)) (\<lambda>pub.
            sbind (algorithm_for_key pub) (\<lambda>pub_alg. case rdn_cn E subject of
                None \<Rightarrow> Inl (errorf ''pkix: invalid CSR subject: '')
              | Some cn \<Rightarrow> parse_attributes E (length attrs) attrs
                  \<lparr>csr_raw = der, csr_cn = cn, csr_raw_subject = subject, csr_pub = pub, csr_pub_alg = pub_alg,
                   csr_alg = i_alg i, csr_dns = [], csr_emails = [], csr_ips = [], csr_uris = [],
                   csr_extensions = [], csr_cri = cri, csr_sig = sg\<rparr>))))"

definition csr_check_signature :: "'x cenv_scheme \<Rightarrow> cert_request \<Rightarrow> err + unit" where
  "csr_check_signature E r = verify_signature E (csr_pub r) (csr_alg r) (csr_cri r) (csr_sig r)"

definition create_pq_csr :: "'x cenv_scheme \<Rightarrow> csr_template \<Rightarrow> private_key \<Rightarrow> algorithm \<Rightarrow> cert_request act" where
  "create_pq_csr E t key alg =
     ebind (classic_generate E ECDSAP256) (\<lambda>throwaway.
     case csr_encode E t of
       None \<Rightarrow> fail (errorf ''pkix: encoding CSR template: '')
     | Some (subject, attrs) \<Rightarrow>
       ebind (lift_sum (marshal_public_key E (public_of key))) (\<lambda>spki.
       let cri = cri_der E subject spki attrs in
       ebind (sign_tbs E key alg cri) (\<lambda>sg.
       ebind (lift_sum (signature_algorithm_identifier alg)) (\<lambda>oid.
         lift_sum (parse_certificate_request E (csr_der E cri oid sg))))))"

definition create_certificate_request :: "'x cenv_scheme \<Rightarrow> csr_template \<Rightarrow> private_key \<Rightarrow> algorithm \<Rightarrow> cert_request act" where
  "create_certificate_request E t key alg =
     ebind (lift_sum (lookup_alg alg)) (\<lambda>i.
     if \<not> i_pq i then
       ebind (\<lambda>w. (case csr_create E (tick w) t alg key of
           None \<Rightarrow> Inl (errorf ''x509: cannot create certificate request'') | Some der \<Rightarrow> Inr der, advance w)) (\<lambda>der.
         lift_sum (parse_certificate_request E der))
     else create_pq_csr E t key alg)"

definition encode_csr_pem :: "'x cenv_scheme \<Rightarrow> cert_request \<Rightarrow> string" where
  "encode_csr_pem E r = pem_encode E pem_csr (csr_raw r)"

definition parse_csr_pem :: "'x cenv_scheme \<Rightarrow> string \<Rightarrow> err + cert_request" where
  "parse_csr_pem E data = sbind (pem_block E pem_csr data) (parse_certificate_request E)"

section \<open>The loops end\<close>

text \<open>The law of the element readers: an element consumes input.\<close>

definition reader_laws :: "'x cenv_scheme \<Rightarrow> bool" where
  "reader_laws E \<longleftrightarrow> (\<forall>s ty v r. attr_next E s = Some (ty, v, r) \<longrightarrow> length r < length s) \<and>
     (\<forall>s c t b r. gn_next E s = Some (c, t, b, r) \<longrightarrow> length r < length s)"

lemma parse_general_names_fuel:
  assumes "reader_laws E"
  shows "length rest \<le> n \<Longrightarrow> parse_general_names E n rest r = parse_general_names E (length rest) rest r"
proof (induction n arbitrary: rest r rule: less_induct)
  case (less n)
  have step: "length r' \<le> k \<Longrightarrow> k < n \<Longrightarrow> parse_general_names E k r' q = parse_general_names E (length r') r' q" for k r' q
    using less.IH by blast
  show ?case
  proof (cases "rest = []")
    case True
    then show ?thesis by (cases n) simp_all
  next
    case False
    then obtain m l where n: "n = Suc m" "length rest = Suc l" using less.prems by (cases n; cases rest) auto
    show ?thesis
    proof (cases "gn_next E rest")
      case (Some x)
      obtain c t b r' where x: "x = (c, t, b, r')" by (cases x)
      with Some assms have "length r' < length rest" unfolding reader_laws_def by blast
      then have "parse_general_names E m r' = parse_general_names E (length r') r'"
        "parse_general_names E l r' = parse_general_names E (length r') r'"
        using step [of r' m] step [of r' l] n less.prems by auto
      with n Some x False show ?thesis by simp
    qed (use n False in simp)
  qed
qed

lemma parse_attributes_fuel:
  assumes "reader_laws E"
  shows "length rest \<le> n \<Longrightarrow> parse_attributes E n rest r = parse_attributes E (length rest) rest r"
proof (induction n arbitrary: rest r rule: less_induct)
  case (less n)
  have step: "length r' \<le> k \<Longrightarrow> k < n \<Longrightarrow> parse_attributes E k r' q = parse_attributes E (length r') r' q" for k r' q
    using less.IH by blast
  show ?case
  proof (cases "rest = []")
    case True
    then show ?thesis by (cases n) simp_all
  next
    case False
    then obtain m l where n: "n = Suc m" "length rest = Suc l" using less.prems by (cases n; cases rest) auto
    show ?thesis
    proof (cases "attr_next E rest")
      case (Some x)
      obtain t b r' where x: "x = (t, b, r')" by (cases x)
      with Some assms have "length r' < length rest" unfolding reader_laws_def by blast
      then have "parse_attributes E m r' = parse_attributes E (length r') r'"
        "parse_attributes E l r' = parse_attributes E (length r') r'"
        using step [of r' m] step [of r' l] n less.prems by auto
      with n Some x False show ?thesis by simp
    qed (use n False in simp)
  qed
qed

text \<open>What the loops leave alone.\<close>

definition csr_core :: "cert_request \<Rightarrow> string \<times> string \<times> string \<times> public_key \<times> algorithm \<times> algorithm \<times> string \<times> string" where
  "csr_core r = (csr_raw r, csr_cn r, csr_raw_subject r, csr_pub r, csr_pub_alg r, csr_alg r, csr_cri r, csr_sig r)"

lemma add_general_name_core: "add_general_name E c t b r = Inr r' \<Longrightarrow> csr_core r' = csr_core r"
  by (auto simp: add_general_name_def csr_core_def split: if_splits option.splits)

lemma parse_general_names_core: "parse_general_names E n rest r = Inr r' \<Longrightarrow> csr_core r' = csr_core r"
  by (induction n arbitrary: rest r)
    (fastforce simp: act_elims dest: add_general_name_core split: if_splits option.splits prod.splits)+

lemma parse_extension_core: "parse_extension E r e = Inr r' \<Longrightarrow> csr_core r' = csr_core r"
  by (auto simp: parse_extension_def parse_san_def dest: parse_general_names_core split: if_splits option.splits)

lemma parse_extensions_core: "sfold (parse_extension E) r es = Inr r' \<Longrightarrow> csr_core r' = csr_core r"
  by (induction es arbitrary: r) (auto dest: parse_extension_core split: sum.splits)

lemma parse_attribute_core: "parse_attribute E ty v r = Inr r' \<Longrightarrow> csr_core r' = csr_core r"
  by (auto simp: parse_attribute_def csr_core_def dest!: parse_extensions_core split: if_splits option.splits)

lemma parse_attributes_core: "parse_attributes E n rest r = Inr r' \<Longrightarrow> csr_core r' = csr_core r"
  by (induction n arbitrary: rest r)
    (fastforce simp: act_elims dest: parse_attribute_core split: if_splits option.splits prod.splits)+

lemma parse_request_Inr:
  assumes "parse_certificate_request E der = Inr r"
  obtains cri oid sg i subject spki attrs pub where "csr_outer E der = Some (cri, oid, sg, [])" "by_oid oid = Inr i"
    "cri_parse E cri = Some (subject, spki, attrs)" "parse_public_key E spki = Inr pub" "csr_pub r = pub"
    "algorithm_for_key pub = Inr (csr_pub_alg r)" "csr_alg r = i_alg i" "csr_cri r = cri" "csr_sig r = sg" "csr_raw r = der"
    "csr_raw_subject r = subject"
proof -
  obtain cri oid sg i subject spki attrs pub pa cn where o: "csr_outer E der = Some (cri, oid, sg, [])" "by_oid oid = Inr i"
    "cri_parse E cri = Some (subject, spki, attrs)" "parse_public_key E spki = Inr pub" "algorithm_for_key pub = Inr pa"
    and p: "parse_attributes E (length attrs) attrs
      \<lparr>csr_raw = der, csr_cn = cn, csr_raw_subject = subject, csr_pub = pub, csr_pub_alg = pa,
       csr_alg = i_alg i, csr_dns = [], csr_emails = [], csr_ips = [], csr_uris = [],
       csr_extensions = [], csr_cri = cri, csr_sig = sg\<rparr> = Inr r"
    using assms by (auto simp: parse_certificate_request_def act_elims split: option.splits if_splits)
  from parse_attributes_core [OF p] o show thesis by (intro that [OF o(1-4)]) (auto simp: csr_core_def)
qed

section \<open>Requests verify\<close>

text \<open>The laws of the DER of requests: what is read back is what was encoded.\<close>

definition csr_laws :: "'x cenv_scheme \<Rightarrow> bool" where
  "csr_laws E \<longleftrightarrow>
     (\<forall>cri oid sg cri' oid' sg' rest. csr_outer E (csr_der E cri oid sg) = Some (cri', oid', sg', rest) \<longrightarrow>
        cri' = cri \<and> oid' = oid \<and> sg' = sg) \<and>
     (\<forall>s k a s' k' a'. cri_parse E (cri_der E s k a) = Some (s', k', a') \<longrightarrow> s' = s \<and> k' = k \<and> a' = a)"

text \<open>
  A certificate request the program makes with an ML-DSA or composite key passes the
  check of its self-signature, and it asks for that very key.
\<close>

theorem pq_csr_verifies:
  assumes laws: "csr_laws E" "key_der_laws E"
    and key: "wf_key key" "algorithm_for_key (public_of key) = Inr alg" "prims_correct E key"
    and pub: "\<And>a p k t. public_of key = CompositePub a p k t \<Longrightarrow> wf_composite E (public_of key)"
    and pq: "lookup_alg alg = Inr i" "i_pq i"
    and run: "create_certificate_request E t key alg w = (Inr r, w')"
  shows "csr_check_signature E r = Inr () \<and> csr_pub r = public_of key \<and> csr_alg r = alg"
proof -
  obtain subject attrs spki sg v v' where m: "marshal_public_key E (public_of key) = Inr spki"
    and sg: "sign_tbs E key alg (cri_der E subject spki attrs) v = (Inr sg, v')"
    and p: "parse_certificate_request E (csr_der E (cri_der E subject spki attrs) (i_oid i) sg) = Inr r"
    using run pq by (auto simp: create_certificate_request_def create_pq_csr_def act_elims signature_algorithm_identifier_def
        Let_def split: option.splits)
  have nk: "\<not> i_key_only i" using sg pq(1) by (auto simp: sign_tbs_def)
  obtain cri oid sg' j subject' spki' attrs' k where o: "csr_outer E (csr_der E (cri_der E subject spki attrs) (i_oid i) sg) = Some (cri, oid, sg', [])"
    "by_oid oid = Inr j" "cri_parse E cri = Some (subject', spki', attrs')" "parse_public_key E spki' = Inr k" "csr_pub r = k"
    "csr_alg r = i_alg j" "csr_cri r = cri" "csr_sig r = sg'"
    using p by (rule parse_request_Inr)
  have c: "cri = cri_der E subject spki attrs" "oid = i_oid i" "sg' = sg"
    using laws(1) o(1) unfolding csr_laws_def by blast+
  have "spki' = spki" using laws(1) o(3) c unfolding csr_laws_def by blast
  then have "k = public_of key" using public_key_round_trip [OF laws(2) _ m] pub o(4) by force
  moreover have "j = i" "i_alg i = alg" using by_oid_lookup [OF pq(1) nk] o(2) c by auto
  moreover have "verify_signature E (public_of key) alg (cri_der E subject spki attrs) sg = Inr ()"
    by (rule sign_tbs_sound [OF key sg])
  ultimately show ?thesis using o c by (simp add: csr_check_signature_def)
qed

definition sample_csr_template :: csr_template where
  "sample_csr_template = \<lparr>ct_subject = NamedSubject ''leaf'' [] [], ct_dns = [''a.example''], ct_emails = [],
     ct_ips = [], ct_uris = []\<rparr>"

lemma sample_csr_laws: "csr_laws (sample_at xe)"
  by (auto simp: csr_laws_def sample_env_def unpack_signed_def pack_signed_def simp del: pack.simps split: list.splits)

lemma sample_reader_laws: "reader_laws (sample_at xe)"
proof -
  have "attr_next (sample_at xe) s = Some (ty, v, r) \<Longrightarrow> length r < length s" for s ty v r
    by (auto simp: sample_env_def dest: unpack1_shorter split: option.splits list.splits)
  moreover have "gn_next (sample_at xe) s = Some (c, t, b, r) \<Longrightarrow> length r < length s" for s c t b r
    by (auto simp: sample_env_def dest: unpack1_shorter split: option.splits list.splits)
  ultimately show ?thesis by (simp add: reader_laws_def)
qed

lemma pack_nonempty: "pack (s # ss) \<noteq> []"
  by simp

lemma sample_gn_next: "gn_next (sample_at xe) (pack (pack [dec n, s] # ss)) = Some (2, n, s, pack ss)"
  by (simp add: sample_env_def del: pack.simps)

lemma sample_attr_next: "attr_next (sample_at xe) (pack (pack [pack_oid i, s] # ss)) = Some (i, s, pack ss)"
  by (simp add: sample_env_def del: pack.simps)

lemma parse_names_Nil: "parse_general_names E n [] r = Inr r"
  by (cases n) simp_all

lemma parse_attributes_Nil: "parse_attributes E n [] r = Inr r"
  by (cases n) simp_all

lemma sample_names:
  assumes "length (pack (pack [dec 2, s] # [])) \<le> n"
  shows "parse_general_names (sample_at xe) n (pack (pack [dec 2, s] # [])) r = Inr (r\<lparr>csr_dns := csr_dns r @ [s]\<rparr>)"
proof -
  obtain m where "n = Suc m" using assms by (cases n) simp_all
  then show ?thesis
    by (simp add: pack_nonempty sample_gn_next add_general_name_def del: pack.simps) (simp add: parse_names_Nil)
qed

lemma sample_parse_attributes:
  assumes "length (pack (pack [pack_oid oid_extension_request, pack [pack_ext (oid_extension_san, pack [pack [dec 2, s]])]] # [])) \<le> n"
  shows "parse_attributes (sample_at xe) n (pack (pack [pack_oid oid_extension_request, pack [pack_ext (oid_extension_san, pack [pack [dec 2, s]])]] # [])) r
     = Inr (r\<lparr>csr_extensions := [(oid_extension_san, pack [pack [dec 2, s]])], csr_dns := csr_dns r @ [s]\<rparr>)"
proof -
  obtain m where "n = Suc m" using assms by (cases n) simp_all
  moreover have "exts_parse (sample_at xe) (pack [pack_ext (oid_extension_san, pack [pack [dec 2, s]])]) = Some [(oid_extension_san, pack [pack [dec 2, s]])]"
    by (simp add: sample_env_def del: pack.simps)
  moreover have "san_seq (sample_at xe) b = Some b" for b by (simp add: sample_env_def)
  ultimately show ?thesis
    by (simp add: pack_nonempty sample_attr_next parse_attribute_def parse_extension_def parse_san_def sample_names
      del: pack.simps) (simp add: parse_attributes_Nil)
qed

lemma sample_pack_attrs:
  "pack_attrs sample_csr_template = pack [pack [pack_oid oid_extension_request, pack [pack_ext (oid_extension_san,
     pack [pack [dec 2, ''a.example'']])]]]"
  by (simp add: pack_attrs_def pack_san_def sample_csr_template_def oid_extension_request_def oid_extension_san_def del: pack.simps)

lemma sample_csr_create_key:
  "\<exists>r w'. create_certificate_request (sample_at xe) sample_csr_template (MldsaPriv ''ML-DSA-65'' seed pk) MLDSA65 w = (Inr r, w') \<and>
     csr_dns r = [''a.example''] \<and> csr_cn r = ''leaf''"
proof -
  define key where "key = MldsaPriv ''ML-DSA-65'' seed pk"
  define i where "i = (plain_info MLDSA65 [2, 16, 840, 1, 101, 3, 4, 3, 18] NoHash)\<lparr>i_pq := True\<rparr>"
  have i: "lookup_alg MLDSA65 = Inr i" by (simp add: i_def)
  have ip: "i_pq i" "\<not> i_key_only i" "i_alg i = MLDSA65" by (simp_all add: i_def plain_info_def)
  have bo: "by_oid (i_oid i) = Inr i" using by_oid_lookup [OF i] ip by simp
  define k where "k = MldsaKey ''ML-DSA-65'' pk"
  have pub: "public_of key = k" by (simp add: key_def k_def)
  obtain d where m: "marshal_public_key (sample_at xe) k = Inr d"
    by (simp add: marshal_public_key_def sample_env_def k_def del: pack.simps)
  have p: "parse_public_key (sample_at xe) d = Inr k"
    by (rule public_key_round_trip [OF sample_key_der_laws _ m]) (simp add: k_def)
  have ak: "algorithm_for_key k = Inr MLDSA65" by (simp add: k_def)
  have s: "sign_tbs (sample_at xe) key MLDSA65 m w = (Inr ''sign'', advance w)" for m w
    by (simp add: sign_tbs_def key_def plain_info_def prim_sign_def) (simp add: sample_env_def)
  have g: "classic_generate (sample_at xe) ECDSAP256 w = (Inr sample_ecdsa_key, advance w)" for w
    by (simp add: classic_generate_def) (simp add: sample_env_def alg_defs)
  define sub where "sub = pack_subject (ct_subject sample_csr_template)"
  define at where "at = pack_attrs sample_csr_template"
  define der where "der = csr_der (sample_at xe) (cri_der (sample_at xe) sub d at) (i_oid i) ''sign''"
  have e: "csr_encode (sample_at xe) sample_csr_template = Some (sub, at)" by (simp add: sample_env_def sub_def at_def)
  have o: "csr_outer (sample_at xe) der = Some (cri_der (sample_at xe) sub d at, i_oid i, ''sign'', [])"
    "cri_parse (sample_at xe) (cri_der (sample_at xe) sub d at) = Some (sub, d, at)"
    by (simp_all add: der_def sample_env_def unpack_signed_def pack_signed_def del: pack.simps)
  have cn: "rdn_cn (sample_at xe) sub = Some ''leaf''"
    by (simp add: sample_env_def sub_def pack_subject_def sample_csr_template_def del: pack.simps)
  have at: "parse_attributes (sample_at xe) (length at) at r = Inr (r\<lparr>csr_extensions := [(oid_extension_san, pack [pack [dec 2, ''a.example'']])],
      csr_dns := csr_dns r @ [''a.example'']\<rparr>)" for r
    unfolding at_def sample_pack_attrs by (rule sample_parse_attributes) (rule order_refl)
  have "\<exists>r. parse_certificate_request (sample_at xe) der = Inr r \<and> csr_dns r = [''a.example''] \<and> csr_cn r = ''leaf''"
    by (simp add: parse_certificate_request_def o bo p ak cn at)
  then show ?thesis
    by (auto simp: create_certificate_request_def create_pq_csr_def ebind_apply i ip g e pub m s Let_def
        signature_algorithm_identifier_def der_def key_def [symmetric] simp del: lookup_alg_simps)
qed

lemma sample_csr_create:
  "\<exists>r w. create_certificate_request (sample_at xe) sample_csr_template sample_mldsa_key MLDSA65 empty_world = (Inr r, w) \<and>
     csr_dns r = [''a.example''] \<and> csr_cn r = ''leaf''"
  unfolding sample_mldsa_key_def by (rule sample_csr_create_key)

theorem pq_csr_verifies_witness:
  "\<exists>r w. create_certificate_request sample_env sample_csr_template sample_mldsa_key MLDSA65 empty_world = (Inr r, w) \<and>
     csr_check_signature sample_env r = Inr () \<and> csr_pub r = public_of sample_mldsa_key \<and> csr_dns r = [''a.example'']"
proof -
  obtain r w where r: "create_certificate_request sample_env sample_csr_template sample_mldsa_key MLDSA65 empty_world = (Inr r, w)"
    and d: "csr_dns r = [''a.example'']" using sample_csr_create [where xe = "()"] by blast
  have "csr_check_signature sample_env r = Inr () \<and> csr_pub r = public_of sample_mldsa_key \<and> csr_alg r = MLDSA65"
    by (rule pq_csr_verifies [OF sample_csr_laws sample_key_der_laws _ _ _ _ lookup_alg_simps(5) _ r])
      (simp_all add: sample_mldsa_key_def sample_env_def plain_info_def)
  with r d show ?thesis by auto
qed

end
