(* ===== verification/Pkix_Crl.thy ===== *)
theory Pkix_Crl
  imports Pkix_Csr
begin

text \<open>
  Revocation lists (internal/pkix/crl.go): creation, parsing and the check of the signature.
\<close>

section \<open>Definitions\<close>

record revoked_entry =
  re_serial :: int
  re_time :: int
  re_reason :: int

record crl =
  crl_raw :: string
  crl_alg :: algorithm
  crl_number :: "int option"
  crl_this :: int
  crl_next :: int
  crl_revoked :: "revoked_entry list"
  crl_tbs :: string
  crl_sig :: string

definition oid_extension_aki :: oid where "oid_extension_aki = [2, 5, 29, 35]"
definition oid_extension_crl_number :: oid where "oid_extension_crl_number = [2, 5, 29, 20]"
definition oid_extension_reason :: oid where "oid_extension_reason = [2, 5, 29, 21]"

definition read_number :: "'x cenv_scheme \<Rightarrow> int option \<Rightarrow> oid \<times> string \<Rightarrow> err + int option" where
  "read_number E n ext = (if fst ext \<noteq> oid_extension_crl_number then Inr n
     else (case asn1_int_of E (snd ext) of
       None \<Rightarrow> Inl (errorf ''pkix: invalid CRL number: '') | Some i \<Rightarrow> Inr (Some i)))"

text \<open>An unreadable reason code is skipped.\<close>

definition read_reason :: "'x cenv_scheme \<Rightarrow> oid \<times> string \<Rightarrow> int \<Rightarrow> int" where
  "read_reason E ext c = (if fst ext \<noteq> oid_extension_reason then c
     else (case asn1_enum_of E (snd ext) of None \<Rightarrow> c | Some i \<Rightarrow> i))"

definition read_entry :: "'x cenv_scheme \<Rightarrow> int \<times> int \<times> (oid \<times> string) list \<Rightarrow> revoked_entry" where
  "read_entry E rc = (case rc of (s, t, exts) \<Rightarrow>
     \<lparr>re_serial = s, re_time = t, re_reason = fold (read_reason E) exts 0\<rparr>)"

definition parse_crl :: "'x cenv_scheme \<Rightarrow> string \<Rightarrow> err + crl" where
  "parse_crl E der = (case crl_outer E der of
     None \<Rightarrow> Inl (errorf ''pkix: invalid CRL: '')
   | Some (raw, oid, sg, rest) \<Rightarrow>
      if rest \<noteq> [] then Inl (errorf ''pkix: trailing data after CRL'')
      else sbind (by_oid oid) (\<lambda>i. case crl_tbs_parse E raw of
          None \<Rightarrow> Inl (errorf ''pkix: invalid TBSCertList: '')
        | Some tbs \<Rightarrow> sbind (sfold (read_number E) None (tcl_exts tbs)) (\<lambda>n.
            Inr \<lparr>crl_raw = der, crl_alg = i_alg i, crl_number = n, crl_this = tcl_this tbs, crl_next = tcl_next tbs,
              crl_revoked = map (read_entry E) (tcl_revoked tbs), crl_tbs = raw, crl_sig = sg\<rparr>)))"

definition crl_check_signature_from :: "'x cenv_scheme \<Rightarrow> crl \<Rightarrow> certificate \<Rightarrow> err + unit" where
  "crl_check_signature_from E c issuer = verify_signature E (crt_pub issuer) (crl_alg c) (crl_tbs c) (crl_sig c)"

definition write_entry :: "'x cenv_scheme \<Rightarrow> revoked_entry \<Rightarrow> int \<times> int \<times> (oid \<times> string) list" where
  "write_entry E r = (re_serial r, re_time r,
     if re_reason r \<noteq> 0 then [(oid_extension_reason, asn1_enum E (re_reason r))] else [])"

definition create_crl :: "'x cenv_scheme \<Rightarrow> certificate \<Rightarrow> private_key \<Rightarrow> algorithm \<Rightarrow> revoked_entry list \<Rightarrow> int \<Rightarrow> int \<Rightarrow> int \<Rightarrow> crl act" where
  "create_crl E issuer key alg revoked number this_update next_update =
     ebind (lift_sum (signature_algorithm_identifier alg)) (\<lambda>oid.
     let tbs = crl_tbs_der E \<lparr>tcl_sig_oid = oid, tcl_issuer = xc_raw_subject (crt_x509 issuer),
           tcl_this = this_update, tcl_next = next_update, tcl_revoked = map (write_entry E) revoked,
           tcl_exts = [(oid_extension_aki, aki_der E (xc_ski (crt_x509 issuer))),
                       (oid_extension_crl_number, asn1_int E number)]\<rparr> in
     ebind (wrap_err (wrapf ''pkix: signing CRL: '') (sign_tbs E key alg tbs)) (\<lambda>sg.
       lift_sum (parse_crl E (crl_der E tbs oid sg))))"

definition encode_crl_pem :: "'x cenv_scheme \<Rightarrow> crl \<Rightarrow> string" where
  "encode_crl_pem E c = pem_encode E pem_crl (crl_raw c)"

section \<open>What a new list says\<close>

text \<open>The laws of the DER of lists: it reads back as written, with instants cut to whole seconds.\<close>

definition crl_laws :: "'x cenv_scheme \<Rightarrow> bool" where
  "crl_laws E \<longleftrightarrow>
     (\<forall>tbs oid sg tbs' oid' sg' r. crl_outer E (crl_der E tbs oid sg) = Some (tbs', oid', sg', r) \<longrightarrow>
        tbs' = tbs \<and> oid' = oid \<and> sg' = sg) \<and>
     (\<forall>t t'. crl_tbs_parse E (crl_tbs_der E t) = Some t' \<longrightarrow> t' = t\<lparr>tcl_this := sec_floor (tcl_this t),
        tcl_next := sec_floor (tcl_next t), tcl_revoked := map (\<lambda>(s, u, x). (s, sec_floor u, x)) (tcl_revoked t)\<rparr>) \<and>
     (\<forall>n. asn1_int_of E (asn1_int E n) = Some n) \<and> (\<forall>n. asn1_enum_of E (asn1_enum E n) = Some n)"

definition in_seconds :: "revoked_entry \<Rightarrow> revoked_entry" where
  "in_seconds r = r\<lparr>re_time := sec_floor (re_time r)\<rparr>"

lemma read_written_entry:
  assumes "crl_laws E"
  shows "read_entry E ((\<lambda>(s, u, x). (s, sec_floor u, x)) (write_entry E r)) = in_seconds r"
  using assms by (cases r) (simp add: crl_laws_def read_entry_def write_entry_def read_reason_def in_seconds_def)

lemma read_numbers:
  assumes "crl_laws E"
  shows "sfold (read_number E) None [(oid_extension_aki, a), (oid_extension_crl_number, asn1_int E n)] = Inr (Some n)"
  using assms by (simp add: crl_laws_def read_number_def oid_extension_aki_def oid_extension_crl_number_def)

lemma parse_crl_Inr:
  assumes "parse_crl E der = Inr c"
  obtains raw oid sg i tbs n where "crl_outer E der = Some (raw, oid, sg, [])" "by_oid oid = Inr i"
    "crl_tbs_parse E raw = Some tbs" "sfold (read_number E) None (tcl_exts tbs) = Inr n"
    "c = \<lparr>crl_raw = der, crl_alg = i_alg i, crl_number = n, crl_this = tcl_this tbs, crl_next = tcl_next tbs,
       crl_revoked = map (read_entry E) (tcl_revoked tbs), crl_tbs = raw, crl_sig = sg\<rparr>"
  using assms by (auto simp: parse_crl_def act_elims split: option.splits if_splits)

lemma created_crl:
  assumes laws: "crl_laws E"
    and key: "wf_key key" "algorithm_for_key (public_of key) = Inr alg" "prims_correct E key" "crt_pub issuer = public_of key"
    and run: "create_crl E issuer key alg revoked number this_update next_update w = (Inr c, w')"
  shows "crl_check_signature_from E c issuer = Inr () \<and> crl_number c = Some number \<and>
    crl_revoked c = map in_seconds revoked \<and> crl_this c = sec_floor this_update \<and> crl_next c = sec_floor next_update"
proof -
  obtain i where i: "lookup_alg alg = Inr i" using run
    by (auto simp: create_crl_def act_elims signature_algorithm_identifier_def)
  define t where "t = \<lparr>tcl_sig_oid = i_oid i, tcl_issuer = xc_raw_subject (crt_x509 issuer),
           tcl_this = this_update, tcl_next = next_update, tcl_revoked = map (write_entry E) revoked,
           tcl_exts = [(oid_extension_aki, aki_der E (xc_ski (crt_x509 issuer))),
                       (oid_extension_crl_number, asn1_int E number)]\<rparr>"
  obtain sg v v' where sg: "sign_tbs E key alg (crl_tbs_der E t) v = (Inr sg, v')"
    and p: "parse_crl E (crl_der E (crl_tbs_der E t) (i_oid i) sg) = Inr c"
    using run i by (auto simp: create_crl_def act_elims signature_algorithm_identifier_def Let_def t_def)
  have nk: "\<not> i_key_only i" using sg i by (auto simp: sign_tbs_def)
  from p obtain raw oid sg' j tbs n where o: "crl_outer E (crl_der E (crl_tbs_der E t) (i_oid i) sg) = Some (raw, oid, sg', [])"
    "by_oid oid = Inr j" "crl_tbs_parse E raw = Some tbs" "sfold (read_number E) None (tcl_exts tbs) = Inr n"
    "c = \<lparr>crl_raw = crl_der E (crl_tbs_der E t) (i_oid i) sg, crl_alg = i_alg j, crl_number = n, crl_this = tcl_this tbs,
       crl_next = tcl_next tbs, crl_revoked = map (read_entry E) (tcl_revoked tbs), crl_tbs = raw, crl_sig = sg'\<rparr>"
    by (rule parse_crl_Inr)
  have c: "raw = crl_tbs_der E t" "oid = i_oid i" "sg' = sg" using laws o(1) unfolding crl_laws_def by blast+
  have tbs: "tbs = t\<lparr>tcl_this := sec_floor (tcl_this t), tcl_next := sec_floor (tcl_next t),
      tcl_revoked := map (\<lambda>(s, u, x). (s, sec_floor u, x)) (tcl_revoked t)\<rparr>"
    using laws o(3) c(1) unfolding crl_laws_def by blast
  have "n = Some number" using o(4) read_numbers [OF laws] by (simp add: tbs t_def)
  moreover have "map (read_entry E) (tcl_revoked tbs) = map in_seconds revoked"
    unfolding tbs t_def using read_written_entry [OF laws] by simp
  moreover have "j = i \<and> i_alg i = alg" using by_oid_lookup [OF i nk] o(2) c by auto
  moreover have "verify_signature E (public_of key) alg (crl_tbs_der E t) sg = Inr ()"
    by (rule sign_tbs_sound [OF key(1-3) sg])
  ultimately show ?thesis
    using o(5) c key(4) by (simp add: crl_check_signature_from_def tbs t_def)
qed

lemma sample_crl_laws: "crl_laws (sample_at xe)"
proof -
  have r: "unpack_revoked (pack_revoked (s, u, x)) = (s, sec_floor u, x)" for s u x
    by (simp add: unpack_revoked_def pack_revoked_def o_def del: pack.simps)
  have "unpack_tcl (pack_tcl t) = Some (t\<lparr>tcl_this := sec_floor (tcl_this t), tcl_next := sec_floor (tcl_next t),
      tcl_revoked := map (\<lambda>(s, u, x). (s, sec_floor u, x)) (tcl_revoked t)\<rparr>)" for t
    by (cases t) (auto simp: unpack_tcl_def pack_tcl_def o_def r simp del: pack.simps)
  then show ?thesis
    by (auto simp: crl_laws_def sample_env_def unpack_signed_def pack_signed_def simp del: pack.simps)
qed

end
