(* ===== verification/Ca_Types.thy ===== *)
theory Ca_Types
  imports Audit_Store Pkix_Crl
begin

text \<open>
  The documents of the CA (internal/ca/ca.go): the root domain, tenants with their issuance profiles,
  and the records of issued certificates, with their stored form; and the manager's state.
\<close>

section \<open>Maps of documents\<close>

definition map_json :: "('v \<Rightarrow> json) \<Rightarrow> (string \<times> 'v) list \<Rightarrow> json" where
  "map_json enc m = JObj (map (\<lambda>(k, v). (k, enc v)) m)"

definition of_map :: "(json \<Rightarrow> 'v option) \<Rightarrow> json \<Rightarrow> (string \<times> 'v) list option" where
  "of_map dc j = do { fs \<leftarrow> of_obj j;
     kvs \<leftarrow> all_some (map (\<lambda>(k, v). map_option (Pair k) (dc v)) fs);
     Some (canon_map kvs) }"

lemma of_map_json:
  assumes "wf_map m" and "\<And>k v. (k, v) \<in> set m \<Longrightarrow> dc (enc v) = Some v"
  shows "of_map dc (map_json enc m) = Some m"
proof -
  have "all_some (map (\<lambda>(k, v). map_option (Pair k) (dc v)) (map (\<lambda>(k, v). (k, enc v)) m)) = Some m"
    by (rule all_some_map) (use assms(2) in auto)
  with assms(1) show ?thesis by (simp add: of_map_def map_json_def json_simps canon_map_wf)
qed

text \<open>Assignment to and deletion from a map.\<close>

definition map_put :: "string \<Rightarrow> 'v \<Rightarrow> (string \<times> 'v) list \<Rightarrow> (string \<times> 'v) list" where
  "map_put k v m = canon_map (m @ [(k, v)])"

definition map_del :: "string \<Rightarrow> (string \<times> 'v) list \<Rightarrow> (string \<times> 'v) list" where
  "map_del k m = filter (\<lambda>kv. fst kv \<noteq> k) m"

lemma jfind_graph: "jfind (map (\<lambda>k. (k, f k)) ks) k = (if k \<in> set ks then Some (f k) else None)"
  by (induction ks) auto

lemma jfind_canon_map [simp]: "jfind (canon_map m) k = jfind m k"
proof (cases "jfind m k")
  case None
  then have "k \<notin> set (map fst m)" by (simp add: jfind_None_iff)
  with None show ?thesis by (simp add: canon_map_def jfind_graph)
next
  case (Some v)
  then have "k \<in> set (map fst m)" by (force dest: jfind_mem)
  with Some show ?thesis by (simp add: canon_map_def jfind_graph)
qed

lemma jfind_map_put [simp]: "jfind (map_put k v m) k' = (if k' = k then Some v else jfind m k')"
  by (simp add: map_put_def jfind_append)

lemma jfind_map_del [simp]: "jfind (map_del k m) k' = (if k' = k then None else jfind m k')"
  unfolding map_del_def by (induction m) (auto split: option.splits)

lemma wf_map_put [simp]: "wf_map (map_put k v m)"
  by (simp add: map_put_def)

lemma wf_map_del [simp]: "wf_map m \<Longrightarrow> wf_map (map_del k m)"
  by (simp add: wf_map_def map_del_def) (metis distinct_map_filter sorted_filter)

section \<open>Documents\<close>

type_synonym chain = string

definition chain_primary :: chain where "chain_primary = ''primary''"
definition chain_pair :: chain where "chain_pair = ''pair''"
definition chain_both :: chain where "chain_both = ''both''"

lemma chains_distinct [simp]:
  "chain_primary \<noteq> chain_pair" "chain_pair \<noteq> chain_primary" "chain_primary \<noteq> chain_both" "chain_both \<noteq> chain_primary"
  "chain_pair \<noteq> chain_both" "chain_both \<noteq> chain_pair" "chain_primary \<noteq> []" "chain_pair \<noteq> []" "chain_both \<noteq> []"
  by (simp_all add: chain_primary_def chain_pair_def chain_both_def)

record root_info =
  ri_name :: string
  ri_alg :: algorithm
  ri_key_ref :: key_ref
  ri_cert_pem :: string
  ri_pair_alg :: algorithm
  ri_pair_key_ref :: key_ref
  ri_pair_cert_pem :: string
  ri_audit_key_ref :: key_ref
  ri_audit_pub_pem :: string
  ri_created_at :: int

record profile =
  pf_name :: string
  pf_default_validity :: int
  pf_max_validity :: int
  pf_server_auth :: bool
  pf_client_auth :: bool
  pf_ekus :: "string list"
  pf_key_usages :: "string list"
  pf_allowed_key_algs :: "algorithm list"
  pf_hybrid :: chain

record tenant =
  tn_id :: string
  tn_name :: string
  tn_created_at :: int
  tn_alg :: algorithm
  tn_key_ref :: key_ref
  tn_cert_pem :: string
  tn_pair_alg :: algorithm
  tn_pair_key_ref :: key_ref
  tn_pair_cert_pem :: string
  tn_profiles :: "(string \<times> profile) list"

record cert_record =
  cr_serial :: string
  cr_tenant :: string
  cr_profile :: string
  cr_chain :: chain
  cr_subject_cn :: string
  cr_sans :: "string list"
  cr_key_alg :: algorithm
  cr_sig_alg :: algorithm
  cr_not_before :: int
  cr_not_after :: int
  cr_pem :: string
  cr_revoked :: bool
  cr_revoked_at :: int
  cr_reason_code :: int

definition root_info_json :: "root_info \<Rightarrow> json" where
  "root_info_json r = JObj (fld ''name'' (JStr (ri_name r)) @ fld ''alg'' (JStr (ri_alg r)) @
     fld ''key_ref'' (JStr (ri_key_ref r)) @ fld ''cert_pem'' (bytes_json (ri_cert_pem r)) @
     omit (ri_pair_alg r = []) ''pair_alg'' (JStr (ri_pair_alg r)) @
     omit (ri_pair_key_ref r = []) ''pair_key_ref'' (JStr (ri_pair_key_ref r)) @
     omit (ri_pair_cert_pem r = []) ''pair_cert_pem'' (bytes_json (ri_pair_cert_pem r)) @
     fld ''audit_key_ref'' (JStr (ri_audit_key_ref r)) @ fld ''audit_pub_pem'' (bytes_json (ri_audit_pub_pem r)) @
     fld ''created_at'' (JTime (ri_created_at r)))"

definition root_info_of :: "json \<Rightarrow> root_info option" where
  "root_info_of j = do { fs \<leftarrow> of_obj j; n \<leftarrow> of_str (jget fs ''name''); a \<leftarrow> of_str (jget fs ''alg'');
     k \<leftarrow> of_str (jget fs ''key_ref''); c \<leftarrow> of_bytes (jget fs ''cert_pem''); pa \<leftarrow> of_str (jget fs ''pair_alg'');
     pk \<leftarrow> of_str (jget fs ''pair_key_ref''); pc \<leftarrow> of_bytes (jget fs ''pair_cert_pem'');
     ak \<leftarrow> of_str (jget fs ''audit_key_ref''); ap \<leftarrow> of_bytes (jget fs ''audit_pub_pem''); t \<leftarrow> of_time (jget fs ''created_at'');
     Some \<lparr>ri_name = n, ri_alg = a, ri_key_ref = k, ri_cert_pem = c, ri_pair_alg = pa, ri_pair_key_ref = pk,
       ri_pair_cert_pem = pc, ri_audit_key_ref = ak, ri_audit_pub_pem = ap, ri_created_at = t\<rparr> }"

definition profile_json :: "profile \<Rightarrow> json" where
  "profile_json p = JObj (fld ''name'' (JStr (pf_name p)) @ fld ''default_validity'' (JNum (pf_default_validity p)) @
     fld ''max_validity'' (JNum (pf_max_validity p)) @ omit (\<not> pf_server_auth p) ''server_auth'' (JBool (pf_server_auth p)) @
     omit (\<not> pf_client_auth p) ''client_auth'' (JBool (pf_client_auth p)) @
     omit (pf_ekus p = []) ''ekus'' (slice_json JStr (pf_ekus p)) @
     omit (pf_key_usages p = []) ''key_usages'' (slice_json JStr (pf_key_usages p)) @
     omit (pf_allowed_key_algs p = []) ''allowed_key_algs'' (slice_json JStr (pf_allowed_key_algs p)) @
     omit (pf_hybrid p = []) ''hybrid'' (JStr (pf_hybrid p)))"

definition profile_of :: "json \<Rightarrow> profile option" where
  "profile_of j = do { fs \<leftarrow> of_obj j; n \<leftarrow> of_str (jget fs ''name''); d \<leftarrow> of_int (jget fs ''default_validity'');
     m \<leftarrow> of_int (jget fs ''max_validity''); s \<leftarrow> of_bool (jget fs ''server_auth''); c \<leftarrow> of_bool (jget fs ''client_auth'');
     e \<leftarrow> of_list of_str (jget fs ''ekus''); k \<leftarrow> of_list of_str (jget fs ''key_usages'');
     a \<leftarrow> of_list of_str (jget fs ''allowed_key_algs''); h \<leftarrow> of_str (jget fs ''hybrid'');
     Some \<lparr>pf_name = n, pf_default_validity = d, pf_max_validity = m, pf_server_auth = s, pf_client_auth = c, pf_ekus = e,
       pf_key_usages = k, pf_allowed_key_algs = a, pf_hybrid = h\<rparr> }"

definition tenant_json :: "tenant \<Rightarrow> json" where
  "tenant_json t = JObj (fld ''id'' (JStr (tn_id t)) @ fld ''name'' (JStr (tn_name t)) @
     fld ''created_at'' (JTime (tn_created_at t)) @ fld ''alg'' (JStr (tn_alg t)) @ fld ''key_ref'' (JStr (tn_key_ref t)) @
     fld ''cert_pem'' (bytes_json (tn_cert_pem t)) @ omit (tn_pair_alg t = []) ''pair_alg'' (JStr (tn_pair_alg t)) @
     omit (tn_pair_key_ref t = []) ''pair_key_ref'' (JStr (tn_pair_key_ref t)) @
     omit (tn_pair_cert_pem t = []) ''pair_cert_pem'' (bytes_json (tn_pair_cert_pem t)) @
     fld ''profiles'' (map_json profile_json (tn_profiles t)))"

definition tenant_of :: "json \<Rightarrow> tenant option" where
  "tenant_of j = do { fs \<leftarrow> of_obj j; i \<leftarrow> of_str (jget fs ''id''); n \<leftarrow> of_str (jget fs ''name'');
     t \<leftarrow> of_time (jget fs ''created_at''); a \<leftarrow> of_str (jget fs ''alg''); k \<leftarrow> of_str (jget fs ''key_ref'');
     c \<leftarrow> of_bytes (jget fs ''cert_pem''); pa \<leftarrow> of_str (jget fs ''pair_alg''); pk \<leftarrow> of_str (jget fs ''pair_key_ref'');
     pc \<leftarrow> of_bytes (jget fs ''pair_cert_pem''); p \<leftarrow> of_map profile_of (jget fs ''profiles'');
     Some \<lparr>tn_id = i, tn_name = n, tn_created_at = t, tn_alg = a, tn_key_ref = k, tn_cert_pem = c, tn_pair_alg = pa,
       tn_pair_key_ref = pk, tn_pair_cert_pem = pc, tn_profiles = p\<rparr> }"

text \<open>\<open>omitempty\<close> has no effect on a \<open>time.Time\<close>: the zero instant is written.\<close>

definition cert_record_json :: "cert_record \<Rightarrow> json" where
  "cert_record_json r = JObj (fld ''serial'' (JStr (cr_serial r)) @ fld ''tenant'' (JStr (cr_tenant r)) @
     fld ''profile'' (JStr (cr_profile r)) @ fld ''chain'' (JStr (cr_chain r)) @ fld ''subject_cn'' (JStr (cr_subject_cn r)) @
     omit (cr_sans r = []) ''sans'' (slice_json JStr (cr_sans r)) @ fld ''key_alg'' (JStr (cr_key_alg r)) @
     fld ''sig_alg'' (JStr (cr_sig_alg r)) @ fld ''not_before'' (JTime (cr_not_before r)) @
     fld ''not_after'' (JTime (cr_not_after r)) @ fld ''pem'' (bytes_json (cr_pem r)) @
     fld ''revoked'' (JBool (cr_revoked r)) @ fld ''revoked_at'' (JTime (cr_revoked_at r)) @
     omit (cr_reason_code r = 0) ''reason_code'' (JNum (cr_reason_code r)))"

definition cert_record_of :: "json \<Rightarrow> cert_record option" where
  "cert_record_of j = do { fs \<leftarrow> of_obj j; s \<leftarrow> of_str (jget fs ''serial''); t \<leftarrow> of_str (jget fs ''tenant'');
     p \<leftarrow> of_str (jget fs ''profile''); c \<leftarrow> of_str (jget fs ''chain''); cn \<leftarrow> of_str (jget fs ''subject_cn'');
     sans \<leftarrow> of_list of_str (jget fs ''sans''); ka \<leftarrow> of_str (jget fs ''key_alg''); sa \<leftarrow> of_str (jget fs ''sig_alg'');
     nb \<leftarrow> of_time (jget fs ''not_before''); na \<leftarrow> of_time (jget fs ''not_after''); pem \<leftarrow> of_bytes (jget fs ''pem'');
     r \<leftarrow> of_bool (jget fs ''revoked''); ra \<leftarrow> of_time (jget fs ''revoked_at''); rc \<leftarrow> of_int (jget fs ''reason_code'');
     Some \<lparr>cr_serial = s, cr_tenant = t, cr_profile = p, cr_chain = c, cr_subject_cn = cn, cr_sans = sans,
       cr_key_alg = ka, cr_sig_alg = sa, cr_not_before = nb, cr_not_after = na, cr_pem = pem, cr_revoked = r,
       cr_revoked_at = ra, cr_reason_code = rc\<rparr> }"

lemma root_info_of_json [simp]: "root_info_of (root_info_json r) = Some r"
  by (cases "ri_pair_alg r = []"; cases "ri_pair_key_ref r = []"; cases "ri_pair_cert_pem r = []")
    (simp_all add: root_info_of_def root_info_json_def json_simps)

lemma profile_of_json [simp]: "profile_of (profile_json p) = Some p"
  by (cases "pf_server_auth p"; cases "pf_client_auth p"; cases "pf_ekus p = []"; cases "pf_key_usages p = []";
      cases "pf_allowed_key_algs p = []"; cases "pf_hybrid p = []")
    (simp_all add: profile_of_def profile_json_def json_simps)

lemma tenant_of_json:
  assumes "wf_map (tn_profiles t)"
  shows "tenant_of (tenant_json t) = Some t"
  by (cases "tn_pair_alg t = []"; cases "tn_pair_key_ref t = []"; cases "tn_pair_cert_pem t = []")
    (simp_all add: tenant_of_def tenant_json_def json_simps of_map_json [OF assms])

lemma cert_record_of_json [simp]: "cert_record_of (cert_record_json r) = Some r"
  by (cases "cr_sans r = []"; cases "cr_reason_code r = 0")
    (simp_all add: cert_record_of_def cert_record_json_def json_simps)

lemma of_map_wf: "of_map dc j = Some m \<Longrightarrow> wf_map m"
  by (auto simp: of_map_def split: Option.bind_splits)

lemma tenant_of_wf: "tenant_of j = Some t \<Longrightarrow> wf_map (tn_profiles t)"
  by (auto simp: tenant_of_def dest: of_map_wf split: Option.bind_splits)

section \<open>Manager\<close>

text \<open>The audit log of a manager: none before the root exists, then the file log or the store log.\<close>

datatype audit_log = NopLog | FileLog chain_log | StoreLog chain_log

fun log_event :: "'x cenv_scheme \<Rightarrow> audit_log \<Rightarrow> audit_rec \<Rightarrow> unit act" where
  "log_event E NopLog r = ret ()"
| "log_event E (FileLog l) r = file_log E l r"
| "log_event E (StoreLog l) r = store_log E l r"

record manager =
  mg_signers :: signers
  mg_audit :: audit_log
  mg_backend :: string

definition meta_bucket :: bpath where "meta_bucket = [''meta'']"
definition tenants_bucket :: bpath where "tenants_bucket = [''tenants'']"
definition certs_bucket :: "string \<Rightarrow> bpath" where "certs_bucket tenant = [''certs'', tenant]"
definition crl_bucket :: "string \<Rightarrow> bpath" where "crl_bucket tenant = [''crl'', tenant]"

definition root_key :: string where "root_key = ''root''"

lemma ca_buckets [simp]: "meta_bucket \<noteq> []" "tenants_bucket \<noteq> []" "certs_bucket t \<noteq> []" "crl_bucket t \<noteq> []"
  "tenants_bucket \<noteq> meta_bucket" "meta_bucket \<noteq> tenants_bucket" "certs_bucket t \<noteq> tenants_bucket" "tenants_bucket \<noteq> certs_bucket t"
  "certs_bucket t \<noteq> meta_bucket" "meta_bucket \<noteq> certs_bucket t" "certs_bucket s = certs_bucket t \<longleftrightarrow> s = t"
  by (simp_all add: meta_bucket_def tenants_bucket_def certs_bucket_def crl_bucket_def)

definition log_buckets :: "bpath set" where
  "log_buckets = {audit_records_bucket, audit_meta_bucket}"

lemma log_buckets_apart [simp]: "meta_bucket \<notin> log_buckets" "tenants_bucket \<notin> log_buckets" "certs_bucket t \<notin> log_buckets"
  "keys_bucket \<notin> log_buckets" "[] \<notin> log_buckets"
  by (auto simp: log_buckets_def meta_bucket_def tenants_bucket_def certs_bucket_def keys_bucket_def
      audit_records_bucket_def audit_meta_bucket_def)

end
