(* ===== verification/Ca_Frames.thy ===== *)
theory Ca_Frames
  imports Ca_Types
begin

text \<open>
  What the calls of the CA change: signing, opening keys and making certificates only let time pass;
  making a key writes to the key slots; writing an audit record changes only the log.
\<close>

section \<open>Calls that only let time pass\<close>

context world_contract
begin

lemma steps_classic_generate: "steps R (classic_generate E alg)"
  by (simp add: steps_def classic_generate_def advance_ok split: option.split)

lemma steps_generate_key: "steps R (generate_key E alg)"
  unfolding generate_key_def generate_composite_key_def mldsa_generate_def
  by (intro world_rules steps_classic_generate) (auto intro!: world_rules split: private_key.split)

lemma steps_seal_envelope: "steps R (seal_envelope E pass alg m)"
  unfolding seal_envelope_def by (intro world_rules)

lemma steps_sign_tbs: "steps R (sign_tbs E key alg m)"
  unfolding sign_tbs_def by (intro world_rules steps_key_sign)

lemma steps_x509_issue: "steps R (x509_issue E t parent pub key)"
  by (simp add: steps_def x509_issue_def advance_ok split: option.split)

lemma steps_create_classical: "steps R (create_classical E t issuer pub key alg)"
  unfolding create_classical_def Let_def by (intro world_rules steps_x509_issue)

lemma steps_create_pq: "steps R (create_pq E t issuer pub key alg)"
  unfolding create_pq_def harvest_template_def Let_def
  by (intro world_rules steps_classic_generate steps_sign_tbs)

lemma steps_create_certificate: "steps R (create_certificate E t issuer pub key alg)"
  unfolding create_certificate_def by (intro world_rules steps_create_classical steps_create_pq)

lemma steps_create_crl: "steps R (create_crl E issuer key alg revoked n this next)"
  unfolding create_crl_def Let_def by (intro world_rules steps_sign_tbs)

lemma steps_read_key_file: "steps R (read_key_file E path)"
  unfolding read_key_file_def by (intro world_rules) (simp add: steps_def contract_refl split: option.split)

lemma steps_backend_open: "steps R (backend_open E b ref)"
  by (cases b) (auto simp: softkey_open_def storekey_open_def intro!: store_rules steps_read_key_file)

lemma steps_registry_open: "steps R (registry_open E r ref)"
  unfolding registry_open_def by (intro world_rules steps_backend_open)

lemma steps_backend_generate:
  assumes "\<And>w path j. R w (w\<lparr>key_files := AList.update path j (key_files w)\<rparr>)"
    and "\<And>w l d. R w (set_doc w keys_bucket l d)"
  shows "steps R (backend_generate E b alg label)"
proof (cases b)
  case (Softkey pass)
  have "steps R (write_key_file E path j)" for path j
    unfolding write_key_file_def by (intro world_rules steps_pure assms)
  then show ?thesis
    unfolding Softkey backend_generate.simps softkey_generate_def Let_def
    by (intro store_rules steps_generate_key steps_seal_envelope)
next
  case (Storekey pass)
  then show ?thesis
    by (auto simp: storekey_generate_def insert_key_def
        intro!: store_rules steps_generate_key steps_seal_envelope assms)
qed (auto intro!: world_rules)

lemmas ca_rules = store_rules steps_create_certificate steps_create_crl steps_registry_open steps_sign_tbs

end

section \<open>Writing audit records\<close>

lemma only_buckets_docs: "lookup w' = lookup w \<Longrightarrow> only_buckets B w w'"
  by (simp add: only_buckets_def)

lemma only_file_log: "steps (only_buckets B) (file_log E l r)"
  unfolding file_log_def append_line_def fsync_def
  by (intro only.world_rules only.steps_seal_record only.steps_pure) (auto intro!: only_buckets_docs simp: lookup_def fun_eq_iff)

lemma only_store_log: "steps (only_buckets log_buckets) (store_log E l r)"
proof -
  have "audit_meta_bucket \<in> log_buckets" "audit_records_bucket \<in> log_buckets" by (simp_all add: log_buckets_def)
  then show ?thesis
    unfolding store_log_def claim_head_def write_record_def advance_head_def
    by (intro only.store_rules only.steps_seal_record) simp_all
qed

lemma only_log_event: "steps (only_buckets log_buckets) (log_event E a r)"
  by (cases a) (simp_all add: only_file_log only_store_log only.steps_ret)

lemma log_event_lookup: "log_event E a r w = (res, w') \<Longrightarrow> p \<notin> log_buckets \<Longrightarrow> lookup w' p k = lookup w p k"
  by (rule only_bucketsD [OF stepsD [OF only_log_event]])

text \<open>The events a log holds, and how much room it has.\<close>

fun logged :: "audit_log \<Rightarrow> world \<Rightarrow> audit_rec \<Rightarrow> bool" where
  "logged NopLog w s = False"
| "logged (FileLog l) w s = in_file w s"
| "logged (StoreLog l) w s = in_store w s"

fun log_room :: "audit_log \<Rightarrow> nat \<Rightarrow> world \<Rightarrow> bool" where
  "log_room (StoreLog l) n w = store_room n w"
| "log_room _ n w = True"

definition log_view :: "world \<Rightarrow> (bpath \<Rightarrow> string \<Rightarrow> json option) \<times> json list \<times> u64 \<times> string" where
  "log_view w = (\<lambda>p k. if p \<in> log_buckets then lookup w p k else None, log_lines w, log_seq w, log_head w)"

interpretation log_view: world_contract "same log_view"
  by (rule same_advance_contract) (simp add: log_view_def cong: if_cong)

lemma log_view_set_doc [simp]: "p \<notin> log_buckets \<Longrightarrow> same log_view w (set_doc w p k d)"
proof -
  assume "p \<notin> log_buckets"
  then have "(\<lambda>q l. if q \<in> log_buckets then lookup (set_doc w p k d) q l else None) =
      (\<lambda>q l. if q \<in> log_buckets then lookup w q l else None)"
    by (auto simp: lookup_set_doc intro!: ext)
  moreover have "log_lines (set_doc w p k d) = log_lines w" "log_seq (set_doc w p k d) = log_seq w"
    "log_head (set_doc w p k d) = log_head w" by (simp_all add: set_doc_def)
  ultimately show ?thesis by (simp add: same_def log_view_def)
qed

lemma same_log_view:
  assumes "same log_view w w'"
  shows "logged a w' = logged a w" "log_room a n w' = log_room a n w"
proof -
  have "p \<in> log_buckets \<Longrightarrow> lookup w' p = lookup w p" for p
    using assms by (simp add: same_def log_view_def fun_eq_iff) metis
  then have "lookup w' audit_records_bucket = lookup w audit_records_bucket"
    "lookup w' audit_meta_bucket = lookup w audit_meta_bucket" by (simp_all add: log_buckets_def)
  moreover have "log_lines w' = log_lines w" using assms by (simp add: same_def log_view_def)
  ultimately show "logged a w' = logged a w" "log_room a n w' = log_room a n w"
    by (cases a; simp add: fun_eq_iff in_file_def in_store_def store_room_def)+
qed

lemma log_event_logged:
  assumes "a \<noteq> NopLog" and "wf_map (ar_detail r)" and "log_event E a r w = (Inr (), w')"
  shows "\<exists>s. logged a w' s \<and> event_of s = event_of r"
proof (cases a)
  case (FileLog l)
  with assms show ?thesis using file_sink.sink_appends [of r E l w w'] by simp
next
  case (StoreLog l)
  with assms show ?thesis using store_sink.sink_appends [of r E l w w'] by simp
qed (use assms in simp)

lemma log_event_keeps:
  assumes "log_room a (Suc n) w" and "logged a w s" and "log_event E a r w = (res, w')"
  shows "logged a w' s"
proof (cases a)
  case (FileLog l)
  with assms have "in_file w s" "file_log E l r w = (res, w')" by simp_all
  then have "in_file w' s" by (rule file_sink.sink_keeps [OF TrueI])
  with FileLog show ?thesis by simp
next
  case (StoreLog l)
  with assms have "store_room (Suc n) w" "in_store w s" "store_log E l r w = (res, w')" by simp_all
  then have "in_store w' s" by (rule store_sink.sink_keeps)
  with StoreLog show ?thesis by simp
qed (use assms in simp)

lemma log_event_room:
  assumes "log_room a (Suc n) w" and "log_event E a r w = (res, w')"
  shows "log_room a n w'"
proof (cases a)
  case (StoreLog l)
  with assms show ?thesis using store_sink.sink_room [of n w E l r res w'] by simp
qed simp_all

lemma wf_new_event [simp]: "wf_map (ar_detail (new_event t a act ob d))"
  by (simp add: new_event_def)

end
