(* ===== verification/Ca_Profiles.thy ===== *)
theory Ca_Profiles
  imports Ca_Frames
begin

text \<open>
  Issuance profiles (internal/ca/profiles.go): the named key usages a profile may grant, validation,
  and the operations that store and delete a profile of a tenant.
\<close>

unbundle bit_operations_syntax

section \<open>Definitions\<close>

text \<open>
  The constants of crypto/x509 the names stand for.  The usages that make a CA, and the extended
  usage "any", are no values of the tables.
\<close>

definition eku_any :: nat where "eku_any = 0"
definition ku_cert_sign :: "16 word" where "ku_cert_sign = 32"
definition ku_crl_sign :: "16 word" where "ku_crl_sign = 64"
definition ku_digital_signature :: "16 word" where "ku_digital_signature = 1"

definition profile_ekus :: "(string \<times> nat) list" where
  "profile_ekus = [(''server_auth'', 1), (''client_auth'', 2), (''code_signing'', 3), (''email_protection'', 4),
     (''time_stamping'', 8), (''ocsp_signing'', 9)]"

definition profile_key_usages :: "(string \<times> 16 word) list" where
  "profile_key_usages = [(''digital_signature'', 1), (''content_commitment'', 2), (''key_encipherment'', 4),
     (''data_encipherment'', 8), (''key_agreement'', 16)]"

definition sorted_keys :: "(string \<times> 'v) list \<Rightarrow> string list" where
  "sorted_keys m = sort (map fst m)"

definition profile_eku_names :: "string list" where "profile_eku_names = sorted_keys profile_ekus"
definition profile_key_usage_names :: "string list" where "profile_key_usage_names = sorted_keys profile_key_usages"

definition resolve_eku :: "nat list \<Rightarrow> string \<Rightarrow> err + nat list" where
  "resolve_eku out name = (case map_of profile_ekus name of
     None \<Rightarrow> Inl (errorf (''ca: unknown eku '' @ quoted name @ '' (want one of '' @ join_with '', '' profile_eku_names @ '')''))
   | Some u \<Rightarrow> Inr (out @ [u]))"

definition ext_key_usages :: "profile \<Rightarrow> err + nat list" where
  "ext_key_usages p =
     (if pf_ekus p = [] then Inr ((if pf_server_auth p then [1] else []) @ (if pf_client_auth p then [2] else []))
      else sfold resolve_eku [] (pf_ekus p))"

definition resolve_key_usage :: "16 word \<Rightarrow> string \<Rightarrow> err + 16 word" where
  "resolve_key_usage out name = (case map_of profile_key_usages name of
     None \<Rightarrow> Inl (errorf (''ca: unknown key usage '' @ quoted name @ '' (want one of '' @
               join_with '', '' profile_key_usage_names @ '')''))
   | Some u \<Rightarrow> Inr (out OR u))"

definition key_usage :: "profile \<Rightarrow> err + 16 word" where
  "key_usage p = (if pf_key_usages p = [] then Inr ku_digital_signature else sfold resolve_key_usage 0 (pf_key_usages p))"

text \<open>The pattern of tenant ids and profile names.\<close>

definition lower_alnum :: "char \<Rightarrow> bool" where
  "lower_alnum c \<longleftrightarrow> (97 \<le> (of_char c :: nat) \<and> (of_char c :: nat) \<le> 122) \<or> (48 \<le> (of_char c :: nat) \<and> (of_char c :: nat) \<le> 57)"

definition tenant_id_ok :: "string \<Rightarrow> bool" where
  "tenant_id_ok s \<longleftrightarrow> s \<noteq> [] \<and> length s \<le> 63 \<and> lower_alnum (hd s) \<and> list_all (\<lambda>c. lower_alnum c \<or> c = CHR ''-'') (tl s)"

definition check_alg :: "unit \<Rightarrow> algorithm \<Rightarrow> err + unit" where
  "check_alg u alg = sbind (lookup_alg alg) (\<lambda>_. Inr ())"

definition validate_profile :: "'x cenv_scheme \<Rightarrow> profile \<Rightarrow> err + unit" where
  "validate_profile E p =
     (if \<not> tenant_id_ok (pf_name p)
      then Inl (errorf (''ca: invalid profile name '' @ quoted (pf_name p) @ '' (lowercase alphanumeric and hyphens)''))
      else if pf_default_validity p \<le> 0 \<or> pf_max_validity p \<le> 0
      then Inl (errorf ''ca: profile validities must be positive'')
      else if pf_default_validity p > pf_max_validity p
      then Inl (errorf (''ca: default validity '' @ duration_text E (pf_default_validity p) @
             '' exceeds max validity '' @ duration_text E (pf_max_validity p)))
      else sbind (ext_key_usages p) (\<lambda>_. sbind (key_usage p) (\<lambda>_.
        sbind (sfold check_alg () (pf_allowed_key_algs p)) (\<lambda>_.
          if pf_hybrid p \<in> {[], chain_primary, chain_pair, chain_both} then Inr ()
          else Inl (errorf (''ca: invalid profile hybrid chain '' @ quoted (pf_hybrid p)))))))"

definition zero_tenant :: tenant where
  "zero_tenant = \<lparr>tn_id = [], tn_name = [], tn_created_at = zero_time, tn_alg = [], tn_key_ref = [], tn_cert_pem = [],
     tn_pair_alg = [], tn_pair_key_ref = [], tn_pair_cert_pem = [], tn_profiles = []\<rparr>"

definition unknown_tenant :: "string \<Rightarrow> err \<Rightarrow> err" where
  "unknown_tenant tenant e = (if is_not_found e then errorf (''ca: unknown tenant '' @ quoted tenant) else e)"

definition put_profile :: "profile \<Rightarrow> tenant \<Rightarrow> tenant act" where
  "put_profile p t = ret (t\<lparr>tn_profiles := map_put (pf_name p) p (tn_profiles t)\<rparr>)"

definition set_profile :: "'x cenv_scheme \<Rightarrow> manager \<Rightarrow> string \<Rightarrow> profile \<Rightarrow> actor \<Rightarrow> unit act" where
  "set_profile E m tenant p who =
     ebind (lift_sum (validate_profile E p)) (\<lambda>_.
     ebind (wrap_err (unknown_tenant tenant)
       (update_json E tenant_of tenant_json zero_tenant tenants_bucket tenant False (put_profile p))) (\<lambda>_.
     log_event E (mg_audit m) (new_event tenant who ''profile.set'' \<lparr>ob_type = ''profile'', ob_id = pf_name p\<rparr>
       [(''ekus'', join_with '','' (pf_ekus p)), (''key_usages'', join_with '','' (pf_key_usages p)),
        (''default_validity'', duration_text E (pf_default_validity p)),
        (''max_validity'', duration_text E (pf_max_validity p))])))"

definition drop_profile :: "string \<Rightarrow> string \<Rightarrow> tenant \<Rightarrow> tenant act" where
  "drop_profile tenant name t = (case jfind (tn_profiles t) name of
     None \<Rightarrow> fail (errorf (''ca: tenant '' @ quoted tenant @ '' has no profile '' @ quoted name))
   | Some _ \<Rightarrow> ret (t\<lparr>tn_profiles := map_del name (tn_profiles t)\<rparr>))"

definition delete_profile :: "'x cenv_scheme \<Rightarrow> manager \<Rightarrow> string \<Rightarrow> string \<Rightarrow> actor \<Rightarrow> unit act" where
  "delete_profile E m tenant name who =
     (if name = ''default'' then fail (errorf ''ca: the default profile cannot be deleted (replace it with SetProfile instead)'')
      else ebind (wrap_err (unknown_tenant tenant)
        (update_json E tenant_of tenant_json zero_tenant tenants_bucket tenant False (drop_profile tenant name))) (\<lambda>_.
      log_event E (mg_audit m) (new_event tenant who ''profile.delete'' \<lparr>ob_type = ''profile'', ob_id = name\<rparr> [])))"

section \<open>What a profile can grant\<close>

lemma sfold_invariant:
  assumes "sfold f b xs = Inr b'" and "P b" and "\<And>b x b'. P b \<Longrightarrow> f b x = Inr b' \<Longrightarrow> P b'"
  shows "P b'"
  using assms(1,2) by (induction xs arbitrary: b) (auto dest: assms(3) split: sum.splits)

lemma map_of_range: "map_of m k = Some v \<Longrightarrow> (\<And>x. x \<in> snd ` set m \<Longrightarrow> P x) \<Longrightarrow> P v"
  by (drule map_of_SomeD) force

lemma named_eku: "map_of profile_ekus name = Some u \<Longrightarrow> u \<in> {1, 2, 3, 4, 8, 9}"
  by (erule map_of_range) (auto simp: profile_ekus_def)

lemma named_key_usage: "map_of profile_key_usages name = Some u \<Longrightarrow> u AND 96 = 0"
  by (erule map_of_range) (auto simp: profile_key_usages_def)

lemma or_and_zero: "(a :: 16 word) AND c = 0 \<Longrightarrow> b AND c = 0 \<Longrightarrow> (a OR b) AND c = 0"
  by (simp add: bit.conj_disj_distrib2)

lemma granted_ekus: "ext_key_usages p = Inr es \<Longrightarrow> eku_any \<notin> set es"
proof (cases "pf_ekus p = []")
  case False
  assume "ext_key_usages p = Inr es"
  with False have "sfold resolve_eku [] (pf_ekus p) = Inr es" by (simp add: ext_key_usages_def)
  then show ?thesis
    by (rule sfold_invariant) (auto simp: resolve_eku_def eku_any_def dest: named_eku split: option.splits)
qed (auto simp: ext_key_usages_def eku_any_def)

lemma granted_key_usage: "key_usage p = Inr u \<Longrightarrow> u AND 96 = 0"
proof (cases "pf_key_usages p = []")
  case False
  assume "key_usage p = Inr u"
  with False have "sfold resolve_key_usage 0 (pf_key_usages p) = Inr u" by (simp add: key_usage_def)
  then show ?thesis
    by (rule sfold_invariant) (auto simp: resolve_key_usage_def intro: or_and_zero dest: named_key_usage split: option.splits)
qed (auto simp: key_usage_def ku_digital_signature_def)

lemma no_ca_usage: "u AND 96 = 0 \<Longrightarrow> u AND ku_cert_sign = 0 \<and> u AND ku_crl_sign = (0 :: 16 word)"
proof -
  assume u: "u AND 96 = 0"
  have "ku_cert_sign = 96 AND ku_cert_sign" "ku_crl_sign = 96 AND ku_crl_sign"
    by (simp_all add: ku_cert_sign_def ku_crl_sign_def)
  then have "u AND ku_cert_sign = (u AND 96) AND ku_cert_sign" "u AND ku_crl_sign = (u AND 96) AND ku_crl_sign"
    by (simp_all add: and.assoc)
  with u show ?thesis by simp
qed

text \<open>
  Claim C34: no profile, validated or not, can make a certificate a CA: the key usages it resolves to
  never include signing certificates or CRLs and its extended usages never include "any"; and the
  usages of a profile that was validated always resolve, so issuance does not fail on them.
\<close>

theorem profile_never_grants_ca:
  "(key_usage p = Inr u \<longrightarrow> u AND ku_cert_sign = 0 \<and> u AND ku_crl_sign = 0) \<and>
   (ext_key_usages p = Inr es \<longrightarrow> eku_any \<notin> set es) \<and>
   (validate_profile E p = Inr () \<longrightarrow> (\<exists>u es. key_usage p = Inr u \<and> ext_key_usages p = Inr es) \<and>
      0 < pf_default_validity p \<and> pf_default_validity p \<le> pf_max_validity p)"
  using granted_key_usage [of p u] no_ca_usage [of u] granted_ekus [of p es]
  by (auto simp: validate_profile_def act_elims split: if_splits)

definition sample_profile :: profile where
  "sample_profile = \<lparr>pf_name = ''default'', pf_default_validity = 5, pf_max_validity = 9, pf_server_auth = False,
     pf_client_auth = False, pf_ekus = [''code_signing''], pf_key_usages = [''digital_signature'', ''key_agreement''],
     pf_allowed_key_algs = [], pf_hybrid = []\<rparr>"

theorem profile_never_grants_ca_witness:
  "key_usage sample_profile = Inr 17 \<and> (17 :: 16 word) AND ku_cert_sign = 0 \<and> ext_key_usages sample_profile = Inr [3] \<and>
   validate_profile sample_env sample_profile = Inr ()"
proof -
  have ku: "key_usage sample_profile = Inr 17" and es: "ext_key_usages sample_profile = Inr [3]"
    by (simp_all add: key_usage_def ext_key_usages_def sample_profile_def resolve_key_usage_def resolve_eku_def
        profile_key_usages_def profile_ekus_def)
  have "validate_profile sample_env sample_profile = Inr ()"
    by (simp add: validate_profile_def ku es)
      (simp add: sample_profile_def tenant_id_ok_def lower_alnum_def chain_primary_def chain_pair_def chain_both_def)
  with ku es profile_never_grants_ca [of sample_profile 17 "[3]" sample_env] show ?thesis by simp
qed

section \<open>Storing profiles\<close>

text \<open>The profile of a tenant as later calls see it.\<close>

definition stored_profile :: "world \<Rightarrow> string \<Rightarrow> string \<Rightarrow> profile option" where
  "stored_profile w tenant name = (case lookup w tenants_bucket tenant of None \<Rightarrow> None
   | Some j \<Rightarrow> (case tenant_of j of None \<Rightarrow> None | Some t \<Rightarrow> jfind (tn_profiles t) name))"

text \<open>
  Storing a profile makes it the profile of that name of that tenant and touches no
  other profile of any tenant; deleting removes exactly the named one; the default profile is
  never deleted, and what \<open>SetProfile\<close> stores has passed validation.
\<close>

theorem profile_update_exact:
  "(set_profile E m tenant p who w = (Inr (), w') \<longrightarrow> validate_profile E p = Inr () \<and>
      (\<forall>s n. stored_profile w' s n = (if s = tenant \<and> n = pf_name p then Some p else stored_profile w s n))) \<and>
   (delete_profile E m tenant name who w = (Inr (), w'') \<longrightarrow> name \<noteq> ''default'' \<and> stored_profile w tenant name \<noteq> None \<and>
      (\<forall>s n. stored_profile w'' s n = (if s = tenant \<and> n = name then None else stored_profile w s n)))"
proof (intro conjI impI)
  assume run: "set_profile E m tenant p who w = (Inr (), w')"
  then show "validate_profile E p = Inr ()" by (auto simp: set_profile_def act_elims)
  obtain d t ev v where t: "lookup w tenants_bucket tenant = Some d" "tenant_of d = Some t"
    and v: "v = set_doc (advance w) tenants_bucket tenant (tenant_json (t\<lparr>tn_profiles := map_put (pf_name p) p (tn_profiles t)\<rparr>))"
    and log: "log_event E (mg_audit m) ev v = (Inr (), w')"
    using run by (auto simp: set_profile_def act_elims put_profile_def)
  have "lookup w' tenants_bucket s = lookup v tenants_bucket s" for s using log_event_lookup [OF log] by simp
  then show "\<forall>s n. stored_profile w' s n = (if s = tenant \<and> n = pf_name p then Some p else stored_profile w s n)"
    using t v by (simp add: stored_profile_def lookup_set_doc tenant_of_json)
next
  assume run: "delete_profile E m tenant name who w = (Inr (), w'')"
  then show "name \<noteq> ''default''" by (auto simp: delete_profile_def)
  obtain d t ev v where t: "lookup w tenants_bucket tenant = Some d" "tenant_of d = Some t" "jfind (tn_profiles t) name \<noteq> None"
    and v: "v = set_doc (advance w) tenants_bucket tenant (tenant_json (t\<lparr>tn_profiles := map_del name (tn_profiles t)\<rparr>))"
    and log: "log_event E (mg_audit m) ev v = (Inr (), w'')"
    using run by (auto simp: delete_profile_def act_elims drop_profile_def split: if_splits option.splits)
  have "lookup w'' tenants_bucket s = lookup v tenants_bucket s" for s using log_event_lookup [OF log] by simp
  moreover have "wf_map (tn_profiles t)" using t(2) by (rule tenant_of_wf)
  ultimately show "stored_profile w tenant name \<noteq> None"
    "\<forall>s n. stored_profile w'' s n = (if s = tenant \<and> n = name then None else stored_profile w s n)"
    using t v by (simp_all add: stored_profile_def lookup_set_doc tenant_of_json)
qed

definition sample_tenant :: tenant where
  "sample_tenant = zero_tenant\<lparr>tn_id := ''acme'', tn_profiles := [(''default'', sample_profile\<lparr>pf_ekus := []\<rparr>)]\<rparr>"

definition tenant_world :: "tenant \<Rightarrow> world" where
  "tenant_world t = set_doc empty_world tenants_bucket (tn_id t) (tenant_json t)"

lemma tenant_world_simps [simp]:
  "lookup (tenant_world t) tenants_bucket (tn_id t) = Some (tenant_json t)" "tick (tenant_world t) = 0"
  by (simp_all add: tenant_world_def lookup_set_doc) (simp add: set_doc_def empty_world_def)

definition sample_manager :: manager where
  "sample_manager = \<lparr>mg_signers = [], mg_audit = NopLog, mg_backend = ''softkey''\<rparr>"

lemma wf_single [simp]: "wf_map [kv]"
  by (simp add: wf_map_def)

theorem profile_update_exact_witness:
  "\<exists>w'. set_profile sample_env sample_manager ''acme'' sample_profile system_actor (tenant_world sample_tenant) = (Inr (), w') \<and>
     stored_profile w' ''acme'' ''default'' = Some sample_profile"
proof -
  have ku: "key_usage sample_profile = Inr 17" and es: "ext_key_usages sample_profile = Inr [3]"
    by (simp_all add: key_usage_def ext_key_usages_def sample_profile_def resolve_key_usage_def resolve_eku_def
        profile_key_usages_def profile_ekus_def)
  have v: "validate_profile sample_env sample_profile = Inr ()"
    by (simp add: validate_profile_def ku es)
      (simp add: sample_profile_def tenant_id_ok_def lower_alnum_def chain_primary_def chain_pair_def chain_both_def)
  have i: "tn_id sample_tenant = ''acme''" by (simp add: sample_tenant_def)
  have t: "tenant_of (tenant_json sample_tenant) = Some sample_tenant"
    by (rule tenant_of_json) (simp add: sample_tenant_def)
  have "\<exists>w'. update_json sample_env tenant_of tenant_json zero_tenant tenants_bucket ''acme'' False (put_profile sample_profile)
      (tenant_world sample_tenant) = (Inr (), w')"
    using tenant_world_simps(1) [of sample_tenant] by (simp add: update_json_Inr i t put_profile_def)
  then obtain w' where run: "set_profile sample_env sample_manager ''acme'' sample_profile system_actor (tenant_world sample_tenant)
      = (Inr (), w')"
    by (auto simp: set_profile_def ebind_apply v wrap_err_apply sample_manager_def)
  moreover have "pf_name sample_profile = ''default''" by (simp add: sample_profile_def)
  ultimately show ?thesis
    using profile_update_exact [of sample_env sample_manager "''acme''" sample_profile system_actor "tenant_world sample_tenant" w'
        "''default''" w'] by simp
qed

end
