(* ===== verification/Ca_Roots.thy ===== *)
theory Ca_Roots
  imports Ca_Profiles
begin

text \<open>
  The root domain and the tenants (internal/ca/ca.go): creation of the root, its optional pair and
  the audit key, creation of tenants with issuing CAs under the root, and the reading operations.
\<close>

section \<open>Definitions\<close>

definition root :: "'x cenv_scheme \<Rightarrow> root_info act" where
  "root E = wrap_err (\<lambda>e. if is_not_found e then errorf ''ca: not initialized (run `mnemoca init`)'' else e)
     (get_json E root_info_of meta_bucket root_key)"

definition err_experimental_composite :: err where
  "err_experimental_composite = Err ExperimentalS
     ''ca: composite algorithms are experimental; pass --experimental-composite''"

definition check_experimental :: "algorithm \<Rightarrow> bool \<Rightarrow> err + unit" where
  "check_experimental alg allowed = sbind (lookup_alg alg) (\<lambda>i.
     if i_experimental i \<and> \<not> allowed then Inl err_experimental_composite else Inr ())"

text \<open>\<open>rand.Int\<close> below \<open>2 ^ 127\<close>: 16 bytes, the top bit cleared, which is never out of range.\<close>

definition be_nat :: "string \<Rightarrow> nat" where
  "be_nat s = foldl (\<lambda>n c. n * 256 + of_char c) 0 s"

definition new_serial :: "'x cenv_scheme \<Rightarrow> nat act" where
  "new_serial E = ebind (rand_read E 16) (\<lambda>b. ret (be_nat b mod 2 ^ 127))"

definition five_minutes :: int where "five_minutes = 5 * 60 * 1000000000"
definition one_day :: int where "one_day = 24 * 60 * 60 * 1000000000"

definition ca_template :: "nat \<Rightarrow> subject \<Rightarrow> int \<Rightarrow> int \<Rightarrow> bool \<Rightarrow> cert_template" where
  "ca_template serial subject not_before not_after path_zero = \<lparr>t_serial = serial, t_subject = subject,
     t_not_before = not_before, t_not_after = not_after, t_is_ca = True, t_max_path_zero = path_zero,
     t_key_usage = ku_cert_sign OR ku_crl_sign, t_eku = [], t_dns = [], t_emails = [], t_ips = [], t_uris = [],
     t_ski = [], t_aki = [], t_sig_alg = []\<rparr>"

definition new_root_cert :: "'x cenv_scheme \<Rightarrow> manager \<Rightarrow> string \<Rightarrow> algorithm \<Rightarrow> int \<Rightarrow> string \<Rightarrow> (key_ref \<times> certificate) act" where
  "new_root_cert E m name alg validity label =
     ebind (lift_sum (registry_backend (mg_signers m) (mg_backend m))) (\<lambda>b.
     ebind (backend_generate E b alg label) (\<lambda>(key, ref).
     ebind (new_serial E) (\<lambda>serial.
     ebind (clock E) (\<lambda>t1.
     ebind (clock E) (\<lambda>t2.
     ebind (create_certificate E (ca_template serial (NamedSubject name [''MnemoCA''] []) (t1 - five_minutes) (t2 + validity) False)
         None (public_of (sg_key key)) (sg_key key) alg) (\<lambda>cert. ret (ref, cert)))))))"

record init_options =
  io_name :: string
  io_alg :: algorithm
  io_pair_alg :: algorithm
  io_root_validity :: int
  io_experimental :: bool
  io_actor :: actor

definition pem_public :: "'x cenv_scheme \<Rightarrow> string \<Rightarrow> string" where
  "pem_public E der = pem_encode E pem_public_key der"

text \<open>The pair root, when one is asked for.\<close>

definition add_pair_root :: "'x cenv_scheme \<Rightarrow> manager \<Rightarrow> init_options \<Rightarrow> string \<Rightarrow> int \<Rightarrow> root_info \<Rightarrow> root_info act" where
  "add_pair_root E m opts name validity info =
     (if io_pair_alg opts = [] then ret info
      else ebind (lift_sum (check_experimental (io_pair_alg opts) (io_experimental opts))) (\<lambda>_.
        ebind (wrap_err (wrapf ''ca: creating pair root: '')
          (new_root_cert E m (name @ '' (pair)'') (io_pair_alg opts) validity ''root/pair'')) (\<lambda>(ref, cert).
        ret (info\<lparr>ri_pair_alg := io_pair_alg opts, ri_pair_key_ref := ref, ri_pair_cert_pem := encode_certificate_pem E cert\<rparr>))))"

definition not_initialized :: "'x cenv_scheme \<Rightarrow> unit act" where
  "not_initialized E = ecase (get_json E root_info_of meta_bucket root_key)
     (\<lambda>e. if is_not_found e then ret () else fail e) (\<lambda>_. fail (errorf ''ca: already initialized''))"

definition init_event :: "actor \<Rightarrow> string \<Rightarrow> algorithm \<Rightarrow> algorithm \<Rightarrow> audit_rec" where
  "init_event who name alg pair_alg = new_event [] who ''ca.init'' \<lparr>ob_type = ''ca'', ob_id = name\<rparr>
     [(''alg'', alg), (''pair_alg'', pair_alg)]"

definition init_root :: "'x cenv_scheme \<Rightarrow> manager \<Rightarrow> init_options \<Rightarrow> root_info act" where
  "init_root E m opts =
     ebind (not_initialized E) (\<lambda>_.
     ebind (lift_sum (check_experimental (io_alg opts) (io_experimental opts))) (\<lambda>_.
     let validity = (if io_root_validity opts = 0 then 20 * 365 * one_day else io_root_validity opts);
         name = (if io_name opts = [] then ''MnemoCA Root'' else io_name opts) in
     ebind (wrap_err (wrapf ''ca: creating root: '') (new_root_cert E m name (io_alg opts) validity ''root/primary'')) (\<lambda>(ref, cert).
     ebind (clock E) (\<lambda>t.
     ebind (add_pair_root E m opts name validity \<lparr>ri_name = name, ri_alg = io_alg opts, ri_key_ref = ref,
         ri_cert_pem = encode_certificate_pem E cert, ri_pair_alg = [], ri_pair_key_ref = [], ri_pair_cert_pem = [],
         ri_audit_key_ref = [], ri_audit_pub_pem = [], ri_created_at = t\<rparr>) (\<lambda>info.
     ebind (lift_sum (registry_backend (mg_signers m) (mg_backend m))) (\<lambda>b.
     ebind (wrap_err (wrapf ''ca: creating audit key: '') (backend_generate E b MLDSA65 ''root/audit'')) (\<lambda>(key, aref).
     ebind (lift_sum (marshal_public_key E (public_of (sg_key key)))) (\<lambda>pub.
     let info' = info\<lparr>ri_audit_key_ref := aref, ri_audit_pub_pem := pem_public E pub\<rparr> in
     ebind (put_json E root_info_json meta_bucket root_key info') (\<lambda>_.
     ebind (log_event E (mg_audit m) (init_event (io_actor opts) name (io_alg opts) (io_pair_alg opts))) (\<lambda>_.
       ret info'))))))))))"

definition default_profiles :: "(string \<times> profile) list" where
  "default_profiles = [(''default'', \<lparr>pf_name = ''default'', pf_default_validity = 30 * one_day, pf_max_validity = 90 * one_day,
     pf_server_auth = True, pf_client_auth = True, pf_ekus = [], pf_key_usages = [], pf_allowed_key_algs = [], pf_hybrid = []\<rparr>)]"

text \<open>The issuing CA of a tenant under one of the roots.\<close>

definition issue_ca :: "'x cenv_scheme \<Rightarrow> manager \<Rightarrow> string \<Rightarrow> string \<Rightarrow> algorithm \<Rightarrow> key_ref \<Rightarrow> string \<Rightarrow> string \<Rightarrow> (key_ref \<times> string) act" where
  "issue_ca E m tid name alg root_ref root_pem label =
     ebind (lift_sum (parse_certificate_pem E root_pem)) (\<lambda>root_cert.
     ebind (registry_open E (mg_signers m) root_ref) (\<lambda>root_signer.
     ebind (lift_sum (registry_backend (mg_signers m) (mg_backend m))) (\<lambda>b.
     ebind (backend_generate E b alg label) (\<lambda>(key, ref).
     ebind (new_serial E) (\<lambda>serial.
     ebind (clock E) (\<lambda>t.
     ebind (create_certificate E (ca_template serial (NamedSubject (name @ '' Issuing CA'') [''MnemoCA''] [tid]) (t - five_minutes)
           (xc_not_after (crt_x509 root_cert) - one_day) True)
         (Some root_cert) (public_of (sg_key key)) (sg_key root_signer) (crt_alg root_cert)) (\<lambda>cert.
       ret (ref, encode_certificate_pem E cert))))))))"

definition add_pair_ca :: "'x cenv_scheme \<Rightarrow> manager \<Rightarrow> string \<Rightarrow> string \<Rightarrow> bool \<Rightarrow> root_info \<Rightarrow> tenant \<Rightarrow> tenant act" where
  "add_pair_ca E m tid name hybrid ri t =
     (if \<not> hybrid then ret t
      else if ri_pair_alg ri = [] then fail (errorf ''ca: hybrid tenant requires a hybrid root (init with --pair-alg)'')
      else ebind (wrap_err (wrapf ''ca: creating tenant pair issuing CA: '')
        (issue_ca E m tid name (ri_pair_alg ri) (ri_pair_key_ref ri) (ri_pair_cert_pem ri) (''tenants/'' @ tid @ ''/issuing-pair'')))
        (\<lambda>(ref, pem). ret (t\<lparr>tn_pair_alg := ri_pair_alg ri, tn_pair_key_ref := ref, tn_pair_cert_pem := pem\<rparr>)))"

definition no_tenant :: "'x cenv_scheme \<Rightarrow> string \<Rightarrow> unit act" where
  "no_tenant E tid = ecase (get_json E tenant_of tenants_bucket tid)
     (\<lambda>e. if is_not_found e then ret () else fail e) (\<lambda>_. fail (errorf (''ca: tenant '' @ quoted tid @ '' already exists'')))"

definition bool_text :: "bool \<Rightarrow> string" where
  "bool_text b = (if b then ''true'' else ''false'')"

definition create_tenant :: "'x cenv_scheme \<Rightarrow> manager \<Rightarrow> string \<Rightarrow> string \<Rightarrow> algorithm \<Rightarrow> bool \<Rightarrow> actor \<Rightarrow> tenant act" where
  "create_tenant E m tid name alg hybrid who =
     (if \<not> tenant_id_ok tid
      then fail (errorf (''ca: invalid tenant id '' @ quoted tid @ '' (lowercase alphanumeric and hyphens)''))
      else ebind (no_tenant E tid) (\<lambda>_.
      ebind (root E) (\<lambda>ri.
      let alg' = (if alg = [] then ri_alg ri else alg); name' = (if name = [] then tid else name) in
      ebind (clock E) (\<lambda>now.
      ebind (wrap_err (wrapf ''ca: creating tenant issuing CA: '')
        (issue_ca E m tid name' alg' (ri_key_ref ri) (ri_cert_pem ri) (''tenants/'' @ tid @ ''/issuing''))) (\<lambda>(ref, pem).
      ebind (add_pair_ca E m tid name' hybrid ri \<lparr>tn_id = tid, tn_name = name', tn_created_at = now, tn_alg = alg',
          tn_key_ref = ref, tn_cert_pem = pem, tn_pair_alg = [], tn_pair_key_ref = [], tn_pair_cert_pem = [],
          tn_profiles = default_profiles\<rparr>) (\<lambda>t.
      ebind (put_json E tenant_json tenants_bucket tid t) (\<lambda>_.
      ebind (log_event E (mg_audit m) (new_event tid who ''tenant.create'' \<lparr>ob_type = ''tenant'', ob_id = tid\<rparr>
          [(''alg'', alg'), (''hybrid'', bool_text hybrid)])) (\<lambda>_.
        ret t))))))))"

definition get_tenant :: "'x cenv_scheme \<Rightarrow> string \<Rightarrow> tenant act" where
  "get_tenant E tid = wrap_err (unknown_tenant tid) (get_json E tenant_of tenants_bucket tid)"

definition list_tenants :: "'x cenv_scheme \<Rightarrow> tenant list act" where
  "list_tenants E = for_each_json E tenant_of tenants_bucket (\<lambda>out k t. Inr (out @ [t])) []"

section \<open>Serial numbers\<close>

lemma serial_bound: "new_serial E w = (Inr n, w') \<Longrightarrow> n < 2 ^ 127"
  by (auto simp: new_serial_def act_elims)

end
