(* ===== verification/Ca_Keys.thy ===== *)
theory Ca_Keys
  imports Ca_Roots
begin

text \<open>
  The keys of the CAs: where a reference leads, that it keeps leading to the same signer whatever
  else happens, and what a CA certificate with its key must satisfy to issue.  The laws of the
  libraries are gathered in one predicate.
\<close>

section \<open>Laws of the libraries\<close>

text \<open>
  Signatures by generated keys verify, and the public keys of generated keys have their encodings'
  lengths.
\<close>

definition sign_libs :: "'x cenv_scheme \<Rightarrow> bool" where
  "sign_libs E \<longleftrightarrow>
     (\<forall>n a k. classic_gen E n a = Some k \<longrightarrow> prims_correct E k \<and>
        (\<forall>h b. k = ClassicKey h (EcdsaKey P256 b) \<longrightarrow> b \<noteq> [] \<and> p256_point_ok E b) \<and>
        (\<forall>h b. k = ClassicKey h (Ed25519Key b) \<longrightarrow> length b = 32)) \<and>
     (\<forall>p seed pk. mldsa_expand E p seed = Some pk \<longrightarrow> prims_correct E (MldsaPriv p seed pk) \<and> length pk = mldsa_pk_size E p)"

definition libs_ok :: "'x cenv_scheme \<Rightarrow> bool" where
  "libs_ok E \<longleftrightarrow> key_libs E \<and> sign_libs E \<and> x509_laws E \<and> classic_laws E \<and> key_der_laws E \<and> pem_laws E \<and> crl_laws E"

lemma libs_okD:
  assumes "libs_ok E"
  shows "key_libs E" "sign_libs E" "x509_laws E" "classic_laws E" "key_der_laws E" "pem_laws E" "crl_laws E"
  using assms by (simp_all add: libs_ok_def)

lemma sample_libs_ok: "libs_ok (sample_at xe)"
proof -
  have "sign_libs (sample_at xe)"
    by (auto simp: sign_libs_def sample_env_def sample_key_def sample_ecdsa_key_def split: if_splits)
  then show ?thesis
    by (simp add: libs_ok_def sample_key_libs sample_x509_laws sample_classic_laws sample_key_der_laws sample_pem_laws sample_crl_laws)
qed

text \<open>A key that can sign certificates of its algorithm, with a public half that encodes.\<close>

definition fit_key :: "'x cenv_scheme \<Rightarrow> algorithm \<Rightarrow> private_key \<Rightarrow> bool" where
  "fit_key E alg key \<longleftrightarrow> wf_key key \<and> algorithm_for_key (public_of key) = Inr alg \<and> prims_correct E key \<and>
     wf_pub E (public_of key)"

lemma wf_pub_other: "(\<And>a p k t. pub \<noteq> CompositePub a p k t) \<Longrightarrow> wf_pub E pub"
  by (simp add: wf_pub_def)

lemma mldsa_generate_fit:
  assumes libs: "sign_libs E" and run: "mldsa_generate E alg w = (Inr key, w')"
  shows "prims_correct E key \<and> (\<exists>p s k. key = MldsaPriv p s k \<and> length k = mldsa_pk_size E p \<and> mldsa_name alg = Some p)"
proof -
  obtain seed where k: "new_mldsa_private_key E alg seed = Inr key"
    using run by (auto simp: mldsa_generate_def act_elims)
  obtain p pk where "mldsa_name alg = Some p" "mldsa_expand E p seed = Some pk" "key = MldsaPriv p seed pk"
    using k by (auto simp: new_mldsa_private_key_def split: option.splits)
  moreover have "\<forall>p seed pk. mldsa_expand E p seed = Some pk \<longrightarrow> prims_correct E (MldsaPriv p seed pk) \<and> length pk = mldsa_pk_size E p"
    using libs unfolding sign_libs_def by (rule conjunct2)
  ultimately show ?thesis by blast
qed

lemma classic_generate_fit:
  assumes libs: "sign_libs E" and run: "classic_generate E alg w = (Inr key, w')"
  shows "prims_correct E key \<and> (\<forall>h b. key = ClassicKey h (EcdsaKey P256 b) \<longrightarrow> b \<noteq> [] \<and> p256_point_ok E b) \<and>
    (\<forall>h b. key = ClassicKey h (Ed25519Key b) \<longrightarrow> length b = 32)"
  using libs run by (auto simp: classic_generate_def sign_libs_def split: option.splits)

lemma composite_generate_fit:
  assumes libs: "key_libs E" "sign_libs E" and run: "generate_composite_key E alg ma ta w = (Inr key, w')"
    and prof: "map_of composite_profiles alg = Some q" "cp_mldsa q = ma" "cp_trad q = ta"
  shows "prims_correct E key \<and> wf_pub E (public_of key)"
proof -
  obtain mk tk w1 w2 where mk: "mldsa_generate E ma w = (Inr mk, w1)" and tk: "classic_generate E ta w1 = (Inr tk, w2)"
    and key: "(case mk of MldsaPriv p seed pk \<Rightarrow> ret (CompositePriv alg p seed pk tk)
       | _ \<Rightarrow> fail (errorf ''pkix: not an ML-DSA key'')) w2 = (Inr key, w')"
    using run by (auto simp: generate_composite_key_def act_elims)
  obtain p seed pk where m: "mk = MldsaPriv p seed pk" "prims_correct E mk" "length pk = mldsa_pk_size E p" "mldsa_name ma = Some p"
    using mldsa_generate_fit [OF libs(2) mk] by blast
  have k: "key = CompositePriv alg p seed pk tk" using key m by simp
  note t = classic_generate_fit [OF libs(2) tk]
  have g: "wf_key tk" "algorithm_for_key (public_of tk) = Inr ta"
    using classic_generate_good [OF libs(1) tk] by (auto simp: good_key_def)
  have ta: "(ta = ECDSAP256 \<or> ta = Ed25519)" using composite_profiles_Some [OF prof(1)] prof(3) by auto
  have "wf_composite E (CompositePub alg p pk (public_of tk))"
    using wf_key_trad [OF g ta]
  proof cases
    case (1 h c b)
    then have "c = P256" using g(2) by (auto simp: alg_defs split: curve.splits)
    with 1 t prof m show ?thesis by (simp add: wf_composite_def)
  next
    case (2 h b)
    with t prof m show ?thesis by (simp add: wf_composite_def)
  qed
  with k m(1,2) t show ?thesis by (simp add: wf_pub_def)
qed

lemma generated_key_fit:
  assumes libs: "key_libs E" "sign_libs E" and run: "generate_key E alg w = (Inr key, w')"
  shows "fit_key E alg key"
proof -
  have "good_key E alg key" using generate_key_good [OF libs(1) run] .
  moreover have "prims_correct E key \<and> wf_pub E (public_of key)"
  proof (cases "alg \<in> {CompositeMLDSA65ECDSAP256, CompositeMLDSA44Ed25519}")
    case True
    then have "\<exists>q ma ta. generate_composite_key E alg ma ta w = (Inr key, w') \<and> map_of composite_profiles alg = Some q \<and>
        cp_mldsa q = ma \<and> cp_trad q = ta"
      using run by (auto simp: generate_key_def composite_profiles_def alg_defs)
    then show ?thesis using composite_generate_fit [OF libs] by blast
  next
    case False
    then consider "classic_generate E alg w = (Inr key, w')" | "mldsa_generate E alg w = (Inr key, w')"
      using run by (auto simp: generate_key_def split: if_splits)
    then show ?thesis
    proof cases
      case 1
      with classic_generate_fit [OF libs(2) 1] classic_generate_good [OF libs(1) 1] show ?thesis
        by (auto simp: wf_pub_def good_key_def split: public_key.splits)
    next
      case 2
      with mldsa_generate_fit [OF libs(2) 2] show ?thesis by (auto simp: wf_pub_def)
    qed
  qed
  ultimately show ?thesis by (simp add: fit_key_def good_key_def)
qed

section \<open>Where a key reference leads\<close>

fun key_slot :: "backend \<Rightarrow> world \<Rightarrow> key_ref \<Rightarrow> json option" where
  "key_slot (Softkey p) w ref = soft_slot w ref"
| "key_slot (Storekey p) w ref = store_slot w ref"
| "key_slot _ w ref = None"

fun pass_of :: "backend \<Rightarrow> string" where
  "pass_of (Softkey p) = p"
| "pass_of (Storekey p) = p"
| "pass_of _ = []"

definition holds_key :: "'x cenv_scheme \<Rightarrow> signers \<Rightarrow> world \<Rightarrow> key_ref \<Rightarrow> signer \<Rightarrow> bool" where
  "holds_key E sgs w ref s \<longleftrightarrow> (\<exists>b v. map_of sgs (scheme_of ref) = Some b \<and> key_slot b w ref = Some (envelope_json v) \<and>
     env_version v \<noteq> 0 \<and> open_envelope E (pass_of b) v = Inr s)"

lemma backend_open_slot:
  assumes "key_slot b w ref = Some (envelope_json v)" and "fault_at E (tick w) = NoFault"
  shows "backend_open E b ref w = (open_envelope E (pass_of b) v, advance w)"
  using assms softkey_open_slot storekey_open_slot by (cases b) auto

lemma backend_open_no_fault: "backend_open E b ref w = (Inr s, w') \<Longrightarrow> fault_at E (tick w) = NoFault"
  by (cases b) (auto simp: softkey_open_def storekey_open_def read_key_file_def act_elims dest!: effect_InrD)

lemma holds_key_opens:
  "holds_key E sgs w ref s \<Longrightarrow> fault_at E (tick w) = NoFault \<Longrightarrow> registry_open E sgs ref w = (Inr s, advance w)"
  by (auto simp: holds_key_def registry_open_def registry_backend_def ebind_apply backend_open_slot)

lemma holds_key_opened:
  assumes "holds_key E sgs w ref s" and "registry_open E sgs ref w = (Inr s', w')"
  shows "s' = s"
proof -
  have "fault_at E (tick w) = NoFault"
    using assms(2) by (auto simp: registry_open_def act_elims dest: backend_open_no_fault)
  with holds_key_opens [OF assms(1)] assms(2) show ?thesis by simp
qed

text \<open>Keys that are there stay there.\<close>

definition keeps_keys :: "world \<Rightarrow> world \<Rightarrow> bool" where
  "keeps_keys w w' \<longleftrightarrow> keeps_files w w' \<and> keeps_docs w w'"

interpretation keeps_keys: world_contract keeps_keys
  by unfold_locales (auto simp: keeps_keys_def intro: keeps_files.contract_refl keeps_docs.contract_refl
      keeps_files.contract_trans keeps_docs.contract_trans keeps_files.advance_ok keeps_docs.advance_ok)

lemma keeps_keys_slot: "keeps_keys w w' \<Longrightarrow> occupied (key_slot b w ref) \<Longrightarrow> key_slot b w' ref = key_slot b w ref"
  by (cases b) (auto simp: keeps_keys_def keeps_files_def keeps_docs_def soft_slot_def store_slot_def occupied_def split: sum.splits)

lemma holds_key_kept: "keeps_keys w w' \<Longrightarrow> holds_key E sgs w ref s \<Longrightarrow> holds_key E sgs w' ref s"
  by (fastforce simp: holds_key_def occupied_def dest: keeps_keys_slot)

lemma keeps_docs_set_doc [simp]: "p \<noteq> keys_bucket \<Longrightarrow> keeps_docs w (set_doc w p k d)"
  by (simp add: keeps_docs_def lookup_set_doc)

lemma keeps_files_set_doc [simp]: "keeps_files w (set_doc w p k d)"
  by (simp add: keeps_files_def key_file_def set_doc_def)

lemma keeps_keys_set_doc [simp]: "p \<noteq> keys_bucket \<Longrightarrow> keeps_keys w (set_doc w p k d)"
  by (simp add: keeps_keys_def)

lemma keeps_keys_del_doc [simp]: "p \<noteq> keys_bucket \<Longrightarrow> keeps_keys w (del_doc w p k)"
  by (simp add: keeps_keys_def keeps_docs_def lookup_del_doc) (simp add: keeps_files_def key_file_def del_doc_def)

lemma keeps_keys_generate: "steps keeps_keys (backend_generate E b alg label)"
proof (cases b)
  case (Softkey pass)
  have "steps keeps_docs (write_key_file E path j)" for path j
    unfolding write_key_file_def
    by (intro keeps_docs.world_rules keeps_docs.steps_pure) (simp add: keeps_docs_def lookup_def)
  then have "steps keeps_docs (softkey_generate E pass alg label)"
    unfolding softkey_generate_def Let_def
    by (intro keeps_docs.store_rules keeps_docs.steps_generate_key keeps_docs.steps_seal_envelope)
  with Softkey softkey_generate_keeps [of E pass alg label] show ?thesis by (simp add: steps_def keeps_keys_def)
next
  case (Storekey pass)
  have "steps keeps_files (storekey_generate E pass alg label)"
    unfolding storekey_generate_def insert_key_def
    by (intro keeps_files.store_rules keeps_files.steps_generate_key keeps_files.steps_seal_envelope) simp_all
  with Storekey storekey_generate_keeps [of E pass alg label] show ?thesis by (simp add: steps_def keeps_keys_def)
qed (simp_all add: keeps_keys.steps_fail)

lemma keeps_keys_log: "steps keeps_keys (log_event E a r)"
proof -
  have f: "keys_bucket \<noteq> audit_meta_bucket" "keys_bucket \<noteq> audit_records_bucket"
    by (simp_all add: keys_bucket_def audit_meta_bucket_def audit_records_bucket_def)
  then have "steps keeps_keys (store_log E l r)" for l
    unfolding store_log_def claim_head_def write_record_def advance_head_def
    by (intro keeps_keys.store_rules keeps_keys.steps_seal_record) (simp_all add: keeps_keys_set_doc [OF not_sym])
  moreover have "steps keeps_keys (file_log E l r)" for l
    unfolding file_log_def append_line_def fsync_def
    by (intro keeps_keys.world_rules keeps_keys.steps_seal_record keeps_keys.steps_pure)
      (simp_all add: keeps_keys_def keeps_files_def keeps_docs_def key_file_def lookup_def)
  ultimately show ?thesis by (cases a) (simp_all add: keeps_keys.steps_ret)
qed

text \<open>The registry holds the backend new keys are made in.\<close>

definition registered :: "signers \<Rightarrow> backend \<Rightarrow> bool" where
  "registered sgs b \<longleftrightarrow> map_of sgs (backend_name b) = Some b"

lemma scheme_prefix: "CHR '':'' \<notin> set p \<Longrightarrow> scheme_of (p @ CHR '':'' # r) = p"
  by (simp add: scheme_of_def cut_at_append)

lemma generated_scheme: "backend_generate E b alg label w = (Inr (s, ref), w') \<Longrightarrow> scheme_of ref = backend_name b"
  by (cases b) (auto simp: softkey_generate_def storekey_generate_def act_elims Let_def scheme_of_def split: if_splits)

lemma generated_holds:
  assumes libs: "libs_ok E" and g: "backend_generate E b alg label w = (Inr (s, ref), w')" and r: "registered sgs b"
  shows "holds_key E sgs w' ref s \<and> fit_key E alg (sg_key s) \<and> sg_alg s = alg"
proof -
  have "\<exists>v. key_slot b w' ref = Some (envelope_json v) \<and> env_version v \<noteq> 0 \<and> open_envelope E (pass_of b) v = Inr s \<and> sg_alg s = alg"
  proof (cases b)
    case (Softkey p)
    with soft.gen_slot [OF libs_okD(1) [OF libs]] g show ?thesis by fastforce
  next
    case (Storekey p)
    with stored.gen_slot [OF libs_okD(1) [OF libs]] g show ?thesis by fastforce
  qed (use g in simp_all)
  moreover have "\<exists>v'. generate_key E alg w = (Inr (sg_key s), v')"
    using g by (cases b) (auto simp: softkey_generate_def storekey_generate_def act_elims Let_def split: if_splits)
  then have "fit_key E alg (sg_key s)" using generated_key_fit libs_okD(1,2) [OF libs] by blast
  ultimately show ?thesis using generated_scheme [OF g] r by (auto simp: holds_key_def registered_def)
qed

end
