(* ===== verification/Ca_Ready.thy ===== *)
theory Ca_Ready
  imports Ca_Keys
begin

text \<open>
  CAs that can issue: the certificate of a root or of a tenant's issuing CA is bound to the key its
  reference leads to and chains to the root.  Creating the root and creating a tenant establish
  this, and it lasts as long as keys are not destroyed.
\<close>

declare keeps_keys.contract_trans [trans]

definition ca_ready :: "'x cenv_scheme \<Rightarrow> signers \<Rightarrow> world \<Rightarrow> key_ref \<Rightarrow> string \<Rightarrow> signer \<Rightarrow> certificate \<Rightarrow> bool" where
  "ca_ready E sgs w ref pem s c \<longleftrightarrow> holds_key E sgs w ref s \<and> fit_key E (sg_alg s) (sg_key s) \<and>
     parse_certificate_pem E pem = Inr c \<and> crt_pub c = public_of (sg_key s) \<and> crt_pub_alg c = sg_alg s \<and>
     xc_is_ca (crt_x509 c)"

definition root_ready :: "'x cenv_scheme \<Rightarrow> signers \<Rightarrow> world \<Rightarrow> key_ref \<Rightarrow> string \<Rightarrow> algorithm \<Rightarrow> bool" where
  "root_ready E sgs w ref pem alg \<longleftrightarrow> (\<exists>s c. ca_ready E sgs w ref pem s c \<and> sg_alg s = alg \<and> crt_alg c = alg \<and>
     check_signature_from E c c = Inr ())"

definition issuing_ready :: "'x cenv_scheme \<Rightarrow> signers \<Rightarrow> world \<Rightarrow> key_ref \<Rightarrow> string \<Rightarrow> string \<Rightarrow> algorithm \<Rightarrow> bool" where
  "issuing_ready E sgs w ref pem root_pem alg \<longleftrightarrow> (\<exists>s c rc. ca_ready E sgs w ref pem s c \<and> sg_alg s = alg \<and>
     parse_certificate_pem E root_pem = Inr rc \<and> xc_is_ca (crt_x509 rc) \<and> check_signature_from E c rc = Inr () \<and>
     check_signature_from E rc rc = Inr ())"

definition root_ok :: "'x cenv_scheme \<Rightarrow> signers \<Rightarrow> world \<Rightarrow> root_info \<Rightarrow> bool" where
  "root_ok E sgs w ri \<longleftrightarrow> root_ready E sgs w (ri_key_ref ri) (ri_cert_pem ri) (ri_alg ri) \<and>
     (ri_pair_alg ri \<noteq> [] \<longrightarrow> root_ready E sgs w (ri_pair_key_ref ri) (ri_pair_cert_pem ri) (ri_pair_alg ri))"

definition tenant_ok :: "'x cenv_scheme \<Rightarrow> signers \<Rightarrow> world \<Rightarrow> root_info \<Rightarrow> tenant \<Rightarrow> bool" where
  "tenant_ok E sgs w ri t \<longleftrightarrow> issuing_ready E sgs w (tn_key_ref t) (tn_cert_pem t) (ri_cert_pem ri) (tn_alg t) \<and>
     (tn_pair_alg t \<noteq> [] \<longrightarrow> issuing_ready E sgs w (tn_pair_key_ref t) (tn_pair_cert_pem t) (ri_pair_cert_pem ri) (tn_pair_alg t))"

lemma root_ready_kept: "keeps_keys w w' \<Longrightarrow> root_ready E sgs w ref pem alg \<Longrightarrow> root_ready E sgs w' ref pem alg"
  by (auto simp: root_ready_def ca_ready_def dest: holds_key_kept)

lemma issuing_ready_kept:
  "keeps_keys w w' \<Longrightarrow> issuing_ready E sgs w ref pem rp alg \<Longrightarrow> issuing_ready E sgs w' ref pem rp alg"
proof -
  assume k: "keeps_keys w w'" and "issuing_ready E sgs w ref pem rp alg"
  then obtain s c rc where "ca_ready E sgs w ref pem s c" and r: "sg_alg s = alg" "parse_certificate_pem E rp = Inr rc"
    "xc_is_ca (crt_x509 rc)" "check_signature_from E c rc = Inr ()" "check_signature_from E rc rc = Inr ()"
    by (auto simp: issuing_ready_def)
  then have "ca_ready E sgs w' ref pem s c" using holds_key_kept [OF k] unfolding ca_ready_def by blast
  with r show ?thesis unfolding issuing_ready_def by blast
qed

lemma root_ok_kept: "keeps_keys w w' \<Longrightarrow> root_ok E sgs w ri \<Longrightarrow> root_ok E sgs w' ri"
  by (auto simp: root_ok_def dest: root_ready_kept)

lemma tenant_ok_kept: "keeps_keys w w' \<Longrightarrow> tenant_ok E sgs w ri t \<Longrightarrow> tenant_ok E sgs w' ri t"
  by (auto simp: tenant_ok_def dest: issuing_ready_kept)

lemma pem_parsed:
  assumes "pem_laws E" and "parse_certificate E (crt_raw c) = Inr c"
  shows "parse_certificate_pem E (encode_certificate_pem E c) = Inr c"
proof -
  have "pem_decode E (pem_encode E pem_certificate (crt_raw c) @ []) = Some (pem_certificate, crt_raw c, [])"
    using assms(1) unfolding pem_laws_def by blast
  then show ?thesis
    using assms(2) by (simp add: parse_certificate_pem_def encode_certificate_pem_def pem_block_def)
qed

lemma pem_created:
  assumes "pem_laws E" and "create_certificate E t issuer pub key alg w = (Inr c, w')"
  shows "parse_certificate_pem E (encode_certificate_pem E c) = Inr c"
  using pem_parsed [OF assms(1) create_certificate_parsed [OF assms(2)]] .

lemma created_pub_alg:
  assumes "create_certificate E t issuer pub key alg w = (Inr c, w')"
  shows "algorithm_for_key (crt_pub c) = Inr (crt_pub_alg c)"
  using create_certificate_parsed [OF assms] by (rule parse_certificate_Inr) (metis certificate.select_convs(4,5))

text \<open>The manager's registry: the backend for new keys is registered under its own name.\<close>

definition manager_ok :: "manager \<Rightarrow> bool" where
  "manager_ok m \<longleftrightarrow> (\<exists>b. map_of (mg_signers m) (mg_backend m) = Some b \<and> registered (mg_signers m) b)"

lemma manager_backend:
  "manager_ok m \<Longrightarrow> registry_backend (mg_signers m) (mg_backend m) = Inr b \<Longrightarrow> registered (mg_signers m) b"
  by (auto simp: manager_ok_def registry_backend_def)

text \<open>A CA certificate over a freshly generated key.\<close>

lemma fresh_ca:
  assumes libs: "libs_ok E" and g: "backend_generate E b alg label w = (Inr (key, ref), w1)" and r: "registered sgs b"
    and signer: "fit_key E salg skey"
    and issuer: "case issuer of None \<Rightarrow> skey = sg_key key | Some i \<Rightarrow> crt_pub i = public_of skey"
    and c: "create_certificate E t issuer (public_of (sg_key key)) skey salg w2 = (Inr c, w3)"
    and ca: "t_is_ca t" and k: "keeps_keys w1 w3"
  shows "ca_ready E sgs w3 ref (encode_certificate_pem E c) key c \<and> sg_alg key = alg \<and> crt_alg c = salg \<and>
    check_signature_from E c (case issuer of None \<Rightarrow> c | Some i \<Rightarrow> i) = Inr ()"
proof -
  have key: "holds_key E sgs w1 ref key" "fit_key E alg (sg_key key)" "sg_alg key = alg"
    using generated_holds [OF libs g r] by auto
  have i: "case issuer of None \<Rightarrow> public_of (sg_key key) = public_of skey | Some i \<Rightarrow> crt_pub i = public_of skey"
    using issuer by (simp split: option.splits)
  have "wf_key skey" "algorithm_for_key (public_of skey) = Inr salg" "prims_correct E skey" "wf_pub E (public_of (sg_key key))"
    using signer key(2) by (simp_all add: fit_key_def)
  note cc = created_certificate [OF libs_okD(3-5) [OF libs] this i c]
  have "crt_pub_alg c = alg" using created_pub_alg [OF c] cc key(2) by (simp add: fit_key_def)
  then show ?thesis
    using cc key ca pem_created [OF libs_okD(6) [OF libs] c] holds_key_kept [OF k key(1)] by (simp add: ca_ready_def)
qed

lemma steps_new_serial: "steps keeps_keys (new_serial E)"
  unfolding new_serial_def by (intro keeps_keys.world_rules)

lemma new_root_ready:
  assumes libs: "libs_ok E" and m: "manager_ok m" and run: "new_root_cert E m name alg validity label w = (Inr (ref, c), w')"
  shows "root_ready E (mg_signers m) w' ref (encode_certificate_pem E c) alg"
proof -
  obtain b key v1 n v2 t1 v3 t2 v4 where b: "registry_backend (mg_signers m) (mg_backend m) = Inr b"
    and g: "backend_generate E b alg label w = (Inr (key, ref), v1)" and n: "new_serial E v1 = (Inr n, v2)"
    and c1: "clock E v2 = (Inr t1, v3)" and c2: "clock E v3 = (Inr t2, v4)"
    and c: "create_certificate E (ca_template n (NamedSubject name [''MnemoCA''] []) (t1 - five_minutes) (t2 + validity) False)
         None (public_of (sg_key key)) (sg_key key) alg v4 = (Inr c, w')"
    using run by (auto simp: new_root_cert_def act_elims)
  have "keeps_keys v1 v2" using steps_new_serial n by (rule stepsD)
  also have "keeps_keys v2 v3" using keeps_keys.steps_clock c1 by (rule stepsD)
  also have "keeps_keys v3 v4" using keeps_keys.steps_clock c2 by (rule stepsD)
  also have "keeps_keys v4 w'" using keeps_keys.steps_create_certificate c by (rule stepsD)
  finally have k: "keeps_keys v1 w'" .
  have r: "registered (mg_signers m) b" using manager_backend [OF m b] .
  have "fit_key E alg (sg_key key)" using generated_holds [OF libs g r] by simp
  from fresh_ca [OF libs g r this _ c _ k] show ?thesis by (auto simp: root_ready_def ca_template_def)
qed

lemma issue_ca_ready:
  assumes libs: "libs_ok E" and m: "manager_ok m" and root: "root_ready E (mg_signers m) w root_ref root_pem ralg"
    and run: "issue_ca E m tid name alg root_ref root_pem label w = (Inr (ref, pem), w')"
  shows "issuing_ready E (mg_signers m) w' ref pem root_pem alg"
proof -
  obtain rs rc where rc: "ca_ready E (mg_signers m) w root_ref root_pem rs rc" "sg_alg rs = ralg" "crt_alg rc = ralg"
      "check_signature_from E rc rc = Inr ()" using root by (auto simp: root_ready_def)
  obtain rs' v0 b key v1 n v2 t v3 c where o: "registry_open E (mg_signers m) root_ref w = (Inr rs', v0)"
    and b: "registry_backend (mg_signers m) (mg_backend m) = Inr b"
    and g: "backend_generate E b alg label v0 = (Inr (key, ref), v1)" and n: "new_serial E v1 = (Inr n, v2)"
    and t: "clock E v2 = (Inr t, v3)"
    and c: "create_certificate E (ca_template n (NamedSubject (name @ '' Issuing CA'') [''MnemoCA''] [tid]) (t - five_minutes)
           (xc_not_after (crt_x509 rc) - one_day) True)
         (Some rc) (public_of (sg_key key)) (sg_key rs') (crt_alg rc) v3 = (Inr c, w')" and pem: "pem = encode_certificate_pem E c"
    using run rc(1) by (auto simp: issue_ca_def act_elims ca_ready_def)
  have "rs' = rs" using holds_key_opened [OF _ o] rc(1) by (auto simp: ca_ready_def)
  then have s: "fit_key E (crt_alg rc) (sg_key rs')" "crt_pub rc = public_of (sg_key rs')"
    using rc by (auto simp: ca_ready_def)
  have "keeps_keys v1 v2" using steps_new_serial n by (rule stepsD)
  also have "keeps_keys v2 v3" using keeps_keys.steps_clock t by (rule stepsD)
  also have "keeps_keys v3 w'" using keeps_keys.steps_create_certificate c by (rule stepsD)
  finally have k: "keeps_keys v1 w'" .
  have r: "registered (mg_signers m) b" using manager_backend [OF m b] .
  from fresh_ca [OF libs g r s(1) _ c _ k] s(2) rc show ?thesis
    by (auto simp: issuing_ready_def ca_template_def pem ca_ready_def)
qed

lemma keeps_issue_ca: "steps keeps_keys (issue_ca E m tid name alg root_ref root_pem label)"
  unfolding issue_ca_def by (intro keeps_keys.ca_rules keeps_keys_generate steps_new_serial)

lemma keeps_new_root: "steps keeps_keys (new_root_cert E m name alg validity label)"
  unfolding new_root_cert_def by (intro keeps_keys.ca_rules keeps_keys_generate steps_new_serial)

section \<open>The root and its tenants can issue\<close>

lemma keeps_pair_root: "steps keeps_keys (add_pair_root E m opts name validity info)"
  unfolding add_pair_root_def by (intro keeps_keys.ca_rules keeps_new_root)

lemma keeps_pair_ca: "steps keeps_keys (add_pair_ca E m tid name hybrid ri t)"
  unfolding add_pair_ca_def by (intro keeps_keys.ca_rules keeps_issue_ca)

lemma keeps_put_root: "steps keeps_keys (put_json E enc meta_bucket k v)"
  by (intro keeps_keys.store_rules) (simp add: meta_bucket_def keys_bucket_def)

lemma keeps_put_tenant: "steps keeps_keys (put_json E enc tenants_bucket k v)"
  by (intro keeps_keys.store_rules) (simp add: tenants_bucket_def keys_bucket_def)

lemma not_initialized_Inr: "not_initialized E w = (Inr u, w') \<longleftrightarrow> (\<exists>e. get_json E root_info_of meta_bucket root_key w = (Inl e, w') \<and> is_not_found e)"
  by (auto simp: not_initialized_def ecase_eq_iff split: if_splits)

lemma no_tenant_Inr: "no_tenant E t w = (Inr u, w') \<longleftrightarrow> (\<exists>e. get_json E tenant_of tenants_bucket t w = (Inl e, w') \<and> is_not_found e)"
  by (auto simp: no_tenant_def ecase_eq_iff split: if_splits)

lemma pair_root_ready:
  assumes libs: "libs_ok E" and m: "manager_ok m" and pair: "ri_pair_alg info = []"
    and run: "add_pair_root E m opts name validity info w = (Inr ri, w')"
  shows "ri_pair_alg ri = io_pair_alg opts \<and> ri_key_ref ri = ri_key_ref info \<and> ri_cert_pem ri = ri_cert_pem info \<and>
    ri_alg ri = ri_alg info \<and> ri_name ri = ri_name info \<and>
    (io_pair_alg opts \<noteq> [] \<longrightarrow> root_ready E (mg_signers m) w' (ri_pair_key_ref ri) (ri_pair_cert_pem ri) (ri_pair_alg ri))"
  using run pair new_root_ready [OF libs m] by (auto simp: add_pair_root_def act_elims split: if_splits)

lemma public_pem_parses:
  assumes libs: "libs_ok E" and "wf_pub E k" "marshal_public_key E k = Inr pub"
  shows "parse_public_key_pem E (pem_public E pub) = Inr k"
proof -
  have "pem_decode E (pem_encode E pem_public_key pub @ []) = Some (pem_public_key, pub, [])"
    using libs_okD(6) [OF libs] unfolding pem_laws_def by blast
  moreover have "parse_public_key E pub = Inr k"
    by (rule public_key_round_trip [OF libs_okD(5) [OF libs] _ assms(3)]) (use assms(2) in \<open>simp add: wf_pub_def\<close>)
  ultimately show ?thesis by (simp add: parse_public_key_pem_def pem_block_def pem_public_def)
qed

lemma init_root_sound:
  assumes libs: "libs_ok E" and m: "manager_ok m" and run: "init_root E m opts w = (Inr ri, w')"
  shows "lookup w meta_bucket root_key = None \<and> lookup w' meta_bucket root_key = Some (root_info_json ri) \<and>
    root_ok E (mg_signers m) w' ri \<and> ri_alg ri = io_alg opts \<and> ri_pair_alg ri = io_pair_alg opts \<and>
    (\<exists>s. holds_key E (mg_signers m) w' (ri_audit_key_ref ri) s \<and> fit_key E MLDSA65 (sg_key s) \<and> sg_alg s = MLDSA65 \<and>
       parse_public_key_pem E (ri_audit_pub_pem ri) = Inr (public_of (sg_key s)))"
proof -
  let ?name = "if io_name opts = [] then ''MnemoCA Root'' else io_name opts"
  let ?val = "if io_root_validity opts = 0 then 20 * 365 * one_day else io_root_validity opts"
  obtain e v0 ref c v1 t v2 info v3 b key aref v4 pub v5 v6 where
        n: "get_json E root_info_of meta_bucket root_key w = (Inl e, v0)" "is_not_found e"
    and r: "new_root_cert E m ?name (io_alg opts) ?val ''root/primary'' v0 = (Inr (ref, c), v1)"
    and t: "clock E v1 = (Inr t, v2)"
    and p: "add_pair_root E m opts ?name ?val \<lparr>ri_name = ?name, ri_alg = io_alg opts, ri_key_ref = ref,
         ri_cert_pem = encode_certificate_pem E c, ri_pair_alg = [], ri_pair_key_ref = [], ri_pair_cert_pem = [],
         ri_audit_key_ref = [], ri_audit_pub_pem = [], ri_created_at = t\<rparr> v2 = (Inr info, v3)"
    and b: "registry_backend (mg_signers m) (mg_backend m) = Inr b"
    and g: "backend_generate E b MLDSA65 ''root/audit'' v3 = (Inr (key, aref), v4)"
    and pub: "marshal_public_key E (public_of (sg_key key)) = Inr pub"
    and ri: "ri = info\<lparr>ri_audit_key_ref := aref, ri_audit_pub_pem := pem_public E pub\<rparr>"
    and put: "put_json E root_info_json meta_bucket root_key ri v4 = (Inr (), v5)"
    and log: "log_event E (mg_audit m) (init_event (io_actor opts) ?name (io_alg opts) (io_pair_alg opts)) v5 = (Inr (), w')"
    using run by (auto simp: init_root_def ebind_Inr_iff wrap_err_Inr_iff not_initialized_Inr Let_def)
  note pair = pair_root_ready [OF libs m _ p, simplified]
  have "root_ready E (mg_signers m) v1 ref (encode_certificate_pem E c) (io_alg opts)" by (rule new_root_ready [OF libs m r])
  moreover have k4: "keeps_keys v4 w'"
    using stepsD [OF keeps_put_root put] stepsD [OF keeps_keys_log log] by (rule keeps_keys.contract_trans)
  have k3: "keeps_keys v3 w'" using stepsD [OF keeps_keys_generate g] k4 by (rule keeps_keys.contract_trans)
  have "keeps_keys v1 v3" using stepsD [OF keeps_keys.steps_clock t] stepsD [OF keeps_pair_root p] by (rule keeps_keys.contract_trans)
  then have "keeps_keys v1 w'" using k3 by (rule keeps_keys.contract_trans)
  ultimately have "root_ready E (mg_signers m) w' ref (encode_certificate_pem E c) (io_alg opts)"
    by (intro root_ready_kept [of v1 w'])
  moreover have "io_pair_alg opts \<noteq> [] \<Longrightarrow>
      root_ready E (mg_signers m) w' (ri_pair_key_ref info) (ri_pair_cert_pem info) (io_pair_alg opts)"
    using pair root_ready_kept [OF k3] by metis
  ultimately have "root_ok E (mg_signers m) w' ri"
    using pair by (simp add: root_ok_def ri)
  moreover have "holds_key E (mg_signers m) w' aref key \<and> fit_key E MLDSA65 (sg_key key) \<and> sg_alg key = MLDSA65"
    using generated_holds [OF libs g manager_backend [OF m b]] holds_key_kept [OF k4, of E] by blast
  moreover from this have "parse_public_key_pem E (ri_audit_pub_pem ri) = Inr (public_of (sg_key key))"
    using public_pem_parses [OF libs _ pub] by (simp add: fit_key_def ri)
  moreover have "lookup w' meta_bucket root_key = Some (root_info_json ri)"
    using log_event_lookup [OF log, of meta_bucket] put by (simp add: act_elims lookup_set_doc)
  moreover have "lookup w meta_bucket root_key = None" using n get_json_not_found by metis
  ultimately show ?thesis using pair by (auto simp: ri)
qed

text \<open>
  Claim C16: initialising makes a root exactly once: it succeeds only on a store without a root, stores
  what it returns, and the root, and its pair when one was asked for, is then a CA that can issue: its
  self-signed CA certificate verifies and belongs to the key its reference opens.  The audit key is
  there too, as an ML-DSA-65 key.
\<close>

theorem init_root_ready:
  assumes libs: "libs_ok E" and m: "manager_ok m" and run: "init_root E m opts w = (Inr ri, w')"
  shows "lookup w meta_bucket root_key = None \<and> lookup w' meta_bucket root_key = Some (root_info_json ri) \<and>
    root_ok E (mg_signers m) w' ri \<and> ri_alg ri = io_alg opts \<and> ri_pair_alg ri = io_pair_alg opts \<and>
    (\<exists>s. holds_key E (mg_signers m) w' (ri_audit_key_ref ri) s \<and> fit_key E MLDSA65 (sg_key s) \<and> sg_alg s = MLDSA65)"
  using init_root_sound [OF libs m run] by blast

lemma create_tenant_sound:
  assumes libs: "libs_ok E" and m: "manager_ok m"
    and root: "lookup w meta_bucket root_key = Some (root_info_json ri)" "root_ok E (mg_signers m) w ri"
    and run: "create_tenant E m tid name alg hybrid who w = (Inr t, w')"
  shows "tenant_id_ok tid \<and> lookup w tenants_bucket tid = None \<and> lookup w' tenants_bucket tid = Some (tenant_json t) \<and>
    tenant_ok E (mg_signers m) w' ri t \<and> tn_id t = tid \<and> (hybrid \<longrightarrow> tn_pair_alg t = ri_pair_alg ri \<and> ri_pair_alg ri \<noteq> [])"
proof -
  have tid: "tenant_id_ok tid" using run by (auto simp: create_tenant_def split: if_splits)
  let ?alg = "\<lambda>ri :: root_info. if alg = [] then ri_alg ri else alg" and ?name = "if name = [] then tid else name"
  obtain e v0 ri' v1 now v2 ref pem v3 v4 v5 where n: "get_json E tenant_of tenants_bucket tid w = (Inl e, v0)" "is_not_found e"
    and r: "root E v0 = (Inr ri', v1)" and now: "clock E v1 = (Inr now, v2)"
    and i: "issue_ca E m tid ?name (?alg ri') (ri_key_ref ri') (ri_cert_pem ri') (''tenants/'' @ tid @ ''/issuing'') v2 = (Inr (ref, pem), v3)"
    and p: "add_pair_ca E m tid ?name hybrid ri' \<lparr>tn_id = tid, tn_name = ?name, tn_created_at = now, tn_alg = ?alg ri',
          tn_key_ref = ref, tn_cert_pem = pem, tn_pair_alg = [], tn_pair_key_ref = [], tn_pair_cert_pem = [],
          tn_profiles = default_profiles\<rparr> v3 = (Inr t, v4)"
    and put: "put_json E tenant_json tenants_bucket tid t v4 = (Inr (), v5)"
    and log: "log_event E (mg_audit m) (new_event tid who ''tenant.create'' \<lparr>ob_type = ''tenant'', ob_id = tid\<rparr>
          [(''alg'', ?alg ri'), (''hybrid'', bool_text hybrid)]) v5 = (Inr (), w')"
    using run tid by (auto simp: create_tenant_def ebind_Inr_iff wrap_err_Inr_iff no_tenant_Inr Let_def)
  have v0: "v0 = advance w" and none: "lookup w tenants_bucket tid = None" using n get_json_not_found by metis+
  have "ri' = ri" using r root(1) by (auto simp: root_def act_elims v0 lookup_def)
  have "keeps_keys w v0" using stepsD [OF keeps_keys.steps_get_json n(1)] .
  also have "keeps_keys v0 v1" using r keeps_keys.store_rules unfolding root_def by (intro stepsD [OF keeps_keys.steps_wrap [OF keeps_keys.steps_get_json]])
  also have "keeps_keys v1 v2" using stepsD [OF keeps_keys.steps_clock now] .
  finally have k2: "keeps_keys w v2" .
  have k3: "keeps_keys v2 v3" using stepsD [OF keeps_issue_ca i] .
  have k4: "keeps_keys v3 v4" using stepsD [OF keeps_pair_ca p] .
  have k5: "keeps_keys v4 w'"
    using stepsD [OF keeps_put_tenant put] stepsD [OF keeps_keys_log log] by (rule keeps_keys.contract_trans)
  have root2: "root_ok E (mg_signers m) v2 ri" by (rule root_ok_kept [OF k2 root(2)])
  then have root3: "root_ok E (mg_signers m) v3 ri" by (rule root_ok_kept [OF k3])
  have "issuing_ready E (mg_signers m) v3 ref pem (ri_cert_pem ri) (?alg ri)"
    using issue_ca_ready [OF libs m _ i] root2 unfolding \<open>ri' = ri\<close> root_ok_def by blast
  then have main: "issuing_ready E (mg_signers m) v4 ref pem (ri_cert_pem ri) (?alg ri)" by (rule issuing_ready_kept [OF k4])
  have pair: "tn_key_ref t = ref \<and> tn_cert_pem t = pem \<and> tn_alg t = ?alg ri \<and> tn_id t = tid \<and>
     (hybrid \<longrightarrow> tn_pair_alg t = ri_pair_alg ri \<and> ri_pair_alg ri \<noteq> []) \<and>
     (tn_pair_alg t \<noteq> [] \<longrightarrow> issuing_ready E (mg_signers m) v4 (tn_pair_key_ref t) (tn_pair_cert_pem t) (ri_pair_cert_pem ri) (tn_pair_alg t))"
    using p root3 issue_ca_ready [OF libs m] \<open>ri' = ri\<close>
    by (auto simp: add_pair_ca_def act_elims root_ok_def split: if_splits)
  with main have "tenant_ok E (mg_signers m) v4 ri t" by (simp add: tenant_ok_def)
  then have "tenant_ok E (mg_signers m) w' ri t" by (rule tenant_ok_kept [OF k5])
  moreover have "lookup w' tenants_bucket tid = Some (tenant_json t)"
    using log_event_lookup [OF log, of tenants_bucket] put by (simp add: act_elims lookup_set_doc)
  ultimately show ?thesis using tid none pair by blast
qed

text \<open>
  Claim C15: creating a tenant under a root that can issue makes a new tenant, never replaces one,
  stores what it returns, and leaves issuing CAs that can issue: each CA certificate belongs to the
  key its reference opens and chains to its root.
\<close>

theorem create_tenant_ready:
  assumes libs: "libs_ok E" and m: "manager_ok m"
    and root: "lookup w meta_bucket root_key = Some (root_info_json ri)" "root_ok E (mg_signers m) w ri"
    and run: "create_tenant E m tid name alg hybrid who w = (Inr t, w')"
  shows "tenant_id_ok tid \<and> lookup w tenants_bucket tid = None \<and> lookup w' tenants_bucket tid = Some (tenant_json t) \<and>
    tenant_ok E (mg_signers m) w' ri t \<and> tn_id t = tid \<and> (hybrid \<longrightarrow> tn_pair_alg t = ri_pair_alg ri \<and> ri_pair_alg ri \<noteq> [])"
  by (rule create_tenant_sound [OF libs m root run])

end
