(* ===== verification/Ca_Issue.thy ===== *)
theory Ca_Issue
  imports Ca_Ready
begin

text \<open>
  Issuance and revocation (internal/ca/issue.go): a request is checked against the tenant's profile
  and served from one chain or both; every certificate is stored and audited before it is returned,
  and what a failed request has stored is revoked again.  Revocation lists are built from the stored
  records.
\<close>

section \<open>Definitions\<close>

record issue_request =
  iq_tenant :: string
  iq_profile :: string
  iq_csr :: "cert_request option"
  iq_validity :: int
  iq_chain :: chain
  iq_experimental :: bool
  iq_actor :: actor

record issued =
  is_chain :: chain
  is_cert :: certificate
  is_path :: "certificate list"

text \<open>An error of \<open>issueOne\<close>: plain, or after the record of a serial was stored.\<close>

datatype issue_fail = Failed err | Persisted string err

definition san_summary :: "'x cenv_scheme \<Rightarrow> cert_request \<Rightarrow> string list" where
  "san_summary E csr = csr_dns csr @ csr_emails csr @ map (ip_text E) (csr_ips csr) @ csr_uris csr"

definition zero_record :: cert_record where
  "zero_record = \<lparr>cr_serial = [], cr_tenant = [], cr_profile = [], cr_chain = [], cr_subject_cn = [], cr_sans = [],
     cr_key_alg = [], cr_sig_alg = [], cr_not_before = zero_time, cr_not_after = zero_time, cr_pem = [], cr_revoked = False,
     cr_revoked_at = zero_time, cr_reason_code = 0\<rparr>"

definition unknown_cert :: "string \<Rightarrow> string \<Rightarrow> err \<Rightarrow> err" where
  "unknown_cert tenant serial e = (if is_not_found e
     then errorf (''ca: unknown certificate '' @ serial @ '' in tenant '' @ tenant) else e)"

definition mark_revoked :: "'x cenv_scheme \<Rightarrow> string \<Rightarrow> int \<Rightarrow> cert_record \<Rightarrow> cert_record act" where
  "mark_revoked E serial reason r =
     (if cr_revoked r then fail (errorf (''ca: certificate '' @ serial @ '' already revoked''))
      else ebind (clock E) (\<lambda>t. ret (r\<lparr>cr_revoked := True, cr_revoked_at := t, cr_reason_code := reason\<rparr>)))"

definition revoke_event :: "string \<Rightarrow> actor \<Rightarrow> string \<Rightarrow> int \<Rightarrow> audit_rec" where
  "revoke_event tenant who serial reason = new_event tenant who ''cert.revoke'' \<lparr>ob_type = ''cert'', ob_id = serial\<rparr>
     [(''reason_code'', dec_int reason)]"

definition revoke :: "'x cenv_scheme \<Rightarrow> manager \<Rightarrow> string \<Rightarrow> string \<Rightarrow> int \<Rightarrow> actor \<Rightarrow> unit act" where
  "revoke E m tenant serial reason who =
     ebind (wrap_err (unknown_cert tenant serial)
       (update_json E cert_record_of cert_record_json zero_record (certs_bucket tenant) serial False (mark_revoked E serial reason)))
     (\<lambda>_. log_event E (mg_audit m) (revoke_event tenant who serial reason))"

definition leaf_template :: "nat \<Rightarrow> cert_request \<Rightarrow> int \<Rightarrow> int \<Rightarrow> 16 word \<Rightarrow> nat list \<Rightarrow> cert_template" where
  "leaf_template serial csr not_before not_after ku eku = \<lparr>t_serial = serial, t_subject = RawSubject (csr_raw_subject csr),
     t_not_before = not_before, t_not_after = not_after, t_is_ca = False, t_max_path_zero = False, t_key_usage = ku, t_eku = eku,
     t_dns = csr_dns csr, t_emails = csr_emails csr, t_ips = csr_ips csr, t_uris = csr_uris csr, t_ski = [], t_aki = [],
     t_sig_alg = []\<rparr>"

text \<open>The part of \<open>issueOne\<close> that makes the certificate: the leaf and its path.\<close>

definition issuing_part :: "tenant \<Rightarrow> root_info \<Rightarrow> chain \<Rightarrow> key_ref \<times> string \<times> string" where
  "issuing_part t ri target = (if target = chain_pair then (tn_pair_key_ref t, tn_pair_cert_pem t, ri_pair_cert_pem ri)
     else (tn_key_ref t, tn_cert_pem t, ri_cert_pem ri))"

definition issue_leaf :: "'x cenv_scheme \<Rightarrow> manager \<Rightarrow> tenant \<Rightarrow> root_info \<Rightarrow> profile \<Rightarrow> cert_request \<Rightarrow> chain \<Rightarrow> int \<Rightarrow>
    (nat \<times> certificate \<times> certificate \<times> certificate) act" where
  "issue_leaf E m t ri p csr target validity = (case issuing_part t ri target of (key_ref, cert_pem, root_pem) \<Rightarrow>
     ebind (lift_sum (parse_certificate_pem E cert_pem)) (\<lambda>issuing.
     ebind (lift_sum (parse_certificate_pem E root_pem)) (\<lambda>root_cert.
     ebind (registry_open E (mg_signers m) key_ref) (\<lambda>signer.
     ebind (new_serial E) (\<lambda>serial.
     ebind (lift_sum (ext_key_usages p)) (\<lambda>eku.
     ebind (lift_sum (key_usage p)) (\<lambda>ku.
     ebind (clock E) (\<lambda>t1.
     ebind (clock E) (\<lambda>t2.
     ebind (wrap_err (wrapf ''ca: signing certificate: '')
       (create_certificate E (leaf_template serial csr (t1 - five_minutes) (t2 + validity) ku eku)
         (Some issuing) (csr_pub csr) (sg_key signer) (crt_pub_alg issuing))) (\<lambda>cert.
       ret (serial, cert, issuing, root_cert)))))))))))"

definition leaf_record :: "'x cenv_scheme \<Rightarrow> tenant \<Rightarrow> profile \<Rightarrow> cert_request \<Rightarrow> chain \<Rightarrow> nat \<Rightarrow> certificate \<Rightarrow> cert_record" where
  "leaf_record E t p csr target serial cert = \<lparr>cr_serial = dec serial, cr_tenant = tn_id t, cr_profile = pf_name p,
     cr_chain = target, cr_subject_cn = csr_cn csr, cr_sans = san_summary E csr, cr_key_alg = crt_pub_alg cert,
     cr_sig_alg = crt_alg cert, cr_not_before = xc_not_before (crt_x509 cert), cr_not_after = xc_not_after (crt_x509 cert),
     cr_pem = encode_certificate_pem E cert, cr_revoked = False, cr_revoked_at = zero_time, cr_reason_code = 0\<rparr>"

definition issue_event :: "'x cenv_scheme \<Rightarrow> actor \<Rightarrow> cert_record \<Rightarrow> audit_rec" where
  "issue_event E who r = new_event (cr_tenant r) who ''cert.issue'' \<lparr>ob_type = ''cert'', ob_id = cr_serial r\<rparr>
     [(''cn'', cr_subject_cn r), (''sans'', join_with '','' (cr_sans r)), (''profile'', cr_profile r), (''chain'', cr_chain r),
      (''key_alg'', cr_key_alg r), (''sig_alg'', cr_sig_alg r), (''not_after'', time_text E (cr_not_after r))]"

definition issue_one :: "'x cenv_scheme \<Rightarrow> manager \<Rightarrow> tenant \<Rightarrow> root_info \<Rightarrow> profile \<Rightarrow> cert_request \<Rightarrow> actor \<Rightarrow> chain \<Rightarrow> int \<Rightarrow>
    (world, issue_fail, issued) action" where
  "issue_one E m t ri p csr who target validity =
     ecase (issue_leaf E m t ri p csr target validity) (\<lambda>e. fail (Failed e)) (\<lambda>(serial, cert, issuing, root_cert).
     let r = leaf_record E t p csr target serial cert in
     ecase (put_json E cert_record_json (certs_bucket (tn_id t)) (cr_serial r) r) (\<lambda>e. fail (Failed e)) (\<lambda>_.
     ecase (log_event E (mg_audit m) (issue_event E who r))
       (\<lambda>e. fail (Persisted (cr_serial r) (wrapf ''ca: audit append failed, withholding certificate: '' e)))
       (\<lambda>_. ret \<lparr>is_chain = target, is_cert = cert, is_path = [cert, issuing, root_cert]\<rparr>)))"

definition reason_cessation_of_operation :: int where "reason_cessation_of_operation = 5"

text \<open>One step of the compensating revocation: the serials revoked and those left issued.\<close>

definition try_revoke :: "'x cenv_scheme \<Rightarrow> manager \<Rightarrow> string \<Rightarrow> actor \<Rightarrow> string list \<times> string list \<Rightarrow> string \<Rightarrow>
    (string list \<times> string list) act" where
  "try_revoke E m tenant who acc serial = ecase (revoke E m tenant serial reason_cessation_of_operation who)
     (\<lambda>_. ret (fst acc, snd acc @ [serial])) (\<lambda>_. ret (fst acc @ [serial], snd acc))"

definition abandon_note :: "string list \<Rightarrow> string list \<Rightarrow> string" where
  "abandon_note revoked stuck =
     (if revoked \<noteq> [] then ''; revoked already-issued serial(s) '' @ join_with '','' revoked else []) @
     (if stuck \<noteq> [] then ''; WARNING: serial(s) '' @ join_with '','' stuck @ '' remain issued and could not be revoked''
      else ''; no issued serial remains valid'')"

definition abandon_issued :: "'x cenv_scheme \<Rightarrow> manager \<Rightarrow> actor \<Rightarrow> string \<Rightarrow> string list \<Rightarrow> err \<Rightarrow> err act" where
  "abandon_issued E m who tenant serials cause =
     (if serials = [] then ret cause
      else ebind (efold (try_revoke E m tenant who) ([], []) serials) (\<lambda>(revoked, stuck).
      ecase (log_event E (mg_audit m) (new_event tenant who ''cert.issue.abandoned''
          \<lparr>ob_type = ''cert'', ob_id = join_with '','' serials\<rparr>
          [(''revoked'', join_with '','' revoked), (''left_issued'', join_with '','' stuck), (''cause'', text_of cause)]))
        (\<lambda>_. ret (Err (sentinel_of cause) (text_of cause @ abandon_note revoked stuck)))
        (\<lambda>_. ret (Err (sentinel_of cause) (text_of cause @ abandon_note revoked stuck)))))"

definition issued_serial :: "issued \<Rightarrow> string" where
  "issued_serial i = dec (xc_serial (crt_x509 (is_cert i)))"

text \<open>The loop over the target chains.\<close>

fun issue_targets :: "'x cenv_scheme \<Rightarrow> manager \<Rightarrow> tenant \<Rightarrow> root_info \<Rightarrow> profile \<Rightarrow> cert_request \<Rightarrow> actor \<Rightarrow> int \<Rightarrow> issued list \<Rightarrow>
    chain list \<Rightarrow> issued list act" where
  "issue_targets E m t ri p csr who validity out [] = ret out"
| "issue_targets E m t ri p csr who validity out (target # rest) =
     ecase (issue_one E m t ri p csr who target validity)
       (\<lambda>f. ebind (case f of
           Failed e \<Rightarrow> abandon_issued E m who (tn_id t) (map issued_serial out) e
         | Persisted serial e \<Rightarrow> abandon_issued E m who (tn_id t) (map issued_serial out @ [serial]) e) fail)
       (\<lambda>i. issue_targets E m t ri p csr who validity (out @ [i]) rest)"

text \<open>The checks of \<open>Issue\<close> before anything is made.\<close>

definition select_profile :: "tenant \<Rightarrow> string \<Rightarrow> err + profile" where
  "select_profile t name = (let name' = (if name = [] then ''default'' else name) in
     case jfind (tn_profiles t) name' of
       None \<Rightarrow> Inl (errorf (''ca: tenant '' @ quoted (tn_id t) @ '' has no profile '' @ quoted name'))
     | Some p \<Rightarrow> Inr p)"

definition check_request :: "'x cenv_scheme \<Rightarrow> profile \<Rightarrow> cert_request option \<Rightarrow> bool \<Rightarrow> err + cert_request" where
  "check_request E p req_csr experimental = (case req_csr of
     None \<Rightarrow> Inl (errorf ''ca: missing CSR'')
   | Some csr \<Rightarrow> sbind (wrap_sum ''ca: CSR signature invalid: '' (csr_check_signature E csr)) (\<lambda>_.
      sbind (lookup_alg (csr_pub_alg csr)) (\<lambda>i.
        if i_experimental i \<and> \<not> experimental then Inl err_experimental_composite
        else if pf_allowed_key_algs p \<noteq> [] \<and> csr_pub_alg csr \<notin> set (pf_allowed_key_algs p)
        then Inl (errorf (''ca: profile '' @ quoted (pf_name p) @ '' does not allow key algorithm '' @ quoted (csr_pub_alg csr)))
        else Inr csr)))"

definition clamp_validity :: "profile \<Rightarrow> int \<Rightarrow> int" where
  "clamp_validity p v = min (if v = 0 then pf_default_validity p else v) (pf_max_validity p)"

definition select_chain :: "profile \<Rightarrow> chain \<Rightarrow> chain" where
  "select_chain p c = (if c \<noteq> [] then c else if pf_hybrid p \<noteq> [] then pf_hybrid p else chain_primary)"

definition target_chains :: "tenant \<Rightarrow> chain \<Rightarrow> err + chain list" where
  "target_chains t c =
     (if (c = chain_pair \<or> c = chain_both) \<and> tn_pair_alg t = []
      then Inl (errorf (''ca: tenant '' @ quoted (tn_id t) @ '' has no pair chain''))
      else if c = chain_primary then Inr [chain_primary]
      else if c = chain_pair then Inr [chain_pair]
      else if c = chain_both then Inr [chain_primary, chain_pair]
      else Inl (errorf (''ca: invalid chain '' @ quoted c)))"

definition issue :: "'x cenv_scheme \<Rightarrow> manager \<Rightarrow> issue_request \<Rightarrow> issued list act" where
  "issue E m req =
     ebind (get_tenant E (iq_tenant req)) (\<lambda>t.
     ebind (lift_sum (select_profile t (iq_profile req))) (\<lambda>p.
     ebind (lift_sum (check_request E p (iq_csr req) (iq_experimental req))) (\<lambda>csr.
     ebind (lift_sum (target_chains t (select_chain p (iq_chain req)))) (\<lambda>targets.
     ebind (root E) (\<lambda>ri.
       issue_targets E m t ri p csr (iq_actor req) (clamp_validity p (iq_validity req)) [] targets)))))"

definition list_certificates :: "'x cenv_scheme \<Rightarrow> string \<Rightarrow> cert_record list act" where
  "list_certificates E tenant = ebind (get_tenant E tenant) (\<lambda>_.
     for_each_json E cert_record_of (certs_bucket tenant) (\<lambda>out k r. Inr (out @ [r])) [])"

definition get_certificate :: "'x cenv_scheme \<Rightarrow> string \<Rightarrow> string \<Rightarrow> cert_record act" where
  "get_certificate E tenant serial =
     wrap_err (unknown_cert tenant serial) (get_json E cert_record_of (certs_bucket tenant) serial)"

section \<open>Revocation lists\<close>

definition chain_or_primary :: "chain \<Rightarrow> chain" where
  "chain_or_primary c = (if c = [] then chain_primary else c)"

text \<open>\<open>big.Int.SetString\<close> at base 10: an optional sign and digits.\<close>

definition parse_serial :: "string \<Rightarrow> int option" where
  "parse_serial s = (case s of
     [] \<Rightarrow> None
   | c # r \<Rightarrow> if c = CHR ''-'' then map_option (\<lambda>n. - int n) (undec r)
       else if c = CHR ''+'' then map_option int (undec r) else map_option int (undec s))"

definition collect_revoked :: "chain \<Rightarrow> revoked_entry list \<Rightarrow> string \<Rightarrow> cert_record \<Rightarrow> err + revoked_entry list" where
  "collect_revoked chain out k r =
     (if \<not> cr_revoked r \<or> cr_chain r \<noteq> chain_or_primary chain then Inr out
      else case parse_serial (cr_serial r) of
        None \<Rightarrow> Inl (errorf (''ca: corrupt serial '' @ quoted (cr_serial r)))
      | Some s \<Rightarrow> Inr (out @ [\<lparr>re_serial = s, re_time = cr_revoked_at r, re_reason = cr_reason_code r\<rparr>]))"

definition crl_issuer :: "tenant \<Rightarrow> chain \<Rightarrow> err + key_ref \<times> string" where
  "crl_issuer t chain =
     (if chain = chain_pair
      then if tn_pair_alg t = [] then Inl (errorf (''ca: tenant '' @ quoted (tn_id t) @ '' has no pair chain''))
        else Inr (tn_pair_key_ref t, tn_pair_cert_pem t)
      else Inr (tn_key_ref t, tn_cert_pem t))"

definition crl_event :: "string \<Rightarrow> actor \<Rightarrow> u64 \<Rightarrow> nat \<Rightarrow> chain \<Rightarrow> audit_rec" where
  "crl_event tenant who num n chain = new_event tenant who ''crl.publish'' \<lparr>ob_type = ''crl'', ob_id = dec (unat num)\<rparr>
     [(''revoked_count'', dec n), (''chain'', chain_or_primary chain)]"

definition build_crl :: "'x cenv_scheme \<Rightarrow> manager \<Rightarrow> string \<Rightarrow> chain \<Rightarrow> actor \<Rightarrow> crl act" where
  "build_crl E m tenant chain who =
     ebind (get_tenant E tenant) (\<lambda>t.
     ebind (lift_sum (crl_issuer t chain)) (\<lambda>(key_ref, cert_pem).
     ebind (lift_sum (parse_certificate_pem E cert_pem)) (\<lambda>issuing.
     ebind (registry_open E (mg_signers m) key_ref) (\<lambda>signer.
     ebind (for_each_json E cert_record_of (certs_bucket tenant) (collect_revoked chain) []) (\<lambda>revoked.
     ebind (next_seq E (crl_bucket tenant)) (\<lambda>num.
     ebind (clock E) (\<lambda>t1.
     ebind (clock E) (\<lambda>t2.
     ebind (create_crl E issuing (sg_key signer) (crt_pub_alg issuing) revoked (uint num) t1 (t2 + one_day)) (\<lambda>c.
     ebind (log_event E (mg_audit m) (crl_event tenant who num (length revoked) chain)) (\<lambda>_.
       ret c))))))))))"

end
