(* ===== verification/Ca_Issued.thy ===== *)
theory Ca_Issued
  imports Ca_Issue
begin

text \<open>
  What issuance promises: every certificate a successful request returns is chained to the root,
  carries the requested key, is dated within the profile's bound, stored and audited.
\<close>

section \<open>Frames\<close>

interpretation ticks: world_contract "\<lambda>w w'. tick w \<le> tick w'"
  by unfold_locales auto

context world_contract
begin

lemma steps_serial: "steps R (new_serial E)"
  unfolding new_serial_def by (intro world_rules)

lemma steps_issue_leaf: "steps R (issue_leaf E m t ri p csr target validity)"
  unfolding issue_leaf_def issuing_part_def by (intro ca_rules steps_serial)

end

lemma ticks_log: "steps (\<lambda>w w'. tick w \<le> tick w') (log_event E a r)"
proof -
  have "steps (\<lambda>w w'. tick w \<le> tick w') (store_log E l r)" for l
    unfolding store_log_def claim_head_def write_record_def advance_head_def
    by (intro ticks.store_rules ticks.steps_seal_record) simp_all
  moreover have "steps (\<lambda>w w'. tick w \<le> tick w') (file_log E l r)" for l
    unfolding file_log_def append_line_def fsync_def
    by (intro ticks.world_rules ticks.steps_seal_record ticks.steps_pure) simp_all
  ultimately show ?thesis by (cases a) (simp_all add: ticks.steps_ret)
qed

lemma clock_Inr: "clock E w = (Inr t, w') \<longleftrightarrow> t = now_at E (tick w) \<and> w' = advance w"
  by (auto simp: clock_def)

section \<open>What a returned certificate is\<close>

text \<open>
  The leaf has the requested key, is no CA, and its path, of certificates that parse, verifies at every
  instant inside their validity.
\<close>

definition leaf_good :: "'x cenv_scheme \<Rightarrow> cert_request \<Rightarrow> issued \<Rightarrow> bool" where
  "leaf_good E csr i \<longleftrightarrow> crt_pub (is_cert i) = csr_pub csr \<and> \<not> xc_is_ca (crt_x509 (is_cert i)) \<and> hd (is_path i) = is_cert i \<and>
     (\<forall>now. (\<forall>c \<in> set (is_path i). xc_not_before (crt_x509 c) \<le> now \<and> now \<le> xc_not_after (crt_x509 c)) \<longrightarrow>
        verify_chain E (is_path i) now = Inr ()) \<and>
     is_path i \<noteq> [] \<and> (\<forall>c \<in> set (is_path i). parse_certificate E (crt_raw c) = Inr c)"

text \<open>It starts five minutes before one reading of the clock and ends the validity after a later one.\<close>

definition leaf_dated :: "'x cenv_scheme \<Rightarrow> world \<Rightarrow> world \<Rightarrow> int \<Rightarrow> issued \<Rightarrow> bool" where
  "leaf_dated E w w' v i \<longleftrightarrow> (\<exists>k k'. tick w \<le> k \<and> k < k' \<and> k' < tick w' \<and>
     xc_not_before (crt_x509 (is_cert i)) = sec_floor (now_at E k - five_minutes) \<and>
     xc_not_after (crt_x509 (is_cert i)) = sec_floor (now_at E k' + v))"

definition leaf_recorded :: "'x cenv_scheme \<Rightarrow> world \<Rightarrow> tenant \<Rightarrow> profile \<Rightarrow> issued \<Rightarrow> bool" where
  "leaf_recorded E w t p i \<longleftrightarrow> (\<exists>r. lookup w (certs_bucket (tn_id t)) (issued_serial i) = Some (cert_record_json r) \<and>
     \<not> cr_revoked r \<and> cr_serial r = issued_serial i \<and> cr_tenant r = tn_id t \<and> cr_chain r = is_chain i \<and>
     cr_profile r = pf_name p \<and> cr_pem r = encode_certificate_pem E (is_cert i))"

definition leaf_audited :: "audit_log \<Rightarrow> world \<Rightarrow> actor \<Rightarrow> tenant \<Rightarrow> issued \<Rightarrow> bool" where
  "leaf_audited a w who t i \<longleftrightarrow> (\<exists>s. logged a w s \<and> ar_action s = ''cert.issue'' \<and> ar_actor s = who \<and>
     ar_tenant s = tn_id t \<and> ar_object s = \<lparr>ob_type = ''cert'', ob_id = issued_serial i\<rparr>)"

lemma path_verifies:
  assumes "check_signature_from E c i = Inr ()" "xc_is_ca (crt_x509 i)" "check_signature_from E i r = Inr ()"
    "xc_is_ca (crt_x509 r)" "check_signature_from E r r = Inr ()"
    and "\<forall>x \<in> {c, i, r}. xc_not_before (crt_x509 x) \<le> now \<and> now \<le> xc_not_after (crt_x509 x)"
  shows "verify_chain E [c, i, r] now = Inr ()"
  using assms by (auto simp: verify_chain_def not_less [symmetric])

lemma parse_pem_again: "parse_certificate_pem E pem = Inr c \<Longrightarrow> parse_certificate E (crt_raw c) = Inr c"
  by (auto simp: parse_certificate_pem_def act_elims intro: parse_certificate_again)

lemma issue_leaf_sound:
  assumes libs: "libs_ok E" and ten: "tenant_ok E (mg_signers m) w ri t" and pair: "target = chain_pair \<Longrightarrow> tn_pair_alg t \<noteq> []"
    and pub: "wf_pub E (csr_pub csr)"
    and run: "issue_leaf E m t ri p csr target v w = (Inr (serial, cert, issuing, rc), w')"
  shows "leaf_good E csr \<lparr>is_chain = target, is_cert = cert, is_path = [cert, issuing, rc]\<rparr> \<and>
    leaf_dated E w w' v \<lparr>is_chain = target, is_cert = cert, is_path = [cert, issuing, rc]\<rparr> \<and> xc_serial (crt_x509 cert) = serial"
proof -
  obtain ref pem rp where part: "issuing_part t ri target = (ref, pem, rp)" by (cases "issuing_part t ri target")
  then obtain alg where "issuing_ready E (mg_signers m) w ref pem rp alg"
    using ten pair by (auto simp: issuing_part_def tenant_ok_def split: if_splits)
  then obtain s ic rc' where ca: "ca_ready E (mg_signers m) w ref pem s ic" and root: "parse_certificate_pem E rp = Inr rc'"
    "xc_is_ca (crt_x509 rc')" "check_signature_from E ic rc' = Inr ()" "check_signature_from E rc' rc' = Inr ()"
    by (auto simp: issuing_ready_def)
  obtain s' v1 v2 eku ku where o: "registry_open E (mg_signers m) ref w = (Inr s', v1)"
    and n: "new_serial E v1 = (Inr serial, v2)"
    and c: "create_certificate E (leaf_template serial csr (now_at E (tick v2) - five_minutes) (now_at E (Suc (tick v2)) + v) ku eku)
         (Some ic) (csr_pub csr) (sg_key s') (crt_pub_alg ic) (advance (advance v2)) = (Inr cert, w')"
    and eqs: "issuing = ic" "rc = rc'"
    using run ca root(1) by (auto simp: issue_leaf_def part act_elims ca_ready_def clock_Inr)
  have s: "s' = s" using holds_key_opened [OF _ o] ca by (auto simp: ca_ready_def)
  have key: "wf_key (sg_key s)" "algorithm_for_key (public_of (sg_key s)) = Inr (crt_pub_alg ic)" "prims_correct E (sg_key s)"
    using ca by (simp_all add: ca_ready_def fit_key_def)
  have iss: "case Some ic of None \<Rightarrow> csr_pub csr = public_of (sg_key s) | Some i \<Rightarrow> crt_pub i = public_of (sg_key s)"
    using ca by (simp add: ca_ready_def)
  note cc = created_certificate [OF libs_okD(3-5) [OF libs] key pub iss c [unfolded s]]
  have "tick w \<le> tick v2" using stepsD [OF ticks.steps_registry_open o] stepsD [OF ticks.steps_serial n] by simp
  moreover have "Suc (Suc (tick v2)) \<le> tick w'" using stepsD [OF ticks.steps_create_certificate c] by simp
  ultimately have "leaf_dated E w w' v \<lparr>is_chain = target, is_cert = cert, is_path = [cert, issuing, rc]\<rparr>"
    using cc unfolding leaf_dated_def by (intro exI [of _ "tick v2"] exI [of _ "Suc (tick v2)"]) (simp add: leaf_template_def)
  moreover have "leaf_good E csr \<lparr>is_chain = target, is_cert = cert, is_path = [cert, issuing, rc]\<rparr>"
    using cc root ca path_verifies [of E cert ic rc'] create_certificate_parsed [OF c] parse_pem_again [OF root(1)]
      parse_pem_again [of E pem ic] by (simp add: leaf_good_def leaf_template_def eqs ca_ready_def)
  ultimately show ?thesis using cc by (simp add: leaf_template_def)
qed

section \<open>One certificate\<close>

lemma issue_one_Inr:
  assumes "issue_one E m t ri p csr who target v w = (Inr i, w')"
  obtains serial cert issuing rc w1 w2 where "issue_leaf E m t ri p csr target v w = (Inr (serial, cert, issuing, rc), w1)"
    "w2 = set_doc (advance w1) (certs_bucket (tn_id t)) (dec serial) (cert_record_json (leaf_record E t p csr target serial cert))"
    "log_event E (mg_audit m) (issue_event E who (leaf_record E t p csr target serial cert)) w2 = (Inr (), w')"
    "i = \<lparr>is_chain = target, is_cert = cert, is_path = [cert, issuing, rc]\<rparr>"
  using assms by (auto simp: issue_one_def ecase_eq_iff Let_def put_json_Inr leaf_record_def)

lemma keeps_certs_doc [simp]: "keeps_keys w (set_doc w (certs_bucket t) k d)"
  by (simp add: certs_bucket_def keys_bucket_def)

lemma issue_one_sound:
  assumes libs: "libs_ok E" and ten: "tenant_ok E (mg_signers m) w ri t" and pair: "target = chain_pair \<Longrightarrow> tn_pair_alg t \<noteq> []"
    and pub: "wf_pub E (csr_pub csr)" and run: "issue_one E m t ri p csr who target v w = (Inr i, w')"
  shows "is_chain i = target \<and> leaf_good E csr i \<and> leaf_dated E w w' v i \<and> leaf_recorded E w' t p i \<and>
    (\<forall>b k. b \<notin> log_buckets \<longrightarrow> (b, k) \<noteq> (certs_bucket (tn_id t), issued_serial i) \<longrightarrow> lookup w' b k = lookup w b k) \<and> keeps_keys w w'"
proof -
  from run obtain serial cert issuing rc w1 w2 where leaf: "issue_leaf E m t ri p csr target v w = (Inr (serial, cert, issuing, rc), w1)"
    and w2: "w2 = set_doc (advance w1) (certs_bucket (tn_id t)) (dec serial) (cert_record_json (leaf_record E t p csr target serial cert))"
    and log: "log_event E (mg_audit m) (issue_event E who (leaf_record E t p csr target serial cert)) w2 = (Inr (), w')"
    and i: "i = \<lparr>is_chain = target, is_cert = cert, is_path = [cert, issuing, rc]\<rparr>" by (rule issue_one_Inr)
  note good = issue_leaf_sound [OF libs ten pair pub leaf, folded i]
  have ser: "issued_serial i = dec serial" using good by (simp add: issued_serial_def i)
  have same: "lookup w1 = lookup w" using stepsD [OF only.steps_issue_leaf [of "{}"] leaf]
    by (auto simp: only_buckets_def fun_eq_iff)
  have look: "lookup w' b k = (if (b, k) = (certs_bucket (tn_id t), dec serial)
      then Some (cert_record_json (leaf_record E t p csr target serial cert)) else lookup w b k)" if "b \<notin> log_buckets" for b k
    using log_event_lookup [OF log that] by (simp add: w2 lookup_set_doc same)
  have "leaf_recorded E w' t p i"
    unfolding leaf_recorded_def ser
    by (intro exI [of _ "leaf_record E t p csr target serial cert"]) (simp add: look i leaf_record_def)
  moreover have "tick w1 \<le> tick w'" using stepsD [OF ticks_log log] by (simp add: w2)
  then have "leaf_dated E w w' v i" using good unfolding leaf_dated_def by (meson less_le_trans)
  moreover have "keeps_keys w1 w2" unfolding w2 by (rule keeps_keys.contract_trans [OF keeps_keys.advance_ok keeps_certs_doc])
  then have "keeps_keys w w'" using stepsD [OF keeps_keys.steps_issue_leaf leaf] stepsD [OF keeps_keys_log log]
    by (blast intro: keeps_keys.contract_trans)
  moreover have "\<forall>b k. b \<notin> log_buckets \<longrightarrow> (b, k) \<noteq> (certs_bucket (tn_id t), issued_serial i) \<longrightarrow> lookup w' b k = lookup w b k"
    by (simp add: look ser)
  moreover have "is_chain i = target" by (simp add: i)
  ultimately show ?thesis using good by blast
qed

lemma issue_one_log:
  assumes run: "issue_one E m t ri p csr who target v w = (Inr i, w')"
    and s: "\<And>serial cert issuing rc v'. issue_leaf E m t ri p csr target v w = (Inr (serial, cert, issuing, rc), v') \<Longrightarrow> xc_serial (crt_x509 cert) = serial"
  shows "(mg_audit m \<noteq> NopLog \<longrightarrow> leaf_audited (mg_audit m) w' who t i) \<and>
    (log_room (mg_audit m) (Suc n) w \<longrightarrow> log_room (mg_audit m) n w' \<and> (\<forall>x. logged (mg_audit m) w x \<longrightarrow> logged (mg_audit m) w' x))"
proof -
  from run obtain serial cert issuing rc w1 w2 where leaf: "issue_leaf E m t ri p csr target v w = (Inr (serial, cert, issuing, rc), w1)"
    and w2: "w2 = set_doc (advance w1) (certs_bucket (tn_id t)) (dec serial) (cert_record_json (leaf_record E t p csr target serial cert))"
    and log: "log_event E (mg_audit m) (issue_event E who (leaf_record E t p csr target serial cert)) w2 = (Inr (), w')"
    and i: "i = \<lparr>is_chain = target, is_cert = cert, is_path = [cert, issuing, rc]\<rparr>" by (rule issue_one_Inr)
  have "same log_view w w1" using stepsD [OF log_view.steps_issue_leaf leaf] .
  moreover have "same log_view w1 w2" unfolding w2
    by (rule same.contract_trans [OF log_view.advance_ok log_view_set_doc]) simp
  ultimately have same: "same log_view w w2" by (rule same.contract_trans)
  have a: "mg_audit m \<noteq> NopLog \<Longrightarrow> leaf_audited (mg_audit m) w' who t i"
    using log_event_logged [OF _ _ log] s [OF leaf]
    by (auto simp: leaf_audited_def issue_event_def event_of_def new_event_def leaf_record_def issued_serial_def i)
  have b: "log_room (mg_audit m) n w'" if "log_room (mg_audit m) (Suc n) w"
    by (rule log_event_room [OF _ log]) (simp only: same_log_view [OF same] that)
  have c: "logged (mg_audit m) w' x" if "log_room (mg_audit m) (Suc n) w" "logged (mg_audit m) w x" for x
    by (rule log_event_keeps [OF _ _ log, of n]) (simp_all only: same_log_view [OF same] that)
  show ?thesis by (intro conjI impI allI) (erule a, erule b, erule (1) c)
qed

section \<open>All requested chains\<close>

lemma leaf_dated_mono: "leaf_dated E w1 w2 v i \<Longrightarrow> tick w \<le> tick w1 \<Longrightarrow> tick w2 \<le> tick w' \<Longrightarrow> leaf_dated E w w' v i"
  unfolding leaf_dated_def by (meson le_trans less_le_trans)

lemma ticks_issue_one: "issue_one E m t ri p csr who target v w = (r, w') \<Longrightarrow> tick w \<le> tick w'"
  by (erule stepsD [rotated]) (auto simp: issue_one_def Let_def intro!: ticks.store_rules ticks.steps_issue_leaf ticks_log)

lemma issue_targets_sound:
  assumes libs: "libs_ok E" and pub: "wf_pub E (csr_pub csr)"
  shows "tenant_ok E (mg_signers m) w ri t \<Longrightarrow> (chain_pair \<in> set targets \<longrightarrow> tn_pair_alg t \<noteq> []) \<Longrightarrow>
    issue_targets E m t ri p csr who v out targets w = (Inr res, w') \<Longrightarrow>
    \<exists>new. res = out @ new \<and> map is_chain new = targets \<and> tick w \<le> tick w' \<and>
      (\<forall>i \<in> set new. leaf_good E csr i \<and> leaf_dated E w w' v i) \<and>
      (distinct (map issued_serial new) \<longrightarrow> (\<forall>i \<in> set new. leaf_recorded E w' t p i)) \<and>
      (\<forall>b k. b \<notin> log_buckets \<longrightarrow> (b, k) \<notin> Pair (certs_bucket (tn_id t)) ` issued_serial ` set new \<longrightarrow> lookup w' b k = lookup w b k)"
proof (induction targets arbitrary: out w)
  case Nil
  then show ?case by auto
next
  case (Cons target rest)
  from Cons.prems(3) obtain i w1 where one: "issue_one E m t ri p csr who target v w = (Inr i, w1)"
    and rest: "issue_targets E m t ri p csr who v (out @ [i]) rest w1 = (Inr res, w')"
    by (auto simp: ecase_eq_iff ebind_Inr_iff split: issue_fail.splits)
  have "target = chain_pair \<Longrightarrow> tn_pair_alg t \<noteq> []" using Cons.prems(2) by simp
  note first = issue_one_sound [OF libs Cons.prems(1) this pub one]
  have ten: "tenant_ok E (mg_signers m) w1 ri t" using tenant_ok_kept Cons.prems(1) first by blast
  have pair: "chain_pair \<in> set rest \<longrightarrow> tn_pair_alg t \<noteq> []" using Cons.prems(2) by simp
  obtain new where new: "res = (out @ [i]) @ new" "map is_chain new = rest" "tick w1 \<le> tick w'"
      "\<forall>i \<in> set new. leaf_good E csr i \<and> leaf_dated E w1 w' v i"
      "distinct (map issued_serial new) \<longrightarrow> (\<forall>i \<in> set new. leaf_recorded E w' t p i)"
      "\<forall>b k. b \<notin> log_buckets \<longrightarrow> (b, k) \<notin> Pair (certs_bucket (tn_id t)) ` issued_serial ` set new \<longrightarrow> lookup w' b k = lookup w1 b k"
    using Cons.IH [OF ten pair rest] by (elim exE conjE) (rule that; assumption)
  have tick: "tick w \<le> tick w1" by (rule ticks_issue_one [OF one])
  have "leaf_recorded E w' t p i" if "issued_serial i \<notin> issued_serial ` set new"
  proof -
    have "lookup w' (certs_bucket (tn_id t)) (issued_serial i) = lookup w1 (certs_bucket (tn_id t)) (issued_serial i)"
      by (rule new(6) [rule_format]) (use that in auto)
    moreover have "leaf_recorded E w1 t p i" using first by blast
    ultimately show ?thesis by (simp add: leaf_recorded_def)
  qed
  then have rec: "distinct (map issued_serial (i # new)) \<longrightarrow> (\<forall>j \<in> set (i # new). leaf_recorded E w' t p j)"
    using new(5) by auto
  have dated: "\<forall>j \<in> set (i # new). leaf_good E csr j \<and> leaf_dated E w w' v j"
    using first new(3,4) tick leaf_dated_mono [of E w w1 v i w w'] leaf_dated_mono [of E w1 w' v _ w w'] by auto
  have frame: "\<forall>b k. b \<notin> log_buckets \<longrightarrow> (b, k) \<notin> Pair (certs_bucket (tn_id t)) ` issued_serial ` set (i # new) \<longrightarrow> lookup w' b k = lookup w b k"
  proof (intro allI impI)
    fix b k assume a: "b \<notin> log_buckets" "(b, k) \<notin> Pair (certs_bucket (tn_id t)) ` issued_serial ` set (i # new)"
    then have "lookup w' b k = lookup w1 b k" using new(6) by auto
    also have "\<dots> = lookup w b k" using first a by auto
    finally show "lookup w' b k = lookup w b k" .
  qed
  show ?case
    using new(1,2,3) first tick rec dated frame by (intro exI [of _ "i # new"]) auto
qed

lemma issue_targets_audited:
  assumes libs: "libs_ok E" and pub: "wf_pub E (csr_pub csr)" and a: "mg_audit m \<noteq> NopLog"
  shows "tenant_ok E (mg_signers m) w ri t \<Longrightarrow> (chain_pair \<in> set targets \<longrightarrow> tn_pair_alg t \<noteq> []) \<Longrightarrow>
    issue_targets E m t ri p csr who v out targets w = (Inr res, w') \<Longrightarrow> log_room (mg_audit m) (length targets) w \<Longrightarrow>
    \<forall>i \<in> set out. leaf_audited (mg_audit m) w who t i \<Longrightarrow> \<forall>i \<in> set res. leaf_audited (mg_audit m) w' who t i"
proof (induction targets arbitrary: out w)
  case (Cons target rest)
  from Cons.prems(3) obtain i w1 where one: "issue_one E m t ri p csr who target v w = (Inr i, w1)"
    and rest: "issue_targets E m t ri p csr who v (out @ [i]) rest w1 = (Inr res, w')"
    by (auto simp: ecase_eq_iff ebind_Inr_iff split: issue_fail.splits)
  have p: "target = chain_pair \<Longrightarrow> tn_pair_alg t \<noteq> []" using Cons.prems(2) by simp
  note first = issue_one_sound [OF libs Cons.prems(1) p pub one]
  have ten: "tenant_ok E (mg_signers m) w1 ri t" using tenant_ok_kept Cons.prems(1) first by blast
  have pair: "chain_pair \<in> set rest \<longrightarrow> tn_pair_alg t \<noteq> []" using Cons.prems(2) by simp
  have serial: "issue_leaf E m t ri p csr target v w = (Inr (serial, cert, issuing, rc), v') \<Longrightarrow> xc_serial (crt_x509 cert) = serial"
    for serial cert issuing rc v' using issue_leaf_sound [OF libs Cons.prems(1) p pub] by blast
  have log: "leaf_audited (mg_audit m) w1 who t i" "log_room (mg_audit m) (length rest) w1"
      "\<And>x. logged (mg_audit m) w x \<Longrightarrow> logged (mg_audit m) w1 x"
    using issue_one_log [where n = "length rest", OF one serial] a Cons.prems(4) by auto
  have "leaf_audited (mg_audit m) w1 who t j" if "j \<in> set out" for j
    using Cons.prems(5) that log(3) unfolding leaf_audited_def by meson
  with log(1) have "\<forall>j \<in> set (out @ [i]). leaf_audited (mg_audit m) w1 who t j" by auto
  with Cons.IH [OF ten pair rest log(2)] show ?case by blast
qed simp

section \<open>Requests\<close>

lemma target_chains_pair: "target_chains t c = Inr cs \<Longrightarrow> chain_pair \<in> set cs \<longrightarrow> tn_pair_alg t \<noteq> []"
  by (auto simp: target_chains_def split: if_splits)

lemma issue_Inr:
  assumes "issue E m req w = (Inr out, w')" and "lookup w tenants_bucket (iq_tenant req) = Some d" "tenant_of d = Some t"
    and "lookup w meta_bucket root_key = Some (root_info_json ri)"
  obtains p csr cs w1 where "select_profile t (iq_profile req) = Inr p" "check_request E p (iq_csr req) (iq_experimental req) = Inr csr"
    "iq_csr req = Some csr" "target_chains t (select_chain p (iq_chain req)) = Inr cs" "w1 = advance (advance w)"
    "issue_targets E m t ri p csr (iq_actor req) (clamp_validity p (iq_validity req)) [] cs w1 = (Inr out, w')"
proof -
  obtain p csr cs where "select_profile t (iq_profile req) = Inr p" "check_request E p (iq_csr req) (iq_experimental req) = Inr csr"
    "target_chains t (select_chain p (iq_chain req)) = Inr cs"
    "issue_targets E m t ri p csr (iq_actor req) (clamp_validity p (iq_validity req)) [] cs (advance (advance w)) = (Inr out, w')"
    using assms by (auto simp: issue_def get_tenant_def root_def ebind_Inr_iff wrap_err_Inr_iff get_json_Inr)
  moreover from this(2) have "iq_csr req = Some csr"
    by (auto simp: check_request_def act_elims split: option.splits if_splits)
  ultimately show thesis using that by blast
qed

lemma issue_sound:
  assumes libs: "libs_ok E" and root: "lookup w meta_bucket root_key = Some (root_info_json ri)"
    and ten: "lookup w tenants_bucket (iq_tenant req) = Some d" "tenant_of d = Some t" "tenant_ok E (mg_signers m) w ri t"
    and csr: "iq_csr req = Some csr" "wf_pub E (csr_pub csr)"
    and run: "issue E m req w = (Inr out, w')"
  shows "\<exists>p. select_profile t (iq_profile req) = Inr p \<and> check_request E p (Some csr) (iq_experimental req) = Inr csr \<and>
    target_chains t (select_chain p (iq_chain req)) = Inr (map is_chain out) \<and>
    (\<forall>i \<in> set out. leaf_good E csr i \<and> leaf_dated E w w' (clamp_validity p (iq_validity req)) i) \<and>
    (distinct (map issued_serial out) \<longrightarrow> (\<forall>i \<in> set out. leaf_recorded E w' t p i)) \<and>
    (mg_audit m \<noteq> NopLog \<longrightarrow> log_room (mg_audit m) (length out) w \<longrightarrow> (\<forall>i \<in> set out. leaf_audited (mg_audit m) w' (iq_actor req) t i))"
proof -
  from run ten(1,2) root obtain p cs w1 where p: "select_profile t (iq_profile req) = Inr p"
    "check_request E p (Some csr) (iq_experimental req) = Inr csr" "target_chains t (select_chain p (iq_chain req)) = Inr cs"
    and w1: "w1 = advance (advance w)"
    and go: "issue_targets E m t ri p csr (iq_actor req) (clamp_validity p (iq_validity req)) [] cs w1 = (Inr out, w')"
    by (rule issue_Inr) (use csr in auto)
  have "keeps_keys w w1" unfolding w1 by (rule keeps_keys.contract_trans) (rule keeps_keys.advance_ok)+
  then have ok: "tenant_ok E (mg_signers m) w1 ri t" by (rule tenant_ok_kept) (rule ten(3))
  have view: "same log_view w w1" unfolding w1 by (rule same.contract_trans) (rule log_view.advance_ok)+
  note sound = issue_targets_sound [OF libs csr(2) ok target_chains_pair [OF p(3)] go]
  then have cs: "map is_chain out = cs" by auto
  have "\<forall>i \<in> set out. leaf_audited (mg_audit m) w' (iq_actor req) t i"
    if "mg_audit m \<noteq> NopLog" "log_room (mg_audit m) (length out) w"
  proof (rule issue_targets_audited [OF libs csr(2) that(1) ok target_chains_pair [OF p(3)] go])
    show "log_room (mg_audit m) (length cs) w1" using that(2) cs same_log_view(2) [OF view] by auto
  qed simp
  moreover have "leaf_dated E w1 w' v i \<Longrightarrow> leaf_dated E w w' v i" for v i
    using leaf_dated_mono [of E w1 w' v i w w'] by (simp add: w1)
  ultimately show ?thesis using p cs sound by (intro exI [of _ p]) auto
qed

text \<open>
  Claim C2: a request that succeeds was checked (the profile exists, the request's signature verifies
  and its key algorithm is allowed) and returns one certificate per chain asked for.  Each carries
  the requested key, is no CA, has a path that verifies to the root, and is stored unrevoked under
  its serial and audited before it is returned (the serials of one request being distinct).
\<close>

theorem issue_complete:
  assumes libs: "libs_ok E" and root: "lookup w meta_bucket root_key = Some (root_info_json ri)"
    and ten: "lookup w tenants_bucket (iq_tenant req) = Some d" "tenant_of d = Some t" "tenant_ok E (mg_signers m) w ri t"
    and csr: "iq_csr req = Some csr" "wf_pub E (csr_pub csr)"
    and run: "issue E m req w = (Inr out, w')"
  shows "\<exists>p. select_profile t (iq_profile req) = Inr p \<and> check_request E p (Some csr) (iq_experimental req) = Inr csr \<and>
    target_chains t (select_chain p (iq_chain req)) = Inr (map is_chain out) \<and>
    (\<forall>i \<in> set out. leaf_good E csr i) \<and>
    (distinct (map issued_serial out) \<longrightarrow> (\<forall>i \<in> set out. leaf_recorded E w' t p i)) \<and>
    (mg_audit m \<noteq> NopLog \<longrightarrow> log_room (mg_audit m) (length out) w \<longrightarrow> (\<forall>i \<in> set out. leaf_audited (mg_audit m) w' (iq_actor req) t i))"
  using issue_sound [OF libs root ten csr run] by metis

text \<open>
  Claim C18: no certificate outlives the profile: whatever validity a request asks for, the end of
  every certificate it gets is at most the profile's maximal validity after the instant of issuance,
  and a request that names none gets the default.
\<close>

theorem validity_bounded:
  assumes libs: "libs_ok E" and root: "lookup w meta_bucket root_key = Some (root_info_json ri)"
    and ten: "lookup w tenants_bucket (iq_tenant req) = Some d" "tenant_of d = Some t" "tenant_ok E (mg_signers m) w ri t"
    and csr: "iq_csr req = Some csr" "wf_pub E (csr_pub csr)"
    and run: "issue E m req w = (Inr out, w')" and i: "i \<in> set out" and p: "select_profile t (iq_profile req) = Inr p"
  shows "\<exists>k. tick w \<le> k \<and> k < tick w' \<and> xc_not_after (crt_x509 (is_cert i)) \<le> now_at E k + pf_max_validity p \<and>
    (iq_validity req = 0 \<longrightarrow> pf_default_validity p \<le> pf_max_validity p \<longrightarrow>
       xc_not_after (crt_x509 (is_cert i)) = sec_floor (now_at E k + pf_default_validity p))"
proof -
  have "leaf_dated E w w' (clamp_validity p (iq_validity req)) i"
    using issue_sound [OF libs root ten csr run] i p by auto
  then obtain k where k: "tick w \<le> k" "k < tick w'"
    "xc_not_after (crt_x509 (is_cert i)) = sec_floor (now_at E k + clamp_validity p (iq_validity req))"
    unfolding leaf_dated_def by (meson le_trans less_imp_le)
  have floor: "sec_floor x \<le> x" for x by (simp add: sec_floor_def div_mult_mod_eq minus_mod_eq_div_mult [symmetric])
  have "clamp_validity p (iq_validity req) \<le> pf_max_validity p" by (simp add: clamp_validity_def)
  with floor [of "now_at E k + clamp_validity p (iq_validity req)"] k show ?thesis
    by (intro exI [of _ k]) (auto simp: clamp_validity_def)
qed

end
