(* ===== verification/Ca_Revoke.thy ===== *)
theory Ca_Revoke
  imports Ca_Issued
begin

text \<open>
  Revocation: a record is revoked once and stays so; what a failed issuance has stored is revoked or
  named in its error.
\<close>

section \<open>What revoking does to the records\<close>

definition revoked_record :: "cert_record \<Rightarrow> int \<Rightarrow> int \<Rightarrow> cert_record" where
  "revoked_record r t reason = r\<lparr>cr_revoked := True, cr_revoked_at := t, cr_reason_code := reason\<rparr>"

lemma revoked_record_simps [simp]:
  "cr_revoked (revoked_record r t reason)" "cr_serial (revoked_record r t reason) = cr_serial r"
  "cr_chain (revoked_record r t reason) = cr_chain r" "cr_revoked_at (revoked_record r t reason) = t"
  "cr_reason_code (revoked_record r t reason) = reason"
  by (simp_all add: revoked_record_def)

text \<open>An unrevoked record of the serial is in the store of the one world and its revoked form in that of the other.\<close>

definition newly_revoked :: "'x cenv_scheme \<Rightarrow> world \<Rightarrow> world \<Rightarrow> string \<Rightarrow> string \<Rightarrow> int \<Rightarrow> bool" where
  "newly_revoked E w w' tenant serial reason \<longleftrightarrow> (\<exists>d r k. lookup w (certs_bucket tenant) serial = Some d \<and>
     cert_record_of d = Some r \<and> \<not> cr_revoked r \<and> tick w \<le> k \<and> k < tick w' \<and>
     lookup w' (certs_bucket tenant) serial = Some (cert_record_json (revoked_record r (now_at E k) reason)))"

text \<open>The two outcomes for the records.\<close>

definition only_revokes :: "'x cenv_scheme \<Rightarrow> world \<Rightarrow> world \<Rightarrow> string \<Rightarrow> string \<Rightarrow> int \<Rightarrow> bool \<Rightarrow> bool" where
  "only_revokes E w w' tenant serial reason ok \<longleftrightarrow>
     (\<forall>b k. b \<notin> log_buckets \<longrightarrow> (b, k) \<noteq> (certs_bucket tenant, serial) \<longrightarrow> lookup w' b k = lookup w b k) \<and>
     (newly_revoked E w w' tenant serial reason \<or> \<not> ok \<and> lookup w' (certs_bucket tenant) serial = lookup w (certs_bucket tenant) serial)"

lemma mark_update:
  assumes "update_json E cert_record_of cert_record_json zero_record (certs_bucket tenant) serial False (mark_revoked E serial reason) w = (res, w')"
  shows "only_revokes E w w' tenant serial reason (\<exists>u. res = Inr u)"
  using assms
proof (cases rule: update_json_cases)
  case (refused v e e')
  then have "w' = advance w" by (auto simp: mark_revoked_def ebind_apply clock_def split: if_splits)
  with refused show ?thesis by (simp add: only_revokes_def)
next
  case (written v v' w1)
  then obtain d where d: "lookup w (certs_bucket tenant) serial = Some d" "cert_record_of d = Some v" by auto
  have v: "\<not> cr_revoked v" "v' = revoked_record v (now_at E (Suc (tick w))) reason" "w1 = advance (advance w)"
    using written(3) by (auto simp: mark_revoked_def ebind_apply clock_def revoked_record_def split: if_splits)
  then have "newly_revoked E w w' tenant serial reason"
    using d written(4) unfolding newly_revoked_def
    by (intro exI [of _ d] exI [of _ v] exI [of _ "Suc (tick w)"]) (simp add: lookup_set_doc)
  then show ?thesis using v written(4) by (simp add: only_revokes_def lookup_set_doc)
qed (simp add: only_revokes_def)

lemma newly_revoked_later:
  "newly_revoked E w v t s reason \<Longrightarrow> lookup w' (certs_bucket t) s = lookup v (certs_bucket t) s \<Longrightarrow> tick v \<le> tick w' \<Longrightarrow>
   newly_revoked E w w' t s reason"
  unfolding newly_revoked_def by (metis less_le_trans)

lemma only_revokes_log:
  assumes "only_revokes E w v tenant serial reason ok" and "log_event E a r v = (res, w')" and "ok' \<Longrightarrow> ok"
  shows "only_revokes E w w' tenant serial reason ok'"
proof -
  have look: "lookup w' b k = lookup v b k" if "b \<notin> log_buckets" for b k by (rule log_event_lookup [OF assms(2) that])
  have "tick v \<le> tick w'" by (rule stepsD [OF ticks_log assms(2)])
  with newly_revoked_later [of E w v tenant serial reason w'] look show ?thesis
    using assms(1,3) by (auto simp: only_revokes_def)
qed

lemma revoke_records:
  assumes "revoke E m tenant serial reason who w = (res, w')"
  shows "only_revokes E w w' tenant serial reason (\<exists>u. res = Inr u)"
proof -
  obtain r v where u: "update_json E cert_record_of cert_record_json zero_record (certs_bucket tenant) serial False
      (mark_revoked E serial reason) w = (r, v)"
    by (cases "update_json E cert_record_of cert_record_json zero_record (certs_bucket tenant) serial False (mark_revoked E serial reason) w")
  note mark = mark_update [OF u]
  show ?thesis
  proof (cases r)
    case (Inl e)
    then have "w' = v" "\<forall>u. res \<noteq> Inr u" using assms by (auto simp: revoke_def ebind_apply wrap_err_apply u)
    with mark Inl show ?thesis by simp
  next
    case (Inr x)
    then have "log_event E (mg_audit m) (revoke_event tenant who serial reason) v = (res, w')"
      using assms by (simp add: revoke_def ebind_apply wrap_err_apply u)
    from only_revokes_log [OF mark this] Inr show ?thesis by blast
  qed
qed

text \<open>
  Claim C19: revoking a certificate succeeds only on an unrevoked record, stamps it with the time and
  the reason and changes no other document; it is audited; and revoking it again fails and leaves
  the record as it is.
\<close>

theorem revoke_once:
  assumes run: "revoke E m tenant serial reason who w = (Inr (), w')"
  shows "newly_revoked E w w' tenant serial reason \<and>
    (\<forall>b k. b \<notin> log_buckets \<longrightarrow> (b, k) \<noteq> (certs_bucket tenant, serial) \<longrightarrow> lookup w' b k = lookup w b k) \<and>
    (mg_audit m \<noteq> NopLog \<longrightarrow> (\<exists>s. logged (mg_audit m) w' s \<and> event_of s = event_of (revoke_event tenant who serial reason))) \<and>
    (\<forall>reason' who' w2 res. revoke E m tenant serial reason' who' w' = (res, w2) \<longrightarrow>
       (\<exists>e. res = Inl e) \<and> lookup w2 (certs_bucket tenant) serial = lookup w' (certs_bucket tenant) serial)"
proof (intro conjI)
  have r: "only_revokes E w w' tenant serial reason True" using revoke_records [OF run] by simp
  then show new: "newly_revoked E w w' tenant serial reason"
    and "\<forall>b k. b \<notin> log_buckets \<longrightarrow> (b, k) \<noteq> (certs_bucket tenant, serial) \<longrightarrow> lookup w' b k = lookup w b k"
    by (simp_all add: only_revokes_def)
  obtain v where "log_event E (mg_audit m) (revoke_event tenant who serial reason) v = (Inr (), w')"
    using run by (auto simp: revoke_def ebind_Inr_iff)
  from log_event_logged [OF _ _ this]
  show "mg_audit m \<noteq> NopLog \<longrightarrow> (\<exists>s. logged (mg_audit m) w' s \<and> event_of s = event_of (revoke_event tenant who serial reason))"
    by (simp add: revoke_event_def)
  have no: "\<not> newly_revoked E w' w2 tenant serial reason'" for w2 reason'
    using new by (auto simp: newly_revoked_def)
  show "\<forall>reason' who' w2 res. revoke E m tenant serial reason' who' w' = (res, w2) \<longrightarrow>
       (\<exists>e. res = Inl e) \<and> lookup w2 (certs_bucket tenant) serial = lookup w' (certs_bucket tenant) serial"
  proof (intro allI impI)
    fix reason' who' w2 and res :: "err + unit"
    assume "revoke E m tenant serial reason' who' w' = (res, w2)"
    from revoke_records [OF this] no
    show "(\<exists>e. res = Inl e) \<and> lookup w2 (certs_bucket tenant) serial = lookup w' (certs_bucket tenant) serial"
      by (cases res) (simp_all add: only_revokes_def)
  qed
qed

section \<open>Revoked records stay revoked\<close>

definition revoked_in :: "string \<Rightarrow> string \<Rightarrow> world \<Rightarrow> bool" where
  "revoked_in tenant serial w \<longleftrightarrow> (\<exists>r. lookup w (certs_bucket tenant) serial = Some (cert_record_json r) \<and> cr_revoked r)"

lemma revoked_stays: "only_revokes E w w' t s reason ok \<Longrightarrow> revoked_in tenant serial w \<Longrightarrow> revoked_in tenant serial w'"
  unfolding only_revokes_def revoked_in_def newly_revoked_def
  by (cases "(certs_bucket tenant, serial) = (certs_bucket t, s)") auto

lemma just_revoked: "only_revokes E w w' t s reason True \<Longrightarrow> revoked_in t s w'"
  by (auto simp: only_revokes_def newly_revoked_def revoked_in_def)

section \<open>Abandoned issuance\<close>

lemma join_with_mem: "s \<in> set xs \<Longrightarrow> \<exists>a b. join_with sep xs = a @ s @ b"
proof (induction xs rule: induct_list012)
  case (3 x y zs)
  show ?case
  proof (cases "s = x")
    case False
    with 3 obtain a b where "join_with sep (y # zs) = a @ s @ b" by auto
    then have "join_with sep (x # y # zs) = (x @ sep @ a) @ s @ b" by simp
    then show ?thesis by blast
  qed (metis append_Nil join_with.simps(3))
qed (auto intro: exI [of _ "[]"])

lemma stuck_named: "s \<in> set stuck \<Longrightarrow> contains_sub (t @ abandon_note revoked stuck) s"
proof -
  assume s: "s \<in> set stuck"
  then have ne: "stuck \<noteq> []" by auto
  obtain a b where j: "join_with '','' stuck = a @ s @ b" using join_with_mem [OF s] by blast
  define pre where "pre = t @ (if revoked \<noteq> [] then ''; revoked already-issued serial(s) '' @ join_with '','' revoked else []) @ ''; WARNING: serial(s) ''"
  have "t @ abandon_note revoked stuck = (pre @ a) @ s @ (b @ '' remain issued and could not be revoked'')"
    by (simp only: abandon_note_def pre_def j ne not_False_eq_True if_True append_assoc)
  then show ?thesis unfolding contains_sub_iff by blast
qed

text \<open>Only records of the tenant under the given serials change, apart from the log.\<close>

definition only_serials :: "string \<Rightarrow> string set \<Rightarrow> world \<Rightarrow> world \<Rightarrow> bool" where
  "only_serials t S w w' \<longleftrightarrow> (\<forall>b k. b \<notin> log_buckets \<longrightarrow> (b = certs_bucket t \<longrightarrow> k \<notin> S) \<longrightarrow> lookup w' b k = lookup w b k)"

lemma only_serials_trans: "only_serials t S w v \<Longrightarrow> only_serials t S v w' \<Longrightarrow> only_serials t S w w'"
  by (simp add: only_serials_def)

lemma only_serials_mono: "only_serials t S w v \<Longrightarrow> S \<subseteq> T \<Longrightarrow> only_serials t T w v"
  by (auto simp: only_serials_def)

lemma only_revokes_serials: "only_revokes E w w' t s reason ok \<Longrightarrow> s \<in> S \<Longrightarrow> only_serials t S w w'"
  by (auto simp: only_revokes_def only_serials_def)

lemma only_serials_log: "log_event E a r w = (res, w') \<Longrightarrow> only_serials t S w w'"
  by (simp add: only_serials_def log_event_lookup)

lemma try_revokes:
  "efold (try_revoke E m t who) acc serials w = (res, w') \<Longrightarrow> \<forall>s \<in> set (fst acc). revoked_in t s w \<Longrightarrow>
   \<exists>revoked stuck. res = Inr (revoked, stuck) \<and> set (fst acc) \<union> set (snd acc) \<union> set serials = set revoked \<union> set stuck \<and>
     (\<forall>s \<in> set revoked. revoked_in t s w') \<and> only_serials t (set serials) w w'"
proof (induction serials arbitrary: acc w)
  case Nil
  then show ?case by (cases acc) (auto simp: only_serials_def)
next
  case (Cons s serials)
  obtain r v where rv: "revoke E m t s reason_cessation_of_operation who w = (r, v)"
    by (cases "revoke E m t s reason_cessation_of_operation who w")
  note only = revoke_records [OF rv]
  define acc' where "acc' = (case r of Inl _ \<Rightarrow> (fst acc, snd acc @ [s]) | Inr _ \<Rightarrow> (fst acc @ [s], snd acc))"
  have "try_revoke E m t who acc s w = (Inr acc', v)"
    by (simp add: try_revoke_def ecase_apply rv acc'_def split: sum.splits)
  with Cons.prems(1) have rest: "efold (try_revoke E m t who) acc' serials v = (res, w')" by (simp add: ebind_apply)
  have "\<forall>x \<in> set (fst acc'). revoked_in t x v"
    using Cons.prems(2) revoked_stays [OF only] just_revoked [of E w v t s] only
    by (auto simp: acc'_def split: sum.splits)
  from Cons.IH [OF rest this] obtain revoked stuck where "res = Inr (revoked, stuck)"
    "set (fst acc') \<union> set (snd acc') \<union> set serials = set revoked \<union> set stuck"
    "\<forall>s \<in> set revoked. revoked_in t s w'" "only_serials t (set serials) v w'" by blast
  moreover have "set (fst acc') \<union> set (snd acc') = insert s (set (fst acc) \<union> set (snd acc))"
    by (auto simp: acc'_def split: sum.splits)
  moreover have "only_serials t (set (s # serials)) w v" by (rule only_revokes_serials [OF only]) simp
  ultimately show ?case
    by (intro exI [of _ revoked] exI [of _ stuck]) (auto intro: only_serials_trans only_serials_mono)
qed

lemma abandon_sound:
  assumes run: "abandon_issued E m who t serials cause w = (res, w')"
  shows "\<exists>e. res = Inr e \<and> sentinel_of e = sentinel_of cause \<and> (\<forall>s \<in> set serials. revoked_in t s w' \<or> contains_sub (text_of e) s) \<and>
    only_serials t (set serials) w w'"
proof (cases "serials = []")
  case True
  then show ?thesis using run by (auto simp: abandon_issued_def only_serials_def)
next
  case False
  obtain r v where f: "efold (try_revoke E m t who) ([], []) serials w = (r, v)"
    by (cases "efold (try_revoke E m t who) ([], []) serials w")
  obtain revoked stuck where acc: "r = Inr (revoked, stuck)" "set serials = set revoked \<union> set stuck"
    "\<forall>s \<in> set revoked. revoked_in t s v" "only_serials t (set serials) w v"
    using try_revokes [OF f] by auto
  let ?ev = "new_event t who ''cert.issue.abandoned'' \<lparr>ob_type = ''cert'', ob_id = join_with '','' serials\<rparr>
          [(''revoked'', join_with '','' revoked), (''left_issued'', join_with '','' stuck), (''cause'', text_of cause)]"
  obtain lr v' where log: "log_event E (mg_audit m) ?ev v = (lr, v')" by (cases "log_event E (mg_audit m) ?ev v")
  have res: "res = Inr (Err (sentinel_of cause) (text_of cause @ abandon_note revoked stuck))" "w' = v'"
    using run False by (simp_all add: abandon_issued_def ebind_apply f acc(1) ecase_apply log split: sum.splits)
  have "revoked_in t s w'" if "s \<in> set revoked" for s
    using acc(3) that log_event_lookup [OF log] by (simp add: revoked_in_def res)
  moreover have "only_serials t (set serials) w w'"
    using only_serials_trans [OF acc(4) only_serials_log [OF log]] by (simp add: res)
  ultimately show ?thesis using acc(2) stuck_named by (auto simp: res)
qed

section \<open>Requests that fail\<close>

text \<open>No outside call that reports an error has taken effect.\<close>

definition clean_faults :: "'x env_scheme \<Rightarrow> bool" where
  "clean_faults E \<longleftrightarrow> (\<forall>k. case fault_at E k of FailCommitted _ \<Rightarrow> False | _ \<Rightarrow> True)"

lemma put_json_failed:
  assumes "clean_faults E" and "put_json E enc p k v w = (Inl e, w')"
  shows "w' = advance w"
proof -
  have "case fault_at E (tick w) of FailCommitted _ \<Rightarrow> False | _ \<Rightarrow> True" using assms(1) by (simp add: clean_faults_def)
  with assms(2) show ?thesis by (auto simp: put_json_def put_def effect_def Let_def split: fault.splits if_splits)
qed

lemma leaf_serials: "issue_leaf E m t ri p csr target v w = (r, w') \<Longrightarrow> only_serials tid S w w'"
  using stepsD [OF only.steps_issue_leaf [of "{}"]] by (fastforce simp: only_buckets_def only_serials_def)

lemma issue_one_failed:
  assumes clean: "clean_faults E" and run: "issue_one E m t ri p csr who target v w = (Inl f, w')"
  shows "only_serials (tn_id t) (case f of Failed e \<Rightarrow> {} | Persisted s e \<Rightarrow> {s}) w w'"
proof -
  obtain lr v1 where leaf: "issue_leaf E m t ri p csr target v w = (lr, v1)" by (cases "issue_leaf E m t ri p csr target v w")
  note l = leaf_serials [OF leaf]
  show ?thesis
  proof (cases lr)
    case (Inl e)
    then show ?thesis using run l by (auto simp: issue_one_def ecase_apply leaf)
  next
    case (Inr out)
    obtain serial cert issuing rc where out: "out = (serial, cert, issuing, rc)" by (cases out)
    let ?r = "leaf_record E t p csr target serial cert"
    obtain pr v2 where put: "put_json E cert_record_json (certs_bucket (tn_id t)) (cr_serial ?r) ?r v1 = (pr, v2)"
      by (cases "put_json E cert_record_json (certs_bucket (tn_id t)) (cr_serial ?r) ?r v1")
    show ?thesis
    proof (cases pr)
      case (Inl e)
      have "v2 = advance v1" by (rule put_json_failed [OF clean put [unfolded Inl]])
      then have "only_serials (tn_id t) {} w v2" using l [of _ "{}"] by (auto simp: only_serials_def)
      then show ?thesis using run Inl by (auto simp: issue_one_def ecase_apply leaf Inr out Let_def put)
    next
      case (Inr u)
      then have "v2 = set_doc (advance v1) (certs_bucket (tn_id t)) (cr_serial ?r) (cert_record_json ?r)"
        using put by (simp add: put_json_Inr)
      then have "only_serials (tn_id t) {cr_serial ?r} v1 v2" by (simp add: only_serials_def lookup_set_doc)
      with l have w2: "only_serials (tn_id t) {cr_serial ?r} w v2" by (rule only_serials_trans)
      obtain gr v3 where log: "log_event E (mg_audit m) (issue_event E who ?r) v2 = (gr, v3)"
        by (cases "log_event E (mg_audit m) (issue_event E who ?r) v2")
      have "only_serials (tn_id t) {cr_serial ?r} w v3" using only_serials_trans [OF w2 only_serials_log [OF log]] .
      then show ?thesis
        using run Inr \<open>lr = Inr out\<close> by (auto simp: issue_one_def ecase_apply leaf out Let_def put log split: sum.splits)
    qed
  qed
qed

text \<open>The serials of a failed request, and what became of their records.\<close>

definition accounted :: "string \<Rightarrow> err \<Rightarrow> world \<Rightarrow> world \<Rightarrow> bool" where
  "accounted t e w w' \<longleftrightarrow> (\<forall>b k. b \<notin> log_buckets \<longrightarrow> lookup w' b k \<noteq> lookup w b k \<longrightarrow>
     b = certs_bucket t \<and> (revoked_in t k w' \<or> contains_sub (text_of e) k))"

lemma abandoned_accounted:
  assumes "only_serials t S w v" and "abandon_issued E m who t serials cause v = (Inr e, w')" and "S \<subseteq> set serials"
  shows "accounted t e w w'"
proof -
  note a = abandon_sound [OF assms(2)]
  have "only_serials t (set serials) w v" using assms(1,3) by (rule only_serials_mono)
  with a have "only_serials t (set serials) w w'" by (blast intro: only_serials_trans)
  with a show ?thesis by (auto simp: accounted_def only_serials_def)
qed

lemma issue_targets_failed:
  assumes libs: "libs_ok E" and pub: "wf_pub E (csr_pub csr)" and clean: "clean_faults E"
  shows "tenant_ok E (mg_signers m) w ri t \<Longrightarrow> (chain_pair \<in> set targets \<longrightarrow> tn_pair_alg t \<noteq> []) \<Longrightarrow>
    only_serials (tn_id t) (issued_serial ` set out) w0 w \<Longrightarrow>
    issue_targets E m t ri p csr who v out targets w = (Inl e, w') \<Longrightarrow> accounted (tn_id t) e w0 w'"
proof (induction targets arbitrary: out w)
  case (Cons target rest)
  obtain r v1 where one: "issue_one E m t ri p csr who target v w = (r, v1)" by (cases "issue_one E m t ri p csr who target v w")
  show ?case
  proof (cases r)
    case (Inl f)
    define ss c where "ss = (case f of Failed e \<Rightarrow> map issued_serial out | Persisted s e \<Rightarrow> map issued_serial out @ [s])"
      and "c = (case f of Failed e \<Rightarrow> e | Persisted s e \<Rightarrow> e)"
    have "only_serials (tn_id t) (set ss) w v1"
      by (rule only_serials_mono [OF issue_one_failed [OF clean one [unfolded Inl]]]) (auto simp: ss_def split: issue_fail.splits)
    moreover have "only_serials (tn_id t) (set ss) w0 w"
      by (rule only_serials_mono [OF Cons.prems(3)]) (auto simp: ss_def split: issue_fail.splits)
    ultimately have before: "only_serials (tn_id t) (set ss) w0 v1" by (blast intro: only_serials_trans)
    obtain ar w2 where ab: "abandon_issued E m who (tn_id t) ss c v1 = (ar, w2)" by (cases "abandon_issued E m who (tn_id t) ss c v1")
    from abandon_sound [OF ab] obtain e' where e': "ar = Inr e'" by blast
    have "e = e' \<and> w' = w2"
      using Cons.prems(4) ab e' by (simp add: ecase_apply one Inl ebind_apply ss_def c_def split: issue_fail.splits)
    with abandoned_accounted [OF before ab [unfolded e']] show ?thesis by simp
  next
    case (Inr i)
    have "target = chain_pair \<Longrightarrow> tn_pair_alg t \<noteq> []" using Cons.prems(2) by simp
    note first = issue_one_sound [OF libs Cons.prems(1) this pub one [unfolded Inr]]
    have ten: "tenant_ok E (mg_signers m) v1 ri t" using tenant_ok_kept Cons.prems(1) first by blast
    have pair: "chain_pair \<in> set rest \<longrightarrow> tn_pair_alg t \<noteq> []" using Cons.prems(2) by simp
    have "only_serials (tn_id t) (issued_serial ` set (out @ [i])) w v1" using first by (auto simp: only_serials_def)
    moreover have "only_serials (tn_id t) (issued_serial ` set (out @ [i])) w0 w" by (rule only_serials_mono [OF Cons.prems(3)]) auto
    ultimately have before: "only_serials (tn_id t) (issued_serial ` set (out @ [i])) w0 v1" by (blast intro: only_serials_trans)
    show ?thesis
      by (rule Cons.IH [OF ten pair before]) (use Cons.prems(4) one Inr in \<open>simp add: ecase_apply\<close>)
  qed
qed simp

lemma accounted_same: "lookup w' = lookup w \<Longrightarrow> accounted t e w w'"
  by (simp add: accounted_def)

lemma issue_failed:
  assumes libs: "libs_ok E" and clean: "clean_faults E" and root: "lookup w meta_bucket root_key = Some (root_info_json ri)"
    and ten: "lookup w tenants_bucket (iq_tenant req) = Some d" "tenant_of d = Some t" "tenant_ok E (mg_signers m) w ri t"
    and csr: "iq_csr req = Some csr" "wf_pub E (csr_pub csr)"
    and run: "issue E m req w = (Inl e, w')"
  shows "accounted (tn_id t) e w w'"
proof -
  obtain gr v1 where g: "get_json E tenant_of tenants_bucket (iq_tenant req) w = (gr, v1)"
    by (cases "get_json E tenant_of tenants_bucket (iq_tenant req) w")
  have v1: "v1 = advance w" using get_json_world [of E tenant_of tenants_bucket "iq_tenant req" w] g by simp
  have gt: "get_tenant E (iq_tenant req) w = (case gr of Inl e \<Rightarrow> Inl (unknown_tenant (iq_tenant req) e) | Inr t \<Rightarrow> Inr t, advance w)"
    by (simp add: get_tenant_def wrap_err_apply g v1 split: sum.split)
  have gr: "gr = Inr t" if "gr = Inr t'" for t' using g that ten by (simp add: get_json_Inr)
  obtain rr v2 where r: "root E (advance w) = (rr, v2)" by (cases "root E (advance w)")
  have v2: "v2 = advance (advance w)"
    using get_json_world [of E root_info_of meta_bucket root_key "advance w"] r
    by (auto simp: root_def wrap_err_apply split: prod.splits sum.splits)
  have rr: "rr = Inr ri" if "rr = Inr ri'" for ri' using r that root by (auto simp: root_def wrap_err_Inr_iff get_json_Inr)
  consider (early) "lookup w' = lookup w" | (late) p cs where "target_chains t (select_chain p (iq_chain req)) = Inr cs"
      "issue_targets E m t ri p csr (iq_actor req) (clamp_validity p (iq_validity req)) [] cs v2 = (Inl e, w')"
  proof (cases gr)
    case (Inl e)
    then have "w' = advance w" using run by (simp add: issue_def ebind_apply gt)
    then show thesis using early by simp
  next
    case (Inr t')
    note t = gr [OF Inr]
    show thesis
    proof (cases "\<exists>p cs. select_profile t (iq_profile req) = Inr p \<and> check_request E p (iq_csr req) (iq_experimental req) = Inr csr \<and>
        target_chains t (select_chain p (iq_chain req)) = Inr cs \<and> rr = Inr ri")
      case True
      then show thesis using late run by (auto simp: issue_def ebind_apply gt t r)
    next
      case False
      have csr': "check_request E p (iq_csr req) x = Inr c \<Longrightarrow> c = csr" for p x c
        using csr(1) by (auto simp: check_request_def act_elims split: if_splits)
      have "w' = advance w \<or> w' = v2"
        using run False csr' rr by (auto simp: issue_def ebind_apply gt t r split: sum.splits)
      then show thesis using early v2 by auto
    qed
  qed
  then show ?thesis
  proof cases
    case early
    then show ?thesis by (rule accounted_same)
  next
    case (late p cs)
    have "keeps_keys w v2" unfolding v2 by (rule keeps_keys.contract_trans) (rule keeps_keys.advance_ok)+
    then have ok: "tenant_ok E (mg_signers m) v2 ri t" by (rule tenant_ok_kept) (rule ten(3))
    have "only_serials (tn_id t) (issued_serial ` set []) w v2" by (simp add: only_serials_def v2)
    from issue_targets_failed [OF libs csr(2) clean ok target_chains_pair [OF late(1)] this late(2)] show ?thesis .
  qed
qed


section \<open>Any sequence of operations\<close>

text \<open>The serial the random bytes of a tick make.\<close>

definition drawn :: "'x cenv_scheme \<Rightarrow> nat \<Rightarrow> nat" where
  "drawn E k = be_nat (map (rnd_at E k) [0..<16]) mod 2 ^ 127"

lemma new_serial_drawn: "new_serial E w = (Inr n, w') \<Longrightarrow> n = drawn E (tick w)"
  by (auto simp: new_serial_def drawn_def ebind_Inr_iff rand_read_def dest!: effect_InrD)

text \<open>The steps of a CA: any of its operations, succeeding or not.\<close>

inductive ca_step :: "'x cenv_scheme \<Rightarrow> manager \<Rightarrow> world \<Rightarrow> world \<Rightarrow> bool" for E m where
  init: "init_root E m opts w = (r1, w') \<Longrightarrow> ca_step E m w w'"
| tenant: "create_tenant E m tid name alg hybrid who w = (r2, w') \<Longrightarrow> ca_step E m w w'"
| set_profile: "set_profile E m tid p who w = (r3, w') \<Longrightarrow> ca_step E m w w'"
| del_profile: "delete_profile E m tid name who w = (r4, w') \<Longrightarrow> ca_step E m w w'"
| issue: "issue E m req w = (r5, w') \<Longrightarrow> ca_step E m w w'"
| revoke: "revoke E m tid serial reason who w = (r6, w') \<Longrightarrow> ca_step E m w w'"
| crl: "build_crl E m tid chain who w = (r7, w') \<Longrightarrow> ca_step E m w w'"

interpretation stay: world_contract "keeps (revoked_in t s)" for t s
  by unfold_locales (simp add: keeps_def revoked_in_def)

lemma stay_other [simp]: "p \<noteq> certs_bucket t \<or> k \<noteq> s \<Longrightarrow> keeps (revoked_in t s) w (set_doc w p k d)"
  by (auto simp: keeps_def revoked_in_def lookup_set_doc)

lemma certs_not_keys [simp]: "keys_bucket \<noteq> certs_bucket t"
  by (simp add: keys_bucket_def certs_bucket_def)

lemma stay_files [simp]: "keeps (revoked_in t s) w (w\<lparr>key_files := f\<rparr>)"
  by (simp add: keeps_def revoked_in_def lookup_def)

lemma stay_log: "steps (keeps (revoked_in t s)) (log_event E a r)"
proof (rule stepsI)
  fix w
  obtain res w' where "log_event E a r w = (res, w')" by (cases "log_event E a r w")
  then show "keeps (revoked_in t s) w (snd (log_event E a r w))"
    using log_event_lookup [of E a r w res w'] by (simp add: keeps_def revoked_in_def)
qed

lemma stay_generate: "steps (keeps (revoked_in t s)) (backend_generate E b alg label)"
  by (rule stay.steps_backend_generate) simp_all

lemma stay_revoke: "steps (keeps (revoked_in t s)) (revoke E m tid serial reason who)"
proof (rule stepsI)
  fix w
  obtain r w' where "revoke E m tid serial reason who w = (r, w')" by (cases "revoke E m tid serial reason who w")
  from revoked_stays [OF revoke_records [OF this]] this
  show "keeps (revoked_in t s) w (snd (revoke E m tid serial reason who w))" by (simp add: keeps_def)
qed

lemma stay_abandon: "steps (keeps (revoked_in t s)) (abandon_issued E m who tid serials cause)"
  unfolding abandon_issued_def try_revoke_def by (intro stay.world_rules stay_log stay_revoke)

text \<open>As long as the serial is not drawn again, its record stays revoked.\<close>

definition undrawn :: "'x cenv_scheme \<Rightarrow> string \<Rightarrow> string \<Rightarrow> world \<Rightarrow> world \<Rightarrow> bool" where
  "undrawn E t s w w' \<longleftrightarrow> tick w \<le> tick w' \<and>
     ((\<forall>k \<ge> tick w. dec (drawn E k) \<noteq> s) \<longrightarrow> revoked_in t s w \<longrightarrow> revoked_in t s w')"

interpretation undrawn: world_contract "undrawn E t s" for E t s
  by unfold_locales (auto simp: undrawn_def revoked_in_def)

lemma undrawnI:
  "steps (\<lambda>w w'. tick w \<le> tick w') m \<Longrightarrow> steps (keeps (revoked_in t s)) m \<Longrightarrow> steps (undrawn E t s) m"
  by (simp add: steps_def undrawn_def keeps_def)

lemma ticks_revoke: "steps (\<lambda>w w'. tick w \<le> tick w') (revoke E m tid serial reason who)"
  unfolding revoke_def mark_revoked_def by (intro ticks.store_rules ticks_log) simp_all

lemma ticks_abandon: "steps (\<lambda>w w'. tick w \<le> tick w') (abandon_issued E m who tid serials cause)"
  unfolding abandon_issued_def try_revoke_def by (intro ticks.world_rules ticks_log ticks_revoke)

lemma ticks_generate: "steps (\<lambda>w w'. tick w \<le> tick w') (backend_generate E b alg label)"
  by (rule ticks.steps_backend_generate) simp_all

lemmas undrawn_log = undrawnI [OF ticks_log stay_log]
lemmas undrawn_revoke = undrawnI [OF ticks_revoke stay_revoke]
lemmas undrawn_abandon = undrawnI [OF ticks_abandon stay_abandon]
lemmas undrawn_generate = undrawnI [OF ticks_generate stay_generate]

lemma leaf_serial_drawn:
  assumes "issue_leaf E m t ri p csr target v w = (Inr (serial, cert, issuing, rc), w')"
  shows "\<exists>k \<ge> tick w. serial = drawn E k"
proof -
  obtain ref s v1 v2 where o: "registry_open E (mg_signers m) ref w = (Inr s, v1)" and n: "new_serial E v1 = (Inr serial, v2)"
    using assms by (auto simp: issue_leaf_def ebind_Inr_iff split: prod.splits)
  have "tick w \<le> tick v1" using stepsD [OF ticks.steps_registry_open o] .
  with new_serial_drawn [OF n] show ?thesis by blast
qed

lemma undrawn_issue_one: "steps (undrawn E tid s) (issue_one E m t ri p csr who target v)"
proof (rule stepsI)
  fix w
  obtain r v1 where leaf: "issue_leaf E m t ri p csr target v w = (r, v1)" by (cases "issue_leaf E m t ri p csr target v w")
  have l: "undrawn E tid s w v1" by (rule stepsD [OF undrawn.steps_issue_leaf leaf])
  show "undrawn E tid s w (snd (issue_one E m t ri p csr who target v w))"
  proof (cases r)
    case (Inl e)
    then show ?thesis using l by (simp add: issue_one_def ecase_apply leaf)
  next
    case (Inr x)
    obtain serial cert issuing rc where x: "x = (serial, cert, issuing, rc)" by (cases x)
    let ?r = "leaf_record E t p csr target serial cert"
    define rest where "rest = ecase (put_json E cert_record_json (certs_bucket (tn_id t)) (cr_serial ?r) ?r) (\<lambda>e. fail (Failed e))
      (\<lambda>_. ecase (log_event E (mg_audit m) (issue_event E who ?r))
       (\<lambda>e. fail (Persisted (cr_serial ?r) (wrapf ''ca: audit append failed, withholding certificate: '' e)))
       (\<lambda>_. ret \<lparr>is_chain = target, is_cert = cert, is_path = [cert, issuing, rc]\<rparr>))"
    have run: "issue_one E m t ri p csr who target v w = rest v1"
      by (simp add: issue_one_def ecase_apply [of "issue_leaf E m t ri p csr target v"] leaf Inr x Let_def rest_def)
    have tick: "tick v1 \<le> tick (snd (rest v1))"
      using stepsD [of "\<lambda>w w'. tick w \<le> tick w'" rest v1 "fst (rest v1)" "snd (rest v1)"] unfolding rest_def
      by (simp add: ticks.store_rules ticks_log)
    show ?thesis
    proof (cases "\<forall>k \<ge> tick w. dec (drawn E k) \<noteq> s")
      case True
      with leaf_serial_drawn [OF leaf [unfolded Inr x]] have "cr_serial ?r \<noteq> s" by (auto simp: leaf_record_def)
      then have "steps (keeps (revoked_in tid s)) rest"
        unfolding rest_def by (intro stay.store_rules stay_log) simp
      then have "keeps (revoked_in tid s) v1 (snd (rest v1))" by (simp add: steps_def)
      with l tick show ?thesis unfolding run by (auto simp: undrawn_def keeps_def)
    qed (use l tick run in \<open>auto simp: undrawn_def\<close>)
  qed
qed

lemma undrawn_issue_targets: "steps (undrawn E tid s) (issue_targets E m t ri p csr who v out targets)"
  by (induction targets arbitrary: out)
    (auto intro!: undrawn.world_rules undrawn_issue_one undrawn_abandon split: issue_fail.split)

lemma undrawn_issue: "steps (undrawn E tid s) (issue E m req)"
  unfolding issue_def get_tenant_def root_def by (intro undrawn.ca_rules undrawn_issue_targets)

lemma undrawn_set_doc [simp]: "p \<noteq> certs_bucket t \<Longrightarrow> undrawn E t s w (set_doc w p k d)"
  by (simp add: undrawn_def revoked_in_def lookup_set_doc)

lemma undrawn_seqs [simp]: "undrawn E t s w (w\<lparr>seqs := q\<rparr>)"
  by (simp add: undrawn_def revoked_in_def lookup_def)

lemma undrawn_next_seq: "steps (undrawn E t s) (next_seq E p)"
  unfolding next_seq_def Let_def by (intro undrawn.world_rules) (simp add: steps_def undrawn.contract_refl)

lemma undrawn_step: "ca_step E m w w' \<Longrightarrow> undrawn E t s w w'"
proof (induction rule: ca_step.induct)
  case (init opts w r w')
  have "steps (undrawn E t s) (init_root E m opts)"
    unfolding init_root_def not_initialized_def new_root_cert_def add_pair_root_def Let_def
    by (intro undrawn.ca_rules undrawn_generate undrawn.steps_serial undrawn_log) simp_all
  then show ?case using init by (rule stepsD)
next
  case (tenant tid name alg hybrid who w r w')
  have "steps (undrawn E t s) (create_tenant E m tid name alg hybrid who)"
    unfolding create_tenant_def no_tenant_def root_def issue_ca_def add_pair_ca_def Let_def
    by (intro undrawn.ca_rules undrawn_generate undrawn.steps_serial undrawn_log) simp_all
  then show ?case using tenant by (rule stepsD)
next
  case (set_profile tid p who w r w')
  have "steps (undrawn E t s) (set_profile E m tid p who)"
    unfolding set_profile_def put_profile_def by (intro undrawn.ca_rules undrawn_log) simp_all
  then show ?case using set_profile by (rule stepsD)
next
  case (del_profile tid name who w r w')
  have "steps (undrawn E t s) (delete_profile E m tid name who)"
    unfolding delete_profile_def drop_profile_def by (intro undrawn.ca_rules undrawn_log) simp_all
  then show ?case using del_profile by (rule stepsD)
next
  case (issue req w r w')
  then show ?case by (rule stepsD [OF undrawn_issue])
next
  case (revoke tid serial reason who w r w')
  then show ?case by (rule stepsD [OF undrawn_revoke])
next
  case (crl tid chain who w r w')
  have "steps (undrawn E t s) (build_crl E m tid chain who)"
    unfolding build_crl_def get_tenant_def by (intro undrawn.ca_rules undrawn_log undrawn_next_seq)
  then show ?case using crl by (rule stepsD)
qed

lemma undrawn_run: "(ca_step E m)\<^sup>*\<^sup>* w w' \<Longrightarrow> undrawn E t s w w'"
  by (induction rule: rtranclp_induct) (auto intro: undrawn.contract_refl undrawn.contract_trans undrawn_step)

text \<open>
  Claim C3: revocation is permanent: after any sequence of operations of the CA, each succeeding or
  failing at any point, a revoked certificate is still revoked, unless its serial is drawn again.
\<close>

theorem revocation_permanent:
  assumes "(ca_step E m)\<^sup>*\<^sup>* w w'" and "revoked_in t s w" and "\<forall>k \<ge> tick w. dec (drawn E k) \<noteq> s"
  shows "revoked_in t s w'"
  using undrawn_run [OF assms(1), of t s] assms(2,3) by (simp add: undrawn_def)

end
