(* ===== verification/Ca_Publish.thy ===== *)
theory Ca_Publish
  imports Ca_Revoke
begin

text \<open>
  Publication: a revocation list of a chain verifies under the chain's issuing CA, has the next
  number of its tenant and lists exactly the revoked certificates of the chain.
\<close>

section \<open>The entries\<close>

definition listed :: "chain \<Rightarrow> cert_record \<Rightarrow> bool" where
  "listed chain r \<longleftrightarrow> cr_revoked r \<and> cr_chain r = chain_or_primary chain"

definition crl_entry :: "cert_record \<Rightarrow> revoked_entry" where
  "crl_entry r = \<lparr>re_serial = the (parse_serial (cr_serial r)), re_time = cr_revoked_at r, re_reason = cr_reason_code r\<rparr>"

lemma undec_head: "undec (c # r) = Some n \<Longrightarrow> 48 \<le> (of_char c :: nat)"
  by (auto simp: undec_def digit_value_def Let_def split: option.splits if_splits)

lemma parse_serial_dec [simp]: "parse_serial (dec n) = Some (int n)"
proof (cases "dec n")
  case (Cons c r)
  have "48 \<le> (of_char c :: nat)" using dec_digits [of c n] Cons by simp
  then have "c \<noteq> CHR ''-''" "c \<noteq> CHR ''+''" by auto
  moreover have "undec (c # r) = Some n" using undec_dec [of n] by (simp only: Cons)
  ultimately show ?thesis by (simp add: parse_serial_def Cons)
qed simp

lemma collect_revoked_Inr:
  "collect_revoked chain out k r = Inr out' \<Longrightarrow> out' = out @ (if listed chain r then [crl_entry r] else [])"
  by (auto simp: collect_revoked_def listed_def crl_entry_def split: if_splits option.splits)

lemma collected:
  "sfold (\<lambda>b (k, v). collect_revoked chain b k v) acc kvs = Inr rs \<Longrightarrow>
   rs = acc @ map crl_entry (filter (listed chain) (map snd kvs))"
proof (induction kvs arbitrary: acc)
  case (Cons kv kvs)
  then obtain out where one: "collect_revoked chain acc (fst kv) (snd kv) = Inr out"
    and rest: "sfold (\<lambda>b (k, v). collect_revoked chain b k v) out kvs = Inr rs"
    by (auto split: sum.splits prod.splits)
  then show ?case using Cons.IH [OF rest] collect_revoked_Inr [OF one] by simp
qed simp

section \<open>The list\<close>

interpretation counters: world_contract "same seqs"
  by (rule same_advance_contract) simp

lemma seqs_log: "steps (same seqs) (log_event E a r)"
proof -
  have "steps (same seqs) (store_log E l r)" for l
    unfolding store_log_def claim_head_def write_record_def advance_head_def
    by (intro counters.store_rules counters.steps_seal_record) (simp_all add: same_def)
  moreover have "steps (same seqs) (file_log E l r)" for l
    unfolding file_log_def append_line_def fsync_def
    by (intro counters.world_rules counters.steps_seal_record same.steps_pure) (simp_all add: same_def)
  ultimately show ?thesis by (cases a) (simp_all add: same.steps_ret)
qed

lemma build_crl_sound:
  assumes libs: "libs_ok E" and ten: "lookup w tenants_bucket tenant = Some d" "tenant_of d = Some t" "tenant_ok E (mg_signers m) w ri t"
    and run: "build_crl E m tenant chain who w = (Inr c, w')"
  shows "\<exists>ref pem issuing kvs. crl_issuer t chain = Inr (ref, pem) \<and> parse_certificate_pem E pem = Inr issuing \<and>
    crl_check_signature_from E c issuing = Inr () \<and>
    decode_all cert_record_of (bucket w (certs_bucket tenant)) = Some kvs \<and>
    crl_revoked c = map (in_seconds \<circ> crl_entry) (filter (listed chain) (map snd kvs)) \<and>
    crl_number c = Some (uint (seq_of w (crl_bucket tenant) + 1)) \<and> seq_of w' (crl_bucket tenant) = seq_of w (crl_bucket tenant) + 1 \<and>
    (\<forall>b k. b \<notin> log_buckets \<longrightarrow> lookup w' b k = lookup w b k)"
proof -
  obtain ref pem issuing s v1 revoked num v2 v3 ev where i: "crl_issuer t chain = Inr (ref, pem)" "parse_certificate_pem E pem = Inr issuing"
    and o: "registry_open E (mg_signers m) ref (advance w) = (Inr s, v1)"
    and each: "for_each_json E cert_record_of (certs_bucket tenant) (collect_revoked chain) [] v1 = (Inr revoked, advance v1)"
    and v2: "v2 = (advance (advance v1))\<lparr>seqs := AList.update (crl_bucket tenant) num (seqs v1)\<rparr>" "num = seq_of v1 (crl_bucket tenant) + 1"
    and c: "create_crl E issuing (sg_key s) (crt_pub_alg issuing) revoked (uint num) (now_at E (tick v2)) (now_at E (Suc (tick v2)) + one_day)
        (advance (advance v2)) = (Inr c, v3)"
    and log: "log_event E (mg_audit m) ev v3 = (Inr (), w')"
    using run ten(1,2) by (auto simp: build_crl_def get_tenant_def act_elims clock_Inr seq_of_def)
  have l1: "lookup v1 = lookup w" using stepsD [OF only.steps_registry_open [of "{}"] o] by (auto simp: only_buckets_def fun_eq_iff)
  have s1: "seqs v1 = seqs w" using stepsD [OF counters.steps_registry_open o] by (simp add: same_def)
  have l3: "lookup v3 = lookup w"
    using stepsD [OF only.steps_create_crl [of "{}"] c] l1 by (auto simp: only_buckets_def fun_eq_iff v2(1) lookup_def)
  have s3: "seqs v3 = AList.update (crl_bucket tenant) num (seqs w)"
    using stepsD [OF counters.steps_create_crl c] s1 by (simp add: same_def v2(1))
  have "bucket v1 (certs_bucket tenant) = bucket w (certs_bucket tenant)" by (rule bucket_cong) (simp add: l1)
  then obtain kvs where kvs: "decode_all cert_record_of (bucket w (certs_bucket tenant)) = Some kvs"
    "revoked = map crl_entry (filter (listed chain) (map snd kvs))"
    using each collected [of chain "[]"] by (auto simp: for_each_json_Inr)
  obtain alg rp where "issuing_ready E (mg_signers m) w ref pem rp alg"
    using ten(3) i(1) by (auto simp: crl_issuer_def tenant_ok_def split: if_splits)
  then obtain s' where ca: "ca_ready E (mg_signers m) w ref pem s' issuing"
    using i(2) by (auto simp: issuing_ready_def ca_ready_def)
  have "holds_key E (mg_signers m) (advance w) ref s'"
    using ca holds_key_kept [OF keeps_keys.advance_ok] by (auto simp: ca_ready_def)
  then have "s = s'" using holds_key_opened o by metis
  then have key: "wf_key (sg_key s)" "algorithm_for_key (public_of (sg_key s)) = Inr (crt_pub_alg issuing)" "prims_correct E (sg_key s)"
    "crt_pub issuing = public_of (sg_key s)" using ca by (simp_all add: ca_ready_def fit_key_def)
  note cc = created_crl [OF libs_okD(7) [OF libs] key c]
  have num: "num = seq_of w (crl_bucket tenant) + 1" using v2(2) s1 by (simp add: seq_of_def)
  have "seqs w' = seqs v3" using stepsD [OF seqs_log log] by (simp add: same_def)
  then have "seq_of w' (crl_bucket tenant) = num" by (simp add: seq_of_def s3 update_conv')
  then show ?thesis
    using i cc kvs log_event_lookup [OF log] by (intro exI [of _ ref] exI [of _ pem] exI [of _ issuing] exI [of _ kvs]) (simp add: num l3)
qed

text \<open>
  Claim C11: a revocation list that is published verifies under the issuing CA of its chain, lists
  exactly the revoked certificates of that chain, with their serial, time in seconds and reason, has
  the number after the last one of its tenant, and changes no document but the log.
\<close>

theorem crl_lists_exactly:
  assumes libs: "libs_ok E" and ten: "lookup w tenants_bucket tenant = Some d" "tenant_of d = Some t" "tenant_ok E (mg_signers m) w ri t"
    and run: "build_crl E m tenant chain who w = (Inr c, w')"
  shows "\<exists>ref pem issuing kvs. crl_issuer t chain = Inr (ref, pem) \<and> parse_certificate_pem E pem = Inr issuing \<and>
    crl_check_signature_from E c issuing = Inr () \<and>
    decode_all cert_record_of (bucket w (certs_bucket tenant)) = Some kvs \<and>
    crl_revoked c = map (in_seconds \<circ> crl_entry) (filter (listed chain) (map snd kvs)) \<and>
    crl_number c = Some (uint (seq_of w (crl_bucket tenant) + 1)) \<and> seq_of w' (crl_bucket tenant) = seq_of w (crl_bucket tenant) + 1 \<and>
    (\<forall>b k. b \<notin> log_buckets \<longrightarrow> lookup w' b k = lookup w b k)"
  by (rule build_crl_sound [OF libs ten run])


end
