(* ===== verification/Api_Keys.thy ===== *)
theory Api_Keys
  imports Ca_Publish
begin

text \<open>
  API keys (internal/api/auth.go): their stored records, minting and parsing of bearer tokens,
  authentication, and the document that counts the operator keys.
\<close>

section \<open>Keys and tokens\<close>

definition role_operator :: string where "role_operator = ''operator''"
definition role_tenant :: string where "role_tenant = ''tenant''"

definition key_prefix :: string where "key_prefix = ''mnemoca_''"
definition key_id_bytes :: nat where "key_id_bytes = 8"
definition key_secret_bytes :: nat where "key_secret_bytes = 32"
definition bootstrap_minted_id :: string where "bootstrap_minted_id = ''0000000000000000''"

definition err_malformed_key :: err where
  "err_malformed_key = Err MalformedKeyS ''malformed API key: want mnemoca_<16 lowercase hex>_<64 lowercase hex>''"

definition api_keys_bucket :: bpath where "api_keys_bucket = [''apikeys'']"

record api_key =
  ak_id :: string
  ak_hash :: string
  ak_role :: string
  ak_tenant :: string
  ak_created_at :: int
  ak_bootstrap :: bool
  ak_audited :: bool
  ak_recovery :: bool

definition api_key_json :: "api_key \<Rightarrow> json" where
  "api_key_json k = JObj (fld ''id'' (JStr (ak_id k)) @ fld ''hash'' (JStr (ak_hash k)) @ fld ''role'' (JStr (ak_role k)) @
     fld ''tenant'' (JStr (ak_tenant k)) @ fld ''created_at'' (JTime (ak_created_at k)) @
     omit (\<not> ak_bootstrap k) ''bootstrap'' (JBool (ak_bootstrap k)) @ omit (\<not> ak_audited k) ''audited'' (JBool (ak_audited k)) @
     omit (\<not> ak_recovery k) ''recovery'' (JBool (ak_recovery k)))"

definition api_key_of :: "json \<Rightarrow> api_key option" where
  "api_key_of j = do { fs \<leftarrow> of_obj j; i \<leftarrow> of_str (jget fs ''id''); h \<leftarrow> of_str (jget fs ''hash''); r \<leftarrow> of_str (jget fs ''role'');
     t \<leftarrow> of_str (jget fs ''tenant''); c \<leftarrow> of_time (jget fs ''created_at''); b \<leftarrow> of_bool (jget fs ''bootstrap'');
     a \<leftarrow> of_bool (jget fs ''audited''); rc \<leftarrow> of_bool (jget fs ''recovery'');
     Some \<lparr>ak_id = i, ak_hash = h, ak_role = r, ak_tenant = t, ak_created_at = c, ak_bootstrap = b, ak_audited = a, ak_recovery = rc\<rparr> }"

definition zero_key :: api_key where
  "zero_key = \<lparr>ak_id = [], ak_hash = [], ak_role = [], ak_tenant = [], ak_created_at = zero_time, ak_bootstrap = False,
     ak_audited = False, ak_recovery = False\<rparr>"

definition allows :: "api_key \<Rightarrow> string \<Rightarrow> bool" where
  "allows k tenant \<longleftrightarrow> ak_role k = role_operator \<or> (ak_role k = role_tenant \<and> ak_tenant k = tenant)"

definition api_actor :: "api_key \<Rightarrow> string \<Rightarrow> actor" where
  "api_actor k remote = \<lparr>ac_type = ''apikey'', ac_id = ak_id k, ac_ip = remote\<rparr>"

definition new_key_record :: "'x cenv_scheme \<Rightarrow> string \<Rightarrow> string \<Rightarrow> string \<Rightarrow> string \<Rightarrow> api_key act" where
  "new_key_record E kid secret role tenant = ebind (clock E) (\<lambda>t. ret
     \<lparr>ak_id = kid, ak_hash = hex_encode (sha256 E secret), ak_role = role, ak_tenant = tenant, ak_created_at = t,
      ak_bootstrap = False, ak_audited = False, ak_recovery = False\<rparr>)"

definition token_of :: "string \<Rightarrow> string \<Rightarrow> string" where
  "token_of kid secret = key_prefix @ kid @ ''_'' @ secret"

definition mint_key :: "'x cenv_scheme \<Rightarrow> string \<Rightarrow> string \<Rightarrow> (string \<times> api_key) act" where
  "mint_key E role tenant =
     ebind (rand_read E key_id_bytes) (\<lambda>idb.
     ebind (rand_read E key_secret_bytes) (\<lambda>sb.
     ebind (new_key_record E (hex_encode idb) (hex_encode sb) role tenant) (\<lambda>k.
       ret (token_of (hex_encode idb) (hex_encode sb), k))))"

definition is_lower_hex :: "string \<Rightarrow> bool" where
  "is_lower_hex s \<longleftrightarrow> list_all lower_hex_char s"

definition parse_key :: "string \<Rightarrow> err + string \<times> string" where
  "parse_key token = (case cut_prefix token key_prefix of
     None \<Rightarrow> Inl err_malformed_key
   | Some rest \<Rightarrow> (case cut_at (CHR ''_'') rest of
       None \<Rightarrow> Inl err_malformed_key
     | Some (kid, secret) \<Rightarrow>
        if length kid \<noteq> 2 * key_id_bytes \<or> length secret \<noteq> 2 * key_secret_bytes \<or> \<not> is_lower_hex kid \<or> \<not> is_lower_hex secret
        then Inl err_malformed_key else Inr (kid, secret)))"

section \<open>Authentication\<close>

definition err_unauthorized :: err where
  "err_unauthorized = Err UnauthorizedS ''api: invalid or missing API key''"

text \<open>The argument is the Authorization header.\<close>

definition token_parts :: "string \<Rightarrow> (string \<times> string) option" where
  "token_parts header = (case cut_prefix header ''Bearer '' of
     None \<Rightarrow> None
   | Some token \<Rightarrow> (case cut_prefix (trim_space token) key_prefix of
       None \<Rightarrow> None
     | Some rest \<Rightarrow> cut_at (CHR ''_'') rest))"

definition authenticate :: "'x cenv_scheme \<Rightarrow> string \<Rightarrow> api_key act" where
  "authenticate E header = (case token_parts header of
     None \<Rightarrow> fail err_unauthorized
   | Some (kid, secret) \<Rightarrow>
      ebind (wrap_err (\<lambda>e. if is_not_found e then err_unauthorized else e) (get_json E api_key_of api_keys_bucket kid)) (\<lambda>k.
        case hex_decode (ak_hash k) of
          None \<Rightarrow> fail (errorf (''api: corrupt key record '' @ kid))
        | Some stored \<Rightarrow> if sha256 E secret = stored then ret k else fail err_unauthorized))"

section \<open>The operator keys\<close>

record operator_set =
  op_ids :: "string list"
  op_revoking :: "(string \<times> int) list"

definition operator_set_json :: "operator_set \<Rightarrow> json" where
  "operator_set_json o' = JObj (fld ''ids'' (slice_json JStr (op_ids o')) @
     omit (op_revoking o' = []) ''revoking'' (map_json JTime (op_revoking o')))"

definition operator_set_of :: "json \<Rightarrow> operator_set option" where
  "operator_set_of j = do { fs \<leftarrow> of_obj j; i \<leftarrow> of_list of_str (jget fs ''ids''); r \<leftarrow> of_map of_time (jget fs ''revoking'');
     Some \<lparr>op_ids = i, op_revoking = r\<rparr> }"

definition operator_meta_bucket :: bpath where "operator_meta_bucket = [''apikeys-meta'']"
definition operator_meta_key :: string where "operator_meta_key = ''operators''"

definition err_last_operator :: err where
  "err_last_operator = Err LastOperatorS ''refusing to revoke the last operator API key''"

definition err_revoke_in_progress :: err where
  "err_revoke_in_progress = Err RevokeInProgressS ''another revocation of this key is in progress''"

definition revoke_claim_ttl :: int where "revoke_claim_ttl = five_minutes"

definition update_operators :: "'x cenv_scheme \<Rightarrow> (operator_set \<Rightarrow> operator_set act) \<Rightarrow> unit act" where
  "update_operators E fn = update_json E operator_set_of operator_set_json \<lparr>op_ids = [], op_revoking = []\<rparr>
     operator_meta_bucket operator_meta_key True fn"

definition has_operator :: "operator_set \<Rightarrow> string \<Rightarrow> bool" where
  "has_operator o' kid \<longleftrightarrow> kid \<in> set (op_ids o')"

definition with_operator :: "string \<Rightarrow> operator_set \<Rightarrow> operator_set" where
  "with_operator kid o' = o'\<lparr>op_ids := (if has_operator o' kid then op_ids o' else op_ids o' @ [kid]),
     op_revoking := map_del kid (op_revoking o')\<rparr>"

definition add_operator :: "'x cenv_scheme \<Rightarrow> string \<Rightarrow> unit act" where
  "add_operator E kid = update_operators E (\<lambda>o'. ret (with_operator kid o'))"

text \<open>\<open>time.Since\<close> reads the clock only when there is a claim.\<close>

definition claim_live :: "'x cenv_scheme \<Rightarrow> (string \<times> int) list \<Rightarrow> string \<Rightarrow> bool act" where
  "claim_live E claims kid = (case jfind claims kid of
     None \<Rightarrow> ret False
   | Some t \<Rightarrow> ebind (clock E) (\<lambda>now. ret (now - t < revoke_claim_ttl)))"

definition claim_revoke :: "'x cenv_scheme \<Rightarrow> string \<Rightarrow> operator_set \<Rightarrow> operator_set act" where
  "claim_revoke E kid o' =
     ebind (claim_live E (op_revoking o') kid) (\<lambda>live.
       if live then fail err_revoke_in_progress
       else if length (op_ids o') \<le> 1 \<and> has_operator o' kid \<or> length (op_ids o') = 0 then fail err_last_operator
       else ebind (clock E) (\<lambda>now. ret \<lparr>op_ids = filter (\<lambda>x. x \<noteq> kid) (op_ids o'), op_revoking = map_put kid now (op_revoking o')\<rparr>))"

definition begin_revoke :: "'x cenv_scheme \<Rightarrow> string \<Rightarrow> unit act" where
  "begin_revoke E kid = update_operators E (claim_revoke E kid)"

definition without_operator :: "string \<Rightarrow> operator_set \<Rightarrow> operator_set" where
  "without_operator kid o' = \<lparr>op_ids = filter (\<lambda>x. x \<noteq> kid) (op_ids o'), op_revoking = map_del kid (op_revoking o')\<rparr>"

definition finish_revoke :: "'x cenv_scheme \<Rightarrow> string \<Rightarrow> unit act" where
  "finish_revoke E kid = update_operators E (\<lambda>o'. ret (without_operator kid o'))"

definition abort_revoke :: "'x cenv_scheme \<Rightarrow> string \<Rightarrow> unit act" where
  "abort_revoke E kid = add_operator E kid"

text \<open>
  Reconciling at a start: expired claims are dropped (each reads the clock), and the operator keys
  of the scan that are still stored and not claimed become the set.  A Go map iterates in any order;
  the ids are sorted at the end.
\<close>

definition drop_expired :: "'x cenv_scheme \<Rightarrow> (string \<times> int) list \<Rightarrow> string \<times> int \<Rightarrow> (string \<times> int) list act" where
  "drop_expired E claims kv = ebind (clock E) (\<lambda>now.
     ret (if now - snd kv \<ge> revoke_claim_ttl then map_del (fst kv) claims else claims))"

definition recheck :: "'x cenv_scheme \<Rightarrow> (string \<times> int) list \<Rightarrow> string list \<Rightarrow> string \<Rightarrow> string list act" where
  "recheck E claims ids kid =
     (if jfind claims kid \<noteq> None then ret ids
      else ecase (get E api_keys_bucket kid) (\<lambda>e. if is_not_found e then ret ids else fail e) (\<lambda>_. ret (ids @ [kid])))"

definition reconciled :: "'x cenv_scheme \<Rightarrow> string list \<Rightarrow> operator_set \<Rightarrow> operator_set act" where
  "reconciled E actual o' =
     ebind (efold (drop_expired E) (op_revoking o') (op_revoking o')) (\<lambda>claims.
     ebind (efold (recheck E claims) [] actual) (\<lambda>ids.
       ret \<lparr>op_ids = sort ids, op_revoking = claims\<rparr>))"

definition reconcile_operators :: "'x cenv_scheme \<Rightarrow> unit act" where
  "reconcile_operators E =
     ebind (for_each_json E api_key_of api_keys_bucket
        (\<lambda>actual kid k. Inr (if ak_role k = role_operator then actual @ [kid] else actual)) []) (\<lambda>actual.
     update_operators E (reconciled E actual))"

text \<open>New keys.\<close>

definition create_key :: "'x cenv_scheme \<Rightarrow> string \<Rightarrow> string \<Rightarrow> (string \<times> api_key) act" where
  "create_key E role tenant =
     ebind (mint_key E role tenant) (\<lambda>(token, k).
     ebind (put_json E api_key_json api_keys_bucket (ak_id k) k) (\<lambda>_.
     ebind (if role = role_operator then add_operator E (ak_id k) else ret ()) (\<lambda>_.
       ret (token, k))))"

definition insert_api_key :: "'x cenv_scheme \<Rightarrow> api_key \<Rightarrow> bool act" where
  "insert_api_key E k = put_if_absent E api_keys_bucket (ak_id k) (api_key_json k)"

section \<open>Documents\<close>

lemma key_of_json [simp]: "api_key_of (api_key_json k) = Some k"
  by (cases "ak_bootstrap k"; cases "ak_audited k"; cases "ak_recovery k")
    (simp_all add: api_key_of_def api_key_json_def json_simps)

lemma operator_set_of_json:
  assumes "wf_map (op_revoking o')"
  shows "operator_set_of (operator_set_json o') = Some o'"
proof -
  have r: "of_map of_time (map_json JTime (op_revoking o')) = Some (op_revoking o')"
    using assms by (rule of_map_json) (simp add: json_simps)
  show ?thesis
  proof (cases "op_revoking o' = []")
    case True
    have "of_map of_time JNull = Some []" by (simp add: of_map_def json_simps canon_map_def)
    with True show ?thesis by (cases o') (simp add: operator_set_of_def operator_set_json_def json_simps)
  next
    case False
    with r show ?thesis by (simp add: operator_set_of_def operator_set_json_def json_simps)
  qed
qed

lemma operator_set_wf: "operator_set_of j = Some o' \<Longrightarrow> wf_map (op_revoking o')"
  by (auto simp: operator_set_of_def dest: of_map_wf split: Option.bind_splits)

lemma key_buckets [simp]: "api_keys_bucket \<noteq> operator_meta_bucket" "operator_meta_bucket \<noteq> api_keys_bucket"
  "api_keys_bucket \<noteq> []" "operator_meta_bucket \<noteq> []" "api_keys_bucket \<notin> log_buckets" "operator_meta_bucket \<notin> log_buckets"
  by (simp_all add: api_keys_bucket_def operator_meta_bucket_def log_buckets_def audit_records_bucket_def audit_meta_bucket_def)

end
