(* ===== verification/Api_Handlers.thy ===== *)
theory Api_Handlers
  imports Api_Keys
begin

text \<open>
  The REST API (internal/api/api.go, handlers.go, profiles.go): requests, the decoding of their
  bodies, the handlers, and the table of routes with the checks in front of each handler.  Paths are
  given as their segments; the redirects of the standard library to a clean path are not part of it.
\<close>

section \<open>Requests and responses\<close>

text \<open>The standard library's reading of a duration is an argument.\<close>

record aenv = cenv +
  parse_duration :: "string \<Rightarrow> err + int"

text \<open>
  The body of a request is its first JSON value; none when it is not JSON or longer than the
  limit of one megabyte.
\<close>

record request =
  rq_method :: string
  rq_path :: "string list"
  rq_auth :: string
  rq_remote :: string
  rq_body :: "json option"

datatype body = JsonBody json | PemBody string | DerBody string | TextBody string | NoBody

record response =
  rs_status :: nat
  rs_body :: body

definition write_json :: "nat \<Rightarrow> json \<Rightarrow> response act" where
  "write_json status v = ret \<lparr>rs_status = status, rs_body = JsonBody v\<rparr>"

definition write_error :: "nat \<Rightarrow> string \<Rightarrow> response act" where
  "write_error status t = write_json status (JObj (fld ''error'' (JStr t)))"

record server =
  sv_manager :: manager
  sv_db :: string
  sv_dir :: string
  sv_key_file :: string
  sv_key_source :: string
  sv_acme :: "(request \<Rightarrow> response act) option"

section \<open>Decoding bodies\<close>

text \<open>
  Field names match without regard to case, unknown fields are refused, the last value of a field
  counts, and null leaves a field that is not a slice as it is.
\<close>

definition lower_char :: "char \<Rightarrow> char" where
  "lower_char c = (let n = of_char c :: nat in if 65 \<le> n \<and> n \<le> 90 then char_of (n + 32) else c)"

fun known_fields :: "string list \<Rightarrow> (string \<times> json) list \<Rightarrow> (string \<times> json) list option" where
  "known_fields names [] = Some []"
| "known_fields names ((k, v) # fs) =
     (if map lower_char k \<in> set names then map_option (Cons (map lower_char k, v)) (known_fields names fs) else None)"

definition decode_json :: "string list \<Rightarrow> string list \<Rightarrow> json option \<Rightarrow> (string \<times> json) list option" where
  "decode_json scalars slices body = do { j \<leftarrow> body; fs \<leftarrow> of_obj j; kvs \<leftarrow> known_fields (scalars @ slices) fs;
     Some (filter (\<lambda>kv. \<not> (snd kv = JNull \<and> fst kv \<in> set scalars)) kvs) }"

definition of_int64 :: "json \<Rightarrow> int option" where
  "of_int64 j = (case of_int j of None \<Rightarrow> None | Some i \<Rightarrow> if - (2 ^ 63) \<le> i \<and> i < 2 ^ 63 then Some i else None)"

definition err_json_body :: string where
  "err_json_body = ''invalid JSON body: json: cannot unmarshal''"

definition with_body :: "'q option \<Rightarrow> ('q \<Rightarrow> response act) \<Rightarrow> response act" where
  "with_body q h = (case q of None \<Rightarrow> write_error 400 err_json_body | Some x \<Rightarrow> h x)"

text \<open>An error of the engine is answered with a status and its text.\<close>

definition answer :: "nat \<Rightarrow> 'a act \<Rightarrow> ('a \<Rightarrow> response act) \<Rightarrow> response act" where
  "answer status m h = ecase m (\<lambda>e. write_error status (text_of e)) h"

section \<open>Open endpoints\<close>

definition handle_healthz :: "response act" where
  "handle_healthz = write_json 200 (JObj (fld ''status'' (JStr ''ok'')))"

definition handle_roots :: "'x aenv_scheme \<Rightarrow> response act" where
  "handle_roots E = answer 503 (root E) (\<lambda>ri.
     ret \<lparr>rs_status = 200, rs_body = PemBody (ri_cert_pem ri @ ri_pair_cert_pem ri)\<rparr>)"

definition handle_crl :: "'x aenv_scheme \<Rightarrow> server \<Rightarrow> chain \<Rightarrow> string \<Rightarrow> request \<Rightarrow> response act" where
  "handle_crl E s chain tenant rq =
     answer 404 (get_tenant E tenant) (\<lambda>_.
     answer 400 (build_crl E (sv_manager s) tenant chain \<lparr>ac_type = ''system'', ac_id = ''crl-endpoint'', ac_ip = rq_remote rq\<rparr>) (\<lambda>c.
       ret \<lparr>rs_status = 200, rs_body = DerBody (crl_raw c)\<rparr>))"

section \<open>Tenants\<close>

definition tenant_view :: "tenant \<Rightarrow> json" where
  "tenant_view t = JObj (fld ''id'' (JStr (tn_id t)) @ fld ''name'' (JStr (tn_name t)) @ fld ''created_at'' (JTime (tn_created_at t)) @
     fld ''alg'' (JStr (tn_alg t)) @ fld ''cert_pem'' (JStr (tn_cert_pem t)) @
     omit (tn_pair_alg t = []) ''pair_alg'' (JStr (tn_pair_alg t)) @
     omit (tn_pair_cert_pem t = []) ''pair_cert_pem'' (JStr (tn_pair_cert_pem t)))"

definition create_tenant_body :: "json option \<Rightarrow> (string \<times> string \<times> string \<times> bool) option" where
  "create_tenant_body b = do { fs \<leftarrow> decode_json [''id'', ''name'', ''alg'', ''hybrid''] [] b; i \<leftarrow> of_str (jget fs ''id'');
     n \<leftarrow> of_str (jget fs ''name''); a \<leftarrow> of_str (jget fs ''alg''); h \<leftarrow> of_bool (jget fs ''hybrid''); Some (i, n, a, h) }"

definition handle_create_tenant :: "'x aenv_scheme \<Rightarrow> server \<Rightarrow> request \<Rightarrow> api_key \<Rightarrow> response act" where
  "handle_create_tenant E s rq key = with_body (create_tenant_body (rq_body rq)) (\<lambda>(i, n, a, h).
     answer 400 (create_tenant E (sv_manager s) i n a h (api_actor key (rq_remote rq))) (\<lambda>t. write_json 201 (tenant_view t)))"

definition handle_list_tenants :: "'x aenv_scheme \<Rightarrow> response act" where
  "handle_list_tenants E = answer 500 (list_tenants E) (\<lambda>ts.
     write_json 200 (JObj (fld ''tenants'' (JArr (map tenant_view ts)))))"

definition handle_get_tenant :: "'x aenv_scheme \<Rightarrow> string \<Rightarrow> response act" where
  "handle_get_tenant E tenant = answer 404 (get_tenant E tenant) (\<lambda>t. write_json 200 (tenant_view t))"

section \<open>Certificates\<close>

definition issue_body :: "json option \<Rightarrow> (string \<times> string \<times> string \<times> string \<times> bool) option" where
  "issue_body b = do { fs \<leftarrow> decode_json [''csr_pem'', ''profile'', ''validity'', ''chain'', ''experimental_composite''] [] b;
     c \<leftarrow> of_str (jget fs ''csr_pem''); p \<leftarrow> of_str (jget fs ''profile''); v \<leftarrow> of_str (jget fs ''validity'');
     ch \<leftarrow> of_str (jget fs ''chain''); x \<leftarrow> of_bool (jget fs ''experimental_composite''); Some (c, p, v, ch, x) }"

definition issued_view :: "'x aenv_scheme \<Rightarrow> issued \<Rightarrow> json" where
  "issued_view E i = JObj (fld ''chain'' (JStr (is_chain i)) @ fld ''cert_pem'' (JStr (encode_certificate_pem E (is_cert i))) @
     fld ''chain_pem'' (JStr (encode_chain_pem E (is_path i))) @ fld ''serial'' (JStr (dec (xc_serial (crt_x509 (is_cert i))))) @
     fld ''not_after'' (JTime (xc_not_after (crt_x509 (is_cert i)))))"

definition request_validity :: "'x aenv_scheme \<Rightarrow> string \<Rightarrow> err + int" where
  "request_validity E v = (if v = [] then Inr 0 else wrap_sum ''invalid validity: '' (parse_duration E v))"

definition handle_issue :: "'x aenv_scheme \<Rightarrow> server \<Rightarrow> string \<Rightarrow> request \<Rightarrow> api_key \<Rightarrow> response act" where
  "handle_issue E s tenant rq key = with_body (issue_body (rq_body rq)) (\<lambda>(c, p, v, ch, x).
     answer 400 (lift_sum (parse_csr_pem E c)) (\<lambda>csr.
     answer 400 (lift_sum (request_validity E v)) (\<lambda>validity.
     answer 400 (issue E (sv_manager s) \<lparr>iq_tenant = tenant, iq_profile = p, iq_csr = Some csr, iq_validity = validity, iq_chain = ch,
         iq_experimental = x, iq_actor = api_actor key (rq_remote rq)\<rparr>) (\<lambda>is.
       write_json 200 (JObj (fld ''certificates'' (JArr (map (issued_view E) is))))))))"

definition revoke_body :: "json option \<Rightarrow> (string \<times> int) option" where
  "revoke_body b = do { fs \<leftarrow> decode_json [''serial'', ''reason_code''] [] b; s \<leftarrow> of_str (jget fs ''serial'');
     r \<leftarrow> of_int64 (jget fs ''reason_code''); Some (s, r) }"

definition handle_revoke :: "'x aenv_scheme \<Rightarrow> server \<Rightarrow> string \<Rightarrow> request \<Rightarrow> api_key \<Rightarrow> response act" where
  "handle_revoke E s tenant rq key = with_body (revoke_body (rq_body rq)) (\<lambda>(serial, reason).
     answer 400 (revoke E (sv_manager s) tenant serial reason (api_actor key (rq_remote rq))) (\<lambda>_.
       write_json 200 (JObj (fld ''status'' (JStr ''revoked'') @ fld ''serial'' (JStr serial)))))"

definition cert_view :: "cert_record \<Rightarrow> json" where
  "cert_view r = JObj (fld ''serial'' (JStr (cr_serial r)) @ fld ''profile'' (JStr (cr_profile r)) @ fld ''chain'' (JStr (cr_chain r)) @
     fld ''subject_cn'' (JStr (cr_subject_cn r)) @ omit (cr_sans r = []) ''sans'' (slice_json JStr (cr_sans r)) @
     fld ''key_alg'' (JStr (cr_key_alg r)) @ fld ''sig_alg'' (JStr (cr_sig_alg r)) @ fld ''not_before'' (JTime (cr_not_before r)) @
     fld ''not_after'' (JTime (cr_not_after r)) @ fld ''revoked'' (JBool (cr_revoked r)) @
     omit (\<not> cr_revoked r) ''revoked_at'' (JTime (cr_revoked_at r)) @
     omit (cr_reason_code r = 0) ''reason_code'' (JNum (cr_reason_code r)))"

definition handle_list_certificates :: "'x aenv_scheme \<Rightarrow> string \<Rightarrow> response act" where
  "handle_list_certificates E tenant = answer 404 (list_certificates E tenant) (\<lambda>rs.
     write_json 200 (JObj (fld ''certificates'' (JArr (map cert_view rs)))))"

section \<open>Profiles\<close>

text \<open>A Go map iterates in any order: the listing of the profiles is one order of several.\<close>

definition profile_view :: "'x aenv_scheme \<Rightarrow> profile \<Rightarrow> json" where
  "profile_view E p = (let ekus = (if pf_ekus p = [] then (if pf_server_auth p then [''server_auth''] else []) @
       (if pf_client_auth p then [''client_auth''] else []) else pf_ekus p) in
     JObj (fld ''name'' (JStr (pf_name p)) @ fld ''default_validity'' (JStr (duration_text E (pf_default_validity p))) @
       fld ''max_validity'' (JStr (duration_text E (pf_max_validity p))) @ omit (ekus = []) ''ekus'' (slice_json JStr ekus) @
       omit (pf_key_usages p = []) ''key_usages'' (slice_json JStr (pf_key_usages p)) @
       omit (pf_allowed_key_algs p = []) ''allowed_key_algs'' (slice_json JStr (pf_allowed_key_algs p)) @
       omit (pf_hybrid p = []) ''hybrid'' (JStr (pf_hybrid p))))"

definition handle_list_profiles :: "'x aenv_scheme \<Rightarrow> string \<Rightarrow> response act" where
  "handle_list_profiles E tenant = answer 404 (get_tenant E tenant) (\<lambda>t.
     write_json 200 (JObj (fld ''profiles'' (JArr (map (profile_view E \<circ> snd) (tn_profiles t))) @
       fld ''ekus'' (JArr (map JStr profile_eku_names)) @ fld ''key_usages'' (JArr (map JStr profile_key_usage_names)))))"

definition profile_body :: "json option \<Rightarrow> (string \<times> string \<times> string list \<times> string list \<times> string list \<times> string) option" where
  "profile_body b = do { fs \<leftarrow> decode_json [''name'', ''default_validity'', ''max_validity'', ''hybrid'']
       [''ekus'', ''key_usages'', ''allowed_key_algs''] b;
     n \<leftarrow> of_str (jget fs ''name''); d \<leftarrow> of_str (jget fs ''default_validity''); m \<leftarrow> of_str (jget fs ''max_validity'');
     e \<leftarrow> of_list of_str (jget fs ''ekus''); k \<leftarrow> of_list of_str (jget fs ''key_usages'');
     a \<leftarrow> of_list of_str (jget fs ''allowed_key_algs''); h \<leftarrow> of_str (jget fs ''hybrid''); Some (d, m, e, k, a, h) }"

definition handle_set_profile :: "'x aenv_scheme \<Rightarrow> server \<Rightarrow> string \<Rightarrow> string \<Rightarrow> request \<Rightarrow> api_key \<Rightarrow> response act" where
  "handle_set_profile E s tenant name rq key = with_body (profile_body (rq_body rq)) (\<lambda>(d, m, e, k, a, h).
     answer 400 (lift_sum (wrap_sum ''invalid default_validity: '' (parse_duration E d))) (\<lambda>dv.
     answer 400 (lift_sum (wrap_sum ''invalid max_validity: '' (parse_duration E m))) (\<lambda>mv.
     let p = \<lparr>pf_name = name, pf_default_validity = dv, pf_max_validity = mv, pf_server_auth = False, pf_client_auth = False,
       pf_ekus = e, pf_key_usages = k, pf_allowed_key_algs = a, pf_hybrid = h\<rparr> in
     answer 400 (set_profile E (sv_manager s) tenant p (api_actor key (rq_remote rq))) (\<lambda>_.
       write_json 200 (profile_view E p)))))"

definition handle_delete_profile :: "'x aenv_scheme \<Rightarrow> server \<Rightarrow> string \<Rightarrow> string \<Rightarrow> request \<Rightarrow> api_key \<Rightarrow> response act" where
  "handle_delete_profile E s tenant name rq key =
     answer 400 (delete_profile E (sv_manager s) tenant name (api_actor key (rq_remote rq))) (\<lambda>_.
       write_json 200 (JObj (fld ''status'' (JStr ''deleted''))))"

section \<open>Algorithms\<close>

definition algorithm_view :: "json list \<Rightarrow> algorithm \<Rightarrow> err + json list" where
  "algorithm_view out alg = sbind (lookup_alg alg) (\<lambda>i. Inr (out @
     [JObj (fld ''alg'' (JStr (i_alg i)) @ fld ''pq'' (JBool (i_pq i)) @ fld ''hybrid'' (JBool (i_hybrid i)) @
       fld ''experimental'' (JBool (i_experimental i)))]))"

definition handle_algorithms :: "response act" where
  "handle_algorithms = answer 500 (lift_sum (sfold algorithm_view [] (sort algorithms))) (\<lambda>out.
     write_json 200 (JObj (fld ''algorithms'' (JArr out))))"

section \<open>API keys\<close>

definition create_key_body :: "json option \<Rightarrow> (string \<times> string) option" where
  "create_key_body b = do { fs \<leftarrow> decode_json [''role'', ''tenant''] [] b; r \<leftarrow> of_str (jget fs ''role'');
     t \<leftarrow> of_str (jget fs ''tenant''); Some (r, t) }"

definition key_event :: "string \<Rightarrow> actor \<Rightarrow> string \<Rightarrow> string \<Rightarrow> (string \<times> string) list \<Rightarrow> audit_rec" where
  "key_event tenant who action kid detail = new_event tenant who action \<lparr>ob_type = ''apikey'', ob_id = kid\<rparr> detail"

definition check_key_scope :: "'x aenv_scheme \<Rightarrow> string \<Rightarrow> string \<Rightarrow> unit act" where
  "check_key_scope E role tenant =
     (if role = role_operator then
        (if tenant \<noteq> [] then fail (errorf ''operator keys must not be tenant-scoped'') else ret ())
      else if role = role_tenant then
        (if tenant = [] then fail (errorf ''tenant-role keys require a tenant'')
         else ebind (get_tenant E tenant) (\<lambda>_. ret ()))
      else fail (errorf (''invalid role '' @ quoted role @ '' (want '' @ quoted role_operator @ '' or '' @ quoted role_tenant @ '')'')))"

definition handle_create_api_key :: "'x aenv_scheme \<Rightarrow> server \<Rightarrow> request \<Rightarrow> api_key \<Rightarrow> response act" where
  "handle_create_api_key E s rq key = with_body (create_key_body (rq_body rq)) (\<lambda>(role, tenant).
     answer 400 (check_key_scope E role tenant) (\<lambda>_.
     answer 500 (create_key E role tenant) (\<lambda>(token, k).
     answer 500 (log_event E (mg_audit (sv_manager s)) (key_event (ak_tenant k) (api_actor key (rq_remote rq)) ''apikey.create''
         (ak_id k) [(''role'', ak_role k), (''tenant'', ak_tenant k)])) (\<lambda>_.
       write_json 201 (JObj (fld ''id'' (JStr (ak_id k)) @ fld ''key'' (JStr token) @ fld ''role'' (JStr (ak_role k)) @
         fld ''tenant'' (JStr (ak_tenant k)) @ fld ''created_at'' (JTime (ak_created_at k))))))))"

text \<open>After a failure the operator count is restored only when the key is known to have survived.\<close>

definition settle_revoke :: "'x aenv_scheme \<Rightarrow> string \<Rightarrow> unit act" where
  "settle_revoke E kid = ecase (get E api_keys_bucket kid)
     (\<lambda>e. if is_not_found e then ecase (finish_revoke E kid) (\<lambda>_. ret ()) ret else ret ())
     (\<lambda>_. ecase (abort_revoke E kid) (\<lambda>_. ret ()) ret)"

definition revoke_failed :: "'x aenv_scheme \<Rightarrow> server \<Rightarrow> api_key \<Rightarrow> string \<Rightarrow> actor \<Rightarrow> err \<Rightarrow> bool \<Rightarrow> response act" where
  "revoke_failed E s target kid who err audited =
     ebind (if audited then ecase (log_event E (mg_audit (sv_manager s)) (key_event (ak_tenant target) who ''apikey.revoke.failed'' kid
         [(''role'', ak_role target), (''tenant'', ak_tenant target), (''error'', text_of err)])) (\<lambda>_. ret ()) ret else ret ()) (\<lambda>_.
     ebind (if ak_role target = role_operator then settle_revoke E kid else ret ()) (\<lambda>_.
       write_error 500 (text_of err)))"

definition bootstrap_key_file_name :: string where "bootstrap_key_file_name = ''bootstrap-api-key''"

definition bootstrap_path :: "server \<Rightarrow> string" where
  "bootstrap_path s = sv_dir s @ ''/'' @ bootstrap_key_file_name"

definition remove_file :: "'x env_scheme \<Rightarrow> string \<Rightarrow> unit act" where
  "remove_file E path = effect E (\<lambda>w. (Inr (), w\<lparr>text_files := AList.delete path (text_files w)\<rparr>))"

definition handle_revoke_api_key :: "'x aenv_scheme \<Rightarrow> server \<Rightarrow> string \<Rightarrow> request \<Rightarrow> api_key \<Rightarrow> response act" where
  "handle_revoke_api_key E s kid rq caller =
     ecase (get_json E api_key_of api_keys_bucket kid)
       (\<lambda>e. if is_not_found e then write_error 404 (''API key '' @ quoted kid @ '' not found'') else write_error 500 (text_of e))
       (\<lambda>target. let who = api_actor caller (rq_remote rq); operator = (ak_role target = role_operator) in
     ecase (if operator then begin_revoke E kid else ret ())
       (\<lambda>e. if sentinel_of e \<in> {LastOperatorS, RevokeInProgressS} then write_error 409 (text_of e) else write_error 500 (text_of e))
       (\<lambda>_.
     ecase (log_event E (mg_audit (sv_manager s)) (key_event (ak_tenant target) who ''apikey.revoke'' kid
         [(''role'', ak_role target), (''tenant'', ak_tenant target)])) (\<lambda>e. revoke_failed E s target kid who e False) (\<lambda>_.
     ecase (delete E api_keys_bucket kid) (\<lambda>e. revoke_failed E s target kid who e True) (\<lambda>_.
     ebind (if operator then ecase (finish_revoke E kid) (\<lambda>_. ret ()) ret else ret ()) (\<lambda>_.
     ebind (if kid = bootstrap_minted_id \<and> sv_db s = ''bolt'' then ecase (remove_file E (bootstrap_path s)) (\<lambda>_. ret ()) ret else ret ()) (\<lambda>_.
       ret \<lparr>rs_status = 204, rs_body = NoBody\<rparr>))))))"

section \<open>Routes\<close>

datatype endpoint =
    Healthz | Roots | Crl chain string | AcmePath
  | CreateTenant | ListTenants | GetTenant string | Issue string | Revoke string | ListCertificates string
  | ListProfiles string | SetProfile string string | DeleteProfile string string | Algorithms
  | CreateApiKey | RevokeApiKey string

definition is_get :: "string \<Rightarrow> bool" where
  "is_get m \<longleftrightarrow> m \<in> {''GET'', ''HEAD''}"

text \<open>The segments after \<open>/api/v1\<close>.  A wildcard of a pattern does not match an empty segment.\<close>

fun api_route :: "string \<Rightarrow> string list \<Rightarrow> endpoint option" where
  "api_route m [a] =
     (if a = ''tenants'' \<and> m = ''POST'' then Some CreateTenant else if a = ''tenants'' \<and> is_get m then Some ListTenants
      else if a = ''algorithms'' \<and> is_get m then Some Algorithms else if a = ''apikeys'' \<and> m = ''POST'' then Some CreateApiKey else None)"
| "api_route m [a, i] =
     (if i = [] then None else if a = ''tenants'' \<and> is_get m then Some (GetTenant i)
      else if a = ''apikeys'' \<and> m = ''DELETE'' then Some (RevokeApiKey i) else None)"
| "api_route m [a, i, b] =
     (if i = [] \<or> a \<noteq> ''tenants'' then None else if b = ''issue'' \<and> m = ''POST'' then Some (Issue i)
      else if b = ''revoke'' \<and> m = ''POST'' then Some (Revoke i) else if b = ''certificates'' \<and> is_get m then Some (ListCertificates i)
      else if b = ''profiles'' \<and> is_get m then Some (ListProfiles i) else None)"
| "api_route m [a, i, b, n] =
     (if i = [] \<or> n = [] \<or> a \<noteq> ''tenants'' \<or> b \<noteq> ''profiles'' then None else if m = ''PUT'' then Some (SetProfile i n)
      else if m = ''DELETE'' then Some (DeleteProfile i n) else None)"
| "api_route m _ = None"

definition route :: "server \<Rightarrow> string \<Rightarrow> string list \<Rightarrow> endpoint option" where
  "route s m path =
     (if path = [''healthz''] \<and> is_get m then Some Healthz
      else if path = [''roots''] \<and> is_get m then Some Roots
      else (case path of
        a # b # rest \<Rightarrow>
          if a = ''crl'' \<and> b \<noteq> [] \<and> rest = [] \<and> is_get m then Some (Crl chain_primary b)
          else if a = ''crl'' \<and> b \<noteq> [] \<and> rest = [''pair''] \<and> is_get m then Some (Crl chain_pair b)
          else if a = ''acme'' \<and> sv_acme s \<noteq> None then Some AcmePath
          else if a = ''api'' \<and> b = ''v1'' then api_route m rest else None
      | _ \<Rightarrow> None))"

definition authed :: "'x aenv_scheme \<Rightarrow> request \<Rightarrow> (api_key \<Rightarrow> response act) \<Rightarrow> response act" where
  "authed E rq next = ecase (authenticate E (rq_auth rq))
     (\<lambda>e. if sentinel_of e = UnauthorizedS then write_error 401 ''invalid or missing API key'' else write_error 500 ''authentication failed'') next"

definition operator_only :: "(api_key \<Rightarrow> response act) \<Rightarrow> api_key \<Rightarrow> response act" where
  "operator_only next key = (if ak_role key \<noteq> role_operator then write_error 403 ''operator API key required'' else next key)"

definition tenant_scoped :: "string \<Rightarrow> (api_key \<Rightarrow> response act) \<Rightarrow> api_key \<Rightarrow> response act" where
  "tenant_scoped tenant next key =
     (if \<not> allows key tenant then write_error 403 (''API key not authorized for tenant '' @ quoted tenant) else next key)"

text \<open>The handler of an endpoint with its checks; \<open>acme\<close> is the mounted handler.\<close>

definition no_route :: "server \<Rightarrow> request \<Rightarrow> response act" where
  "no_route s rq = (if list_ex (\<lambda>m. route s m (rq_path rq) \<noteq> None) [''GET'', ''POST'', ''PUT'', ''DELETE'']
     then ret \<lparr>rs_status = 405, rs_body = TextBody ''Method Not Allowed''\<rparr>
     else ret \<lparr>rs_status = 404, rs_body = TextBody ''404 page not found''\<rparr>)"

fun handle_endpoint :: "'x aenv_scheme \<Rightarrow> server \<Rightarrow> request \<Rightarrow> endpoint \<Rightarrow> response act" where
  "handle_endpoint E s rq Healthz = handle_healthz"
| "handle_endpoint E s rq Roots = handle_roots E"
| "handle_endpoint E s rq (Crl chain t) = handle_crl E s chain t rq"
| "handle_endpoint E s rq AcmePath = (case sv_acme s of None \<Rightarrow> no_route s rq | Some h \<Rightarrow> h rq)"
| "handle_endpoint E s rq CreateTenant = authed E rq (operator_only (handle_create_tenant E s rq))"
| "handle_endpoint E s rq ListTenants = authed E rq (operator_only (\<lambda>_. handle_list_tenants E))"
| "handle_endpoint E s rq (GetTenant t) = authed E rq (tenant_scoped t (\<lambda>_. handle_get_tenant E t))"
| "handle_endpoint E s rq (Issue t) = authed E rq (tenant_scoped t (handle_issue E s t rq))"
| "handle_endpoint E s rq (Revoke t) = authed E rq (tenant_scoped t (handle_revoke E s t rq))"
| "handle_endpoint E s rq (ListCertificates t) = authed E rq (tenant_scoped t (\<lambda>_. handle_list_certificates E t))"
| "handle_endpoint E s rq (ListProfiles t) = authed E rq (tenant_scoped t (\<lambda>_. handle_list_profiles E t))"
| "handle_endpoint E s rq (SetProfile t n) = authed E rq (tenant_scoped t (handle_set_profile E s t n rq))"
| "handle_endpoint E s rq (DeleteProfile t n) = authed E rq (tenant_scoped t (handle_delete_profile E s t n rq))"
| "handle_endpoint E s rq Algorithms = authed E rq (\<lambda>_. handle_algorithms)"
| "handle_endpoint E s rq CreateApiKey = authed E rq (operator_only (handle_create_api_key E s rq))"
| "handle_endpoint E s rq (RevokeApiKey i) = authed E rq (operator_only (handle_revoke_api_key E s i rq))"

definition serve :: "'x aenv_scheme \<Rightarrow> server \<Rightarrow> request \<Rightarrow> response act" where
  "serve E s rq = (case route s (rq_method rq) (rq_path rq) of None \<Rightarrow> no_route s rq | Some e \<Rightarrow> handle_endpoint E s rq e)"

end
