(* ===== verification/Acme_Types.thy ===== *)
theory Acme_Types
  imports Api_Handlers
begin

text \<open>
  The documents of the ACME server (internal/acme/types.go), the base64url encoding it uses, its
  problem documents, and the reading of JSON objects with unknown fields.
\<close>

section \<open>The environment\<close>

text \<open>
  What the server asks of the network, by the tick of the call: the addresses of a host, the reply
  of a server at an address to a request for a URL (none when the connection or the request fails),
  and TXT records; and libraries: JSON, HMAC, ECDSA over a pair of integers, media types, host and
  port of an address, and URLs (scheme, host and port; a reference resolved against a base).
\<close>

record http_reply =
  hr_status :: nat
  hr_location :: string
  hr_body :: "err + string"

record nenv = aenv +
  json_parse :: "string \<Rightarrow> json option"
  hmac256 :: "string \<Rightarrow> string \<Rightarrow> string"
  ecdsa_rs_ok :: "string \<Rightarrow> string \<Rightarrow> nat \<Rightarrow> nat \<Rightarrow> bool"
  media_type :: "string \<Rightarrow> string option"
  split_host :: "string \<Rightarrow> string option"
  url_split :: "string \<Rightarrow> (string \<times> string \<times> string) option"
  url_join :: "string \<Rightarrow> string \<Rightarrow> string option"
  resolve_at :: "nat \<Rightarrow> string \<Rightarrow> string list"
  http_at :: "nat \<Rightarrow> string \<Rightarrow> string \<Rightarrow> http_reply option"
  txt_at :: "nat \<Rightarrow> string \<Rightarrow> err + string list"

section \<open>base64url without padding\<close>

definition b64_char :: "nat \<Rightarrow> char" where
  "b64_char n = (if n < 26 then char_of (65 + n) else if n < 52 then char_of (71 + n) else if n < 62 then char_of (n - 4)
     else if n = 62 then CHR ''-'' else CHR ''_'')"

definition b64_value :: "char \<Rightarrow> nat option" where
  "b64_value c = (let n = of_char c in
     if 65 \<le> n \<and> n \<le> 90 then Some (n - 65) else if 97 \<le> n \<and> n \<le> 122 then Some (n - 71)
     else if 48 \<le> n \<and> n \<le> 57 then Some (n + 4) else if n = 45 then Some 62 else if n = 95 then Some 63 else None)"

fun raw_b64 :: "string \<Rightarrow> string" where
  "raw_b64 [] = []"
| "raw_b64 [a] = (let x = of_char a in [b64_char (x div 4), b64_char (x mod 4 * 16)])"
| "raw_b64 [a, b] = (let x = of_char a; y = of_char b in
     [b64_char (x div 4), b64_char (x mod 4 * 16 + y div 16), b64_char (y mod 16 * 4)])"
| "raw_b64 (a # b # c # s) = (let x = of_char a; y = of_char b; z = of_char c in
     b64_char (x div 4) # b64_char (x mod 4 * 16 + y div 16) # b64_char (y mod 16 * 4 + z div 64) # b64_char (z mod 64) # raw_b64 s)"

text \<open>The decoder skips line breaks and does not look at the unused bits of the last character.\<close>

fun b64_values :: "nat list \<Rightarrow> string option" where
  "b64_values [] = Some []"
| "b64_values [p] = None"
| "b64_values [p, q] = Some [char_of (p * 4 + q div 16)]"
| "b64_values [p, q, r] = Some [char_of (p * 4 + q div 16), char_of (q mod 16 * 16 + r div 4)]"
| "b64_values (p # q # r # t # s) = map_option (\<lambda>u. char_of (p * 4 + q div 16) # char_of (q mod 16 * 16 + r div 4) #
     char_of (r mod 4 * 64 + t) # u) (b64_values s)"

definition b64_decode :: "string \<Rightarrow> string option" where
  "b64_decode s = (case all_some (map b64_value (filter (\<lambda>c. c \<noteq> CHR 0x0A \<and> c \<noteq> CHR 0x0D) s)) of
     None \<Rightarrow> None | Some ns \<Rightarrow> b64_values ns)"

lemma b64_value_char: "n < 64 \<Longrightarrow> b64_value (b64_char n) = Some n \<and> b64_char n \<noteq> CHR 0x0A \<and> b64_char n \<noteq> CHR 0x0D \<and> b64_char n \<noteq> CHR ''.''"
proof -
  assume n: "n < 64"
  have c: "of_char (b64_char n) = (if n < 26 then 65 + n else if n < 52 then 71 + n else if n < 62 then n - 4 else if n = 62 then 45 else 95)"
    using n by (simp add: b64_char_def)
  then have "b64_value (b64_char n) = Some n" using n by (auto simp: b64_value_def Let_def split: if_splits)
  moreover have "b64_char n \<noteq> CHR 0x0A" "b64_char n \<noteq> CHR 0x0D" "b64_char n \<noteq> CHR ''.''" using c n by (auto split: if_splits)
  ultimately show ?thesis by simp
qed

fun b64_digits :: "string \<Rightarrow> nat list" where
  "b64_digits [] = []"
| "b64_digits [a] = (let x = of_char a in [x div 4, x mod 4 * 16])"
| "b64_digits [a, b] = (let x = of_char a; y = of_char b in [x div 4, x mod 4 * 16 + y div 16, y mod 16 * 4])"
| "b64_digits (a # b # c # s) = (let x = of_char a; y = of_char b; z = of_char c in
     [x div 4, x mod 4 * 16 + y div 16, y mod 16 * 4 + z div 64, z mod 64] @ b64_digits s)"

lemma raw_b64_digits: "raw_b64 s = map b64_char (b64_digits s)"
  by (induction s rule: raw_b64.induct) (simp_all add: Let_def)

lemma byte_bounds: "of_char (c :: char) div 4 < (64 :: nat)" "of_char c div 16 < (16 :: nat)" "of_char c div 64 < (4 :: nat)"
  using of_char_bound [of c] by (simp_all add: less_mult_imp_div_less)

lemma digit_bounds: "x < 4 \<Longrightarrow> y < 16 \<Longrightarrow> x * 16 + y < (64 :: nat)" "x < 16 \<Longrightarrow> y < 4 \<Longrightarrow> x * 4 + y < (64 :: nat)"
  by simp_all

lemma b64_digits_bound: "n \<in> set (b64_digits s) \<Longrightarrow> n < 64"
  by (induction s rule: raw_b64.induct) (auto simp: Let_def byte_bounds digit_bounds)

lemma b64_values_digits: "b64_values (b64_digits s) = Some s"
proof (induction s rule: raw_b64.induct)
  case (4 a b c s)
  obtain x y z :: nat where xyz: "x = of_char a" "y = of_char b" "z = of_char c" by simp
  have "(x mod 4 * 16 + y div 16) div 16 = x mod 4" "(x mod 4 * 16 + y div 16) mod 16 = y div 16"
    "(y mod 16 * 4 + z div 64) div 4 = y mod 16" "(y mod 16 * 4 + z div 64) mod 4 = z div 64"
    using byte_bounds [of b] byte_bounds [of c] xyz by simp_all
  moreover have "x div 4 * 4 + x mod 4 = x" "y div 16 * 16 + y mod 16 = y" "z div 64 * 64 + z mod 64 = z" by simp_all
  ultimately show ?case using 4 by (simp add: Let_def flip: xyz) (simp add: xyz)
next
  case (3 a b)
  obtain x y :: nat where xy: "x = of_char a" "y = of_char b" by simp
  have "(x mod 4 * 16 + y div 16) div 16 = x mod 4" "(x mod 4 * 16 + y div 16) mod 16 = y div 16" "(y mod 16 * 4) div 4 = y mod 16"
    using byte_bounds [of b] xy by simp_all
  moreover have "x div 4 * 4 + x mod 4 = x" "y div 16 * 16 + y mod 16 = y" by simp_all
  ultimately show ?case by (simp add: Let_def flip: xy) (simp add: xy)
next
  case (2 a)
  obtain x :: nat where x: "x = of_char a" by simp
  have "x div 4 * 4 + x mod 4 = x" by simp
  then show ?case by (simp add: Let_def flip: x) (simp add: x)
qed simp

lemma b64_decode_encode [simp]: "b64_decode (raw_b64 s) = Some s"
proof -
  let ?ds = "b64_digits s"
  have "filter (\<lambda>c. c \<noteq> CHR 0x0A \<and> c \<noteq> CHR 0x0D) (map b64_char ?ds) = map b64_char ?ds"
    by (rule filter_True) (use b64_value_char b64_digits_bound in fastforce)
  moreover have "all_some (map b64_value (map b64_char ?ds)) = Some ?ds"
  proof -
    have "n \<in> set ?ds \<Longrightarrow> b64_value (b64_char n) = Some n" for n using b64_value_char b64_digits_bound by blast
    then show ?thesis by (intro all_some_map)
  qed
  ultimately show ?thesis by (simp add: b64_decode_def raw_b64_digits b64_values_digits)
qed

lemma raw_b64_inject [simp]: "raw_b64 s = raw_b64 t \<longleftrightarrow> s = t"
  by (metis b64_decode_encode option.inject)

section \<open>Reading JSON\<close>

text \<open>
  \<open>json.Unmarshal\<close> into a struct: field names match without regard to case, unknown fields are
  dropped, the last value of a field counts, and null leaves a field that is not a slice as it is.
\<close>

definition field_named :: "string list \<Rightarrow> string \<Rightarrow> string option" where
  "field_named names k = find (\<lambda>n. map lower_char n = map lower_char k) names"

definition loose_fields :: "string list \<Rightarrow> string list \<Rightarrow> json \<Rightarrow> (string \<times> json) list option" where
  "loose_fields scalars others j = (case of_obj j of None \<Rightarrow> None
     | Some fs \<Rightarrow> Some (concat (map (\<lambda>(k, v). case field_named (scalars @ others) k of None \<Rightarrow> []
         | Some n \<Rightarrow> if v = JNull \<and> n \<in> set scalars then [] else [(n, v)]) fs)))"

definition unmarshal :: "'x nenv_scheme \<Rightarrow> string \<Rightarrow> (json \<Rightarrow> 'v option) \<Rightarrow> 'v option" where
  "unmarshal E data dc = Option.bind (json_parse E data) dc"

text \<open>The number with the given bytes, most significant first.\<close>

definition bytes_nat :: "string \<Rightarrow> nat" where
  "bytes_nat s = fold (\<lambda>c n. 256 * n + of_char c) s 0"

section \<open>Problems\<close>

definition err_urn :: string where "err_urn = ''urn:ietf:params:acme:error:''"

record problem =
  pb_type :: string
  pb_detail :: string
  pb_status :: int

definition problem_json :: "problem \<Rightarrow> json" where
  "problem_json p = JObj (fld ''type'' (JStr (pb_type p)) @ omit (pb_detail p = []) ''detail'' (JStr (pb_detail p)) @
     omit (pb_status p = 0) ''status'' (JNum (pb_status p)))"

definition problem_of :: "json \<Rightarrow> problem option" where
  "problem_of j = do { fs \<leftarrow> of_obj j; t \<leftarrow> of_str (jget fs ''type''); d \<leftarrow> of_str (jget fs ''detail'');
     s \<leftarrow> of_int (jget fs ''status''); Some \<lparr>pb_type = t, pb_detail = d, pb_status = s\<rparr> }"

definition of_ptr :: "(json \<Rightarrow> 'v option) \<Rightarrow> json \<Rightarrow> 'v option option" where
  "of_ptr dc j = (if j = JNull then Some None else map_option Some (dc j))"

text \<open>An error that is rendered as a problem: status, code and detail.\<close>

definition errf :: "nat \<Rightarrow> string \<Rightarrow> string \<Rightarrow> err" where
  "errf status code detail = Err (AcmeS status code detail) (''acme: '' @ code @ '': '' @ detail)"

section \<open>Documents\<close>

definition status_pending :: string where "status_pending = ''pending''"
definition status_ready :: string where "status_ready = ''ready''"
definition status_valid :: string where "status_valid = ''valid''"
definition status_invalid :: string where "status_invalid = ''invalid''"

lemma statuses_distinct [simp]:
  "status_pending \<noteq> status_ready" "status_pending \<noteq> status_valid" "status_pending \<noteq> status_invalid" "status_ready \<noteq> status_pending"
  "status_ready \<noteq> status_valid" "status_ready \<noteq> status_invalid" "status_valid \<noteq> status_pending" "status_valid \<noteq> status_ready"
  "status_valid \<noteq> status_invalid" "status_invalid \<noteq> status_pending" "status_invalid \<noteq> status_ready" "status_invalid \<noteq> status_valid"
  by (simp_all add: status_pending_def status_ready_def status_valid_def status_invalid_def)

record acme_ident =
  id_type :: string
  id_value :: string

record account =
  acc_id :: string
  acc_thumb :: string
  acc_jwk :: json
  acc_contact :: "string list"
  acc_status :: string
  acc_eab :: string
  acc_created :: int

record acme_order =
  od_id :: string
  od_account :: string
  od_status :: string
  od_expires :: int
  od_idents :: "acme_ident list"
  od_authzs :: "string list"
  od_cert :: string
  od_error :: "problem option"

record authz =
  az_id :: string
  az_order :: string
  az_account :: string
  az_ident :: acme_ident
  az_status :: string
  az_expires :: int
  az_challs :: "string list"

record challenge =
  ch_id :: string
  ch_authz :: string
  ch_type :: string
  ch_token :: string
  ch_status :: string
  ch_validated :: int
  ch_error :: "problem option"

record stored_cert =
  sc_id :: string
  sc_account :: string
  sc_serial :: string
  sc_chain :: string
  sc_created :: int

record eab_key =
  ek_kid :: string
  ek_key :: string
  ek_created :: int

definition identifier_json :: "acme_ident \<Rightarrow> json" where
  "identifier_json i = JObj (fld ''type'' (JStr (id_type i)) @ fld ''value'' (JStr (id_value i)))"

definition identifier_of :: "json \<Rightarrow> acme_ident option" where
  "identifier_of j = do { fs \<leftarrow> of_obj j; t \<leftarrow> of_str (jget fs ''type''); v \<leftarrow> of_str (jget fs ''value'');
     Some \<lparr>id_type = t, id_value = v\<rparr> }"

definition account_json :: "account \<Rightarrow> json" where
  "account_json a = JObj (fld ''id'' (JStr (acc_id a)) @ fld ''thumbprint'' (JStr (acc_thumb a)) @ fld ''jwk'' (acc_jwk a) @
     omit (acc_contact a = []) ''contact'' (slice_json JStr (acc_contact a)) @ fld ''status'' (JStr (acc_status a)) @
     omit (acc_eab a = []) ''eab'' (JStr (acc_eab a)) @ fld ''created_at'' (JTime (acc_created a)))"

definition account_of :: "json \<Rightarrow> account option" where
  "account_of j = do { fs \<leftarrow> of_obj j; i \<leftarrow> of_str (jget fs ''id''); t \<leftarrow> of_str (jget fs ''thumbprint'');
     c \<leftarrow> of_list of_str (jget fs ''contact''); s \<leftarrow> of_str (jget fs ''status''); e \<leftarrow> of_str (jget fs ''eab'');
     cr \<leftarrow> of_time (jget fs ''created_at'');
     Some \<lparr>acc_id = i, acc_thumb = t, acc_jwk = jget fs ''jwk'', acc_contact = c, acc_status = s, acc_eab = e, acc_created = cr\<rparr> }"

definition order_json :: "acme_order \<Rightarrow> json" where
  "order_json o' = JObj (fld ''id'' (JStr (od_id o')) @ fld ''account_id'' (JStr (od_account o')) @ fld ''status'' (JStr (od_status o')) @
     fld ''expires'' (JTime (od_expires o')) @ fld ''identifiers'' (slice_json identifier_json (od_idents o')) @
     fld ''authz_ids'' (slice_json JStr (od_authzs o')) @ omit (od_cert o' = []) ''cert_id'' (JStr (od_cert o')) @
     omit (od_error o' = None) ''error'' (case od_error o' of None \<Rightarrow> JNull | Some p \<Rightarrow> problem_json p))"

definition order_of :: "json \<Rightarrow> acme_order option" where
  "order_of j = do { fs \<leftarrow> of_obj j; i \<leftarrow> of_str (jget fs ''id''); a \<leftarrow> of_str (jget fs ''account_id''); s \<leftarrow> of_str (jget fs ''status'');
     e \<leftarrow> of_time (jget fs ''expires''); ids \<leftarrow> of_list identifier_of (jget fs ''identifiers'');
     az \<leftarrow> of_list of_str (jget fs ''authz_ids''); c \<leftarrow> of_str (jget fs ''cert_id''); er \<leftarrow> of_ptr problem_of (jget fs ''error'');
     Some \<lparr>od_id = i, od_account = a, od_status = s, od_expires = e, od_idents = ids, od_authzs = az, od_cert = c, od_error = er\<rparr> }"

definition authz_json :: "authz \<Rightarrow> json" where
  "authz_json a = JObj (fld ''id'' (JStr (az_id a)) @ fld ''order_id'' (JStr (az_order a)) @ fld ''account_id'' (JStr (az_account a)) @
     fld ''identifier'' (identifier_json (az_ident a)) @ fld ''status'' (JStr (az_status a)) @ fld ''expires'' (JTime (az_expires a)) @
     fld ''challenge_ids'' (slice_json JStr (az_challs a)))"

definition authz_of :: "json \<Rightarrow> authz option" where
  "authz_of j = do { fs \<leftarrow> of_obj j; i \<leftarrow> of_str (jget fs ''id''); o' \<leftarrow> of_str (jget fs ''order_id''); a \<leftarrow> of_str (jget fs ''account_id'');
     idn \<leftarrow> identifier_of (jget fs ''identifier''); s \<leftarrow> of_str (jget fs ''status''); e \<leftarrow> of_time (jget fs ''expires'');
     c \<leftarrow> of_list of_str (jget fs ''challenge_ids'');
     Some \<lparr>az_id = i, az_order = o', az_account = a, az_ident = idn, az_status = s, az_expires = e, az_challs = c\<rparr> }"

definition challenge_json :: "challenge \<Rightarrow> json" where
  "challenge_json c = JObj (fld ''id'' (JStr (ch_id c)) @ fld ''authz_id'' (JStr (ch_authz c)) @ fld ''type'' (JStr (ch_type c)) @
     fld ''token'' (JStr (ch_token c)) @ fld ''status'' (JStr (ch_status c)) @ fld ''validated'' (JTime (ch_validated c)) @
     omit (ch_error c = None) ''error'' (case ch_error c of None \<Rightarrow> JNull | Some p \<Rightarrow> problem_json p))"

definition challenge_of :: "json \<Rightarrow> challenge option" where
  "challenge_of j = do { fs \<leftarrow> of_obj j; i \<leftarrow> of_str (jget fs ''id''); a \<leftarrow> of_str (jget fs ''authz_id''); t \<leftarrow> of_str (jget fs ''type'');
     tk \<leftarrow> of_str (jget fs ''token''); s \<leftarrow> of_str (jget fs ''status''); v \<leftarrow> of_time (jget fs ''validated'');
     e \<leftarrow> of_ptr problem_of (jget fs ''error'');
     Some \<lparr>ch_id = i, ch_authz = a, ch_type = t, ch_token = tk, ch_status = s, ch_validated = v, ch_error = e\<rparr> }"

definition stored_cert_json :: "stored_cert \<Rightarrow> json" where
  "stored_cert_json c = JObj (fld ''id'' (JStr (sc_id c)) @ fld ''account_id'' (JStr (sc_account c)) @ fld ''serial'' (JStr (sc_serial c)) @
     fld ''chain_pem'' (bytes_json (sc_chain c)) @ fld ''created_at'' (JTime (sc_created c)))"

definition stored_cert_of :: "json \<Rightarrow> stored_cert option" where
  "stored_cert_of j = do { fs \<leftarrow> of_obj j; i \<leftarrow> of_str (jget fs ''id''); a \<leftarrow> of_str (jget fs ''account_id''); s \<leftarrow> of_str (jget fs ''serial'');
     c \<leftarrow> of_bytes (jget fs ''chain_pem''); t \<leftarrow> of_time (jget fs ''created_at'');
     Some \<lparr>sc_id = i, sc_account = a, sc_serial = s, sc_chain = c, sc_created = t\<rparr> }"

definition eab_key_json :: "eab_key \<Rightarrow> json" where
  "eab_key_json k = JObj (fld ''kid'' (JStr (ek_kid k)) @ fld ''key'' (bytes_json (ek_key k)) @ fld ''created_at'' (JTime (ek_created k)))"

definition eab_key_of :: "json \<Rightarrow> eab_key option" where
  "eab_key_of j = do { fs \<leftarrow> of_obj j; i \<leftarrow> of_str (jget fs ''kid''); k \<leftarrow> of_bytes (jget fs ''key''); t \<leftarrow> of_time (jget fs ''created_at'');
     Some \<lparr>ek_kid = i, ek_key = k, ek_created = t\<rparr> }"

lemma problem_of_json [json_simps]: "problem_of (problem_json p) = Some p" "problem_json p \<noteq> JNull"
  by (cases "pb_detail p = []"; cases "pb_status p = 0"; simp add: problem_of_def problem_json_def json_simps)+

lemma identifier_of_json [json_simps]: "identifier_of (identifier_json i) = Some i"
  by (simp add: identifier_of_def identifier_json_def json_simps)

lemma account_of_json [simp]: "account_of (account_json a) = Some a"
  by (cases "acc_contact a = []"; cases "acc_eab a = []") (simp_all add: account_of_def account_json_def json_simps)

lemma of_idents_slice [json_simps]: "of_list identifier_of (slice_json identifier_json xs) = Some xs"
  by (rule of_list_slice) (simp add: json_simps)

lemma order_of_json [simp]: "order_of (order_json o') = Some o'"
  by (cases "od_error o'"; cases "od_cert o' = []") (simp_all add: order_of_def order_json_def of_ptr_def json_simps)

lemma authz_of_json [simp]: "authz_of (authz_json a) = Some a"
  by (simp add: authz_of_def authz_json_def json_simps)

lemma challenge_of_json [simp]: "challenge_of (challenge_json c) = Some c"
  by (cases "ch_error c") (simp_all add: challenge_of_def challenge_json_def of_ptr_def json_simps)

lemma stored_cert_of_json [simp]: "stored_cert_of (stored_cert_json c) = Some c"
  by (simp add: stored_cert_of_def stored_cert_json_def json_simps)

lemma eab_key_of_json [simp]: "eab_key_of (eab_key_json k) = Some k"
  by (simp add: eab_key_of_def eab_key_json_def json_simps)

section \<open>Buckets and random names\<close>

definition acme_bucket :: "string \<Rightarrow> string \<Rightarrow> bpath" where "acme_bucket tenant kind = [''acme'', tenant, kind]"
definition accounts_bucket :: "string \<Rightarrow> bpath" where "accounts_bucket t = acme_bucket t ''accounts''"
definition orders_bucket :: "string \<Rightarrow> bpath" where "orders_bucket t = acme_bucket t ''orders''"
definition authzs_bucket :: "string \<Rightarrow> bpath" where "authzs_bucket t = acme_bucket t ''authzs''"
definition challenges_bucket :: "string \<Rightarrow> bpath" where "challenges_bucket t = acme_bucket t ''challenges''"
definition acme_certs_bucket :: "string \<Rightarrow> bpath" where "acme_certs_bucket t = acme_bucket t ''certs''"
definition eab_bucket :: "string \<Rightarrow> bpath" where "eab_bucket t = acme_bucket t ''eab''"
definition nonce_bucket :: "string \<Rightarrow> bpath" where "nonce_bucket t = acme_bucket t ''nonces''"

lemmas acme_bucket_defs = acme_bucket_def accounts_bucket_def orders_bucket_def authzs_bucket_def challenges_bucket_def
  acme_certs_bucket_def eab_bucket_def nonce_bucket_def

definition rand_id :: "'x nenv_scheme \<Rightarrow> string act" where
  "rand_id E = wrap_err (wrapf ''acme: generating id: '') (ebind (rand_read E 12) (\<lambda>b. ret (hex_encode b)))"

definition rand_token :: "'x nenv_scheme \<Rightarrow> string act" where
  "rand_token E = wrap_err (wrapf ''acme: generating token: '') (ebind (rand_read E 16) (\<lambda>b. ret (raw_b64 b)))"

end
