(* ===== verification/Acme_Jws.thy ===== *)
theory Acme_Jws
  imports Acme_Types
begin

text \<open>
  Signed requests of ACME clients (internal/acme/jws.go, nonce.go): nonces, the flattened JWS with
  its protected header, account keys as JWKs with their thumbprints, and the check of a request.
  Texts of errors of the standard library are shortened.
\<close>

section \<open>The server and its requests\<close>

record acme_server =
  xs_manager :: manager
  xs_log :: audit_log
  xs_url :: string
  xs_require_eab :: bool
  xs_allow_private :: bool
  xs_http_port :: nat

definition trim_slashes :: "string \<Rightarrow> string" where
  "trim_slashes s = rev (dropWhile (\<lambda>c. c = CHR ''/'') (rev s))"

definition new_acme :: "manager \<Rightarrow> audit_log \<Rightarrow> string \<Rightarrow> bool \<Rightarrow> bool \<Rightarrow> acme_server" where
  "new_acme m l external require_eab allow_private = \<lparr>xs_manager = m, xs_log = l, xs_url = trim_slashes external,
     xs_require_eab = require_eab, xs_allow_private = allow_private, xs_http_port = 80\<rparr>"

text \<open>A request: its path as segments, and what reading its whole body gives.\<close>

record acme_request =
  xq_method :: string
  xq_path :: "string list"
  xq_type :: string
  xq_remote :: string
  xq_body :: "err + string"

definition acme_url :: "acme_server \<Rightarrow> string \<Rightarrow> string \<Rightarrow> string" where
  "acme_url s tenant suffix = xs_url s @ ''/acme/'' @ tenant @ suffix"

definition path_text :: "string list \<Rightarrow> string" where
  "path_text path = concat (map (\<lambda>p. ''/'' @ p) path)"

definition request_url :: "acme_server \<Rightarrow> acme_request \<Rightarrow> string" where
  "request_url s rq = xs_url s @ path_text (xq_path rq)"

section \<open>Nonces\<close>

definition nonce_ttl :: int where "nonce_ttl = 600 * 1000000000"

record nonce_rec =
  nr_expires :: int

definition nonce_rec_json :: "nonce_rec \<Rightarrow> json" where
  "nonce_rec_json n = JObj (fld ''expires'' (JTime (nr_expires n)))"

definition nonce_rec_of :: "json \<Rightarrow> nonce_rec option" where
  "nonce_rec_of j = do { fs \<leftarrow> of_obj j; t \<leftarrow> of_time (jget fs ''expires''); Some \<lparr>nr_expires = t\<rparr> }"

lemma nonce_rec_of_json [simp]: "nonce_rec_of (nonce_rec_json n) = Some n"
  by (simp add: nonce_rec_of_def nonce_rec_json_def json_simps)

definition issue_nonce :: "'x nenv_scheme \<Rightarrow> string \<Rightarrow> string act" where
  "issue_nonce E tenant =
     ebind (wrap_err (wrapf ''acme: generating nonce: '') (rand_read E 16)) (\<lambda>b.
     ebind (clock E) (\<lambda>t.
     ebind (wrap_err (wrapf ''acme: storing nonce: '')
       (put_json E nonce_rec_json (nonce_bucket tenant) (raw_b64 b) \<lparr>nr_expires = t + nonce_ttl\<rparr>)) (\<lambda>_.
       ret (raw_b64 b))))"

definition consume_nonce :: "'x nenv_scheme \<Rightarrow> string \<Rightarrow> string \<Rightarrow> bool act" where
  "consume_nonce E tenant n =
     (if n = [] then ret False
      else ecase (take_json E nonce_rec_of (nonce_bucket tenant) n)
        (\<lambda>e. if is_not_found e then ret False else fail (wrapf ''acme: taking nonce: '' e))
        (\<lambda>r. ebind (clock E) (\<lambda>now. ret (now < nr_expires r))))"

section \<open>JSON web signatures\<close>

record flat_jws =
  jw_protected :: string
  jw_payload :: string
  jw_signature :: string

record jws_protected =
  jp_alg :: string
  jp_nonce :: string
  jp_url :: string
  jp_jwk :: "json option"
  jp_kid :: string

record jws_request =
  jr_tenant :: string
  jr_payload :: string
  jr_account :: "account option"
  jr_jwk :: json
  jr_key :: public_key
  jr_thumb :: string

definition flat_jws_of :: "json \<Rightarrow> flat_jws option" where
  "flat_jws_of j = do { fs \<leftarrow> loose_fields [''protected'', ''payload'', ''signature''] [] j; p \<leftarrow> of_str (jget fs ''protected'');
     b \<leftarrow> of_str (jget fs ''payload''); s \<leftarrow> of_str (jget fs ''signature'');
     Some \<lparr>jw_protected = p, jw_payload = b, jw_signature = s\<rparr> }"

definition jws_protected_of :: "json \<Rightarrow> jws_protected option" where
  "jws_protected_of j = do { fs \<leftarrow> loose_fields [''alg'', ''nonce'', ''url'', ''kid''] [''jwk''] j; a \<leftarrow> of_str (jget fs ''alg'');
     n \<leftarrow> of_str (jget fs ''nonce''); u \<leftarrow> of_str (jget fs ''url''); k \<leftarrow> of_str (jget fs ''kid'');
     Some \<lparr>jp_alg = a, jp_nonce = n, jp_url = u, jp_jwk = jfind fs ''jwk'', jp_kid = k\<rparr> }"

section \<open>Account keys\<close>

record jwk_fields =
  jk_kty :: string
  jk_crv :: string
  jk_x :: string
  jk_y :: string
  jk_n :: string
  jk_e :: string

definition jwk_fields_of :: "json \<Rightarrow> jwk_fields option" where
  "jwk_fields_of j = do { fs \<leftarrow> loose_fields [''kty'', ''crv'', ''x'', ''y'', ''n'', ''e''] [] j; t \<leftarrow> of_str (jget fs ''kty'');
     c \<leftarrow> of_str (jget fs ''crv''); x \<leftarrow> of_str (jget fs ''x''); y \<leftarrow> of_str (jget fs ''y''); n \<leftarrow> of_str (jget fs ''n'');
     e \<leftarrow> of_str (jget fs ''e''); Some \<lparr>jk_kty = t, jk_crv = c, jk_x = x, jk_y = y, jk_n = n, jk_e = e\<rparr> }"

definition bad_key :: "string \<Rightarrow> err" where
  "bad_key t = errf 400 ''badPublicKey'' t"

definition jwk_member :: "string \<Rightarrow> string \<Rightarrow> err + string" where
  "jwk_member s name = (case b64_decode s of None \<Rightarrow> Inl (bad_key (''invalid JWK '' @ name @ '' member'')) | Some b \<Rightarrow> Inr b)"

definition parse_ec :: "'x nenv_scheme \<Rightarrow> jwk_fields \<Rightarrow> err + public_key" where
  "parse_ec E k =
     (if jk_crv k \<noteq> ''P-256'' then Inl (bad_key (''unsupported EC curve '' @ quoted (jk_crv k) @ '' (P-256 only)''))
      else sbind (jwk_member (jk_x k) ''x'') (\<lambda>x.
        sbind (jwk_member (jk_y k) ''y'') (\<lambda>y.
        if length x \<noteq> 32 \<or> length y \<noteq> 32 then Inl (bad_key ''P-256 coordinates must be 32 bytes'')
        else let point = CHR 0x04 # x @ y in
          if p256_point_ok E point then Inr (EcdsaKey P256 point) else Inl (bad_key ''invalid P-256 point''))))"

definition parse_rsa :: "jwk_fields \<Rightarrow> err + public_key" where
  "parse_rsa k = sbind (jwk_member (jk_n k) ''n'') (\<lambda>n.
     sbind (jwk_member (jk_e k) ''e'') (\<lambda>e.
     if bytes_nat e \<ge> 2 ^ 63 \<or> bytes_nat e \<le> 1 then Inl (bad_key ''invalid RSA exponent'')
     else Inr (RsaKey (bytes_nat n) (bytes_nat e))))"

definition parse_okp :: "jwk_fields \<Rightarrow> err + public_key" where
  "parse_okp k =
     (if jk_crv k \<noteq> ''Ed25519'' then Inl (bad_key (''unsupported OKP curve '' @ quoted (jk_crv k)))
      else sbind (jwk_member (jk_x k) ''x'') (\<lambda>x.
        if length x \<noteq> 32 then Inl (bad_key (''invalid Ed25519 key length '' @ dec (length x))) else Inr (Ed25519Key x)))"

definition parse_jwk :: "'x nenv_scheme \<Rightarrow> json \<Rightarrow> err + public_key" where
  "parse_jwk E j = (case jwk_fields_of j of
     None \<Rightarrow> Inl (bad_key ''invalid JWK'')
   | Some k \<Rightarrow> if jk_kty k = ''EC'' then parse_ec E k else if jk_kty k = ''RSA'' then parse_rsa k
       else if jk_kty k = ''OKP'' then parse_okp k else Inl (bad_key (''unsupported key type '' @ quoted (jk_kty k))))"

text \<open>The members that count, in the order of their names, as JSON text.\<close>

definition members_text :: "(string \<times> string) list \<Rightarrow> string" where
  "members_text ms = ''{'' @ join_with '','' (map (\<lambda>(k, v). quoted k @ '':'' @ quoted v) ms) @ ''}''"

definition canonical_jwk :: "jwk_fields \<Rightarrow> string option" where
  "canonical_jwk k =
     (if jk_kty k = ''EC'' then Some (members_text [(''crv'', jk_crv k), (''kty'', ''EC''), (''x'', jk_x k), (''y'', jk_y k)])
      else if jk_kty k = ''RSA'' then Some (members_text [(''e'', jk_e k), (''kty'', ''RSA''), (''n'', jk_n k)])
      else if jk_kty k = ''OKP'' then Some (members_text [(''crv'', jk_crv k), (''kty'', ''OKP''), (''x'', jk_x k)])
      else None)"

definition jwk_thumbprint :: "'x nenv_scheme \<Rightarrow> json option \<Rightarrow> err + string" where
  "jwk_thumbprint E raw = (case Option.bind raw jwk_fields_of of
     None \<Rightarrow> Inl (bad_key ''invalid JWK'')
   | Some k \<Rightarrow> (case canonical_jwk k of
       None \<Rightarrow> Inl (bad_key (''unsupported key type '' @ quoted (jk_kty k)))
     | Some t \<Rightarrow> Inr (raw_b64 (sha256 E t))))"

section \<open>Verification\<close>

definition verification_failed :: err where
  "verification_failed = errf 401 ''unauthorized'' ''JWS signature verification failed''"

definition verify_jws_signature :: "'x nenv_scheme \<Rightarrow> string \<Rightarrow> public_key \<Rightarrow> string \<Rightarrow> string \<Rightarrow> err + unit" where
  "verify_jws_signature E alg key input sg =
     (if alg = ''ES256'' then (case key of
        EcdsaKey P256 point \<Rightarrow>
          if length sg \<noteq> 64 then Inl (errf 400 ''malformed'' (''ES256 signature must be 64 bytes, got '' @ dec (length sg)))
          else if ecdsa_rs_ok E point (sha256 E input) (bytes_nat (take 32 sg)) (bytes_nat (drop 32 sg)) then Inr ()
          else Inl verification_failed
      | _ \<Rightarrow> Inl (errf 400 ''badSignatureAlgorithm'' ''ES256 requires a P-256 EC key''))
      else if alg = ''RS256'' then (case key of
        RsaKey n e \<Rightarrow> if rsa_ok E n e SHA256 (sha256 E input) sg then Inr () else Inl verification_failed
      | _ \<Rightarrow> Inl (errf 400 ''badSignatureAlgorithm'' ''RS256 requires an RSA key''))
      else if alg = ''EdDSA'' then (case key of
        Ed25519Key x \<Rightarrow> if ed25519_ok E x input sg then Inr () else Inl verification_failed
      | _ \<Rightarrow> Inl (errf 400 ''badSignatureAlgorithm'' ''EdDSA requires an Ed25519 key''))
      else Inl (errf 400 ''badSignatureAlgorithm'' (''unsupported JWS algorithm '' @ quoted alg @ '' (ES256, RS256, EdDSA)'')))"

definition account_by_kid :: "'x nenv_scheme \<Rightarrow> acme_server \<Rightarrow> string \<Rightarrow> string \<Rightarrow> account act" where
  "account_by_kid E s tenant kid = (case cut_prefix kid (acme_url s tenant ''/account/'') of
     None \<Rightarrow> fail (errf 400 ''malformed'' (''kid '' @ quoted kid @ '' is not an account URL of this tenant''))
   | Some i \<Rightarrow> ecase (get_json E account_of (accounts_bucket tenant) i)
       (\<lambda>e. fail (if is_not_found e then errf 400 ''accountDoesNotExist'' (''unknown account '' @ quoted i)
         else wrapf ''acme: loading account: '' e))
       (\<lambda>a. if acc_status a \<noteq> status_valid
         then fail (errf 401 ''unauthorized'' (''account '' @ i @ '' is '' @ acc_status a)) else ret a))"

text \<open>What is read of a request before anything is looked up: the JWS and its header.\<close>

definition max_body_bytes :: nat where "max_body_bytes = 2 ^ 20"

definition malformed :: "string \<Rightarrow> err" where
  "malformed t = errf 400 ''malformed'' t"

definition read_jws :: "'x nenv_scheme \<Rightarrow> acme_server \<Rightarrow> acme_request \<Rightarrow> err + flat_jws \<times> jws_protected" where
  "read_jws E s rq =
     (if media_type E (xq_type rq) \<noteq> Some ''application/jose+json''
      then Inl (errf 415 ''malformed'' ''content type must be application/jose+json'')
      else case xq_body rq of
        Inl e \<Rightarrow> Inl (malformed (''reading request body: '' @ text_of e))
      | Inr bytes \<Rightarrow> (case unmarshal E (take max_body_bytes bytes) flat_jws_of of
          None \<Rightarrow> Inl (malformed ''invalid JWS'')
        | Some jws \<Rightarrow>
            if jw_protected jws = [] \<or> jw_signature jws = []
            then Inl (malformed ''JWS must carry protected and signature members'')
            else (case b64_decode (jw_protected jws) of
              None \<Rightarrow> Inl (malformed ''invalid protected header encoding'')
            | Some prot \<Rightarrow> (case unmarshal E prot jws_protected_of of
                None \<Rightarrow> Inl (malformed ''invalid protected header'')
              | Some hdr \<Rightarrow>
                  if jp_url hdr \<noteq> request_url s rq
                  then Inl (errf 401 ''unauthorized'' (''JWS url '' @ quoted (jp_url hdr) @ '' does not match request URL '' @
                         quoted (request_url s rq)))
                  else Inr (jws, hdr)))))"

text \<open>The key of a request: its own, where that is allowed, or that of its account.\<close>

definition request_key :: "'x nenv_scheme \<Rightarrow> acme_server \<Rightarrow> string \<Rightarrow> bool \<Rightarrow> jws_protected \<Rightarrow> (account option \<times> json) act" where
  "request_key E s tenant allow_jwk hdr = (case jp_jwk hdr of
     Some jwk \<Rightarrow>
       if jp_kid hdr \<noteq> [] then fail (malformed ''JWS must carry exactly one of jwk or kid'')
       else if \<not> allow_jwk then fail (malformed ''jwk authentication is not allowed on this endpoint'')
       else ret (None, jwk)
   | None \<Rightarrow>
       if jp_kid hdr \<noteq> [] then ebind (account_by_kid E s tenant (jp_kid hdr)) (\<lambda>a. ret (Some a, acc_jwk a))
       else fail (malformed ''JWS must carry one of jwk or kid''))"

definition open_jws :: "'x nenv_scheme \<Rightarrow> string \<Rightarrow> flat_jws \<Rightarrow> jws_protected \<Rightarrow> account option \<Rightarrow> json \<Rightarrow> err + jws_request" where
  "open_jws E tenant jws hdr acct jwk =
     sbind (parse_jwk E jwk) (\<lambda>key.
     sbind (jwk_thumbprint E (Some jwk)) (\<lambda>thumb.
     case b64_decode (jw_signature jws) of
       None \<Rightarrow> Inl (malformed ''invalid signature encoding'')
     | Some sg \<Rightarrow>
        sbind (verify_jws_signature E (jp_alg hdr) key (jw_protected jws @ ''.'' @ jw_payload jws) sg) (\<lambda>_.
          case b64_decode (jw_payload jws) of
            None \<Rightarrow> Inl (malformed ''invalid payload encoding'')
          | Some payload \<Rightarrow> Inr \<lparr>jr_tenant = tenant, jr_payload = payload, jr_account = acct, jr_jwk = jwk,
              jr_key = key, jr_thumb = thumb\<rparr>)))"

definition verify_request :: "'x nenv_scheme \<Rightarrow> acme_server \<Rightarrow> acme_request \<Rightarrow> string \<Rightarrow> bool \<Rightarrow> jws_request act" where
  "verify_request E s rq tenant allow_jwk =
     ebind (lift_sum (read_jws E s rq)) (\<lambda>(jws, hdr).
     ebind (consume_nonce E tenant (jp_nonce hdr)) (\<lambda>ok.
     if \<not> ok then fail (errf 400 ''badNonce'' ''invalid or expired nonce'')
     else ebind (request_key E s tenant allow_jwk hdr) (\<lambda>(acct, jwk).
       lift_sum (open_jws E tenant jws hdr acct jwk))))"

section \<open>What a verified request is\<close>

lemma consume_nonce_Inr:
  "consume_nonce E tenant n w = (Inr True, w') \<longleftrightarrow> n \<noteq> [] \<and> fault_at E (tick w) = NoFault \<and>
     w' = advance (del_doc (advance w) (nonce_bucket tenant) n) \<and>
     (\<exists>d r. lookup w (nonce_bucket tenant) n = Some d \<and> nonce_rec_of d = Some r \<and> now_at E (Suc (tick w)) < nr_expires r)"
  by (auto simp: consume_nonce_def ecase_eq_iff act_elims clock_def acme_bucket_defs split: if_splits)

lemma account_by_kid_Inr:
  "account_by_kid E s tenant kid w = (Inr a, w') \<longleftrightarrow> (\<exists>i d. kid = acme_url s tenant ''/account/'' @ i \<and>
     fault_at E (tick w) = NoFault \<and> w' = advance w \<and> lookup w (accounts_bucket tenant) i = Some d \<and> account_of d = Some a \<and>
     acc_status a = status_valid)"
  by (auto simp: account_by_kid_def cut_prefix_Some ecase_eq_iff act_elims acme_bucket_defs split: option.splits if_splits)

end
