(* ===== verification/Acme_Ssrf.thy ===== *)
theory Acme_Ssrf
  imports Acme_Types
begin

text \<open>
  Where a challenge may be fetched from (internal/acme/ssrf.go): addresses as words, the ranges the
  server must not connect to, and the HTTP client of the http-01 challenge with its guard on every
  connection and its limits on redirects.
\<close>

unbundle bit_operations_syntax

section \<open>Addresses\<close>

datatype addr = V4 "32 word" | V6 "128 word"

text \<open>\<open>netip.AddrFromSlice\<close>: four or sixteen bytes in network order.\<close>

definition addr_from_slice :: "string \<Rightarrow> addr option" where
  "addr_from_slice s = (if length s = 4 then Some (V4 (of_nat (bytes_nat s)))
     else if length s = 16 then Some (V6 (of_nat (bytes_nat s))) else None)"

text \<open>An IPv4 address mapped into IPv6 is that IPv4 address.\<close>

fun unmap :: "addr \<Rightarrow> addr" where
  "unmap (V6 a) = (if drop_bit 32 a = 0xFFFF then V4 (ucast a) else V6 a)"
| "unmap (V4 a) = V4 a"

fun is_loopback :: "addr \<Rightarrow> bool" where
  "is_loopback (V4 a) = (drop_bit 24 a = 127)"
| "is_loopback (V6 a) = (a = 1)"

fun is_private :: "addr \<Rightarrow> bool" where
  "is_private (V4 a) = (drop_bit 24 a = 10 \<or> drop_bit 20 a = 0xAC1 \<or> drop_bit 16 a = 0xC0A8)"
| "is_private (V6 a) = (drop_bit 121 a = 0x7E)"

fun is_link_local_unicast :: "addr \<Rightarrow> bool" where
  "is_link_local_unicast (V4 a) = (drop_bit 16 a = 0xA9FE)"
| "is_link_local_unicast (V6 a) = (drop_bit 118 a = 0x3FA)"

text \<open>The second byte of an IPv6 multicast address ends in its scope.\<close>

definition scope_of :: "128 word \<Rightarrow> 128 word" where
  "scope_of a = drop_bit 112 a AND 0xFF0F"

fun is_link_local_multicast :: "addr \<Rightarrow> bool" where
  "is_link_local_multicast (V4 a) = (drop_bit 8 a = 0xE00000)"
| "is_link_local_multicast (V6 a) = (scope_of a = 0xFF02)"

fun is_interface_local_multicast :: "addr \<Rightarrow> bool" where
  "is_interface_local_multicast (V4 a) = False"
| "is_interface_local_multicast (V6 a) = (scope_of a = 0xFF01)"

fun is_multicast :: "addr \<Rightarrow> bool" where
  "is_multicast (V4 a) = (drop_bit 28 a = 0xE)"
| "is_multicast (V6 a) = (drop_bit 120 a = 0xFF)"

fun is_unspecified :: "addr \<Rightarrow> bool" where
  "is_unspecified (V4 a) = (a = 0)"
| "is_unspecified (V6 a) = (a = 0)"

definition blocked_v4 :: "(32 word \<times> nat) list" where
  "blocked_v4 = [(0, 8), (0x0A000000, 8), (0x64400000, 10), (0x7F000000, 8), (0xA9FE0000, 16), (0xAC100000, 12), (0xC0000000, 24),
     (0xC0A80000, 16), (0xC6120000, 15), (0xE0000000, 3)]"

definition blocked_v6 :: "(128 word \<times> nat) list" where
  "blocked_v6 = [(0, 128), (1, 128), (0xFC000000000000000000000000000000, 7), (0xFE800000000000000000000000000000, 10),
     (0xFF000000000000000000000000000000, 8), (0xFD000EC2000000000000000000000254, 128),
     (0x0064FF9B000000000000000000000000, 96), (0x0064FF9B000100000000000000000000, 48),
     (0x20020000000000000000000000000000, 16), (0x20010000000000000000000000000000, 32)]"

definition in_prefix :: "'w::len word \<Rightarrow> 'w word \<times> nat \<Rightarrow> bool" where
  "in_prefix a p = (drop_bit (LENGTH('w) - snd p) a = drop_bit (LENGTH('w) - snd p) (fst p))"

fun in_blocked_prefix :: "addr \<Rightarrow> bool" where
  "in_blocked_prefix (V4 a) = list_ex (in_prefix a) blocked_v4"
| "in_blocked_prefix (V6 a) = list_ex (in_prefix a) blocked_v6"

definition blocked_address :: "string \<Rightarrow> bool" where
  "blocked_address ip = (case addr_from_slice ip of None \<Rightarrow> True
     | Some a0 \<Rightarrow> (let a = unmap a0 in
         is_loopback a \<or> is_private a \<or> is_link_local_unicast a \<or> is_link_local_multicast a \<or> is_interface_local_multicast a \<or>
         is_multicast a \<or> is_unspecified a \<or> in_blocked_prefix a))"

section \<open>The client\<close>

text \<open>
  A call of the client returns a reply or an error, and the addresses it connected to.  A host may
  have several addresses: the dialer takes them in turn, each through the guard, until one answers.
\<close>

type_synonym 'a traced = "'a \<times> string list"

definition at_tick :: "(nat \<Rightarrow> 'a) \<Rightarrow> 'a act" where
  "at_tick f w = (Inr (f (tick w)), advance w)"

fun try_addresses :: "'x nenv_scheme \<Rightarrow> bool \<Rightarrow> string \<Rightarrow> string list \<Rightarrow> http_reply option traced act" where
  "try_addresses E guard url [] = ret (None, [])"
| "try_addresses E guard url (a # as) =
     (if guard \<and> blocked_address a then try_addresses E guard url as
      else ebind (at_tick (\<lambda>k. http_at E k a url)) (\<lambda>r. case r of
        Some reply \<Rightarrow> ret (Some reply, [a])
      | None \<Rightarrow> ebind (try_addresses E guard url as) (\<lambda>(r', tr). ret (r', a # tr))))"

definition is_redirect :: "http_reply \<Rightarrow> bool" where
  "is_redirect r \<longleftrightarrow> hr_status r \<in> {301, 302, 303, 307, 308} \<and> hr_location r \<noteq> []"

definition max_challenge_redirects :: nat where "max_challenge_redirects = 5"

definition challenge_redirect_policy :: "string \<Rightarrow> string \<Rightarrow> nat \<Rightarrow> err + unit" where
  "challenge_redirect_policy scheme port via =
     (if via \<ge> max_challenge_redirects then Inl (errorf (''acme: stopped after '' @ dec max_challenge_redirects @ '' redirects''))
      else if scheme \<notin> {''http'', ''https''} then Inl (errorf (''acme: redirect to scheme '' @ quoted scheme @ '' not permitted''))
      else if port \<notin> {[], ''80'', ''443''} then Inl (errorf (''acme: redirect to port '' @ port @ '' not permitted''))
      else Inr ())"

text \<open>
  \<open>client_get E guard via url\<close> makes the request after \<open>via\<close> earlier ones; \<open>n\<close> is what
  is left of the limit, and the policy is asked before each further request.
\<close>

definition dial :: "'x nenv_scheme \<Rightarrow> bool \<Rightarrow> string \<Rightarrow> http_reply option traced act" where
  "dial E guard url = (case url_split E url of
     None \<Rightarrow> ret (None, [])
   | Some (scheme, host, port) \<Rightarrow> ebind (at_tick (\<lambda>k. resolve_at E k host)) (\<lambda>addrs. try_addresses E guard url addrs))"

function client_get :: "'x nenv_scheme \<Rightarrow> bool \<Rightarrow> nat \<Rightarrow> string \<Rightarrow> (err + http_reply) traced act" where
  "client_get E guard via url = ebind (dial E guard url) (\<lambda>(r, tr). case r of
     None \<Rightarrow> ret (Inl (errorf (''fetching '' @ url)), tr)
   | Some reply \<Rightarrow>
      if \<not> is_redirect reply then ret (Inr reply, tr)
      else case url_join E url (hr_location reply) of
        None \<Rightarrow> ret (Inl (errorf (''fetching '' @ url @ '': failed to parse Location header'')), tr)
      | Some next \<Rightarrow> (case url_split E next of
          None \<Rightarrow> ret (Inl (errorf (''fetching '' @ url @ '': failed to parse Location header'')), tr)
        | Some (scheme, host, port) \<Rightarrow> (case challenge_redirect_policy scheme port (Suc via) of
            Inl e \<Rightarrow> ret (Inl (wrapf (''fetching '' @ url @ '': '') e), tr)
          | Inr _ \<Rightarrow> ebind (client_get E guard (Suc via) next) (\<lambda>(r', tr'). ret (r', tr @ tr')))))"
  by pat_completeness auto

lemma policy_limit: "challenge_redirect_policy scheme port via = Inr u \<Longrightarrow> via < 5"
  by (simp add: challenge_redirect_policy_def max_challenge_redirects_def split: if_splits)

termination client_get
  by (relation "measure (\<lambda>(E, guard, via, url). 5 - via)") (auto dest: policy_limit)

declare client_get.simps [simp del]

section \<open>What is contacted\<close>

lemma try_addresses_guard:
  "try_addresses E True url as w = (Inr (r, tr), w') \<Longrightarrow> \<forall>a \<in> set tr. \<not> blocked_address a \<and> a \<in> set as"
  by (induction as arbitrary: r tr w w') (fastforce simp: act_elims split: if_splits option.splits)+

lemma try_addresses_length: "try_addresses E guard url as w = (Inr (r, tr), w') \<Longrightarrow> length tr \<le> length as"
  by (induction as arbitrary: r tr w w') (fastforce simp: act_elims split: if_splits option.splits)+

text \<open>A reply of an address is what the environment answers at some tick.\<close>

lemma try_addresses_reply:
  "try_addresses E guard url as w = (Inr (Some r, tr), w') \<Longrightarrow> \<exists>k a. a \<in> set tr \<and> http_at E k a url = Some r"
  by (induction as arbitrary: tr w w') (fastforce simp: act_elims at_tick_def split: if_splits option.splits)+

lemma dial_guard:
  assumes "dial E True url w = (Inr (r, tr), w')"
  shows "\<forall>a \<in> set tr. \<not> blocked_address a"
  using assms try_addresses_guard by (fastforce simp: dial_def act_elims at_tick_def split: option.splits)

lemma dial_length:
  assumes "dial E guard url w = (Inr (r, tr), w')" and "\<And>k host. length (resolve_at E k host) \<le> n"
  shows "length tr \<le> n"
proof (cases "url_split E url")
  case (Some shp)
  obtain scheme host port where p: "shp = (scheme, host, port)" by (cases shp)
  have "try_addresses E guard url (resolve_at E (tick w) host) (advance w) = (Inr (r, tr), w')"
    using assms(1) Some p by (simp add: dial_def ebind_apply at_tick_def)
  from try_addresses_length [OF this] assms(2) show ?thesis by (meson order_trans)
qed (use assms(1) in \<open>simp add: dial_def\<close>)

lemma client_get_step:
  assumes d: "dial E guard url w = (Inr (r1, tr1), w1)"
  obtains (ends) x where "client_get E guard via url w = (Inr (x, tr1), w1)" "\<And>y. x = Inr y \<Longrightarrow> r1 = Some y"
  | (goes) next' where "Suc via < 5"
      "client_get E guard via url w = ebind (client_get E guard (Suc via) next') (\<lambda>(r', tr'). ret (r', tr1 @ tr')) w1"
proof -
  note eq = client_get.simps [of E guard via url] ebind_ok [where m = "dial E guard url", OF d]
  show thesis
  proof (cases r1)
    case None
    then show thesis by (intro ends) (auto simp: eq)
  next
    case (Some reply)
    show thesis
    proof (cases "is_redirect reply")
      case False
      with Some show thesis by (intro ends) (auto simp: eq)
    next
      case redirect: True
      show thesis
      proof (cases "url_join E url (hr_location reply)")
        case None
        with Some redirect show thesis by (intro ends) (auto simp: eq)
      next
        case (Some next')
        show thesis
        proof (cases "url_split E next'")
          case None
          with Some \<open>r1 = Some reply\<close> redirect show thesis by (intro ends) (auto simp: eq)
        next
          case (Some shp)
          obtain scheme host port where p: "shp = (scheme, host, port)" by (cases shp)
          show thesis
          proof (cases "challenge_redirect_policy scheme port (Suc via)")
            case (Inl e)
            with Some p \<open>url_join E url (hr_location reply) = Some next'\<close> \<open>r1 = Some reply\<close> redirect
            show thesis by (intro ends) (auto simp: eq)
          next
            case (Inr u)
            with Some p \<open>url_join E url (hr_location reply) = Some next'\<close> \<open>r1 = Some reply\<close> redirect
            show thesis by (intro goes [of next']) (auto simp: eq dest: policy_limit)
          qed
        qed
      qed
    qed
  qed
qed

lemma client_get_cases:
  assumes "client_get E guard via url w = (Inr (r, tr), w')"
  obtains (stops) r1 where "dial E guard url w = (Inr (r1, tr), w')" "\<And>x. r = Inr x \<Longrightarrow> r1 = Some x"
  | (follows) r1 tr1 w1 next' tr2 where "dial E guard url w = (Inr (r1, tr1), w1)" "client_get E guard (Suc via) next' w1 = (Inr (r, tr2), w')"
      "tr = tr1 @ tr2" "Suc via < 5"
proof -
  obtain r1 tr1 w1 where d: "dial E guard url w = (Inr (r1, tr1), w1)"
    using assms by (auto simp: client_get.simps [of E guard via url] ebind_Inr_iff)
  from d show thesis
  proof (cases rule: client_get_step [where via = via])
    case (ends x)
    with assms d show thesis by (intro stops [of r1]) auto
  next
    case (goes next')
    with assms d show thesis by (auto simp: ebind_Inr_iff intro: follows)
  qed
qed

lemma client_get_guard: "client_get E True via url w = (Inr (r, tr), w') \<Longrightarrow> \<forall>a \<in> set tr. \<not> blocked_address a"
proof (induction "5 - via" arbitrary: via url tr w rule: less_induct)
  case less
  from less.prems show ?case
  proof (cases rule: client_get_cases)
    case (stops r1)
    then show ?thesis using dial_guard by blast
  next
    case (follows r1 tr1 w1 next' tr2)
    have "\<forall>a \<in> set tr2. \<not> blocked_address a" by (rule less.hyps [OF _ follows(2)]) (use follows(4) in simp)
    then show ?thesis using dial_guard [OF follows(1)] by (auto simp: follows(3))
  qed
qed

lemma client_get_length:
  assumes n: "\<And>k host. length (resolve_at E k host) \<le> n"
  shows "client_get E guard via url w = (Inr (r, tr), w') \<Longrightarrow> via < 5 \<Longrightarrow> length tr \<le> (5 - via) * n"
proof (induction "5 - via" arbitrary: via url tr w rule: less_induct)
  case less
  from less.prems(1) show ?case
  proof (cases rule: client_get_cases)
    case (stops r1)
    have "length tr \<le> n" using dial_length [OF stops(1) n] .
    also have "n \<le> (5 - via) * n" using less.prems(2) by (cases "5 - via") auto
    finally show ?thesis .
  next
    case (follows r1 tr1 w1 next' tr2)
    have "length tr2 \<le> (5 - Suc via) * n" by (rule less.hyps [OF _ follows(2)]) (use follows(4) in simp_all)
    moreover have "length tr1 \<le> n" using dial_length [OF follows(1) n] .
    ultimately have "length tr \<le> Suc (5 - Suc via) * n" by (simp add: follows(3))
    also have "Suc (5 - Suc via) = 5 - via" using less.prems(2) by simp
    finally show ?thesis .
  qed
qed

text \<open>It always answers: no call of the client fails otherwise than in its result.\<close>

lemma try_addresses_total: "\<exists>r tr w'. try_addresses E guard url as w = (Inr (r, tr), w')"
proof (induction as arbitrary: w)
  case (Cons a as)
  obtain r tr w' where "try_addresses E guard url as (advance w) = (Inr (r, tr), w')" using Cons.IH by blast
  with Cons.IH [of w] show ?case by (auto simp: ebind_apply at_tick_def split: option.split)
qed simp

lemma dial_total: "\<exists>r tr w'. dial E guard url w = (Inr (r, tr), w')"
  using try_addresses_total by (cases "url_split E url") (auto simp: dial_def ebind_apply at_tick_def split: prod.split)

lemma client_get_total: "\<exists>r tr w'. client_get E guard via url w = (Inr (r, tr), w')"
proof (induction "5 - via" arbitrary: via url w rule: less_induct)
  case less
  obtain r tr w1 where d: "dial E guard url w = (Inr (r, tr), w1)" using dial_total by blast
  then show ?case
  proof (cases rule: client_get_step [where via = via])
    case (goes next')
    have "\<exists>r tr w'. client_get E guard (Suc via) next' w1 = (Inr (r, tr), w')" by (rule less.hyps) (use goes(1) in simp)
    then obtain r2 tr2 w2 where "client_get E guard (Suc via) next' w1 = (Inr (r2, tr2), w2)" by blast
    then show ?thesis by (simp add: goes(2) ebind_apply)
  qed blast
qed

lemma dial_reply:
  assumes "dial E guard url w = (Inr (Some r, tr), w')"
  shows "\<exists>k a. a \<in> set tr \<and> http_at E k a url = Some r"
  using assms by (auto simp: dial_def act_elims at_tick_def split: option.splits dest: try_addresses_reply)

lemma client_get_reply: "client_get E guard via url w = (Inr (Inr r, tr), w') \<Longrightarrow> \<exists>k a u. a \<in> set tr \<and> http_at E k a u = Some r"
proof (induction "5 - via" arbitrary: via url tr w rule: less_induct)
  case less
  from less.prems show ?case
  proof (cases rule: client_get_cases)
    case (stops r1)
    then show ?thesis using dial_reply by blast
  next
    case (follows r1 tr1 w1 next' tr2)
    have "\<exists>k a u. a \<in> set tr2 \<and> http_at E k a u = Some r" by (rule less.hyps [OF _ follows(2)]) (use follows(4) in simp)
    then show ?thesis by (auto simp: follows(3))
  qed
qed

text \<open>
  Claim C27: a fetch for a challenge always comes back, after at most five requests, each to the
  addresses its host resolves to; with the guard on, it has connected to no blocked address; and a
  reply it gives back was sent by an address it connected to.
\<close>

theorem challenge_fetch_ends:
  assumes "\<And>k host. length (resolve_at E k host) \<le> n"
  shows "\<exists>r tr w'. client_get E guard 0 url w = (Inr (r, tr), w') \<and> length tr \<le> 5 * n \<and>
    (guard \<longrightarrow> (\<forall>a \<in> set tr. \<not> blocked_address a)) \<and>
    (\<forall>reply. r = Inr reply \<longrightarrow> (\<exists>k a u. a \<in> set tr \<and> http_at E k a u = Some reply))"
proof -
  obtain r tr w' where run: "client_get E guard 0 url w = (Inr (r, tr), w')" using client_get_total by blast
  have "length tr \<le> 5 * n" using client_get_length [OF assms run] by simp
  moreover have "guard \<longrightarrow> (\<forall>a \<in> set tr. \<not> blocked_address a)"
  proof
    assume guard
    with run have "client_get E True 0 url w = (Inr (r, tr), w')" by simp
    then show "\<forall>a \<in> set tr. \<not> blocked_address a" by (rule client_get_guard)
  qed
  moreover have "\<forall>reply. r = Inr reply \<longrightarrow> (\<exists>k a u. a \<in> set tr \<and> http_at E k a u = Some reply)" using run client_get_reply by blast
  ultimately show ?thesis using run by blast
qed

section \<open>What is blocked\<close>

lemma drop_bit_word_iff: "drop_bit k (a :: 32 word) = b \<longleftrightarrow> unat a div 2 ^ k = unat b"
  by (simp add: word_unat_eq_iff unat_drop_bit_eq drop_bit_eq_div [where 'a = nat])

lemma in_prefix_iff: "in_prefix (a :: 32 word) (p, n) \<longleftrightarrow> unat a div 2 ^ (32 - n) = unat p div 2 ^ (32 - n)"
  by (simp add: in_prefix_def drop_bit_word_iff unat_drop_bit_eq drop_bit_eq_div [where 'a = nat])

definition blocked_word :: "32 word \<Rightarrow> bool" where
  "blocked_word a \<longleftrightarrow> is_loopback (V4 a) \<or> is_private (V4 a) \<or> is_link_local_unicast (V4 a) \<or> is_link_local_multicast (V4 a) \<or>
     is_interface_local_multicast (V4 a) \<or> is_multicast (V4 a) \<or> is_unspecified (V4 a) \<or> in_blocked_prefix (V4 a)"

lemma blocked_word_iff: "blocked_word a \<longleftrightarrow> (let n = unat a in
    n div 2 ^ 24 \<in> {0, 10, 127} \<or> n div 2 ^ 29 = 7 \<or> n div 2 ^ 22 = 401 \<or> n div 2 ^ 16 = 43518 \<or> n div 2 ^ 20 = 2753 \<or>
    n div 2 ^ 8 = 12582912 \<or> n div 2 ^ 16 = 49320 \<or> n div 2 ^ 17 = 25353)"
proof -
  define n where "n = unat a"
  have d: "m div 536870912 = m div 256 div 2097152" "m div 536870912 = m div 268435456 div 2" for m :: nat
    by (simp_all flip: div_mult2_eq)
  have e: "m div 2 ^ 8 = 14680064 \<Longrightarrow> m div 2 ^ 29 = 7" "m div 2 ^ 28 = 14 \<Longrightarrow> m div 2 ^ 29 = 7" for m :: nat
    using d [of m] by simp_all
  have p: "is_loopback (V4 a) \<longleftrightarrow> n div 2 ^ 24 = 127" "is_link_local_unicast (V4 a) \<longleftrightarrow> n div 2 ^ 16 = 43518"
    "is_private (V4 a) \<longleftrightarrow> n div 2 ^ 24 = 10 \<or> n div 2 ^ 20 = 2753 \<or> n div 2 ^ 16 = 49320"
    "is_link_local_multicast (V4 a) \<longleftrightarrow> n div 2 ^ 8 = 14680064" "is_multicast (V4 a) \<longleftrightarrow> n div 2 ^ 28 = 14"
    by (simp_all add: drop_bit_word_iff n_def)
  have z: "is_unspecified (V4 a) \<Longrightarrow> n div 2 ^ 24 = 0" by (simp add: n_def)
  have q: "in_blocked_prefix (V4 a) \<longleftrightarrow> n div 2 ^ 24 = 0 \<or> n div 2 ^ 24 = 10 \<or> n div 2 ^ 22 = 401 \<or> n div 2 ^ 24 = 127 \<or>
      n div 2 ^ 16 = 43518 \<or> n div 2 ^ 20 = 2753 \<or> n div 2 ^ 8 = 12582912 \<or> n div 2 ^ 16 = 49320 \<or> n div 2 ^ 17 = 25353 \<or>
      n div 2 ^ 29 = 7"
    by (simp add: blocked_v4_def in_prefix_iff n_def)
  show ?thesis
    unfolding blocked_word_def p q Let_def n_def [symmetric] is_interface_local_multicast.simps using z e [of n] by blast
qed

lemma fold_bytes: "bytes_nat [a, b, c, d] = ((of_char a * 256 + of_char b) * 256 + of_char c) * 256 + of_char d"
  by (simp add: bytes_nat_def algebra_simps)

lemma horner_bound: "w \<le> 255 \<Longrightarrow> x \<le> 255 \<Longrightarrow> y \<le> 255 \<Longrightarrow> z \<le> 255 \<Longrightarrow> ((w * 256 + x) * 256 + y) * 256 + z < (4294967296 :: nat)"
  by (simp add: algebra_simps)

lemma bytes_bound: "bytes_nat [a, b, c, d] < 4294967296"
proof -
  have "of_char x \<le> (255 :: nat)" for x using of_char_bound [of x] by linarith
  then show ?thesis unfolding fold_bytes by (intro horner_bound)
qed

lemma bytes_nat_zeros: "bytes_nat (replicate k (CHR 0x00) @ s) = bytes_nat s"
  by (induction k) (simp_all add: bytes_nat_def)

lemma blocked_v4: "blocked_address [a, b, c, d] \<longleftrightarrow> blocked_word (of_nat (bytes_nat [a, b, c, d]))"
  by (simp add: blocked_address_def addr_from_slice_def blocked_word_def)

lemma mapped_word:
  assumes "n < 4294967296"
  shows "drop_bit 32 (of_nat (281470681743360 + n) :: 128 word) = 0xFFFF" "ucast (of_nat (281470681743360 + n) :: 128 word) = (of_nat n :: 32 word)"
proof -
  have m: "unat (of_nat (281470681743360 + n) :: 128 word) = 281470681743360 + n"
    unfolding unat_of_nat by (rule mod_less) (use assms in simp)
  have "(281470681743360 + n) div 2 ^ 32 = 65535" using assms by (intro div_nat_eqI) simp_all
  then have "unat (drop_bit 32 (of_nat (281470681743360 + n) :: 128 word)) = unat (0xFFFF :: 128 word)"
    unfolding unat_drop_bit_eq m by (simp add: drop_bit_eq_div)
  then show "drop_bit 32 (of_nat (281470681743360 + n) :: 128 word) = 0xFFFF" by (simp only: word_unat_eq_iff)
  have "ucast (of_nat (281470681743360 + n) :: 128 word) = (of_nat (281470681743360 + n) :: 32 word)"
    by (metis m of_nat_unat)
  also have "\<dots> = of_nat n" by simp
  finally show "ucast (of_nat (281470681743360 + n) :: 128 word) = (of_nat n :: 32 word)" .
qed

lemma blocked_mapped:
  "blocked_address (replicate 10 (CHR 0x00) @ [CHR 0xFF, CHR 0xFF, a, b, c, d]) \<longleftrightarrow> blocked_word (of_nat (bytes_nat [a, b, c, d]))"
proof -
  define n where "n = bytes_nat [a, b, c, d]"
  have b: "bytes_nat (replicate 10 (CHR 0x00) @ [CHR 0xFF, CHR 0xFF, a, b, c, d]) = 281470681743360 + n"
    unfolding bytes_nat_zeros n_def by (simp add: bytes_nat_def algebra_simps)
  have "addr_from_slice (replicate 10 (CHR 0x00) @ [CHR 0xFF, CHR 0xFF, a, b, c, d]) = Some (V6 (of_nat (281470681743360 + n)))"
    unfolding addr_from_slice_def b by simp
  moreover have "unmap (V6 (of_nat (281470681743360 + n))) = V4 (of_nat n)"
    using mapped_word [OF bytes_bound [of a b c d]] by (simp only: unmap.simps n_def [symmetric] if_True simp_thms)
  ultimately show ?thesis by (simp only: blocked_address_def option.case Let_def blocked_word_def n_def)
qed

text \<open>Numbers of octets.\<close>

lemma octet_pair: "y < 256 \<Longrightarrow> x * 256 + y = (q :: nat) \<longleftrightarrow> x = q div 256 \<and> y = q mod 256"
  by auto

lemma octet_range:
  assumes "y < 256" and "h \<le> 256"
  shows "k * 256 + l \<le> x * 256 + y \<and> x * 256 + y < k * 256 + h \<longleftrightarrow> x = k \<and> l \<le> y \<and> y < (h :: nat)"
proof (cases x k rule: linorder_cases)
  case less
  then have "Suc x * 256 \<le> k * 256" by (simp only: mult_le_mono1 Suc_leI)
  with assms less show ?thesis by simp
next
  case greater
  then have "Suc k * 256 \<le> x * 256" by (simp only: mult_le_mono1 Suc_leI)
  with assms greater show ?thesis by simp
qed auto

lemma div_range: "0 < c \<Longrightarrow> (n :: nat) div c = q \<longleftrightarrow> q * c \<le> n \<and> n < Suc q * c"
  by (metis div_nat_eqI dividend_less_times_div div_times_less_eq_dividend mult.commute mult_Suc add.commute)

text \<open>
  An IPv4 address is refused exactly when it is in 0.0.0.0/8, 10/8, 127/8, 100.64/10, 169.254/16, 172.16/12,
  192.0.0/24, 192.168/16 or 198.18/15 or is 224.0.0.0 or above, in its own form and mapped into IPv6; and what is not
  the text of an address (no bytes) is refused.
\<close>

theorem blocked_v4_exact:
  "let x = of_char a :: nat; y = of_char b :: nat; z = of_char c :: nat;
     internal = (x = 0 \<or> x = 10 \<or> x = 127 \<or> 224 \<le> x \<or> x = 100 \<and> 64 \<le> y \<and> y < 128 \<or> x = 169 \<and> y = 254 \<or> x = 172 \<and> 16 \<le> y \<and> y < 32 \<or>
       x = 192 \<and> y = 0 \<and> z = 0 \<or> x = 192 \<and> y = 168 \<or> x = 198 \<and> (y = 18 \<or> y = 19))
   in (blocked_address [a, b, c, d] = internal) \<and>
      (blocked_address (replicate 10 (CHR 0x00) @ [CHR 0xFF, CHR 0xFF, a, b, c, d]) = internal) \<and> blocked_address []"
proof -
  define x y z t :: nat where xyz: "x = of_char a" "y = of_char b" "z = of_char c" "t = of_char d"
  have le: "x < 256" "y < 256" "z < 256" "t < 256" unfolding xyz by (rule of_char_bound)+
  define n where "n = ((x * 256 + y) * 256 + z) * 256 + t"
  have n: "unat (of_nat (bytes_nat [a, b, c, d]) :: 32 word) = n"
    unfolding unat_of_nat using bytes_bound [of a b c d] mod_less [of "bytes_nat [a, b, c, d]" "2 ^ LENGTH(32)"]
    by (simp add: fold_bytes n_def xyz)
  have A: "n div 256 = (x * 256 + y) * 256 + z" "((x * 256 + y) * 256 + z) div 256 = x * 256 + y" "(x * 256 + y) div 256 = x"
    unfolding n_def using le by simp_all
  have "n div 65536 = n div 256 div 256" "n div 16777216 = n div 256 div 256 div 256" "n div 131072 = n div 256 div 256 div 2"
    "n div 1048576 = n div 256 div 256 div 16" "n div 4194304 = n div 256 div 256 div 64" "n div 536870912 = n div 256 div 256 div 256 div 32"
    by (simp_all flip: div_mult2_eq)
  then have d0: "n div 65536 = x * 256 + y" "n div 16777216 = x" "n div 131072 = (x * 256 + y) div 2"
    "n div 1048576 = (x * 256 + y) div 16" "n div 4194304 = (x * 256 + y) div 64" "n div 536870912 = x div 32"
    by (simp_all only: A)
  have pw: "(2 :: nat) ^ 8 = 256" "(2 :: nat) ^ 16 = 65536" "(2 :: nat) ^ 24 = 16777216" "(2 :: nat) ^ 17 = 131072" "(2 :: nat) ^ 20 = 1048576"
    "(2 :: nat) ^ 22 = 4194304" "(2 :: nat) ^ 29 = 536870912" by simp_all
  have d: "n div 2 ^ 8 = (x * 256 + y) * 256 + z" "n div 2 ^ 16 = x * 256 + y" "n div 2 ^ 24 = x" "n div 2 ^ 17 = (x * 256 + y) div 2"
    "n div 2 ^ 20 = (x * 256 + y) div 16" "n div 2 ^ 22 = (x * 256 + y) div 64" "n div 2 ^ 29 = x div 32"
    by (simp_all only: pw A(1) d0)
  have e1: "x div 32 = 7 \<longleftrightarrow> 224 \<le> x" using le(1) by linarith
  have e2: "(x * 256 + y) div 64 = 401 \<longleftrightarrow> x = 100 \<and> 64 \<le> y \<and> y < 128" using octet_range [of y 128 100 64 x] le(2) by (simp add: div_range)
  have e3: "x * 256 + y = 43518 \<longleftrightarrow> x = 169 \<and> y = 254" using octet_pair [OF le(2)] by simp
  have e4: "(x * 256 + y) div 16 = 2753 \<longleftrightarrow> x = 172 \<and> 16 \<le> y \<and> y < 32" using octet_range [of y 32 172 16 x] le(2) by (simp add: div_range)
  have e5: "(x * 256 + y) * 256 + z = 12582912 \<longleftrightarrow> x = 192 \<and> y = 0 \<and> z = 0"
    unfolding octet_pair [OF le(3)] octet_pair [OF le(2), of x "12582912 div 256"] by simp
  have e6: "x * 256 + y = 49320 \<longleftrightarrow> x = 192 \<and> y = 168" using octet_pair [OF le(2)] by simp
  have e7: "(x * 256 + y) div 2 = 25353 \<longleftrightarrow> x = 198 \<and> 18 \<le> y \<and> y < 20" using octet_range [of y 20 198 18 x] le(2) by (simp add: div_range)
  have e8: "18 \<le> y \<and> y < 20 \<longleftrightarrow> y = 18 \<or> y = 19" by linarith
  have w: "blocked_word (of_nat (bytes_nat [a, b, c, d])) \<longleftrightarrow> x = 0 \<or> x = 10 \<or> x = 127 \<or> 224 \<le> x \<or> x = 100 \<and> 64 \<le> y \<and> y < 128 \<or>
      x = 169 \<and> y = 254 \<or> x = 172 \<and> 16 \<le> y \<and> y < 32 \<or> x = 192 \<and> y = 0 \<and> z = 0 \<or> x = 192 \<and> y = 168 \<or> x = 198 \<and> (y = 18 \<or> y = 19)"
    unfolding blocked_word_iff Let_def n d e1 e2 e3 e4 e5 e6 e7 e8 by blast
  have "blocked_address []" by (simp add: blocked_address_def addr_from_slice_def)
  then show ?thesis unfolding Let_def blocked_v4 blocked_mapped w xyz [symmetric] by blast
qed

end
