(* ===== verification/Acme_Challenges.thy ===== *)
theory Acme_Challenges
  imports Acme_Jws Acme_Ssrf
begin

text \<open>
  Validation of challenges (internal/acme/challenge.go): the http-01 and dns-01 checks, and the
  states of a challenge, its authorization and its order after one.
\<close>

section \<open>Responses\<close>

datatype acme_body = AJson json | AProblem problem | AChain string | AEmpty

record acme_response =
  xr_status :: nat
  xr_nonce :: "string option"
  xr_location :: string
  xr_link :: string
  xr_body :: acme_body

definition acme_reply :: "nat \<Rightarrow> string \<Rightarrow> acme_body \<Rightarrow> acme_response act" where
  "acme_reply status location b = ret \<lparr>xr_status = status, xr_nonce = None, xr_location = location, xr_link = [], xr_body = b\<rparr>"

text \<open>The status, code and detail of the document an error is rendered as.\<close>

fun err_problem :: "err \<Rightarrow> nat \<times> string \<times> string" where
  "err_problem (Err (AcmeS status code detail) t) = (status, code, detail)"
| "err_problem (Err _ t) = (500, ''serverInternal'', t)"

definition problem_response :: "string option \<Rightarrow> err \<Rightarrow> acme_response" where
  "problem_response nonce e = (case err_problem e of (status, code, detail) \<Rightarrow>
     \<lparr>xr_status = status, xr_nonce = nonce, xr_location = [], xr_link = [],
      xr_body = AProblem \<lparr>pb_type = err_urn @ code, pb_detail = detail, pb_status = int status\<rparr>\<rparr>)"

section \<open>The checks\<close>

definition join_host_port :: "string \<Rightarrow> string \<Rightarrow> string" where
  "join_host_port host port = (if CHR '':'' \<in> set host then ''['' @ host @ '']:'' @ port else host @ '':'' @ port)"

definition challenge_url :: "acme_server \<Rightarrow> string \<Rightarrow> string \<Rightarrow> string" where
  "challenge_url s host token = ''http://'' @ join_host_port host (dec (xs_http_port s)) @ ''/.well-known/acme-challenge/'' @ token"

definition max_challenge_body :: nat where "max_challenge_body = 8192"

text \<open>What is required of the reply.\<close>

definition check_reply :: "string \<Rightarrow> string \<Rightarrow> http_reply \<Rightarrow> err + unit" where
  "check_reply url key_authz r =
     (if hr_status r \<noteq> 200 then Inl (errorf (''fetching '' @ url @ '': status '' @ dec (hr_status r)))
      else case hr_body r of
        Inl e \<Rightarrow> Inl (wrapf ''reading challenge response: '' e)
      | Inr body \<Rightarrow> if trim_space (take max_challenge_body body) \<noteq> key_authz
          then Inl (errorf (''key authorization mismatch at '' @ url)) else Inr ())"

definition check_http01 :: "'x nenv_scheme \<Rightarrow> acme_server \<Rightarrow> string \<Rightarrow> string \<Rightarrow> string \<Rightarrow> unit act" where
  "check_http01 E s host token key_authz = (let url = challenge_url s host token in
     if url_split E url = None then fail (errorf ''building challenge request'')
     else ebind (client_get E (\<not> xs_allow_private s) 0 url) (\<lambda>(r, tr).
       lift_sum (sbind r (check_reply url key_authz))))"

definition check_dns01 :: "'x nenv_scheme \<Rightarrow> string \<Rightarrow> string \<Rightarrow> unit act" where
  "check_dns01 E host key_authz = (let name = ''_acme-challenge.'' @ host in
     ebind (at_tick (\<lambda>k. txt_at E k name)) (\<lambda>r. case r of
       Inl e \<Rightarrow> fail (wrapf (''looking up TXT '' @ name @ '': '') e)
     | Inr txts \<Rightarrow> if raw_b64 (sha256 E key_authz) \<notin> set txts
         then fail (errorf (''no TXT record at '' @ name @ '' matches the key authorization digest'')) else ret ()))"

definition key_authorization :: "string \<Rightarrow> string \<Rightarrow> string" where
  "key_authorization token thumb = token @ ''.'' @ thumb"

definition run_check :: "'x nenv_scheme \<Rightarrow> acme_server \<Rightarrow> string \<Rightarrow> string \<Rightarrow> string \<Rightarrow> string \<Rightarrow> unit act" where
  "run_check E s typ host token thumb =
     (if typ = ''http-01'' then check_http01 E s host token (key_authorization token thumb)
      else if typ = ''dns-01'' then check_dns01 E (trim_prefix host ''*.'') (key_authorization token thumb)
      else fail (errorf (''unsupported challenge type '' @ quoted typ)))"

section \<open>States\<close>

text \<open>The authorizations of an order: the first invalid one, or whether all are valid.\<close>

fun survey :: "'x nenv_scheme \<Rightarrow> string \<Rightarrow> bool \<Rightarrow> string list \<Rightarrow> (authz + bool) act" where
  "survey E tenant all_valid [] = ret (Inr all_valid)"
| "survey E tenant all_valid (i # is) =
     ebind (wrap_err (wrapf ''acme: loading authorization: '') (get_json E authz_of (authzs_bucket tenant) i)) (\<lambda>az.
       if az_status az = status_invalid then ret (Inl az)
       else survey E tenant (all_valid \<and> az_status az = status_valid) is)"

definition update_order_status :: "'x nenv_scheme \<Rightarrow> string \<Rightarrow> string \<Rightarrow> unit act" where
  "update_order_status E tenant oid =
     ebind (wrap_err (wrapf ''acme: loading order: '') (get_json E order_of (orders_bucket tenant) oid)) (\<lambda>od.
     if od_status od \<noteq> status_pending then ret ()
     else ebind (survey E tenant True (od_authzs od)) (\<lambda>r. case r of
       Inl az \<Rightarrow> put_json E order_json (orders_bucket tenant) oid (od\<lparr>od_status := status_invalid, od_error :=
         Some \<lparr>pb_type = err_urn @ ''unauthorized'', pb_detail = ''authorization for '' @ id_value (az_ident az) @ '' failed'', pb_status = 403\<rparr>\<rparr>)
     | Inr all_valid \<Rightarrow> if \<not> all_valid then ret ()
         else put_json E order_json (orders_bucket tenant) oid (od\<lparr>od_status := status_ready\<rparr>)))"

text \<open>The challenge with the outcome of its check; a success reads the clock.\<close>

definition checked :: "'x nenv_scheme \<Rightarrow> acme_server \<Rightarrow> authz \<Rightarrow> challenge \<Rightarrow> account \<Rightarrow> (challenge \<times> authz) act" where
  "checked E s az ch acct = ecase (run_check E s (ch_type ch) (id_value (az_ident az)) (ch_token ch) (acc_thumb acct))
     (\<lambda>e. ret (ch\<lparr>ch_status := status_invalid, ch_error :=
         Some \<lparr>pb_type = err_urn @ ''incorrectResponse'', pb_detail = text_of e, pb_status = 403\<rparr>\<rparr>, az\<lparr>az_status := status_invalid\<rparr>))
     (\<lambda>_. ebind (clock E) (\<lambda>t. ret (ch\<lparr>ch_status := status_valid, ch_validated := t\<rparr>, az\<lparr>az_status := status_valid\<rparr>)))"

definition validate_challenge :: "'x nenv_scheme \<Rightarrow> acme_server \<Rightarrow> string \<Rightarrow> authz \<Rightarrow> challenge \<Rightarrow> account \<Rightarrow> challenge act" where
  "validate_challenge E s tenant az ch acct =
     ebind (checked E s az ch acct) (\<lambda>(ch', az').
     ebind (wrap_err (wrapf ''acme: storing challenge: '') (put_json E challenge_json (challenges_bucket tenant) (ch_id ch') ch')) (\<lambda>_.
     ebind (wrap_err (wrapf ''acme: storing authorization: '') (put_json E authz_json (authzs_bucket tenant) (az_id az') az')) (\<lambda>_.
     ebind (update_order_status E tenant (az_order az')) (\<lambda>_. ret ch'))))"

definition challenge_view :: "'x nenv_scheme \<Rightarrow> acme_server \<Rightarrow> string \<Rightarrow> challenge \<Rightarrow> json" where
  "challenge_view E s tenant ch = (let validated = (if ch_validated ch = zero_time then [] else time_text E (ch_validated ch)) in
     JObj (fld ''type'' (JStr (ch_type ch)) @ fld ''url'' (JStr (acme_url s tenant (''/chall/'' @ ch_id ch))) @
       fld ''token'' (JStr (ch_token ch)) @ fld ''status'' (JStr (ch_status ch)) @ omit (validated = []) ''validated'' (JStr validated) @
       omit (ch_error ch = None) ''error'' (case ch_error ch of None \<Rightarrow> JNull | Some p \<Rightarrow> problem_json p)))"

section \<open>Authorizations and challenges of an account\<close>

definition missing :: "string \<Rightarrow> string \<Rightarrow> string \<Rightarrow> err \<Rightarrow> err" where
  "missing what wrap i e = (if is_not_found e then errf 404 ''malformed'' (''unknown '' @ what @ '' '' @ quoted i) else wrapf wrap e)"

definition owned_by :: "jws_request \<Rightarrow> string \<Rightarrow> string \<Rightarrow> account act" where
  "owned_by r owner text = (case jr_account r of
     None \<Rightarrow> fail (errf 403 ''unauthorized'' text)
   | Some a \<Rightarrow> if owner \<noteq> acc_id a then fail (errf 403 ''unauthorized'' text) else ret a)"

definition load_authz :: "'x nenv_scheme \<Rightarrow> jws_request \<Rightarrow> string \<Rightarrow> authz act" where
  "load_authz E r i =
     ebind (wrap_err (missing ''authorization'' ''acme: loading authorization: '' i) (get_json E authz_of (authzs_bucket (jr_tenant r)) i)) (\<lambda>az.
     ebind (owned_by r (az_account az) ''authorization belongs to another account'') (\<lambda>_. ret az))"

definition load_challenges :: "'x nenv_scheme \<Rightarrow> string \<Rightarrow> string list \<Rightarrow> challenge list act" where
  "load_challenges E tenant ids = efold (\<lambda>out i.
     ebind (wrap_err (wrapf ''acme: loading challenge: '') (get_json E challenge_of (challenges_bucket tenant) i)) (\<lambda>ch. ret (out @ [ch]))) [] ids"

definition handle_authz :: "'x nenv_scheme \<Rightarrow> acme_server \<Rightarrow> jws_request \<Rightarrow> string \<Rightarrow> acme_response act" where
  "handle_authz E s r i =
     ebind (load_authz E r i) (\<lambda>az.
     ebind (load_challenges E (jr_tenant r) (az_challs az)) (\<lambda>chs.
     let wildcard = has_prefix (id_value (az_ident az)) ''*.'' in
       acme_reply 200 [] (AJson (JObj (fld ''identifier'' (identifier_json (az_ident az)) @ fld ''status'' (JStr (az_status az)) @
         fld ''expires'' (JStr (time_text E (az_expires az))) @
         fld ''challenges'' (slice_json (challenge_view E s (jr_tenant r)) chs) @ omit (\<not> wildcard) ''wildcard'' (JBool wildcard))))))"

definition handle_challenge :: "'x nenv_scheme \<Rightarrow> acme_server \<Rightarrow> jws_request \<Rightarrow> string \<Rightarrow> acme_response act" where
  "handle_challenge E s r i =
     ebind (wrap_err (missing ''challenge'' ''acme: loading challenge: '' i) (get_json E challenge_of (challenges_bucket (jr_tenant r)) i)) (\<lambda>ch.
     ebind (wrap_err (wrapf ''acme: loading authorization: '') (get_json E authz_of (authzs_bucket (jr_tenant r)) (ch_authz ch))) (\<lambda>az.
     ebind (owned_by r (az_account az) ''challenge belongs to another account'') (\<lambda>acct.
     ebind (if jr_payload r \<noteq> [] \<and> ch_status ch = status_pending then
              (if json_parse E (jr_payload r) = None then fail (malformed ''challenge response must be a JSON object'')
               else validate_challenge E s (jr_tenant r) az ch acct)
            else ret ch) (\<lambda>ch'.
       ret \<lparr>xr_status = 200, xr_nonce = None, xr_location = [],
         xr_link = ''<'' @ acme_url s (jr_tenant r) (''/authz/'' @ az_id az) @ ''>;rel='' @ quoted ''up'',
         xr_body = AJson (challenge_view E s (jr_tenant r) ch')\<rparr>))))"

end
