(* ===== verification/Acme_Handlers.thy ===== *)
theory Acme_Handlers
  imports Acme_Challenges
begin

text \<open>
  The ACME server (internal/acme/account.go, order.go, handler.go): accounts with external account
  binding, orders, finalization, certificates and revocation, and the routes with the checks in
  front of every handler.
\<close>

section \<open>Audit\<close>

definition acme_audit :: "'x nenv_scheme \<Rightarrow> acme_server \<Rightarrow> acme_request \<Rightarrow> string \<Rightarrow> string \<Rightarrow> string \<Rightarrow> object \<Rightarrow>
    (string \<times> string) list \<Rightarrow> unit act" where
  "acme_audit E s rq tenant action acct_id ob detail =
     (let ip = (case split_host E (xq_remote rq) of None \<Rightarrow> [] | Some host \<Rightarrow> host) in
     wrap_err (wrapf ''acme: audit append failed: '') (log_event E (xs_log s)
       (new_event tenant \<lparr>ac_type = ''acme'', ac_id = acct_id, ac_ip = ip\<rparr> action ob detail)))"

definition acme_actor :: "string \<Rightarrow> actor" where
  "acme_actor i = \<lparr>ac_type = ''acme'', ac_id = i, ac_ip = []\<rparr>"

section \<open>Accounts\<close>

definition create_eab_key :: "'x nenv_scheme \<Rightarrow> string \<Rightarrow> (string \<times> string) act" where
  "create_eab_key E tenant =
     ebind (rand_id E) (\<lambda>kid.
     ebind (wrap_err (wrapf ''acme: generating EAB key: '') (rand_read E 32)) (\<lambda>key.
     ebind (clock E) (\<lambda>t.
     ebind (wrap_err (wrapf ''acme: storing EAB key: '')
       (put_json E eab_key_json (eab_bucket tenant) kid \<lparr>ek_kid = kid, ek_key = key, ek_created = t\<rparr>)) (\<lambda>_.
       ret (kid, raw_b64 key)))))"

definition account_by_thumbprint :: "'x nenv_scheme \<Rightarrow> string \<Rightarrow> string \<Rightarrow> account option act" where
  "account_by_thumbprint E tenant thumb = wrap_err (wrapf ''acme: scanning accounts: '')
     (for_each_json E account_of (accounts_bucket tenant)
       (\<lambda>found _ a. Inr (if acc_thumb a = thumb then Some a else found)) None)"

definition eab_header_of :: "json \<Rightarrow> (string \<times> string \<times> string) option" where
  "eab_header_of j = do { fs \<leftarrow> loose_fields [''alg'', ''kid'', ''url''] [] j; a \<leftarrow> of_str (jget fs ''alg'');
     k \<leftarrow> of_str (jget fs ''kid''); u \<leftarrow> of_str (jget fs ''url''); Some (a, k, u) }"

text \<open>The binding before its key is looked up: the key id it names.\<close>

definition eab_claims :: "'x nenv_scheme \<Rightarrow> flat_jws \<Rightarrow> json \<Rightarrow> string \<Rightarrow> err + string" where
  "eab_claims E jws outer_jwk url = (case b64_decode (jw_protected jws) of
     None \<Rightarrow> Inl (malformed ''invalid EAB protected header encoding'')
   | Some prot \<Rightarrow> (case unmarshal E prot eab_header_of of
       None \<Rightarrow> Inl (malformed ''invalid EAB protected header'')
     | Some (alg, kid, hurl) \<Rightarrow>
        if alg \<noteq> ''HS256'' then Inl (errf 400 ''badSignatureAlgorithm'' (''EAB alg must be HS256, got '' @ quoted alg))
        else if hurl \<noteq> [] \<and> hurl \<noteq> url then Inl (errf 401 ''unauthorized'' (''EAB url '' @ quoted hurl @ '' does not match request URL''))
        else (case b64_decode (jw_payload jws) of
          None \<Rightarrow> Inl (malformed ''invalid EAB payload encoding'')
        | Some payload \<Rightarrow>
            sbind (jwk_thumbprint E (json_parse E payload)) (\<lambda>inner.
            sbind (jwk_thumbprint E (Some outer_jwk)) (\<lambda>outer.
            if inner \<noteq> outer then Inl (errf 401 ''unauthorized'' ''EAB payload key does not match account key'') else Inr kid)))))"

definition verify_eab :: "'x nenv_scheme \<Rightarrow> string \<Rightarrow> json \<Rightarrow> json \<Rightarrow> string \<Rightarrow> string act" where
  "verify_eab E tenant outer_jwk raw url = (case flat_jws_of raw of
     None \<Rightarrow> fail (malformed ''invalid externalAccountBinding'')
   | Some jws \<Rightarrow>
      ebind (lift_sum (eab_claims E jws outer_jwk url)) (\<lambda>kid.
      ebind (wrap_err (\<lambda>e. if is_not_found e then errf 401 ''unauthorized'' (''unknown EAB key '' @ quoted kid)
          else wrapf ''acme: loading EAB key: '' e) (get_json E eab_key_of (eab_bucket tenant) kid)) (\<lambda>k.
        case b64_decode (jw_signature jws) of
          None \<Rightarrow> fail (malformed ''invalid EAB signature encoding'')
        | Some sg \<Rightarrow> if hmac256 E (ek_key k) (jw_protected jws @ ''.'' @ jw_payload jws) \<noteq> sg
            then fail (errf 401 ''unauthorized'' ''EAB MAC verification failed'') else ret kid)))"

definition account_view :: "account \<Rightarrow> json" where
  "account_view a = JObj (fld ''status'' (JStr (acc_status a)) @ omit (acc_contact a = []) ''contact'' (slice_json JStr (acc_contact a)))"

record new_account_body =
  nb_contact :: "string list"
  nb_only_existing :: bool
  nb_eab :: "json option"

definition new_account_body_of :: "json \<Rightarrow> new_account_body option" where
  "new_account_body_of j = do { fs \<leftarrow> loose_fields [''termsOfServiceAgreed'', ''onlyReturnExisting''] [''contact'', ''externalAccountBinding''] j;
     c \<leftarrow> of_list of_str (jget fs ''contact''); _ \<leftarrow> of_bool (jget fs ''termsOfServiceAgreed''); o' \<leftarrow> of_bool (jget fs ''onlyReturnExisting'');
     Some \<lparr>nb_contact = c, nb_only_existing = o', nb_eab = jfind fs ''externalAccountBinding''\<rparr> }"

definition read_account_body :: "'x nenv_scheme \<Rightarrow> string \<Rightarrow> new_account_body option" where
  "read_account_body E payload = (if payload = [] then Some \<lparr>nb_contact = [], nb_only_existing = False, nb_eab = None\<rparr>
     else unmarshal E payload new_account_body_of)"

definition bind_external :: "'x nenv_scheme \<Rightarrow> acme_server \<Rightarrow> jws_request \<Rightarrow> json option \<Rightarrow> string act" where
  "bind_external E s r eab = (case eab of
     Some raw \<Rightarrow> verify_eab E (jr_tenant r) (jr_jwk r) raw (acme_url s (jr_tenant r) ''/new-account'')
   | None \<Rightarrow> if xs_require_eab s then fail (errf 400 ''externalAccountRequired'' ''this tenant requires an external account binding'')
       else ret [])"

definition handle_new_account :: "'x nenv_scheme \<Rightarrow> acme_server \<Rightarrow> acme_request \<Rightarrow> jws_request \<Rightarrow> acme_response act" where
  "handle_new_account E s rq r =
     (if jr_account r \<noteq> None then fail (malformed ''new-account requires jwk authentication'')
      else case read_account_body E (jr_payload r) of
        None \<Rightarrow> fail (malformed ''invalid new-account payload'')
      | Some body \<Rightarrow>
         ebind (account_by_thumbprint E (jr_tenant r) (jr_thumb r)) (\<lambda>existing. case existing of
           Some a \<Rightarrow> acme_reply 200 (acme_url s (jr_tenant r) (''/account/'' @ acc_id a)) (AJson (account_view a))
         | None \<Rightarrow>
            if nb_only_existing body then fail (errf 400 ''accountDoesNotExist'' ''no account matches this key'')
            else ebind (bind_external E s r (nb_eab body)) (\<lambda>eab_kid.
              ebind (rand_id E) (\<lambda>i.
              ebind (clock E) (\<lambda>t. let a = \<lparr>acc_id = i, acc_thumb = jr_thumb r, acc_jwk = jr_jwk r, acc_contact = nb_contact body,
                acc_status = status_valid, acc_eab = eab_kid, acc_created = t\<rparr> in
              ebind (wrap_err (wrapf ''acme: storing account: '') (put_json E account_json (accounts_bucket (jr_tenant r)) i a)) (\<lambda>_.
              ebind (acme_audit E s rq (jr_tenant r) ''acme.account.new'' i \<lparr>ob_type = ''acme-account'', ob_id = i\<rparr>
                  [(''thumbprint'', jr_thumb r), (''eab_kid'', eab_kid)]) (\<lambda>_.
                acme_reply 201 (acme_url s (jr_tenant r) (''/account/'' @ i)) (AJson (account_view a)))))))))"

definition account_update_of :: "json \<Rightarrow> (string list option \<times> string) option" where
  "account_update_of j = do { fs \<leftarrow> loose_fields [''status''] [''contact''] j; st \<leftarrow> of_str (jget fs ''status'');
     if jget fs ''contact'' = JNull then Some (None, st)
     else do { c \<leftarrow> of_list of_str (jget fs ''contact''); Some (Some c, st) } }"

definition update_contact :: "'x nenv_scheme \<Rightarrow> jws_request \<Rightarrow> account \<Rightarrow> account act" where
  "update_contact E r a =
     (if jr_payload r = [] then ret a
      else case unmarshal E (jr_payload r) account_update_of of
        None \<Rightarrow> fail (malformed ''invalid account update payload'')
      | Some (contact, st) \<Rightarrow>
          if st \<noteq> [] \<and> st \<noteq> acc_status a then fail (malformed ''account status changes are not supported'')
          else (case contact of
            None \<Rightarrow> ret a
          | Some c \<Rightarrow> let a' = a\<lparr>acc_contact := c\<rparr> in
              ebind (wrap_err (wrapf ''acme: updating account: '') (put_json E account_json (accounts_bucket (jr_tenant r)) (acc_id a') a'))
                (\<lambda>_. ret a')))"

definition handle_account :: "'x nenv_scheme \<Rightarrow> acme_server \<Rightarrow> jws_request \<Rightarrow> string \<Rightarrow> acme_response act" where
  "handle_account E s r i =
     ebind (owned_by r i ''kid does not match account URL'') (\<lambda>a.
     ebind (update_contact E r a) (\<lambda>a'.
       acme_reply 200 (acme_url s (jr_tenant r) (''/account/'' @ acc_id a')) (AJson (account_view a'))))"

section \<open>Orders\<close>

definition order_ttl :: int where "order_ttl = 24 * 3600 * 1000000000"

definition identifier_summary :: "acme_ident list \<Rightarrow> string" where
  "identifier_summary is = join_with '','' (map id_value is)"

definition order_view :: "'x nenv_scheme \<Rightarrow> acme_server \<Rightarrow> string \<Rightarrow> acme_order \<Rightarrow> json" where
  "order_view E s tenant od = JObj (fld ''status'' (JStr (od_status od)) @ fld ''expires'' (JStr (time_text E (od_expires od))) @
     fld ''identifiers'' (slice_json identifier_json (od_idents od)) @
     fld ''authorizations'' (slice_json (\<lambda>i. JStr (acme_url s tenant (''/authz/'' @ i))) (od_authzs od)) @
     fld ''finalize'' (JStr (acme_url s tenant (''/order/'' @ od_id od @ ''/finalize''))) @
     omit (od_cert od = []) ''certificate'' (JStr (acme_url s tenant (''/cert/'' @ od_cert od))) @
     omit (od_error od = None) ''error'' (case od_error od of None \<Rightarrow> JNull | Some p \<Rightarrow> problem_json p))"

definition order_reply :: "'x nenv_scheme \<Rightarrow> acme_server \<Rightarrow> string \<Rightarrow> nat \<Rightarrow> acme_order \<Rightarrow> acme_response act" where
  "order_reply E s tenant status od = acme_reply status (acme_url s tenant (''/order/'' @ od_id od)) (AJson (order_view E s tenant od))"

definition ident_request_of :: "json \<Rightarrow> acme_ident option" where
  "ident_request_of j = do { fs \<leftarrow> loose_fields [''type'', ''value''] [] j; t \<leftarrow> of_str (jget fs ''type''); v \<leftarrow> of_str (jget fs ''value'');
     Some \<lparr>id_type = t, id_value = v\<rparr> }"

definition new_order_of :: "json \<Rightarrow> acme_ident list option" where
  "new_order_of j = do { fs \<leftarrow> loose_fields [] [''identifiers''] j; of_list ident_request_of (jget fs ''identifiers'') }"

fun check_idents :: "acme_ident list \<Rightarrow> err + unit" where
  "check_idents [] = Inr ()"
| "check_idents (i # is) =
     (if id_type i \<noteq> ''dns'' then Inl (errf 400 ''unsupportedIdentifier'' (''identifier type '' @ quoted (id_type i) @ '' is not supported (dns only)''))
      else if id_value i = [] then Inl (malformed ''empty dns identifier'')
      else check_idents is)"

text \<open>Wildcards are proved over DNS only.\<close>

definition challenge_types :: "string \<Rightarrow> string list" where
  "challenge_types v = (if has_prefix v ''*.'' then [''dns-01''] else [''http-01'', ''dns-01''])"

definition new_challenge :: "'x nenv_scheme \<Rightarrow> string \<Rightarrow> string \<Rightarrow> string list \<Rightarrow> string \<Rightarrow> string list act" where
  "new_challenge E tenant aid chs typ =
     ebind (rand_id E) (\<lambda>cid.
     ebind (rand_token E) (\<lambda>token.
     ebind (wrap_err (wrapf ''acme: storing challenge: '') (put_json E challenge_json (challenges_bucket tenant) cid
         \<lparr>ch_id = cid, ch_authz = aid, ch_type = typ, ch_token = token, ch_status = status_pending, ch_validated = zero_time,
          ch_error = None\<rparr>)) (\<lambda>_. ret (chs @ [cid]))))"

definition new_authz :: "'x nenv_scheme \<Rightarrow> string \<Rightarrow> string \<Rightarrow> string \<Rightarrow> int \<Rightarrow> string list \<Rightarrow> acme_ident \<Rightarrow> string list act" where
  "new_authz E tenant oid acct expires azs ident =
     ebind (rand_id E) (\<lambda>aid.
     ebind (efold (new_challenge E tenant aid) [] (challenge_types (id_value ident))) (\<lambda>chs.
     ebind (wrap_err (wrapf ''acme: storing authorization: '') (put_json E authz_json (authzs_bucket tenant) aid
         \<lparr>az_id = aid, az_order = oid, az_account = acct, az_ident = ident, az_status = status_pending, az_expires = expires,
          az_challs = chs\<rparr>)) (\<lambda>_. ret (azs @ [aid]))))"

text \<open>The account of the request: the routes let no request without one come here.\<close>

definition handle_new_order :: "'x nenv_scheme \<Rightarrow> acme_server \<Rightarrow> acme_request \<Rightarrow> jws_request \<Rightarrow> account \<Rightarrow> acme_response act" where
  "handle_new_order E s rq r acct = (case unmarshal E (jr_payload r) new_order_of of
     None \<Rightarrow> fail (malformed ''invalid new-order payload'')
   | Some idents \<Rightarrow>
      if idents = [] then fail (malformed ''order must name at least one identifier'')
      else ebind (lift_sum (check_idents idents)) (\<lambda>_.
        ebind (rand_id E) (\<lambda>oid.
        ebind (clock E) (\<lambda>t.
        ebind (efold (new_authz E (jr_tenant r) oid (acc_id acct) (t + order_ttl)) [] idents) (\<lambda>azs.
        let od = \<lparr>od_id = oid, od_account = acc_id acct, od_status = status_pending, od_expires = t + order_ttl, od_idents = idents,
          od_authzs = azs, od_cert = [], od_error = None\<rparr> in
        ebind (wrap_err (wrapf ''acme: storing order: '') (put_json E order_json (orders_bucket (jr_tenant r)) oid od)) (\<lambda>_.
        ebind (acme_audit E s rq (jr_tenant r) ''acme.order.new'' (acc_id acct) \<lparr>ob_type = ''acme-order'', ob_id = oid\<rparr>
            [(''identifiers'', identifier_summary idents)]) (\<lambda>_.
          order_reply E s (jr_tenant r) 201 od)))))))"

definition load_order :: "'x nenv_scheme \<Rightarrow> jws_request \<Rightarrow> string \<Rightarrow> (account \<times> acme_order) act" where
  "load_order E r i =
     ebind (wrap_err (missing ''order'' ''acme: loading order: '' i) (get_json E order_of (orders_bucket (jr_tenant r)) i)) (\<lambda>od.
     ebind (owned_by r (od_account od) ''order belongs to another account'') (\<lambda>a. ret (a, od)))"

definition handle_order :: "'x nenv_scheme \<Rightarrow> acme_server \<Rightarrow> jws_request \<Rightarrow> string \<Rightarrow> acme_response act" where
  "handle_order E s r i = ebind (load_order E r i) (\<lambda>(a, od). order_reply E s (jr_tenant r) 200 od)"

section \<open>Certificates\<close>

definition bad_csr :: "nat \<Rightarrow> string \<Rightarrow> err" where
  "bad_csr status t = errf status ''badCSR'' t"

text \<open>A Go map iterates in any order: of several names at fault any one is reported.\<close>

definition check_csr_identifiers :: "cert_request \<Rightarrow> acme_ident list \<Rightarrow> err + unit" where
  "check_csr_identifiers csr idents = (let want = map id_value idents; got = csr_dns csr in
     if csr_emails csr \<noteq> [] \<or> csr_ips csr \<noteq> [] \<or> csr_uris csr \<noteq> [] then Inl (bad_csr 400 ''CSR may only request dns names'')
     else if csr_cn csr \<noteq> [] \<and> csr_cn csr \<notin> set want
       then Inl (bad_csr 400 (''CSR common name '' @ quoted (csr_cn csr) @ '' is not an order identifier''))
     else case find (\<lambda>d. d \<notin> set want) got of
       Some d \<Rightarrow> Inl (bad_csr 400 (''CSR names '' @ quoted d @ '', which the order does not authorize''))
     | None \<Rightarrow> (case find (\<lambda>v. v \<notin> set got) want of
         Some v \<Rightarrow> Inl (bad_csr 400 (''CSR is missing order identifier '' @ quoted v))
       | None \<Rightarrow> Inr ()))"

definition csr_field_of :: "json \<Rightarrow> string option" where
  "csr_field_of j = do { fs \<leftarrow> loose_fields [''csr''] [] j; of_str (jget fs ''csr'') }"

definition read_csr :: "'x nenv_scheme \<Rightarrow> string \<Rightarrow> acme_ident list \<Rightarrow> err + cert_request" where
  "read_csr E payload idents = (case unmarshal E payload csr_field_of of
     None \<Rightarrow> Inl (malformed ''invalid finalize payload'')
   | Some text \<Rightarrow> (case b64_decode text of
       None \<Rightarrow> Inl (bad_csr 400 ''invalid csr encoding'')
     | Some der \<Rightarrow> (case parse_certificate_request E der of
         Inl e \<Rightarrow> Inl (bad_csr 400 (''parsing CSR: '' @ text_of e))
       | Inr csr \<Rightarrow> (case csr_check_signature E csr of
           Inl e \<Rightarrow> Inl (bad_csr 400 (''CSR signature invalid: '' @ text_of e))
         | Inr _ \<Rightarrow> sbind (check_csr_identifiers csr idents) (\<lambda>_. Inr csr)))))"

definition acme_issue_request :: "string \<Rightarrow> cert_request \<Rightarrow> account \<Rightarrow> issue_request" where
  "acme_issue_request tenant csr a = \<lparr>iq_tenant = tenant, iq_profile = ''default'', iq_csr = Some csr, iq_validity = 0, iq_chain = [],
     iq_experimental = False, iq_actor = acme_actor (acc_id a)\<rparr>"

text \<open>The first issued certificate is stored and given to the client: issuance returns at least one.\<close>

definition finish_order :: "'x nenv_scheme \<Rightarrow> acme_server \<Rightarrow> acme_request \<Rightarrow> string \<Rightarrow> account \<Rightarrow> acme_order \<Rightarrow> issued \<Rightarrow> acme_response act" where
  "finish_order E s rq tenant a od i =
     ebind (rand_id E) (\<lambda>cert_id.
     ebind (clock E) (\<lambda>t.
     ebind (wrap_err (wrapf ''acme: storing certificate: '') (put_json E stored_cert_json (acme_certs_bucket tenant) cert_id
         \<lparr>sc_id = cert_id, sc_account = acc_id a, sc_serial = issued_serial i, sc_chain = encode_chain_pem E (is_path i), sc_created = t\<rparr>)) (\<lambda>_.
     let od' = od\<lparr>od_status := status_valid, od_cert := cert_id\<rparr> in
     ebind (wrap_err (wrapf ''acme: updating order: '') (put_json E order_json (orders_bucket tenant) (od_id od') od')) (\<lambda>_.
     ebind (acme_audit E s rq tenant ''acme.order.finalize'' (acc_id a) \<lparr>ob_type = ''acme-order'', ob_id = od_id od'\<rparr>
         [(''serial'', issued_serial i), (''identifiers'', identifier_summary (od_idents od'))]) (\<lambda>_.
       order_reply E s tenant 200 od')))))"

definition handle_finalize :: "'x nenv_scheme \<Rightarrow> acme_server \<Rightarrow> acme_request \<Rightarrow> jws_request \<Rightarrow> string \<Rightarrow> acme_response act" where
  "handle_finalize E s rq r i =
     ebind (load_order E r i) (\<lambda>(a, od).
     if od_status od \<noteq> status_ready
     then fail (errf 403 ''orderNotReady'' (''order is '' @ od_status od @ '', not ready''))
     else ebind (lift_sum (read_csr E (jr_payload r) (od_idents od))) (\<lambda>csr.
       ebind (wrap_err (\<lambda>e. bad_csr 403 (''issuance refused: '' @ text_of e))
         (issue E (xs_manager s) (acme_issue_request (jr_tenant r) csr a))) (\<lambda>is.
       finish_order E s rq (jr_tenant r) a od (hd is))))"

definition handle_cert :: "'x nenv_scheme \<Rightarrow> jws_request \<Rightarrow> string \<Rightarrow> acme_response act" where
  "handle_cert E r i =
     ebind (wrap_err (missing ''certificate'' ''acme: loading certificate: '' i) (get_json E stored_cert_of (acme_certs_bucket (jr_tenant r)) i)) (\<lambda>sc.
     ebind (owned_by r (sc_account sc) ''certificate belongs to another account'') (\<lambda>_.
       acme_reply 200 [] (AChain (sc_chain sc))))"

definition acme_revoke_of :: "json \<Rightarrow> (string \<times> int) option" where
  "acme_revoke_of j = do { fs \<leftarrow> loose_fields [''certificate'', ''reason''] [] j; c \<leftarrow> of_str (jget fs ''certificate'');
     r \<leftarrow> of_int64 (jget fs ''reason''); Some (c, r) }"

definition read_revocation :: "'x nenv_scheme \<Rightarrow> string \<Rightarrow> err + certificate \<times> int" where
  "read_revocation E payload = (case unmarshal E payload acme_revoke_of of
     None \<Rightarrow> Inl (malformed ''invalid revoke payload'')
   | Some (text, reason) \<Rightarrow> (case b64_decode text of
       None \<Rightarrow> Inl (malformed ''invalid certificate encoding'')
     | Some der \<Rightarrow> (case parse_certificate E der of
         Inl e \<Rightarrow> Inl (malformed (''parsing certificate: '' @ text_of e))
       | Inr cert \<Rightarrow> if reason < 0 \<or> 10 < reason
           then Inl (errf 400 ''badRevocationReason'' (''reason code '' @ dec_int reason @ '' out of range'')) else Inr (cert, reason))))"

text \<open>Who may revoke: the account that ordered the certificate, or the holder of its key.\<close>

definition revocation_actor :: "'x nenv_scheme \<Rightarrow> jws_request \<Rightarrow> certificate \<Rightarrow> string act" where
  "revocation_actor E r cert = (let serial = dec (xc_serial (crt_x509 cert)) in case jr_account r of
     Some a \<Rightarrow> ebind (wrap_err (wrapf ''acme: scanning certificates: '') (for_each_json E stored_cert_of (acme_certs_bucket (jr_tenant r))
         (\<lambda>owned _ sc. Inr (owned \<or> sc_serial sc = serial \<and> sc_account sc = acc_id a)) False)) (\<lambda>owned.
       if \<not> owned then fail (errf 403 ''unauthorized'' (''account did not order certificate '' @ serial)) else ret (acc_id a))
   | None \<Rightarrow> if jr_key r \<noteq> crt_pub cert then fail (errf 403 ''unauthorized'' ''JWS key does not match certificate key'')
       else ret (''key:'' @ jr_thumb r))"

definition revoke_problem :: "string \<Rightarrow> err \<Rightarrow> err" where
  "revoke_problem serial e =
     (if contains_sub (text_of e) ''already revoked'' then errf 400 ''alreadyRevoked'' (''certificate '' @ serial @ '' is already revoked'')
      else if contains_sub (text_of e) ''unknown certificate'' then errf 404 ''malformed'' (''certificate '' @ serial @ '' was not issued by this tenant'')
      else e)"

definition handle_acme_revoke :: "'x nenv_scheme \<Rightarrow> acme_server \<Rightarrow> acme_request \<Rightarrow> jws_request \<Rightarrow> acme_response act" where
  "handle_acme_revoke E s rq r =
     ebind (lift_sum (read_revocation E (jr_payload r))) (\<lambda>(cert, reason). let serial = dec (xc_serial (crt_x509 cert)) in
     ebind (revocation_actor E r cert) (\<lambda>who.
     ebind (wrap_err (revoke_problem serial) (revoke E (xs_manager s) (jr_tenant r) serial reason (acme_actor who))) (\<lambda>_.
     ebind (acme_audit E s rq (jr_tenant r) ''acme.cert.revoke'' who \<lparr>ob_type = ''cert'', ob_id = serial\<rparr>
         [(''reason_code'', dec_int reason)]) (\<lambda>_.
       acme_reply 200 [] AEmpty))))"

section \<open>Directory and nonces\<close>

definition handle_directory :: "acme_server \<Rightarrow> string \<Rightarrow> acme_response act" where
  "handle_directory s tenant = acme_reply 200 [] (AJson (JObj (
     fld ''meta'' (JObj (fld ''externalAccountRequired'' (JBool (xs_require_eab s)))) @
     fld ''newAccount'' (JStr (acme_url s tenant ''/new-account'')) @ fld ''newNonce'' (JStr (acme_url s tenant ''/new-nonce'')) @
     fld ''newOrder'' (JStr (acme_url s tenant ''/new-order'')) @ fld ''revokeCert'' (JStr (acme_url s tenant ''/revoke-cert'')))))"

definition handle_new_nonce :: "'x nenv_scheme \<Rightarrow> nat \<Rightarrow> string \<Rightarrow> acme_response act" where
  "handle_new_nonce E status tenant = ecase (issue_nonce E tenant) (\<lambda>e. ret (problem_response None e))
     (\<lambda>n. ret \<lparr>xr_status = status, xr_nonce = Some n, xr_location = [], xr_link = [], xr_body = AEmpty\<rparr>)"

section \<open>Routes\<close>

definition with_acme_tenant :: "'x nenv_scheme \<Rightarrow> string \<Rightarrow> (string \<Rightarrow> acme_response act) \<Rightarrow> acme_response act" where
  "with_acme_tenant E tenant next = ecase (get_tenant E tenant)
     (\<lambda>_. ret (problem_response None (errf 404 ''malformed'' (''unknown tenant '' @ quoted tenant)))) (\<lambda>_. next tenant)"

text \<open>Every answer to a verified route carries a fresh nonce, errors included.\<close>

definition acme_post :: "'x nenv_scheme \<Rightarrow> acme_server \<Rightarrow> acme_request \<Rightarrow> string \<Rightarrow> bool \<Rightarrow> (jws_request \<Rightarrow> acme_response act) \<Rightarrow>
    acme_response act" where
  "acme_post E s rq tenant allow_jwk next = with_acme_tenant E tenant (\<lambda>tenant.
     ecase (issue_nonce E tenant) (\<lambda>e. ret (problem_response None e)) (\<lambda>n.
     ecase (ebind (verify_request E s rq tenant allow_jwk) next)
       (\<lambda>e. ret (problem_response (Some n) e)) (\<lambda>resp. ret (resp\<lparr>xr_nonce := Some n\<rparr>))))"

datatype acme_endpoint =
    Directory | NonceHead | NonceGet | NewAccount | AccountOf string | NewOrder | OrderOf string | Finalize string
  | AuthzOf string | ChallengeOf string | CertOf string | RevokeCert

text \<open>The segments after \<open>/acme/{tenant}\<close>.\<close>

fun acme_route :: "string \<Rightarrow> string list \<Rightarrow> acme_endpoint option" where
  "acme_route m [a] =
     (if a = ''directory'' \<and> is_get m then Some Directory
      else if a = ''new-nonce'' \<and> m = ''HEAD'' then Some NonceHead else if a = ''new-nonce'' \<and> m = ''GET'' then Some NonceGet
      else if m \<noteq> ''POST'' then None
      else if a = ''new-account'' then Some NewAccount else if a = ''new-order'' then Some NewOrder
      else if a = ''revoke-cert'' then Some RevokeCert else None)"
| "acme_route m [a, i] =
     (if m \<noteq> ''POST'' \<or> i = [] then None
      else if a = ''account'' then Some (AccountOf i) else if a = ''order'' then Some (OrderOf i)
      else if a = ''authz'' then Some (AuthzOf i) else if a = ''chall'' then Some (ChallengeOf i)
      else if a = ''cert'' then Some (CertOf i) else None)"
| "acme_route m [a, i, b] = (if m = ''POST'' \<and> i \<noteq> [] \<and> a = ''order'' \<and> b = ''finalize'' then Some (Finalize i) else None)"
| "acme_route m _ = None"

definition no_such_resource :: "acme_request \<Rightarrow> acme_response act" where
  "no_such_resource rq = ret (problem_response None (errf 404 ''malformed'' (''no such resource: '' @ path_text (xq_path rq))))"

fun acme_handler :: "'x nenv_scheme \<Rightarrow> acme_server \<Rightarrow> acme_request \<Rightarrow> acme_endpoint \<Rightarrow> jws_request \<Rightarrow> acme_response act" where
  "acme_handler E s rq NewAccount r = handle_new_account E s rq r"
| "acme_handler E s rq (AccountOf i) r = handle_account E s r i"
| "acme_handler E s rq NewOrder r = (case jr_account r of None \<Rightarrow> fail (errorf ''nil account'') | Some a \<Rightarrow> handle_new_order E s rq r a)"
| "acme_handler E s rq (OrderOf i) r = handle_order E s r i"
| "acme_handler E s rq (Finalize i) r = handle_finalize E s rq r i"
| "acme_handler E s rq (AuthzOf i) r = handle_authz E s r i"
| "acme_handler E s rq (ChallengeOf i) r = handle_challenge E s r i"
| "acme_handler E s rq (CertOf i) r = handle_cert E r i"
| "acme_handler E s rq RevokeCert r = handle_acme_revoke E s rq r"
| "acme_handler E s rq _ r = no_such_resource rq"

fun acme_endpoint_reply :: "'x nenv_scheme \<Rightarrow> acme_server \<Rightarrow> acme_request \<Rightarrow> string \<Rightarrow> acme_endpoint \<Rightarrow> acme_response act" where
  "acme_endpoint_reply E s rq tenant Directory = with_acme_tenant E tenant (handle_directory s)"
| "acme_endpoint_reply E s rq tenant NonceHead = with_acme_tenant E tenant (handle_new_nonce E 200)"
| "acme_endpoint_reply E s rq tenant NonceGet = with_acme_tenant E tenant (handle_new_nonce E 204)"
| "acme_endpoint_reply E s rq tenant e = acme_post E s rq tenant (e = NewAccount \<or> e = RevokeCert) (acme_handler E s rq e)"

definition acme_serve :: "'x nenv_scheme \<Rightarrow> acme_server \<Rightarrow> acme_request \<Rightarrow> acme_response act" where
  "acme_serve E s rq = (case xq_path rq of
     a # tenant # rest \<Rightarrow>
       if a = ''acme'' \<and> tenant \<noteq> [] then (case acme_route (xq_method rq) rest of
         None \<Rightarrow> no_such_resource rq | Some e \<Rightarrow> acme_endpoint_reply E s rq tenant e)
       else no_such_resource rq
   | _ \<Rightarrow> no_such_resource rq)"

end
