(* ===== verification/Acme_Nonces.thy ===== *)
theory Acme_Nonces
  imports Acme_Handlers
begin

text \<open>
  What the handlers of the ACME server leave alone, and the single use of nonces.
\<close>

section \<open>Documents a call does not touch\<close>

definition acme_path :: "bpath \<Rightarrow> bool" where
  "acme_path p \<longleftrightarrow> (\<exists>t k. p = acme_bucket t k)"

text \<open>\<open>kept B\<close>: time passes, and the documents of the buckets in \<open>B\<close> are as before.\<close>

definition kept :: "bpath set \<Rightarrow> world \<Rightarrow> world \<Rightarrow> bool" where
  "kept B w w' \<longleftrightarrow> tick w \<le> tick w' \<and> (\<forall>p \<in> B. \<forall>i. lookup w' p i = lookup w p i)"

interpretation kept: world_contract "kept B" for B
  by unfold_locales (auto simp: kept_def)

lemma kept_set [simp]: "p \<notin> B \<Longrightarrow> kept B w (set_doc w p k d)"
  by (auto simp: kept_def lookup_set_doc)

lemma kept_del [simp]: "p \<notin> B \<Longrightarrow> kept B w (del_doc w p k)"
  by (auto simp: kept_def lookup_del_doc)

lemma kept_lookup: "kept B w w' \<Longrightarrow> p \<in> B \<Longrightarrow> lookup w' p i = lookup w p i"
  by (simp add: kept_def)

lemma kept_tick: "kept B w w' \<Longrightarrow> tick w \<le> tick w'"
  by (simp add: kept_def)

text \<open>Buckets of the server, apart from those of the engine and the log.\<close>

definition acme_only :: "bpath set \<Rightarrow> bool" where
  "acme_only B \<longleftrightarrow> (\<forall>p \<in> B. acme_path p)"

lemma engine_buckets [simp]: "acme_only B \<Longrightarrow> certs_bucket t \<notin> B" "acme_only B \<Longrightarrow> tenants_bucket \<notin> B"
  "acme_only B \<Longrightarrow> p \<in> log_buckets \<Longrightarrow> p \<notin> B"
  by (auto simp: acme_only_def acme_path_def acme_bucket_def certs_bucket_def tenants_bucket_def log_buckets_def
      audit_records_bucket_def audit_meta_bucket_def)

lemma kept_log: "acme_only B \<Longrightarrow> steps (kept B) (log_event E a r)"
proof (rule stepsI)
  fix w
  assume B: "acme_only B"
  obtain res v where run: "log_event E a r w = (res, v)" by (cases "log_event E a r w")
  have "tick w \<le> tick v" using stepsD [OF ticks_log run] .
  then show "kept B w (snd (log_event E a r w))" using engine_buckets(3) [OF B] log_event_lookup [OF run] run by (auto simp: kept_def)
qed

lemma kept_engine:
  assumes "acme_only B"
  shows "steps (kept B) (get_tenant E t)" "steps (kept B) (revoke E m t serial reason who)" "steps (kept B) (issue E m req)"
proof -
  note rules = kept.store_rules kept_log kept_set engine_buckets assms
  show "steps (kept B) (get_tenant E t)" unfolding get_tenant_def by (intro rules)
  show rev: "steps (kept B) (revoke E m t serial reason who)" for t serial reason who
    unfolding revoke_def mark_revoked_def by (intro rules)
  have ab: "steps (kept B) (abandon_issued E m who t serials cause)" for who t serials cause
    unfolding abandon_issued_def try_revoke_def by (intro rules rev)
  have one: "steps (kept B) (issue_one E m t ri p csr who target v)" for t ri p csr who target v
    unfolding issue_one_def Let_def by (intro rules kept.steps_issue_leaf)
  have "steps (kept B) (issue_targets E m t ri p csr who v out targets)" for t ri p csr who v out targets
    by (induction targets arbitrary: out) (auto intro!: rules one ab split: issue_fail.split)
  then show "steps (kept B) (issue E m req)" unfolding issue_def get_tenant_def root_def by (intro rules)
qed

section \<open>Calls under a contract\<close>

text \<open>The buckets a handler may write for a tenant.\<close>

definition acme_docs :: "string \<Rightarrow> bpath set" where
  "acme_docs t = {accounts_bucket t, orders_bucket t, authzs_bucket t, challenges_bucket t}"

definition acme_writes :: "string \<Rightarrow> bpath set" where
  "acme_writes t = insert (acme_certs_bucket t) (acme_docs t)"

lemma acme_writes_mem: "accounts_bucket t \<in> acme_writes t" "orders_bucket t \<in> acme_writes t" "authzs_bucket t \<in> acme_writes t"
  "challenges_bucket t \<in> acme_writes t" "acme_certs_bucket t \<in> acme_writes t"
  by (simp_all add: acme_docs_def acme_writes_def)

context world_contract
begin

lemma steps_at_tick: "steps R (at_tick f)"
  by (simp add: steps_def at_tick_def advance_ok)

lemma steps_try: "steps R (try_addresses E guard url as)"
proof (induction as)
  case (Cons a as)
  then show ?case unfolding try_addresses.simps by (intro world_rules steps_at_tick)
qed (simp add: steps_ret del: ret_apply)

lemma steps_client: "steps R (client_get E guard via url)"
proof (induction "5 - via" arbitrary: via url rule: less_induct)
  case less
  show ?case
  proof (rule stepsI)
    fix w
    obtain r tr w1 where d: "dial E guard url w = (Inr (r, tr), w1)" using dial_total by blast
    have "steps R (dial E guard url)" unfolding dial_def by (intro world_rules steps_at_tick steps_try)
    then have w1: "R w w1" using d by (rule stepsD)
    from d show "R w (snd (client_get E guard via url w))"
    proof (cases rule: client_get_step [where via = via])
      case (ends x)
      then show ?thesis using w1 by simp
    next
      case (goes next')
      have "steps R (client_get E guard (Suc via) next')" by (rule less) (use goes(1) in simp)
      then have "steps R (ebind (client_get E guard (Suc via) next') (\<lambda>(r', tr'). ret (r', tr @ tr')))" by (intro world_rules)
      then show ?thesis using w1 by (auto simp: goes(2) steps_def intro: contract_trans)
    qed
  qed
qed

lemma steps_run_check: "steps R (run_check E s ty host token thumb)"
  unfolding run_check_def check_http01_def check_dns01_def Let_def by (intro world_rules steps_client steps_at_tick)

lemma steps_reads:
  "steps R (rand_id E)" "steps R (rand_token E)" "steps R (owned_by r x t)" "steps R (acme_reply st l b)"
  "steps R (order_reply E s t st od)" "steps R (load_order E r i)" "steps R (load_authz E r i)"
  "steps R (load_challenges E t is)" "steps R (survey E t ok is)" "steps R (account_by_thumbprint E t th)"
  "steps R (verify_eab E t oj raw url)" "steps R (bind_external E s r eab)" "steps R (checked E s az ch acct)"
  "steps R (revocation_actor E r cert)"
proof -
  show "steps R (rand_id E)" "steps R (rand_token E)" "steps R (owned_by r x t)" for r x t
    unfolding rand_id_def rand_token_def owned_by_def by (intro store_rules)+
  note owned = this(3)
  show "steps R (acme_reply st l b)" "steps R (order_reply E s t st od)" for st l b t
    unfolding order_reply_def acme_reply_def by (intro store_rules)+
  show "steps R (load_order E r i)" "steps R (load_authz E r i)" "steps R (load_challenges E t is)" for t
    unfolding load_order_def load_authz_def load_challenges_def by (intro store_rules owned)+
  show "steps R (survey E t ok is)" by (induction "is" arbitrary: ok) (auto intro!: store_rules)
  show "steps R (account_by_thumbprint E t th)" "steps R (checked E s az ch acct)" "steps R (revocation_actor E r cert)"
    unfolding account_by_thumbprint_def checked_def revocation_actor_def Let_def by (intro store_rules steps_run_check)+
  show v: "steps R (verify_eab E t oj raw url)" for t oj raw url unfolding verify_eab_def by (intro store_rules)
  show "steps R (bind_external E s r eab)" unfolding bind_external_def by (intro store_rules v)
qed

text \<open>Handlers, for a contract that allows the audit log and the writes of the tenant; the engine's calls are premises.\<close>

lemma steps_audit: "(\<And>a x. steps R (log_event E a x)) \<Longrightarrow> steps R (acme_audit E s rq t action i ob detail)"
  unfolding acme_audit_def Let_def by (intro world_rules)

lemma steps_readers: "steps R (handle_order E s r i)" "steps R (handle_authz E s r i)" "steps R (handle_cert E r i)"
  unfolding handle_order_def handle_authz_def handle_cert_def Let_def by (intro store_rules steps_reads)+

lemma steps_writers:
  assumes log: "\<And>a x. steps R (log_event E a x)" and set: "\<And>p i d w. p \<in> acme_writes (jr_tenant r) \<Longrightarrow> R w (set_doc w p i d)"
  shows "steps R (handle_new_account E s rq r)" "steps R (handle_account E s r i)" "steps R (handle_new_order E s rq r a)"
    "steps R (handle_challenge E s r i)" "steps R (finish_order E s rq (jr_tenant r) a od is)"
  unfolding handle_new_account_def handle_account_def handle_new_order_def handle_challenge_def update_contact_def
    new_authz_def new_challenge_def finish_order_def validate_challenge_def update_order_status_def Let_def
  by (intro store_rules steps_reads steps_audit log set acme_writes_mem)+

lemma steps_handler:
  assumes log: "\<And>a x. steps R (log_event E a x)" and set: "\<And>p i d w. p \<in> acme_writes (jr_tenant r) \<Longrightarrow> R w (set_doc w p i d)"
    and rev: "\<And>serial reason who. steps R (revoke E (xs_manager s) (jr_tenant r) serial reason who)"
    and fin: "\<And>i. e = Finalize i \<Longrightarrow> steps R (handle_finalize E s rq r i)"
  shows "steps R (acme_handler E s rq e r)"
proof -
  have "steps R (handle_acme_revoke E s rq r)"
    unfolding handle_acme_revoke_def Let_def by (intro store_rules steps_reads steps_audit log rev)
  then show ?thesis using steps_readers steps_writers [OF log set] fin
    by (cases e) (auto intro!: world_rules simp: no_such_resource_def simp del: ret_apply)
qed

lemma steps_finalize:
  assumes log: "\<And>a x. steps R (log_event E a x)" and set: "\<And>p i d w. p \<in> acme_writes (jr_tenant r) \<Longrightarrow> R w (set_doc w p i d)"
    and iss: "\<And>req. steps R (issue E (xs_manager s) req)"
  shows "steps R (handle_finalize E s rq r i)"
proof -
  have "steps R (finish_order E s rq (jr_tenant r) a od is)" for a od "is" using log set by (rule steps_writers)
  then show ?thesis unfolding handle_finalize_def by (intro store_rules steps_reads iss)
qed

lemma steps_verify:
  assumes "\<And>n w. R w (del_doc w (nonce_bucket t) n)"
  shows "steps R (verify_request E s rq t allow)"
  unfolding verify_request_def consume_nonce_def request_key_def account_by_kid_def by (intro store_rules assms)

lemma steps_issue_nonce:
  assumes "\<And>n d w. R w (set_doc w (nonce_bucket t) n d)"
  shows "steps R (issue_nonce E t)"
  unfolding issue_nonce_def by (intro store_rules assms)

text \<open>A step of the server is the checks in front of a handler and then, on a verified request, the handler.\<close>

lemma steps_acme_post:
  assumes nonce: "steps R (issue_nonce E t)" and verify: "steps R (verify_request E s rq t allow)"
    and next': "\<And>r w w'. verify_request E s rq t allow w = (Inr r, w') \<Longrightarrow> steps R (next' r)"
  shows "steps R (acme_post E s rq t allow next')"
proof -
  have v: "R w (snd (ebind (verify_request E s rq t allow) next' w))" for w
  proof -
    obtain x w1 where run: "verify_request E s rq t allow w = (x, w1)" by (cases "verify_request E s rq t allow w")
    have w1: "R w w1" using verify run by (rule stepsD)
    show ?thesis
    proof (cases x)
      case (Inr r)
      have "R w1 (snd (next' r w1))" using next' run Inr by (auto simp: steps_def)
      with w1 show ?thesis using contract_trans by (auto simp: ebind_apply run Inr)
    qed (use w1 in \<open>simp add: ebind_apply run\<close>)
  qed
  define m where "m = ebind (verify_request E s rq t allow) next'"
  have "steps R m" unfolding m_def using v by (rule stepsI)
  then show ?thesis unfolding acme_post_def with_acme_tenant_def get_tenant_def m_def [symmetric]
    by (intro store_rules nonce)
qed

lemma steps_acme_serve:
  assumes nonce: "\<And>t. steps R (issue_nonce E t)"
    and post: "\<And>t allow e rest. xq_path rq = ''acme'' # t # rest \<Longrightarrow> acme_route (xq_method rq) rest = Some e \<Longrightarrow>
      steps R (acme_post E s rq t allow (acme_handler E s rq e))"
  shows "steps R (acme_serve E s rq)"
proof -
  have ten: "steps R (with_acme_tenant E t h)" if "\<And>t. steps R (h t)" for t h
    unfolding with_acme_tenant_def get_tenant_def by (intro store_rules that)
  have "steps R (handle_directory s t)" "steps R (handle_new_nonce E st t)" for t st
    unfolding handle_directory_def acme_reply_def handle_new_nonce_def by (intro world_rules nonce)+
  note open_endpoints = ten [OF this(1)] ten [OF this(2)]
  have "steps R (acme_endpoint_reply E s rq t e)" if "xq_path rq = ''acme'' # t # rest" "acme_route (xq_method rq) rest = Some e" for t e rest
    using open_endpoints post [OF that] by (cases e) simp_all
  then show ?thesis unfolding acme_serve_def no_such_resource_def
    by (auto intro!: world_rules simp del: ret_apply split: list.split option.split)
qed

end

section \<open>Handlers\<close>

lemma acme_docs_only [simp]: "acme_only (acme_docs t)" "acme_only {nonce_bucket t}"
  by (auto simp: acme_only_def acme_docs_def acme_path_def acme_bucket_defs)

lemma nonce_not_doc [simp]: "nonce_bucket t \<notin> acme_docs t'" "acme_writes t \<inter> {nonce_bucket t'} = {}"
  by (auto simp: acme_docs_def acme_writes_def acme_bucket_defs)

lemma other_tenant: "t \<noteq> t' \<Longrightarrow> acme_writes t \<inter> acme_docs t' = {}"
  by (auto simp: acme_docs_def acme_writes_def acme_bucket_defs)

lemmas kept_rules = kept.store_rules kept_log kept_engine kept.steps_run_check kept_set

lemmas kept_audit = kept.steps_audit [OF kept_log]

lemma kept_readers:
  assumes "acme_only B"
  shows "steps (kept B) (handle_order E s r i)" "steps (kept B) (handle_authz E s r i)" "steps (kept B) (handle_cert E r i)"
    "steps (kept B) (handle_acme_revoke E s rq r)"
  unfolding handle_order_def handle_authz_def handle_cert_def handle_acme_revoke_def Let_def
  by (intro kept_rules kept.steps_reads kept_audit assms)+

lemma kept_writes:
  assumes B: "acme_only B" and w: "acme_writes t \<inter> B = {}"
  shows "p \<in> acme_writes t \<Longrightarrow> kept B w' (set_doc w' p i d)"
  using w by (intro kept_set) blast

lemma kept_handler:
  assumes B: "acme_only B" and w: "acme_writes (jr_tenant r) \<inter> B = {}"
  shows "steps (kept B) (acme_handler E s rq e r)"
  by (intro kept.steps_handler kept.steps_finalize kept_log kept_engine kept_writes [OF B w] B)

lemma kept_verify:
  assumes "nonce_bucket t \<notin> B"
  shows "steps (kept B) (verify_request E s rq t allow)" "steps (kept B) (issue_nonce E t)"
  using assms by (auto intro!: kept.steps_verify kept.steps_issue_nonce)

section \<open>Nonces are used once\<close>

text \<open>From tick \<open>K\<close> on, a nonce that is not stored does not come back.\<close>

definition spent :: "nat \<Rightarrow> string \<Rightarrow> string \<Rightarrow> world \<Rightarrow> world \<Rightarrow> bool" where
  "spent K t n w w' \<longleftrightarrow> tick w \<le> tick w' \<and> (K \<le> tick w \<longrightarrow> lookup w (nonce_bucket t) n = None \<longrightarrow> lookup w' (nonce_bucket t) n = None)"

interpretation spent: world_contract "spent K t n" for K t n
  by unfold_locales (auto simp: spent_def)

lemma kept_spent: "kept {nonce_bucket t} w w' \<Longrightarrow> spent K t n w w'"
  by (auto simp: kept_def spent_def)

lemma spent_del [simp]: "spent K t n w (del_doc w p k)"
  by (auto simp: spent_def lookup_del_doc)

lemma spent_set [simp]: "(p, k) \<noteq> (nonce_bucket t, n) \<Longrightarrow> spent K t n w (set_doc w p k d)"
  by (auto simp: spent_def lookup_set_doc)

definition fresh_nonces :: "'x env_scheme \<Rightarrow> nat \<Rightarrow> string \<Rightarrow> bool" where
  "fresh_nonces E K n \<longleftrightarrow> (\<forall>k \<ge> K. raw_b64 (map (rnd_at E k) [0..<16]) \<noteq> n)"

lemma spent_issue:
  assumes "fresh_nonces E K n"
  shows "steps (spent K t n) (issue_nonce E t')"
proof (rule stepsI)
  fix w
  define rest where "rest b = ebind (clock E) (\<lambda>t. ebind (wrap_err (wrapf ''acme: storing nonce: '')
       (put_json E nonce_rec_json (nonce_bucket t') (raw_b64 b) \<lparr>nr_expires = t + nonce_ttl\<rparr>)) (\<lambda>_. ret (raw_b64 b)))" for b
  obtain r v where run: "wrap_err (wrapf ''acme: generating nonce: '') (rand_read E 16) w = (r, v)"
    by (cases "wrap_err (wrapf ''acme: generating nonce: '') (rand_read E 16) w")
  have "steps (kept {nonce_bucket t}) (wrap_err (wrapf ''acme: generating nonce: '') (rand_read E 16))" by (intro kept_rules)
  from stepsD [OF this run] have wv: "kept {nonce_bucket t} w v" .
  show "spent K t n w (snd (issue_nonce E t' w))"
  proof (cases "K \<le> tick w")
    case False
    have "kept {} w (snd (issue_nonce E t' w))" using kept_verify(2) [of t' "{}" E] by (simp add: steps_def)
    with False show ?thesis by (simp add: spent_def kept_def)
  next
    case True
    show ?thesis
    proof (cases r)
      case (Inl e)
      with run have "snd (issue_nonce E t' w) = v" by (simp add: issue_nonce_def ebind_apply)
      with wv show ?thesis using kept_spent by simp
    next
      case (Inr b)
      with run have b: "b = map (rnd_at E (tick w)) [0..<16]" by (auto simp: wrap_err_Inr_iff rand_read_def dest!: effect_InrD)
      have "steps (spent K t n) (rest b)" unfolding rest_def
        by (intro spent.store_rules spent_set) (use assms True b in \<open>auto simp: fresh_nonces_def\<close>)
      moreover have "issue_nonce E t' w = rest b v" using run Inr by (simp add: issue_nonce_def rest_def ebind_apply)
      ultimately show ?thesis using kept_spent [OF wv, of K n] spent.contract_trans by (fastforce simp: steps_def)
    qed
  qed
qed

lemma verify_tenant: "verify_request E s rq t allow w = (Inr r, w') \<Longrightarrow> jr_tenant r = t"
  by (auto simp: verify_request_def act_elims open_jws_def split: if_splits option.splits)

lemma spent_serve:
  assumes "fresh_nonces E K n"
  shows "steps (spent K t n) (acme_serve E s rq)"
proof -
  have "steps (spent K t n) (acme_handler E s rq e r)" for e r
    by (rule steps_mono [OF kept_handler [of "{nonce_bucket t}"]]) (auto intro: kept_spent)
  then show ?thesis
    by (intro spent.steps_acme_serve spent.steps_acme_post spent.steps_verify spent_issue [OF assms] spent_del)
qed

text \<open>The server at work: requests one after another.\<close>

definition serve_all :: "'x nenv_scheme \<Rightarrow> acme_server \<Rightarrow> acme_request list \<Rightarrow> world \<Rightarrow> world" where
  "serve_all E s rqs w = foldl (\<lambda>w rq. snd (acme_serve E s rq w)) w rqs"

lemma serve_all_contract:
  assumes "step_contract R" and "\<And>rq. steps R (acme_serve E s rq)"
  shows "R w (serve_all E s rqs w)"
proof (induction rqs arbitrary: w)
  case Nil
  show ?case using step_contract.contract_refl [OF assms(1)] by (simp add: serve_all_def)
next
  case (Cons rq rqs)
  have "R w (snd (acme_serve E s rq w))" using assms(2) by (simp add: steps_def)
  moreover have "R (snd (acme_serve E s rq w)) (serve_all E s rqs (snd (acme_serve E s rq w)))" by (rule Cons)
  ultimately show ?case using step_contract.contract_trans [OF assms(1)] by (auto simp: serve_all_def)
qed

lemma verify_nonce:
  assumes "verify_request E s rq t allow w = (Inr r, w')" and "read_jws E s rq = Inr (jws, hdr)"
  shows "lookup w' (nonce_bucket t) (jp_nonce hdr) = None \<and> (\<exists>d n k. lookup w (nonce_bucket t) (jp_nonce hdr) = Some d \<and>
    nonce_rec_of d = Some n \<and> k \<ge> tick w \<and> now_at E k < nr_expires n) \<and> tick w < tick w'"
proof -
  obtain v where c: "consume_nonce E t (jp_nonce hdr) w = (Inr True, v)"
    and rest: "ebind (request_key E s t allow hdr) (\<lambda>(acct, jwk). lift_sum (open_jws E t jws hdr acct jwk)) v = (Inr r, w')"
    using assms by (auto simp: verify_request_def ebind_apply split: prod.splits sum.splits if_splits)
  from c obtain d n where d: "lookup w (nonce_bucket t) (jp_nonce hdr) = Some d" "nonce_rec_of d = Some n" "now_at E (Suc (tick w)) < nr_expires n"
    and v: "v = advance (del_doc (advance w) (nonce_bucket t) (jp_nonce hdr))" by (auto simp: consume_nonce_Inr)
  have "steps (kept {nonce_bucket t}) (ebind (request_key E s t allow hdr) (\<lambda>(acct, jwk). lift_sum (open_jws E t jws hdr acct jwk)))"
    unfolding request_key_def account_by_kid_def by (intro kept_rules)
  from stepsD [OF this rest] have k: "kept {nonce_bucket t} v w'" .
  have "lookup w' (nonce_bucket t) (jp_nonce hdr) = None" using kept_lookup [OF k] by (simp add: v lookup_del_doc)
  moreover have "tick w < tick w'" using kept_tick [OF k] by (simp add: v)
  ultimately show ?thesis using d by (intro conjI exI [of _ d] exI [of _ n] exI [of _ "Suc (tick w)"]) simp_all
qed

text \<open>
  Claim C14: a nonce opens one request.  A request that verifies carried a nonce that was stored and
  had not expired; after any further requests, unless the same random bytes are drawn again, every
  request with that nonce, whoever sent it, is refused, and none of it changes a document.
\<close>

theorem nonce_single_use:
  assumes first: "read_jws E s rq = Inr (jws, hdr)" "verify_request E s rq t allow w = (Inr r, w1)"
    and fresh: "fresh_nonces E (tick w1) (jp_nonce hdr)"
    and replay: "read_jws E s rq' = Inr (jws', hdr')" "jp_nonce hdr' = jp_nonce hdr"
    and run: "verify_request E s rq' t allow' (serve_all E s rqs w1) = (res, w3)"
  shows "(\<exists>e. res = Inl e \<and> (e = errf 400 ''badNonce'' ''invalid or expired nonce'' \<or> sentinel_of e = IOS)) \<and>
    (\<forall>p i. lookup w3 p i = lookup (serve_all E s rqs w1) p i) \<and>
    (\<exists>d n k. lookup w (nonce_bucket t) (jp_nonce hdr) = Some d \<and> nonce_rec_of d = Some n \<and> k \<ge> tick w \<and> now_at E k < nr_expires n)"
proof -
  define w2 where "w2 = serve_all E s rqs w1"
  note v = verify_nonce [OF first(2,1)]
  have "spent (tick w1) t (jp_nonce hdr) w1 w2"
    unfolding w2_def by (rule serve_all_contract) (auto intro: spent.step_contract_axioms spent_serve fresh)
  then have gone: "lookup w2 (nonce_bucket t) (jp_nonce hdr) = None" using v by (simp add: spent_def)
  have "(\<exists>e. consume_nonce E t (jp_nonce hdr') w2 = (Inl e, advance w2) \<and> sentinel_of e = IOS) \<or>
      (\<exists>x. (x = w2 \<or> x = advance w2) \<and> consume_nonce E t (jp_nonce hdr') w2 = (Inr False, x))"
  proof (cases "jp_nonce hdr' = []")
    case False
    obtain tr x where t: "take_doc E (nonce_bucket t) (jp_nonce hdr') w2 = (tr, x)" by (cases "take_doc E (nonce_bucket t) (jp_nonce hdr') w2")
    have p: "nonce_bucket t \<noteq> []" by (simp add: acme_bucket_defs)
    have "x = advance w2 \<and> (tr = Inl err_not_found \<or> (\<exists>e. tr = Inl (io_error e)))"
      using t gone p replay(2) by (auto simp: take_doc_def effect_def Let_def split: fault.splits)
    then show ?thesis using t False
      by (auto simp: consume_nonce_def take_json_def ecase_apply ebind_apply is_not_found_def err_not_found_def)
  qed (simp add: consume_nonce_def)
  then have "(\<exists>e. res = Inl e \<and> (e = errf 400 ''badNonce'' ''invalid or expired nonce'' \<or> sentinel_of e = IOS)) \<and> (w3 = w2 \<or> w3 = advance w2)"
    using run by (auto simp: verify_request_def ebind_apply replay(1) simp flip: w2_def)
  then show ?thesis using v by (auto simp flip: w2_def)
qed

end
