(* ===== verification/Acme_Orders.thy ===== *)
theory Acme_Orders
  imports Acme_Nonces
begin

text \<open>
  The objects of the ACME server as a state machine: the invariant that an order is ready only when
  every one of its names has been proved with a challenge of its account, and its preservation.
\<close>

section \<open>Assertions on actions\<close>

text \<open>
  \<open>triple K I P m Q\<close>: from a state with \<open>P\<close>, the action returns a value with \<open>Q\<close>, or fails with
  \<open>I\<close>, the invariant that holds wherever a handler may stop, as long as the clock has not passed
  \<open>K\<close>; and the clock never runs backwards.
\<close>

abbreviation ticking :: "(world, 'e, 'a) action \<Rightarrow> bool" where
  "ticking \<equiv> steps (\<lambda>w w'. tick w \<le> tick w')"

definition triple :: "nat \<Rightarrow> (world \<Rightarrow> bool) \<Rightarrow> (world \<Rightarrow> bool) \<Rightarrow> (world, 'e, 'a) action \<Rightarrow> ('a \<Rightarrow> world \<Rightarrow> bool) \<Rightarrow> bool" where
  "triple K I P m Q \<longleftrightarrow> ticking m \<and> (\<forall>w. P w \<longrightarrow> tick (snd (m w)) \<le> K \<longrightarrow>
     (case m w of (Inl e, w') \<Rightarrow> I w' | (Inr x, w') \<Rightarrow> Q x w'))"

lemma tripleI:
  assumes "ticking m" and "\<And>w e w'. P w \<Longrightarrow> m w = (Inl e, w') \<Longrightarrow> tick w' \<le> K \<Longrightarrow> I w'"
    and "\<And>w x w'. P w \<Longrightarrow> m w = (Inr x, w') \<Longrightarrow> tick w' \<le> K \<Longrightarrow> Q x w'"
  shows "triple K I P m Q"
  unfolding triple_def using assms by (auto split: prod.split sum.split)

lemma triple_ticking: "triple K I P m Q \<Longrightarrow> ticking m"
  by (simp add: triple_def)

lemma tripleD: "triple K I P m Q \<Longrightarrow> P w \<Longrightarrow> m w = (r, w') \<Longrightarrow> tick w' \<le> K \<Longrightarrow> case r of Inl e \<Rightarrow> I w' | Inr x \<Rightarrow> Q x w'"
  unfolding triple_def by (elim conjE allE [of _ w]) (cases r; simp)

lemma triple_Inl: "triple K I P m Q \<Longrightarrow> P w \<Longrightarrow> m w = (Inl e, w') \<Longrightarrow> tick w' \<le> K \<Longrightarrow> I w'"
  by (drule (3) tripleD) simp

lemma triple_Inr: "triple K I P m Q \<Longrightarrow> P w \<Longrightarrow> m w = (Inr x, w') \<Longrightarrow> tick w' \<le> K \<Longrightarrow> Q x w'"
  by (drule (3) tripleD) simp

lemma triple_ret: "(\<And>w. P w \<Longrightarrow> Q x w) \<Longrightarrow> triple K I P (ret x) Q"
  by (rule tripleI [OF ticks.steps_ret]) simp_all

lemma triple_fail: "(\<And>w. P w \<Longrightarrow> I w) \<Longrightarrow> triple K I P (fail e) Q"
  by (rule tripleI [OF ticks.steps_fail]) simp_all

lemma triple_case:
  assumes m: "triple K I P m Q" and h: "\<And>e. triple K I I (h e) R" and k: "\<And>x. triple K I (Q x) (k x) R"
  shows "triple K I P (ecase m h k) R"
proof -
  have t: "ticking (ecase m h k)" by (rule ticks.steps_ecase [OF triple_ticking [OF m] triple_ticking [OF h] triple_ticking [OF k]])
  have go: "case r of Inl e \<Rightarrow> I w' | Inr x \<Rightarrow> R x w'"
    if P: "P w" and run: "ecase m h k w = (r, w')" and le: "tick w' \<le> K" for w r w'
    using run unfolding ecase_eq_iff
  proof (elim disjE exE conjE)
    fix e w1 assume 1: "m w = (Inl e, w1)" and 2: "h e w1 = (r, w')"
    have "tick w1 \<le> K" using stepsD [OF triple_ticking [OF h] 2] le by simp
    with m P 1 have "I w1" by (rule triple_Inl)
    with h show ?thesis using 2 le by (rule tripleD)
  next
    fix x w1 assume 1: "m w = (Inr x, w1)" and 2: "k x w1 = (r, w')"
    have "tick w1 \<le> K" using stepsD [OF triple_ticking [OF k] 2] le by simp
    with m P 1 have "Q x w1" by (rule triple_Inr)
    with k show ?thesis using 2 le by (rule tripleD)
  qed
  from t show ?thesis by (rule tripleI) (use go in force)+
qed

lemma triple_bind: "triple K I P m Q \<Longrightarrow> (\<And>x. triple K I (Q x) (k x) R) \<Longrightarrow> triple K I P (ebind m k) R"
  unfolding ebind_def by (rule triple_case [OF _ triple_fail])

lemma triple_wrap: "triple K I P m Q \<Longrightarrow> triple K I P (wrap_err f m) Q"
  unfolding wrap_err_def by (rule triple_case [OF _ triple_fail triple_ret])

lemma triple_weaken: "triple K I P m Q \<Longrightarrow> (\<And>w. P' w \<Longrightarrow> P w) \<Longrightarrow> (\<And>x w. Q x w \<Longrightarrow> Q' x w) \<Longrightarrow> triple K I P' m Q'"
  by (rule tripleI, erule triple_ticking) (blast dest: triple_Inl triple_Inr)+

lemma triple_assume: "ticking m \<Longrightarrow> (p \<Longrightarrow> triple K I P m Q) \<Longrightarrow> triple K I (\<lambda>w. P w \<and> p) m Q"
  by (cases p) (simp_all add: triple_def)

lemma triple_option: "(v = None \<Longrightarrow> triple K I P m Q) \<Longrightarrow> (\<And>x. v = Some x \<Longrightarrow> triple K I P (k x) Q) \<Longrightarrow>
    triple K I P (case v of None \<Rightarrow> m | Some x \<Rightarrow> k x) Q"
  by (cases v) simp_all

lemma triple_prod: "(\<And>x y. v = (x, y) \<Longrightarrow> triple K I P (k x y) Q) \<Longrightarrow> triple K I P (case v of (x, y) \<Rightarrow> k x y) Q"
  by (cases v) simp

lemma triple_if: "(b \<Longrightarrow> triple K I P m Q) \<Longrightarrow> (\<not> b \<Longrightarrow> triple K I P k Q) \<Longrightarrow> triple K I P (if b then m else k) Q"
  by simp

text \<open>A loop, by an assertion on the elements done and the accumulator.\<close>

lemma triple_fold:
  "(\<And>seen b x. x \<in> set xs \<Longrightarrow> triple K I (J seen b) (f b x) (J (seen @ [x]))) \<Longrightarrow> triple K I (J seen b) (efold f b xs) (J (seen @ xs))"
proof (induction xs arbitrary: seen b)
  case Nil
  show ?case unfolding efold.simps append_Nil2 by (rule triple_ret)
next
  case (Cons x xs)
  have "triple K I (J (seen @ [x]) b') (efold f b' xs) (J ((seen @ [x]) @ xs))" for b' by (rule Cons.IH) (simp add: Cons.prems)
  then show ?case using Cons.prems by (auto intro!: triple_bind)
qed

section \<open>Stored objects\<close>

definition stored :: "(json \<Rightarrow> 'v option) \<Rightarrow> bpath \<Rightarrow> world \<Rightarrow> string \<Rightarrow> 'v \<Rightarrow> bool" where
  "stored dc p w i v \<longleftrightarrow> (\<exists>d. lookup w p i = Some d \<and> dc d = Some v)"

abbreviation acct_at :: "string \<Rightarrow> world \<Rightarrow> string \<Rightarrow> account \<Rightarrow> bool" where "acct_at T \<equiv> stored account_of (accounts_bucket T)"
abbreviation order_at :: "string \<Rightarrow> world \<Rightarrow> string \<Rightarrow> acme_order \<Rightarrow> bool" where "order_at T \<equiv> stored order_of (orders_bucket T)"
abbreviation authz_at :: "string \<Rightarrow> world \<Rightarrow> string \<Rightarrow> authz \<Rightarrow> bool" where "authz_at T \<equiv> stored authz_of (authzs_bucket T)"
abbreviation chal_at :: "string \<Rightarrow> world \<Rightarrow> string \<Rightarrow> challenge \<Rightarrow> bool" where "chal_at T \<equiv> stored challenge_of (challenges_bucket T)"

lemma acme_buckets_distinct [simp]:
  "accounts_bucket T \<noteq> orders_bucket T" "accounts_bucket T \<noteq> authzs_bucket T" "accounts_bucket T \<noteq> challenges_bucket T"
  "orders_bucket T \<noteq> accounts_bucket T" "orders_bucket T \<noteq> authzs_bucket T" "orders_bucket T \<noteq> challenges_bucket T"
  "authzs_bucket T \<noteq> accounts_bucket T" "authzs_bucket T \<noteq> orders_bucket T" "authzs_bucket T \<noteq> challenges_bucket T"
  "challenges_bucket T \<noteq> accounts_bucket T" "challenges_bucket T \<noteq> orders_bucket T" "challenges_bucket T \<noteq> authzs_bucket T"
  "accounts_bucket T \<noteq> []" "orders_bucket T \<noteq> []" "authzs_bucket T \<noteq> []" "challenges_bucket T \<noteq> []"
  by (simp_all add: acme_bucket_defs)

lemma stored_unique: "stored dc p w i v \<Longrightarrow> stored dc p w i v' \<Longrightarrow> v = v'"
  by (auto simp: stored_def)

lemma stored_set: "stored dc p (set_doc w q j d) i v \<longleftrightarrow> (if p = q \<and> i = j then dc d = Some v else stored dc p w i v)"
  by (auto simp: stored_def lookup_set_doc)

lemma stored_kept: "kept B w w' \<Longrightarrow> p \<in> B \<Longrightarrow> stored dc p w' i v = stored dc p w i v"
  by (simp add: stored_def kept_lookup)

lemma docs_kept: "kept (acme_docs T) w w' \<Longrightarrow> acct_at T w' = acct_at T w" "kept (acme_docs T) w w' \<Longrightarrow> order_at T w' = order_at T w"
  "kept (acme_docs T) w w' \<Longrightarrow> authz_at T w' = authz_at T w" "kept (acme_docs T) w w' \<Longrightarrow> chal_at T w' = chal_at T w"
  by (auto simp: fun_eq_iff acme_docs_def intro!: stored_kept)

definition known :: "'x env_scheme \<Rightarrow> world \<Rightarrow> string \<Rightarrow> bool" where
  "known E w i \<longleftrightarrow> (\<exists>k < tick w. i = hex_encode (map (rnd_at E k) [0..<12]))"

text \<open>No two draws of an identifier before the \<open>K\<close>-th effect give the same bytes.\<close>

definition distinct_ids :: "'x env_scheme \<Rightarrow> nat \<Rightarrow> bool" where
  "distinct_ids E K \<longleftrightarrow> (\<forall>j < K. \<forall>k < K. map (rnd_at E j) [0..<12] = map (rnd_at E k) [0..<12] \<longrightarrow> j = k)"

lemma distinct_ids_mono: "distinct_ids E K \<Longrightarrow> n \<le> K \<Longrightarrow> distinct_ids E n"
  by (auto simp: distinct_ids_def)

text \<open>The check of a challenge succeeds: over HTTP, except for a wildcard, or over DNS.\<close>

definition passes :: "'x nenv_scheme \<Rightarrow> acme_server \<Rightarrow> challenge \<Rightarrow> string \<Rightarrow> account \<Rightarrow> bool" where
  "passes E s ch v a \<longleftrightarrow> ch_type ch \<in> set (challenge_types v) \<and>
     (\<exists>w. fst (run_check E s (ch_type ch) v (ch_token ch) (acc_thumb a) w) = Inr ())"

definition proven :: "'x nenv_scheme \<Rightarrow> acme_server \<Rightarrow> string \<Rightarrow> world \<Rightarrow> string \<Rightarrow> string \<Rightarrow> string \<Rightarrow> bool" where
  "proven E s T w acct aid v \<longleftrightarrow> (\<exists>a cid ch. acct_at T w acct a \<and> chal_at T w cid ch \<and> ch_authz ch = aid \<and> passes E s ch v a)"

definition covers :: "string \<Rightarrow> world \<Rightarrow> string \<Rightarrow> string \<Rightarrow> acme_ident \<Rightarrow> bool" where
  "covers T w acct aid ident \<longleftrightarrow> (\<exists>z. authz_at T w aid z \<and> az_ident z = ident \<and> az_account z = acct)"

section \<open>The invariant\<close>

definition order_ok :: "'x nenv_scheme \<Rightarrow> acme_server \<Rightarrow> string \<Rightarrow> world \<Rightarrow> acme_order \<Rightarrow> bool" where
  "order_ok E s T w od \<longleftrightarrow> list_all2 (covers T w (od_account od)) (od_authzs od) (od_idents od) \<and>
     (od_status od = status_ready \<or> od_status od = status_valid \<longrightarrow>
        list_all2 (\<lambda>aid ident. proven E s T w (od_account od) aid (id_value ident)) (od_authzs od) (od_idents od))"

definition acme_inv :: "'x nenv_scheme \<Rightarrow> acme_server \<Rightarrow> string \<Rightarrow> world \<Rightarrow> bool" where
  "acme_inv E s T w \<longleftrightarrow>
     (\<forall>i a. acct_at T w i a \<longrightarrow> acc_id a = i \<and> known E w i) \<and>
     (\<forall>i z. authz_at T w i z \<longrightarrow> az_id z = i \<and> known E w i \<and>
        (az_status z = status_valid \<longrightarrow> proven E s T w (az_account z) i (id_value (az_ident z)))) \<and>
     (\<forall>i c. chal_at T w i c \<longrightarrow> ch_id c = i \<and> known E w i \<and> known E w (ch_authz c) \<and>
        (\<forall>z. authz_at T w (ch_authz c) z \<longrightarrow> ch_type c \<in> set (challenge_types (id_value (az_ident z))))) \<and>
     (\<forall>i od. order_at T w i od \<longrightarrow> od_id od = i \<and> order_ok E s T w od)"

lemma acme_inv_acct: "acme_inv E s T w \<Longrightarrow> acct_at T w i a \<Longrightarrow> acc_id a = i \<and> known E w i"
  by (simp add: acme_inv_def)

lemma acme_inv_authz: "acme_inv E s T w \<Longrightarrow> authz_at T w i z \<Longrightarrow> az_id z = i \<and> known E w i \<and>
    (az_status z = status_valid \<longrightarrow> proven E s T w (az_account z) i (id_value (az_ident z)))"
  by (simp add: acme_inv_def)

lemma acme_inv_chal: "acme_inv E s T w \<Longrightarrow> chal_at T w i c \<Longrightarrow> ch_id c = i \<and> known E w i \<and> known E w (ch_authz c) \<and>
    (\<forall>z. authz_at T w (ch_authz c) z \<longrightarrow> ch_type c \<in> set (challenge_types (id_value (az_ident z))))"
  by (simp add: acme_inv_def)

lemma acme_inv_order: "acme_inv E s T w \<Longrightarrow> order_at T w i od \<Longrightarrow> od_id od = i \<and> order_ok E s T w od"
  by (simp add: acme_inv_def)

text \<open>Objects are never deleted and keep what a proof rests on.\<close>

definition grows :: "string \<Rightarrow> world \<Rightarrow> world \<Rightarrow> bool" where
  "grows T w w' \<longleftrightarrow> tick w \<le> tick w' \<and>
     (\<forall>i a. acct_at T w i a \<longrightarrow> (\<exists>a'. acct_at T w' i a' \<and> acc_thumb a' = acc_thumb a)) \<and>
     (\<forall>i z. authz_at T w i z \<longrightarrow> (\<exists>z'. authz_at T w' i z' \<and> az_ident z' = az_ident z \<and> az_account z' = az_account z)) \<and>
     (\<forall>i c. chal_at T w i c \<longrightarrow> (\<exists>c'. chal_at T w' i c' \<and> ch_type c' = ch_type c \<and> ch_token c' = ch_token c \<and> ch_authz c' = ch_authz c))"

lemma known_grows: "known E w i \<Longrightarrow> tick w \<le> tick w' \<Longrightarrow> known E w' i"
  unfolding known_def by (elim exE conjE) (intro exI conjI, rule less_le_trans)

lemma proven_grows: "proven E s T w acct aid v \<Longrightarrow> grows T w w' \<Longrightarrow> proven E s T w' acct aid v"
  unfolding proven_def passes_def grows_def by metis

lemma covers_grows: "covers T w acct aid ident \<Longrightarrow> grows T w w' \<Longrightarrow> covers T w' acct aid ident"
  unfolding covers_def grows_def by metis

lemma order_ok_grows:
  assumes "order_ok E s T w od" and g: "grows T w w'"
  shows "order_ok E s T w' od"
proof -
  have "list_all2 (covers T w a) xs ys \<Longrightarrow> list_all2 (covers T w' a) xs ys" for a xs ys
    by (erule list_all2_mono) (rule covers_grows [OF _ g])
  moreover have "list_all2 (\<lambda>aid ident. proven E s T w a aid (id_value ident)) xs ys \<Longrightarrow>
      list_all2 (\<lambda>aid ident. proven E s T w' a aid (id_value ident)) xs ys" for a xs ys
    by (erule list_all2_mono) (rule proven_grows [OF _ g])
  ultimately show ?thesis using assms(1) by (auto simp: order_ok_def)
qed

lemma kept_grows: "kept (acme_docs T) w w' \<Longrightarrow> grows T w w'"
  using docs_kept [of T w w'] kept_tick [of "acme_docs T" w w'] by (auto simp: grows_def)

lemma acme_inv_kept:
  assumes "acme_inv E s T w" and k: "kept (acme_docs T) w w'"
  shows "acme_inv E s T w'"
  using assms(1) proven_grows [OF _ kept_grows [OF k]] order_ok_grows [OF _ kept_grows [OF k]] known_grows [OF _ kept_tick [OF k]]
  unfolding acme_inv_def docs_kept [OF k] by blast

section \<open>Writes\<close>

text \<open>Each write of an object, with what it needs: an account keeps its key, an authorization and a challenge their subject.\<close>

lemma stored_enc:
  "stored account_of p (set_doc w q j (account_json a)) i v \<longleftrightarrow> (if p = q \<and> i = j then v = a else stored account_of p w i v)"
  "stored order_of p (set_doc w q j (order_json od)) i x \<longleftrightarrow> (if p = q \<and> i = j then x = od else stored order_of p w i x)"
  "stored authz_of p (set_doc w q j (authz_json z)) i y \<longleftrightarrow> (if p = q \<and> i = j then y = z else stored authz_of p w i y)"
  "stored challenge_of p (set_doc w q j (challenge_json c)) i u \<longleftrightarrow> (if p = q \<and> i = j then u = c else stored challenge_of p w i u)"
  by (auto simp: stored_set)

lemma stored_other: "p \<noteq> q \<Longrightarrow> stored dc p (set_doc w q j d) i v \<longleftrightarrow> stored dc p w i v"
  by (simp add: stored_set)

lemma known_set [simp]: "known E (set_doc w p k d) i = known E w i"
  by (simp add: known_def)

lemma growsI:
  assumes "tick w \<le> tick w'" and "\<And>i a. acct_at T w i a \<Longrightarrow> \<exists>a'. acct_at T w' i a' \<and> acc_thumb a' = acc_thumb a"
    and "\<And>i z. authz_at T w i z \<Longrightarrow> \<exists>z'. authz_at T w' i z' \<and> az_ident z' = az_ident z \<and> az_account z' = az_account z"
    and "\<And>i c. chal_at T w i c \<Longrightarrow> \<exists>c'. chal_at T w' i c' \<and> ch_type c' = ch_type c \<and> ch_token c' = ch_token c \<and> ch_authz c' = ch_authz c"
  shows "grows T w w'"
  using assms unfolding grows_def by blast

lemma acme_invI:
  assumes "\<And>i a. acct_at T w i a \<Longrightarrow> acc_id a = i \<and> known E w i"
    and "\<And>i z. authz_at T w i z \<Longrightarrow> az_id z = i \<and> known E w i \<and>
        (az_status z = status_valid \<longrightarrow> proven E s T w (az_account z) i (id_value (az_ident z)))"
    and "\<And>i c. chal_at T w i c \<Longrightarrow> ch_id c = i \<and> known E w i \<and> known E w (ch_authz c)"
    and "\<And>i c z. chal_at T w i c \<Longrightarrow> authz_at T w (ch_authz c) z \<Longrightarrow> ch_type c \<in> set (challenge_types (id_value (az_ident z)))"
    and "\<And>i od. order_at T w i od \<Longrightarrow> od_id od = i \<and> order_ok E s T w od"
  shows "acme_inv E s T w"
  using assms unfolding acme_inv_def by blast

text \<open>What the invariant says of an object carries over when the objects grow.\<close>

lemma carried:
  assumes inv: "acme_inv E s T w" and g: "grows T w w'"
  shows "acct_at T w i a \<Longrightarrow> acc_id a = i \<and> known E w' i"
    and "authz_at T w i z \<Longrightarrow> az_id z = i \<and> known E w' i \<and> (az_status z = status_valid \<longrightarrow> proven E s T w' (az_account z) i (id_value (az_ident z)))"
    and "chal_at T w i c \<Longrightarrow> ch_id c = i \<and> known E w' i \<and> known E w' (ch_authz c)"
    and "chal_at T w i c \<Longrightarrow> authz_at T w (ch_authz c) z \<Longrightarrow> ch_type c \<in> set (challenge_types (id_value (az_ident z)))"
    and "order_at T w i od \<Longrightarrow> od_id od = i \<and> order_ok E s T w' od"
proof -
  have t: "tick w \<le> tick w'" using g by (simp add: grows_def)
  show "acct_at T w i a \<Longrightarrow> acc_id a = i \<and> known E w' i" using acme_inv_acct [OF inv] known_grows [OF _ t] by blast
  show "authz_at T w i z \<Longrightarrow> az_id z = i \<and> known E w' i \<and> (az_status z = status_valid \<longrightarrow> proven E s T w' (az_account z) i (id_value (az_ident z)))"
    using acme_inv_authz [OF inv] known_grows [OF _ t] proven_grows [OF _ g] by blast
  show "chal_at T w i c \<Longrightarrow> ch_id c = i \<and> known E w' i \<and> known E w' (ch_authz c)" using acme_inv_chal [OF inv] known_grows [OF _ t] by blast
  show "chal_at T w i c \<Longrightarrow> authz_at T w (ch_authz c) z \<Longrightarrow> ch_type c \<in> set (challenge_types (id_value (az_ident z)))"
    using acme_inv_chal [OF inv] by blast
  show "order_at T w i od \<Longrightarrow> od_id od = i \<and> order_ok E s T w' od" using acme_inv_order [OF inv] order_ok_grows [OF _ g] by blast
qed

lemma write_account:
  assumes inv: "acme_inv E s T w" and key: "acc_id a = i" "known E w i" and same: "\<And>a0. acct_at T w i a0 \<Longrightarrow> acc_thumb a0 = acc_thumb a"
  shows "acme_inv E s T (set_doc w (accounts_bucket T) i (account_json a)) \<and> grows T w (set_doc w (accounts_bucket T) i (account_json a))"
proof -
  let ?w = "set_doc w (accounts_bucket T) i (account_json a)"
  have o: "authz_at T ?w = authz_at T w" "chal_at T ?w = chal_at T w" "order_at T ?w = order_at T w"
    and n: "acct_at T ?w j b \<longleftrightarrow> (if j = i then b = a else acct_at T w j b)" for j b
    by (auto simp: fun_eq_iff stored_other stored_enc)
  have g: "grows T w ?w"
  proof (rule growsI)
    show "\<exists>a'. acct_at T ?w j a' \<and> acc_thumb a' = acc_thumb b" if "acct_at T w j b" for j b
      using that same [of b] by (cases "j = i") (auto simp: n)
  qed (auto simp: o)
  note c = carried [OF inv g]
  have "acme_inv E s T ?w"
  proof (rule acme_invI)
    show "acc_id b = j \<and> known E ?w j" if "acct_at T ?w j b" for j b using that key c(1) [of j b] by (cases "j = i") (auto simp: n)
  qed (unfold o, (erule (1) c(4) | erule c(1) c(2) c(3) c(5))+)
  with g show ?thesis by blast
qed

lemma write_challenge:
  assumes inv: "acme_inv E s T w" and key: "ch_id c = i" "known E w i" "known E w (ch_authz c)"
    and ty: "\<And>z. authz_at T w (ch_authz c) z \<Longrightarrow> ch_type c \<in> set (challenge_types (id_value (az_ident z)))"
    and same: "\<And>c0. chal_at T w i c0 \<Longrightarrow> ch_type c0 = ch_type c \<and> ch_token c0 = ch_token c \<and> ch_authz c0 = ch_authz c"
  shows "acme_inv E s T (set_doc w (challenges_bucket T) i (challenge_json c)) \<and> grows T w (set_doc w (challenges_bucket T) i (challenge_json c))"
proof -
  let ?w = "set_doc w (challenges_bucket T) i (challenge_json c)"
  have o: "authz_at T ?w = authz_at T w" "acct_at T ?w = acct_at T w" "order_at T ?w = order_at T w"
    and n: "chal_at T ?w j b \<longleftrightarrow> (if j = i then b = c else chal_at T w j b)" for j b
    by (auto simp: fun_eq_iff stored_other stored_enc)
  have g: "grows T w ?w"
  proof (rule growsI)
    show "\<exists>c'. chal_at T ?w j c' \<and> ch_type c' = ch_type b \<and> ch_token c' = ch_token b \<and> ch_authz c' = ch_authz b" if "chal_at T w j b" for j b
      using that same [of b] by (cases "j = i") (auto simp: n)
  qed (auto simp: o)
  note c = carried [OF inv g]
  have "acme_inv E s T ?w"
  proof (rule acme_invI)
    show "ch_id b = j \<and> known E ?w j \<and> known E ?w (ch_authz b)" if "chal_at T ?w j b" for j b
      using that key c(3) [of j b] by (cases "j = i") (auto simp: n)
    show "ch_type b \<in> set (challenge_types (id_value (az_ident z)))" if "chal_at T ?w j b" "authz_at T ?w (ch_authz b) z" for j b z
      using that ty [of z] c(4) [of j b z] by (cases "j = i") (auto simp: n o)
  qed (unfold o, (erule (1) c(4) | erule c(1) c(2) c(3) c(5))+)
  with g show ?thesis by blast
qed

lemma write_authz:
  assumes inv: "acme_inv E s T w" and key: "az_id z = i" "known E w i"
    and valid: "az_status z = status_valid \<Longrightarrow> proven E s T w (az_account z) i (id_value (az_ident z))"
    and ty: "\<And>j c. chal_at T w j c \<Longrightarrow> ch_authz c = i \<Longrightarrow> ch_type c \<in> set (challenge_types (id_value (az_ident z)))"
    and same: "\<And>z0. authz_at T w i z0 \<Longrightarrow> az_ident z0 = az_ident z \<and> az_account z0 = az_account z"
  shows "acme_inv E s T (set_doc w (authzs_bucket T) i (authz_json z)) \<and> grows T w (set_doc w (authzs_bucket T) i (authz_json z))"
proof -
  let ?w = "set_doc w (authzs_bucket T) i (authz_json z)"
  have o: "acct_at T ?w = acct_at T w" "chal_at T ?w = chal_at T w" "order_at T ?w = order_at T w"
    and n: "authz_at T ?w j b \<longleftrightarrow> (if j = i then b = z else authz_at T w j b)" for j b
    by (auto simp: fun_eq_iff stored_other stored_enc)
  have g: "grows T w ?w"
  proof (rule growsI)
    show "\<exists>z'. authz_at T ?w j z' \<and> az_ident z' = az_ident b \<and> az_account z' = az_account b" if "authz_at T w j b" for j b
      using that same [of b] by (cases "j = i") (auto simp: n)
  qed (auto simp: o)
  note c = carried [OF inv g]
  have "acme_inv E s T ?w"
  proof (rule acme_invI)
    show "az_id b = j \<and> known E ?w j \<and> (az_status b = status_valid \<longrightarrow> proven E s T ?w (az_account b) j (id_value (az_ident b)))"
      if "authz_at T ?w j b" for j b
      using that key c(2) [of j b] proven_grows [OF valid g] by (cases "j = i") (auto simp: n)
    show "ch_type b \<in> set (challenge_types (id_value (az_ident y)))" if "chal_at T ?w j b" "authz_at T ?w (ch_authz b) y" for j b y
      using that ty [of j b] c(4) [of j b y] by (cases "ch_authz b = i") (auto simp: n o)
  qed (unfold o, (erule (1) c(4) | erule c(1) c(2) c(3) c(5))+)
  with g show ?thesis by blast
qed

lemma write_order:
  assumes inv: "acme_inv E s T w" and key: "od_id od = i" and ok: "order_ok E s T w od"
  shows "acme_inv E s T (set_doc w (orders_bucket T) i (order_json od)) \<and> grows T w (set_doc w (orders_bucket T) i (order_json od))"
proof -
  let ?w = "set_doc w (orders_bucket T) i (order_json od)"
  have o: "acct_at T ?w = acct_at T w" "chal_at T ?w = chal_at T w" "authz_at T ?w = authz_at T w"
    and n: "order_at T ?w j b \<longleftrightarrow> (if j = i then b = od else order_at T w j b)" for j b
    by (auto simp: fun_eq_iff stored_other stored_enc)
  have g: "grows T w ?w" by (rule growsI) (auto simp: o)
  note c = carried [OF inv g]
  have "acme_inv E s T ?w"
  proof (rule acme_invI)
    show "od_id b = j \<and> order_ok E s T ?w b" if "order_at T ?w j b" for j b
      using that key order_ok_grows [OF ok g] c(5) [of j b] by (cases "j = i") (auto simp: n)
  qed (unfold o, (erule (1) c(4) | erule c(1) c(2) c(3) c(5))+)
  with g show ?thesis by blast
qed

section \<open>Calls\<close>

text \<open>What a handler knows in between is about the objects and the clock.\<close>

definition stable :: "string \<Rightarrow> (world \<Rightarrow> bool) \<Rightarrow> bool" where
  "stable T P \<longleftrightarrow> (\<forall>w w'. P w \<longrightarrow> kept (acme_docs T) w w' \<longrightarrow> P w')"

lemma stableD: "stable T P \<Longrightarrow> P w \<Longrightarrow> kept (acme_docs T) w w' \<Longrightarrow> P w'"
  by (simp add: stable_def)

lemma stable_inv: "stable T (acme_inv E s T)"
  using acme_inv_kept unfolding stable_def by blast

lemma stable_conj: "stable T P \<Longrightarrow> stable T Q \<Longrightarrow> stable T (\<lambda>w. P w \<and> Q w)"
  by (auto simp: stable_def)

lemma stable_const: "stable T (\<lambda>w. c)"
  by (simp add: stable_def)

lemma stable_grows: "(\<And>w w'. P w \<Longrightarrow> grows T w w' \<Longrightarrow> P w') \<Longrightarrow> stable T P"
  using kept_grows unfolding stable_def by blast

lemma stable_known: "stable T (\<lambda>w. known E w i)"
  by (rule stable_grows) (auto simp: grows_def intro: known_grows)

lemma stable_at: "stable T (\<lambda>w. acct_at T w i a)" "stable T (\<lambda>w. order_at T w i od)" "stable T (\<lambda>w. authz_at T w i z)" "stable T (\<lambda>w. chal_at T w i c)"
  by (simp_all add: stable_def docs_kept)

lemma stable_fact: "(\<And>w w'. kept (acme_docs T) w w' \<Longrightarrow> P w' = P w) \<Longrightarrow> stable T P"
  by (simp add: stable_def)

lemma stable_order: "stable T (\<lambda>w. order_ok E s T w od)" "stable T (\<lambda>w. list_all2 (covers T w x) azs ids)" "stable T (\<lambda>w. proven E s T w x aid v)"
proof -
  show "stable T (\<lambda>w. order_ok E s T w od)" "stable T (\<lambda>w. proven E s T w x aid v)"
    by (rule stable_grows, erule (1) order_ok_grows proven_grows)+
  show "stable T (\<lambda>w. list_all2 (covers T w x) azs ids)"
    by (rule stable_grows) (auto elim!: list_all2_mono intro: covers_grows)
qed

lemmas stable_rules = stable_inv stable_conj stable_const stable_known stable_at stable_order

lemma triple_kept:
  assumes "steps (kept (acme_docs T)) m" and "stable T P" and "\<And>w. P w \<Longrightarrow> I w"
  shows "triple K I P m (\<lambda>_. P)"
  by (rule tripleI [OF steps_mono [OF assms(1) kept_tick]]) (use assms stepsD [OF assms(1)] stableD in blast)+

lemma triple_get:
  assumes "stable T P" and "\<And>w. P w \<Longrightarrow> I w"
  shows "triple K I P (get_json E dc p i) (\<lambda>x w. P w \<and> stored dc p w i x)"
proof (rule tripleI)
  have k: "steps (kept (acme_docs T)) (get_json E dc p i)" by (rule kept.steps_get_json)
  show "ticking (get_json E dc p i)" using k kept_tick by (rule steps_mono)
  show "I w'" if "P w" "get_json E dc p i w = (Inl e, w')" for w e w'
    using stepsD [OF k that(2)] that(1) assms stableD by blast
  show "P w' \<and> stored dc p w' i x" if "P w" "get_json E dc p i w = (Inr x, w')" for w x w'
    using stepsD [OF k that(2)] that assms stableD [OF assms(1)] by (auto simp: get_json_Inr stored_def)
qed

lemma triple_put:
  assumes P: "stable T P" "\<And>w. P w \<Longrightarrow> I w" and w: "\<And>w. P w \<Longrightarrow> I (set_doc w p k (enc v)) \<and> Q (set_doc w p k (enc v))"
  shows "triple K I P (put_json E enc p k v) (\<lambda>_. Q)"
proof -
  have a: "P (advance w)" if "P w" for w using that stableD [OF P(1)] kept.advance_ok by blast
  have "I (advance w) \<and> I (set_doc (advance w) p k (enc v)) \<and> Q (set_doc (advance w) p k (enc v))" if "P w" for w
    using a [OF that] P(2) w by blast
  then show ?thesis
    by (intro tripleI ticks.store_rules) (auto simp: put_json_def put_def effect_def Let_def split: fault.splits if_splits)
qed

text \<open>A drawn identifier names no object yet.\<close>

definition unused :: "string \<Rightarrow> world \<Rightarrow> string \<Rightarrow> bool" where
  "unused T w i \<longleftrightarrow> (\<forall>a. \<not> acct_at T w i a) \<and> (\<forall>z. \<not> authz_at T w i z) \<and> (\<forall>c. \<not> chal_at T w i c) \<and>
     (\<forall>j c. chal_at T w j c \<longrightarrow> ch_authz c \<noteq> i)"

lemma stable_unused: "stable T (\<lambda>w. unused T w i)"
  by (rule stable_fact) (simp add: unused_def docs_kept)

lemma triple_rand_id:
  assumes ids: "distinct_ids E K" and P: "stable T P" "\<And>w. P w \<Longrightarrow> acme_inv E s T w"
  shows "triple K (acme_inv E s T) P (rand_id E) (\<lambda>i w. P w \<and> known E w i \<and> unused T w i)"
proof (rule tripleI)
  have k: "steps (kept (acme_docs T)) (rand_id E)" by (rule kept.steps_reads)
  show "ticking (rand_id E)" using k kept_tick by (rule steps_mono)
  show "acme_inv E s T w'" if "P w" "rand_id E w = (Inl e, w')" for w e w'
    using stepsD [OF k that(2)] that(1) P stableD by blast
  show "P w' \<and> known E w' i \<and> unused T w' i" if "P w" "rand_id E w = (Inr i, w')" "tick w' \<le> K" for w i w'
  proof -
    have kw: "kept (acme_docs T) w w'" using stepsD [OF k that(2)] .
    have i: "i = hex_encode (map (rnd_at E (tick w)) [0..<12])" and w': "w' = advance w"
      using that(2) by (auto simp: rand_id_def act_elims rand_read_def dest!: effect_InrD)
    then have "known E w' i" unfolding known_def by (intro exI [of _ "tick w"]) simp
    moreover have "\<not> known E w i"
    proof
      assume "known E w i"
      then obtain k where "k < tick w" "hex_encode (map (rnd_at E k) [0..<12]) = i" by (auto simp: known_def)
      moreover from this have "map (rnd_at E k) [0..<12] = map (rnd_at E (tick w)) [0..<12]"
        using arg_cong [of _ _ hex_decode] unfolding i by (metis hex_decode_encode option.inject)
      moreover have "tick w < K" using that(3) by (simp add: w')
      ultimately show False using ids unfolding distinct_ids_def by (metis less_irrefl less_trans)
    qed
    with P(2) [OF that(1)] have "unused T w i" unfolding unused_def acme_inv_def by blast
    then have "unused T w' i" by (simp add: unused_def docs_kept [OF kw])
    ultimately show ?thesis using P(1) that(1) kw stableD by blast
  qed
qed

lemma triple_lift_to:
  assumes "\<And>w. P w \<Longrightarrow> I w"
  shows "triple K I P (lift_sum r) (\<lambda>x w. P w)"
  by (rule tripleI [OF ticks.steps_lift]) (use assms in auto)

section \<open>Accounts\<close>

lemma challenge_docs_tenant: "steps (kept (acme_docs T)) (acme_audit E s rq t action i ob detail)"
  by (simp add: kept_audit)

lemma keeps_readers:
  assumes "steps (kept (acme_docs T)) m"
  shows "triple K (acme_inv E s T) (acme_inv E s T) m (\<lambda>_. acme_inv E s T)"
  by (rule triple_kept [OF assms stable_inv])

lemma keeps_weak: "triple K I P m (\<lambda>_ w. Q w) \<Longrightarrow> (\<And>w. Q w \<Longrightarrow> Q' w) \<Longrightarrow> triple K I P m (\<lambda>_. Q')"
  by (erule triple_weaken) auto

lemma keeps_new_account:
  assumes ids: "distinct_ids E K" and T: "jr_tenant r = T"
  shows "triple K (acme_inv E s T) (acme_inv E s T) (handle_new_account E s rq r) (\<lambda>_. acme_inv E s T)"
proof -
  let ?I = "acme_inv E s T"
  have put: "triple K ?I (\<lambda>w. (?I w \<and> known E w i \<and> unused T w i)) (put_json E account_json (accounts_bucket T) i a) (\<lambda>_. ?I)" if "acc_id a = i" for i a
  proof (rule triple_put [where T = T])
    show "stable T (\<lambda>w. ?I w \<and> known E w i \<and> unused T w i)" by (intro stable_rules stable_unused)
    show "?I (set_doc w (accounts_bucket T) i (account_json a)) \<and> ?I (set_doc w (accounts_bucket T) i (account_json a))"
      if "?I w \<and> known E w i \<and> unused T w i" for w
      using write_account [of E s T w a i] that \<open>acc_id a = i\<close> by (auto simp: unused_def)
  qed blast
  have st: "stable T (\<lambda>w. ?I w \<and> known E w i \<and> unused T w i)" for i by (intro stable_rules stable_unused)
  show ?thesis
    unfolding handle_new_account_def T Let_def
    by (rule triple_if triple_fail triple_option triple_bind [OF keeps_readers] kept.steps_reads
        triple_bind [OF triple_rand_id [OF ids stable_inv]] triple_bind [OF triple_kept [OF kept.steps_clock st]]
        triple_bind [OF triple_wrap [OF put]] keeps_readers kept_audit acme_docs_only | assumption | simp)+
qed

text \<open>The account of a verified request is the stored one.\<close>

definition signed_in :: "'x nenv_scheme \<Rightarrow> acme_server \<Rightarrow> jws_request \<Rightarrow> world \<Rightarrow> bool" where
  "signed_in E s r w \<longleftrightarrow> acme_inv E s (jr_tenant r) w \<and> (\<forall>a. jr_account r = Some a \<longrightarrow> acct_at (jr_tenant r) w (acc_id a) a)"

lemma stable_signed_in: "stable (jr_tenant r) (signed_in E s r)"
  unfolding stable_def signed_in_def by (auto simp: docs_kept intro: acme_inv_kept)

lemma signed_in_inv: "signed_in E s r w \<Longrightarrow> acme_inv E s (jr_tenant r) w"
  by (simp add: signed_in_def)

lemma triple_owned: "(\<And>w. P w \<Longrightarrow> I w) \<Longrightarrow> triple K I P (owned_by r x t) (\<lambda>a w. P w \<and> jr_account r = Some a \<and> x = acc_id a)"
  unfolding owned_by_def by (intro triple_option triple_if triple_fail triple_ret) auto

lemma keeps_account: "triple K (acme_inv E s (jr_tenant r)) (signed_in E s r) (handle_account E s r i) (\<lambda>_. acme_inv E s (jr_tenant r))"
proof -
  let ?T = "jr_tenant r" and ?I = "acme_inv E s (jr_tenant r)"
  have put: "triple K ?I (\<lambda>w. ?I w \<and> acct_at ?T w (acc_id a) a)
      (put_json E account_json (accounts_bucket ?T) (acc_id (a\<lparr>acc_contact := c\<rparr>)) (a\<lparr>acc_contact := c\<rparr>)) (\<lambda>_. ?I)" for a c
  proof (rule triple_put [where T = ?T])
    show "stable ?T (\<lambda>w. ?I w \<and> acct_at ?T w (acc_id a) a)" by (intro stable_rules)
    let ?a = "a\<lparr>acc_contact := c\<rparr>"
    show "?I (set_doc w (accounts_bucket ?T) (acc_id ?a) (account_json ?a)) \<and> ?I (set_doc w (accounts_bucket ?T) (acc_id ?a) (account_json ?a))"
      if "?I w \<and> acct_at ?T w (acc_id a) a" for w
      using write_account [of E s ?T w ?a "acc_id ?a"] that acme_inv_acct [of E s ?T w "acc_id a" a] by (auto dest: stored_unique)
  qed blast
  have own: "triple K ?I (signed_in E s r) (owned_by r i t) (\<lambda>a w. ?I w \<and> acct_at ?T w (acc_id a) a)" for t
    by (rule triple_weaken [OF triple_owned [of "signed_in E s r"]]) (auto simp: signed_in_def)
  have fin: "triple K ?I (\<lambda>w. ?I w \<and> acct_at ?T w (acc_id a) a) (ret x) (\<lambda>_. ?I)" for a and x :: account by (rule triple_ret) simp
  have bad: "triple K ?I (\<lambda>w. ?I w \<and> acct_at ?T w (acc_id a) a) (fail e) (\<lambda>_. ?I)" for a and e :: err by (rule triple_fail) simp
  have upd: "triple K ?I (\<lambda>w. ?I w \<and> acct_at ?T w (acc_id a) a) (update_contact E r a) (\<lambda>_. ?I)" for a
    unfolding update_contact_def Let_def
    by (rule triple_if triple_option triple_prod fin bad triple_bind [OF triple_wrap [OF put]] triple_ret | assumption)+
  show ?thesis
    unfolding handle_account_def by (rule triple_bind [OF own] triple_bind [OF upd] keeps_readers kept.steps_reads)+
qed

section \<open>Orders\<close>

text \<open>A new authorization before it is stored: its identifier, and the challenges stored for it.\<close>

definition slot :: "'x nenv_scheme \<Rightarrow> string \<Rightarrow> world \<Rightarrow> string \<Rightarrow> acme_ident \<Rightarrow> bool" where
  "slot E T w aid ident \<longleftrightarrow> known E w aid \<and> (\<forall>z. \<not> authz_at T w aid z) \<and>
     (\<forall>j c. chal_at T w j c \<longrightarrow> ch_authz c = aid \<longrightarrow> ch_type c \<in> set (challenge_types (id_value ident)))"

lemma stable_slot: "stable T (\<lambda>w. slot E T w aid ident)"
  unfolding stable_def slot_def by (auto simp: docs_kept intro: known_grows kept_tick)

lemma unused_slot: "unused T w i \<Longrightarrow> known E w i \<Longrightarrow> slot E T w i ident"
  by (auto simp: unused_def slot_def)

lemma covers_all_grows: "list_all2 (covers T w x) azs ids \<Longrightarrow> grows T w w' \<Longrightarrow> list_all2 (covers T w' x) azs ids"
  by (erule list_all2_mono) (rule covers_grows)

definition drafting :: "'x nenv_scheme \<Rightarrow> acme_server \<Rightarrow> string \<Rightarrow> string \<Rightarrow> string list \<Rightarrow> acme_ident list \<Rightarrow> world \<Rightarrow> bool" where
  "drafting E s T x azs seen w \<longleftrightarrow> acme_inv E s T w \<and> list_all2 (covers T w x) azs seen"

lemma stable_drafting: "stable T (drafting E s T x azs seen)"
  unfolding drafting_def by (intro stable_rules)

lemma keeps_new_challenge:
  assumes ids: "distinct_ids E K" and ty: "ty \<in> set (challenge_types (id_value ident))"
  shows "triple K (acme_inv E s T) (\<lambda>w. drafting E s T x azs seen w \<and> slot E T w aid ident) (new_challenge E T aid chs ty)
    (\<lambda>_ w. drafting E s T x azs seen w \<and> slot E T w aid ident)"
proof -
  let ?I = "acme_inv E s T"
  define J where "J w \<longleftrightarrow> drafting E s T x azs seen w \<and> slot E T w aid ident" for w
  have stJ: "stable T J" unfolding J_def by (intro stable_rules stable_slot stable_drafting)
  have JI: "\<And>w. J w \<Longrightarrow> ?I w" by (simp add: J_def drafting_def)
  have st: "stable T (\<lambda>w. J w \<and> known E w i \<and> unused T w i)" for i by (intro stable_rules stJ stable_unused)
  have put: "triple K ?I (\<lambda>w. J w \<and> known E w i \<and> unused T w i) (put_json E challenge_json (challenges_bucket T) i c) (\<lambda>_. J)"
    if c: "ch_id c = i" "ch_authz c = aid" "ch_type c = ty" for i c
  proof (rule triple_put [OF st])
    fix w assume w: "J w \<and> known E w i \<and> unused T w i"
    let ?w = "set_doc w (challenges_bucket T) i (challenge_json c)"
    have wr: "?I ?w \<and> grows T w ?w"
      using w c by (intro write_challenge) (auto simp: J_def drafting_def slot_def unused_def)
    have "slot E T ?w aid ident" using w c ty by (auto simp: J_def slot_def stored_enc stored_other)
    moreover have "list_all2 (covers T ?w x) azs seen" using w wr covers_all_grows by (auto simp: J_def drafting_def)
    ultimately show "?I ?w \<and> J ?w" using wr by (simp add: J_def drafting_def)
  qed (auto simp: J_def drafting_def)
  show ?thesis
    unfolding new_challenge_def J_def [symmetric]
    by (rule triple_bind [OF triple_rand_id [OF ids stJ JI]] triple_bind [OF triple_kept [OF kept.steps_reads(2) st]]
        triple_bind [OF triple_wrap [OF put]] triple_ret | assumption | simp; fail | simp add: J_def drafting_def; fail)+
qed

lemma keeps_new_authz:
  assumes ids: "distinct_ids E K"
  shows "triple K (acme_inv E s T) (drafting E s T x azs seen) (new_authz E T oid x expires azs ident)
    (\<lambda>azs'. drafting E s T x azs' (seen @ [ident]))"
proof -
  let ?I = "acme_inv E s T"
  let ?J = "drafting E s T x azs seen"
  have JI: "\<And>w. ?J w \<Longrightarrow> ?I w" by (simp add: drafting_def)
  have st: "stable T (\<lambda>w. ?J w \<and> slot E T w aid ident)" for aid by (intro stable_rules stable_slot stable_drafting)
  have loop: "triple K ?I (\<lambda>w. ?J w \<and> known E w aid \<and> unused T w aid) (efold (new_challenge E T aid) [] (challenge_types (id_value ident)))
      (\<lambda>_ w. ?J w \<and> slot E T w aid ident)" for aid
    by (rule triple_weaken [OF triple_fold [where J = "\<lambda>_ _ w. ?J w \<and> slot E T w aid ident" and seen = "[]"]])
      (use keeps_new_challenge [OF ids] unused_slot in auto)
  have put: "triple K ?I (\<lambda>w. ?J w \<and> slot E T w aid ident) (put_json E authz_json (authzs_bucket T) aid z)
      (\<lambda>_. drafting E s T x (azs @ [aid]) (seen @ [ident]))"
    if z: "az_id z = aid" "az_account z = x" "az_ident z = ident" "az_status z = status_pending" for aid z
  proof (rule triple_put [OF st])
    fix w assume w: "?J w \<and> slot E T w aid ident"
    let ?w = "set_doc w (authzs_bucket T) aid (authz_json z)"
    have wr: "?I ?w \<and> grows T w ?w"
      using w z by (intro write_authz) (auto simp: drafting_def slot_def)
    have "covers T ?w x aid ident" using z by (simp add: covers_def stored_enc)
    moreover have "list_all2 (covers T ?w x) azs seen" using w wr covers_all_grows by (auto simp: drafting_def)
    ultimately show "?I ?w \<and> drafting E s T x (azs @ [aid]) (seen @ [ident]) ?w"
      using wr by (simp add: drafting_def list_all2_appendI)
  qed (auto simp: drafting_def)
  show ?thesis
    unfolding new_authz_def
    by (rule triple_bind [OF triple_rand_id [OF ids stable_drafting JI]] triple_bind [OF loop]
        triple_bind [OF triple_wrap [OF put]] triple_ret | assumption | simp; fail)+
qed

lemma keeps_new_order:
  assumes ids: "distinct_ids E K"
  shows "triple K (acme_inv E s (jr_tenant r)) (acme_inv E s (jr_tenant r)) (handle_new_order E s rq r a) (\<lambda>_. acme_inv E s (jr_tenant r))"
proof -
  let ?T = "jr_tenant r" and ?I = "acme_inv E s (jr_tenant r)"
  have loop: "triple K ?I ?I (efold (new_authz E ?T oid (acc_id a) t) [] idents)
      (\<lambda>azs. drafting E s ?T (acc_id a) azs idents)" for oid t idents
    by (rule triple_weaken [OF triple_fold [where J = "\<lambda>seen azs. drafting E s ?T (acc_id a) azs seen" and seen = "[]"]])
      (use keeps_new_authz [OF ids] in \<open>auto simp: drafting_def\<close>)
  have put: "triple K ?I (drafting E s ?T (acc_id a) azs idents) (put_json E order_json (orders_bucket ?T) oid od) (\<lambda>_. ?I)"
    if "od_id od = oid" "od_account od = acc_id a" "od_status od = status_pending" "od_idents od = idents" "od_authzs od = azs" for oid od azs idents
  proof (rule triple_put [OF stable_drafting])
    fix w assume w: "drafting E s ?T (acc_id a) azs idents w"
    then have "order_ok E s ?T w od" by (simp add: order_ok_def drafting_def that)
    with w that(1) show "?I (set_doc w (orders_bucket ?T) oid (order_json od)) \<and> ?I (set_doc w (orders_bucket ?T) oid (order_json od))"
      using write_order [of E s ?T w od oid] by (simp add: drafting_def)
  qed (simp add: drafting_def)
  have rand: "triple K ?I ?I (rand_id E) (\<lambda>_. ?I)" by (rule keeps_readers) (rule kept.steps_reads)
  show ?thesis
    unfolding handle_new_order_def order_reply_def Let_def
    by (rule triple_option triple_if triple_fail triple_bind [OF rand] triple_bind [OF loop] triple_bind [OF triple_wrap [OF put]]
        triple_bind [OF keeps_readers] keeps_readers kept.steps_reads kept_audit acme_docs_only kept.steps_lift kept.steps_clock | assumption | simp; fail)+
qed

section \<open>Challenges\<close>

text \<open>After the check: the challenge and the authorization as they will be stored.\<close>

lemma checked_Inr:
  assumes "checked E s az ch acct w = (Inr (ch', az'), w')"
  shows "ch_id ch' = ch_id ch \<and> ch_authz ch' = ch_authz ch \<and> ch_type ch' = ch_type ch \<and> ch_token ch' = ch_token ch \<and>
    az_id az' = az_id az \<and> az_ident az' = az_ident az \<and> az_account az' = az_account az \<and> az_order az' = az_order az \<and>
    (az_status az' = status_valid \<longrightarrow> (\<exists>u. fst (run_check E s (ch_type ch) (id_value (az_ident az)) (ch_token ch) (acc_thumb acct) u) = Inr ()))"
proof -
  obtain r v where run: "run_check E s (ch_type ch) (id_value (az_ident az)) (ch_token ch) (acc_thumb acct) w = (r, v)"
    by (cases "run_check E s (ch_type ch) (id_value (az_ident az)) (ch_token ch) (acc_thumb acct) w")
  then have "r = Inr () \<Longrightarrow> \<exists>u. fst (run_check E s (ch_type ch) (id_value (az_ident az)) (ch_token ch) (acc_thumb acct) u) = Inr ()"
    by (intro exI [of _ w]) simp
  with run assms show ?thesis by (auto simp: checked_def ecase_apply ebind_apply split: sum.splits prod.splits)
qed

lemma survey_all_valid:
  "survey E T ok is w = (Inr (Inr True), w') \<Longrightarrow> ok \<and> (\<forall>aid \<in> set is. \<exists>z. authz_at T w aid z \<and> az_status z = status_valid)"
proof (induction "is" arbitrary: ok w)
  case (Cons i "is")
  then obtain z where z: "stored authz_of (authzs_bucket T) w i z"
    and rest: "az_status z \<noteq> status_invalid" "survey E T (ok \<and> az_status z = status_valid) is (advance w) = (Inr (Inr True), w')"
    by (auto simp: ebind_Inr_iff wrap_err_Inr_iff get_json_Inr stored_def split: if_splits)
  from Cons.IH [OF rest(2)] z show ?case by (auto simp: stored_def)
qed simp

text \<open>An order whose authorizations are all valid is proved.\<close>

lemma order_ok_ready:
  assumes inv: "acme_inv E s T w" and ok: "order_ok E s T w od"
    and valid: "\<forall>aid \<in> set (od_authzs od). \<exists>z. authz_at T w aid z \<and> az_status z = status_valid"
  shows "order_ok E s T w (od\<lparr>od_status := status_ready\<rparr>)"
proof -
  have c: "list_all2 (covers T w (od_account od)) (od_authzs od) (od_idents od)" using ok by (simp add: order_ok_def)
  have "proven E s T w (od_account od) aid (id_value ident)" if "covers T w (od_account od) aid ident" "aid \<in> set (od_authzs od)" for aid ident
  proof -
    note c2 = that
    obtain z where z: "authz_at T w aid z" "az_status z = status_valid" using valid c2(2) by blast
    obtain y where y: "authz_at T w aid y" "az_ident y = ident" "az_account y = od_account od" using c2(1) by (auto simp: covers_def)
    have "y = z" using y(1) z(1) by (rule stored_unique)
    then show ?thesis using acme_inv_authz [OF inv z(1)] z(2) y by simp
  qed
  then have "list_all2 (\<lambda>aid ident. proven E s T w (od_account od) aid (id_value ident)) (od_authzs od) (od_idents od)"
    using c by (auto simp: list_all2_conv_all_nth)
  with c show ?thesis by (simp add: order_ok_def)
qed

lemma order_ok_unready: "order_ok E s T w od \<Longrightarrow> od_status od' = status_invalid \<Longrightarrow> od_account od' = od_account od \<Longrightarrow>
    od_authzs od' = od_authzs od \<Longrightarrow> od_idents od' = od_idents od \<Longrightarrow> order_ok E s T w od'"
  by (simp add: order_ok_def)

lemma keeps_update_order: "triple K (acme_inv E s T) (acme_inv E s T) (update_order_status E T oid) (\<lambda>_. acme_inv E s T)"
proof -
  let ?I = "acme_inv E s T"
  let ?P = "\<lambda>od w. ?I w \<and> order_at T w oid od"
  let ?V = "\<lambda>od w. \<forall>aid \<in> set (od_authzs od). \<exists>z. authz_at T w aid z \<and> az_status z = status_valid"
  have st: "stable T (?P od)" for od by (intro stable_rules)
  have stv: "stable T (\<lambda>w. ?P od w \<and> (all_valid \<longrightarrow> ?V od w))" for od all_valid by (auto simp: stable_def docs_kept intro: acme_inv_kept)
  have sur: "triple K ?I (?P od) (survey E T True (od_authzs od)) (\<lambda>r w. ?P od w \<and> (r = Inr True \<longrightarrow> ?V od w))" for od
  proof (rule tripleI)
    have k: "steps (kept (acme_docs T)) (survey E T True (od_authzs od))" by (rule kept.steps_reads)
    show "ticking (survey E T True (od_authzs od))" using k kept_tick by (rule steps_mono)
    show "?I w'" if "?P od w" "survey E T True (od_authzs od) w = (Inl e, w')" for w e w'
      using stepsD [OF k that(2)] that(1) acme_inv_kept by blast
    show "?P od w' \<and> (r = Inr True \<longrightarrow> ?V od w')" if "?P od w" "survey E T True (od_authzs od) w = (Inr r, w')" for w r w'
    proof -
      note kw = stepsD [OF k that(2)]
      have "?V od w'" if "r = Inr True"
        using survey_all_valid [of E T True "od_authzs od" w w'] \<open>survey E T True (od_authzs od) w = (Inr r, w')\<close> that by (simp add: docs_kept [OF kw])
      with stableD [OF st that(1) kw] show ?thesis by blast
    qed
  qed
  have put: "triple K ?I (\<lambda>w. ?P od w \<and> Z w) (put_json E order_json (orders_bucket T) oid od') (\<lambda>_. ?I)"
    if "stable T (\<lambda>w. ?P od w \<and> Z w)" "od_id od' = od_id od" "\<And>w. ?P od w \<and> Z w \<Longrightarrow> order_ok E s T w od'" for od od' Z
  proof (rule triple_put [OF that(1)])
    fix w assume w: "?P od w \<and> Z w"
    then have "od_id od' = oid" using acme_inv_order that(2) by fastforce
    with write_order [of E s T w od' oid] w that(3)
    show "?I (set_doc w (orders_bucket T) oid (order_json od')) \<and> ?I (set_doc w (orders_bucket T) oid (order_json od'))" by blast
  qed blast
  have bad: "triple K ?I (\<lambda>w. ?P od w \<and> (Inl az = (Inr True :: authz + bool) \<longrightarrow> ?V od w)) (put_json E order_json (orders_bucket T) oid
      (od\<lparr>od_status := status_invalid, od_error := p\<rparr>)) (\<lambda>_. ?I)" for od az p
    by (rule put) (use st in \<open>auto intro: order_ok_unready dest: acme_inv_order\<close>)
  have good: "triple K ?I (\<lambda>w. ?P od w \<and> (Inr True = (Inr True :: authz + bool) \<longrightarrow> ?V od w)) (put_json E order_json (orders_bucket T) oid
      (od\<lparr>od_status := status_ready\<rparr>)) (\<lambda>_. ?I)" for od
    by (rule put) (use stv [of od True] in \<open>auto intro: order_ok_ready dest: acme_inv_order\<close>)
  have cs: "triple K ?I (\<lambda>w. ?P od w \<and> (r = Inr True \<longrightarrow> ?V od w)) (case r of
       Inl az \<Rightarrow> put_json E order_json (orders_bucket T) oid (od\<lparr>od_status := status_invalid, od_error :=
         Some \<lparr>pb_type = err_urn @ ''unauthorized'', pb_detail = ''authorization for '' @ id_value (az_ident az) @ '' failed'', pb_status = 403\<rparr>\<rparr>)
     | Inr all_valid \<Rightarrow> if \<not> all_valid then ret ()
         else put_json E order_json (orders_bucket T) oid (od\<lparr>od_status := status_ready\<rparr>)) (\<lambda>_. ?I)" for od r
  proof (cases r)
    case (Inl az)
    then show ?thesis using bad by simp
  next
    case (Inr b)
    then show ?thesis using good by (cases b) (auto intro: triple_ret simp del: ret_apply)
  qed
  show ?thesis
    unfolding update_order_status_def
    by (rule triple_bind [OF triple_wrap [OF triple_get [OF stable_inv]]] triple_if triple_bind [OF sur] cs triple_ret | assumption | simp; fail)+
qed

text \<open>A challenge of an account, with its authorization.\<close>

definition answering :: "'x nenv_scheme \<Rightarrow> acme_server \<Rightarrow> string \<Rightarrow> challenge \<Rightarrow> authz \<Rightarrow> account \<Rightarrow> world \<Rightarrow> bool" where
  "answering E s T ch az acct w \<longleftrightarrow> acme_inv E s T w \<and> chal_at T w (ch_id ch) ch \<and> authz_at T w (ch_authz ch) az \<and>
     acct_at T w (acc_id acct) acct \<and> az_account az = acc_id acct"

lemma stable_answering: "stable T (answering E s T ch az acct)"
  unfolding answering_def by (intro stable_rules)

lemma keeps_validate:
  "triple K (acme_inv E s T) (answering E s T ch az acct) (validate_challenge E s T az ch acct) (\<lambda>_. acme_inv E s T)"
proof -
  let ?I = "acme_inv E s T"
  define good where "good ch' az' \<longleftrightarrow> ch_id ch' = ch_id ch \<and> ch_authz ch' = ch_authz ch \<and> ch_type ch' = ch_type ch \<and> ch_token ch' = ch_token ch \<and>
    az_id az' = az_id az \<and> az_ident az' = az_ident az \<and> az_account az' = az_account az \<and> az_order az' = az_order az \<and>
    (az_status az' = status_valid \<longrightarrow> (\<exists>u. fst (run_check E s (ch_type ch) (id_value (az_ident az)) (ch_token ch) (acc_thumb acct) u) = Inr ()))"
    for ch' :: challenge and az' :: authz
  let ?Q = "\<lambda>ch' az' w. answering E s T ch az acct w \<and> good ch' az'"
  let ?R = "\<lambda>ch' az' w. answering E s T ch' az acct w \<and> good ch' az'"
  have chk: "triple K ?I (answering E s T ch az acct) (checked E s az ch acct) (\<lambda>(ch', az'). ?Q ch' az')"
  proof (rule tripleI)
    have k: "steps (kept (acme_docs T)) (checked E s az ch acct)" by (rule kept.steps_reads)
    show "ticking (checked E s az ch acct)" using k kept_tick by (rule steps_mono)
    show "?I w'" if "answering E s T ch az acct w" "checked E s az ch acct w = (Inl e, w')" for w e w'
      using stableD [OF stable_answering that(1) stepsD [OF k that(2)]] by (simp add: answering_def)
    show "(case x of (ch', az') \<Rightarrow> ?Q ch' az') w'" if "answering E s T ch az acct w" "checked E s az ch acct w = (Inr x, w')" for w x w'
    proof -
      obtain ch' az' where x: "x = (ch', az')" by (cases x)
      have "answering E s T ch az acct w'" using stableD [OF stable_answering that(1) stepsD [OF k that(2)]] .
      moreover have "good ch' az'" using checked_Inr [OF that(2) [unfolded x]] by (simp add: good_def)
      ultimately show ?thesis by (simp add: x)
    qed
  qed
  have put1: "triple K ?I (?Q ch' az') (put_json E challenge_json (challenges_bucket T) (ch_id ch') ch') (\<lambda>_. ?R ch' az')" for ch' az'
  proof (rule triple_put [where T = T])
    show "stable T (?Q ch' az')" by (intro stable_rules stable_answering)
    fix w assume w: "?Q ch' az' w"
    let ?w = "set_doc w (challenges_bucket T) (ch_id ch') (challenge_json ch')"
    have c: "chal_at T w (ch_id ch) ch" and inv: "?I w" using w by (auto simp: answering_def)
    note ci = acme_inv_chal [OF inv c]
    have wr: "?I ?w \<and> grows T w ?w"
      by (rule write_challenge) (use w ci c in \<open>auto simp: good_def answering_def dest: stored_unique\<close>)
    moreover have "answering E s T ch' az acct ?w"
      using wr w by (auto simp: answering_def good_def stored_enc stored_other)
    ultimately show "?I ?w \<and> ?R ch' az' ?w" using w by simp
  qed (simp add: answering_def)
  have put2: "triple K ?I (?R ch' az') (put_json E authz_json (authzs_bucket T) (az_id az') az') (\<lambda>_. ?I)" for ch' az'
  proof (rule triple_put [where T = T])
    show "stable T (?R ch' az')" by (intro stable_rules stable_answering)
    fix w assume w: "?R ch' az' w"
    have inv: "?I w" and z: "authz_at T w (ch_authz ch') az" and c: "chal_at T w (ch_id ch') ch'" and a: "acct_at T w (acc_id acct) acct"
      and g: "good ch' az'" and own: "az_account az = acc_id acct" using w by (auto simp: answering_def)
    note zi = acme_inv_authz [OF inv z] and ci = acme_inv_chal [OF inv c]
    have "proven E s T w (az_account az') (az_id az') (id_value (az_ident az'))" if "az_status az' = status_valid"
      unfolding proven_def
      by (intro exI [of _ acct] exI [of _ "ch_id ch'"] exI [of _ ch']) (use g that a c z zi ci own in \<open>auto simp: passes_def good_def\<close>)
    moreover have "ch_type d \<in> set (challenge_types (id_value (az_ident az')))" if "chal_at T w j d" "ch_authz d = az_id az'" for j d
      using acme_inv_chal [OF inv that(1)] that(2) z zi g by (auto simp: good_def)
    moreover have "known E w (az_id az')" using zi g by (simp add: good_def)
    moreover have "az_ident z0 = az_ident az' \<and> az_account z0 = az_account az'" if "authz_at T w (az_id az') z0" for z0
      using that z zi g by (auto simp: good_def dest: stored_unique)
    ultimately show "?I (set_doc w (authzs_bucket T) (az_id az') (authz_json az')) \<and> ?I (set_doc w (authzs_bucket T) (az_id az') (authz_json az'))"
      using write_authz [of E s T w az' "az_id az'"] inv by simp
  qed (simp add: answering_def)
  have chk': "triple K ?I (answering E s T ch az acct) (checked E s az ch acct) (\<lambda>x. ?Q (fst x) (snd x))"
    by (rule triple_weaken [OF chk]) (auto split: prod.splits)
  have body: "triple K ?I (?Q (fst x) (snd x)) (case x of (ch', az') \<Rightarrow>
     ebind (wrap_err (wrapf ''acme: storing challenge: '') (put_json E challenge_json (challenges_bucket T) (ch_id ch') ch')) (\<lambda>_.
     ebind (wrap_err (wrapf ''acme: storing authorization: '') (put_json E authz_json (authzs_bucket T) (az_id az') az')) (\<lambda>_.
     ebind (update_order_status E T (az_order az')) (\<lambda>_. ret ch')))) (\<lambda>_. ?I)" for x
  proof -
    obtain ch' az' where x: "x = (ch', az')" by (cases x)
    show ?thesis unfolding x prod.case fst_conv snd_conv
      by (rule triple_bind [OF triple_wrap [OF put1]] triple_bind [OF triple_wrap [OF put2]] triple_bind [OF keeps_update_order] triple_ret | assumption)+
  qed
  show ?thesis unfolding validate_challenge_def by (rule triple_bind [OF chk' body])
qed

lemma keeps_challenge: "triple K (acme_inv E s (jr_tenant r)) (signed_in E s r) (handle_challenge E s r i) (\<lambda>_. acme_inv E s (jr_tenant r))"
proof -
  let ?T = "jr_tenant r" and ?I = "acme_inv E s (jr_tenant r)"
  have st1: "stable ?T (\<lambda>w. signed_in E s r w \<and> chal_at ?T w i ch)" for ch by (intro stable_rules stable_signed_in)
  have own: "triple K ?I (\<lambda>w. (signed_in E s r w \<and> chal_at ?T w i ch) \<and> authz_at ?T w (ch_authz ch) az) (owned_by r (az_account az) t)
      (\<lambda>acct. answering E s ?T ch az acct)" for ch az t
    by (rule triple_weaken [OF triple_owned [of "\<lambda>w. (signed_in E s r w \<and> chal_at ?T w i ch) \<and> authz_at ?T w (ch_authz ch) az"]])
      (use acme_inv_chal in \<open>fastforce simp: signed_in_def answering_def\<close>)+
  have val: "triple K ?I (answering E s ?T ch az acct) (if jr_payload r \<noteq> [] \<and> ch_status ch = status_pending then
              (if json_parse E (jr_payload r) = None then fail (malformed ''challenge response must be a JSON object'')
               else validate_challenge E s ?T az ch acct)
            else ret ch) (\<lambda>_. ?I)" for ch az acct
    by (rule triple_if triple_fail keeps_validate triple_ret | simp add: answering_def; fail)+
  have inv1: "signed_in E s r w \<and> chal_at ?T w i ch \<Longrightarrow> ?I w" for ch w by (simp add: signed_in_inv)
  show ?thesis
    unfolding handle_challenge_def
    by (rule triple_bind [OF triple_wrap [OF triple_get [OF stable_signed_in signed_in_inv]]] triple_bind [OF triple_wrap [OF triple_get [OF st1 inv1]]]
        triple_bind [OF own] triple_bind [OF val] triple_ret | assumption)+
qed

section \<open>Finalization\<close>

lemma order_ok_final: "order_ok E s T w od \<Longrightarrow> od_status od = status_ready \<Longrightarrow> order_ok E s T w (od\<lparr>od_status := status_valid, od_cert := c\<rparr>)"
  by (simp add: order_ok_def)

lemma triple_load_order:
  "triple K (acme_inv E s (jr_tenant r)) (acme_inv E s (jr_tenant r)) (load_order E r i)
    (\<lambda>x w. acme_inv E s (jr_tenant r) w \<and> order_at (jr_tenant r) w i (snd x) \<and> jr_account r = Some (fst x) \<and> od_account (snd x) = acc_id (fst x))"
proof -
  let ?T = "jr_tenant r" and ?I = "acme_inv E s (jr_tenant r)"
  have own: "triple K ?I (\<lambda>w. ?I w \<and> order_at ?T w i od) (owned_by r (od_account od) t)
     (\<lambda>a w. (?I w \<and> order_at ?T w i od) \<and> jr_account r = Some a \<and> od_account od = acc_id a)" for od t
    by (rule triple_owned) simp
  show ?thesis
    unfolding load_order_def
    by (rule triple_bind [OF triple_wrap [OF triple_get [OF stable_inv]]] triple_bind [OF own] triple_ret | assumption | simp; fail)+
qed

lemma keeps_finalize:
  "triple K (acme_inv E s (jr_tenant r)) (acme_inv E s (jr_tenant r)) (handle_finalize E s rq r i) (\<lambda>_. acme_inv E s (jr_tenant r))"
proof -
  let ?T = "jr_tenant r" and ?I = "acme_inv E s (jr_tenant r)"
  define P where "P od w \<longleftrightarrow> ?I w \<and> order_ok E s ?T w od \<and> od_status od = status_ready" for od w
  have st: "stable ?T (P od)" for od unfolding P_def by (intro stable_rules)
  have PI: "P od w \<Longrightarrow> ?I w" for od w by (simp add: P_def)
  note k = triple_kept [OF _ st PI]
  have put: "triple K ?I (P od) (put_json E order_json (orders_bucket ?T) (od_id (od\<lparr>od_status := status_valid, od_cert := c\<rparr>))
      (od\<lparr>od_status := status_valid, od_cert := c\<rparr>)) (\<lambda>_. ?I)" for od c
  proof (rule triple_put [OF st PI])
    fix w assume "P od w"
    then show "?I (set_doc w (orders_bucket ?T) (od_id (od\<lparr>od_status := status_valid, od_cert := c\<rparr>)) (order_json (od\<lparr>od_status := status_valid, od_cert := c\<rparr>))) \<and>
      ?I (set_doc w (orders_bucket ?T) (od_id (od\<lparr>od_status := status_valid, od_cert := c\<rparr>)) (order_json (od\<lparr>od_status := status_valid, od_cert := c\<rparr>)))"
      using write_order [OF _ refl order_ok_final] unfolding P_def by blast
  qed
  have cert: "steps (kept (acme_docs ?T)) (put_json E stored_cert_json (acme_certs_bucket ?T) j x)" for j x
    by (intro kept_rules) (simp add: acme_docs_def acme_bucket_defs)
  have fin: "triple K ?I (P od) (finish_order E s rq ?T a od is) (\<lambda>_. ?I)" for a od "is"
    unfolding finish_order_def order_reply_def Let_def
    by (rule triple_bind [OF k] triple_bind [OF triple_wrap [OF k]] triple_bind [OF triple_wrap [OF put]] triple_bind [OF keeps_readers]
        keeps_readers kept.steps_reads kept.steps_clock kept_audit acme_docs_only cert | assumption)+
  have body: "triple K ?I (\<lambda>w. ?I w \<and> order_at ?T w i od \<and> c) (if od_status od \<noteq> status_ready
     then fail (errf 403 ''orderNotReady'' (''order is '' @ od_status od @ '', not ready''))
     else ebind (lift_sum (read_csr E (jr_payload r) (od_idents od))) (\<lambda>csr.
       ebind (wrap_err (\<lambda>e. bad_csr 403 (''issuance refused: '' @ text_of e))
         (issue E (xs_manager s) (acme_issue_request ?T csr a))) (\<lambda>is.
       finish_order E s rq ?T a od (hd is)))) (\<lambda>_. ?I)" for od a c
  proof (cases "od_status od = status_ready")
    case True
    have iss: "steps (kept (acme_docs ?T)) (wrap_err f (issue E (xs_manager s) req))" for f req
      by (intro kept.steps_wrap kept_engine) simp
    have "triple K ?I (P od) (ebind (lift_sum (read_csr E (jr_payload r) (od_idents od))) (\<lambda>csr.
       ebind (wrap_err (\<lambda>e. bad_csr 403 (''issuance refused: '' @ text_of e))
         (issue E (xs_manager s) (acme_issue_request ?T csr a))) (\<lambda>is.
       finish_order E s rq ?T a od (hd is)))) (\<lambda>_. ?I)"
      by (rule triple_bind [OF k [OF kept.steps_lift] triple_bind [OF k [OF iss] fin]])
    moreover have "?I w \<and> order_at ?T w i od \<and> c \<Longrightarrow> P od w" for w using True acme_inv_order [of E s ?T w i od] by (simp add: P_def)
    ultimately show ?thesis using True by (auto elim!: triple_weaken)
  qed (auto intro: triple_fail)
  show ?thesis
    unfolding handle_finalize_def by (rule triple_bind [OF triple_load_order]) (use body in \<open>auto split: prod.split\<close>)
qed

section \<open>Requests\<close>

lemma request_key_account:
  assumes "request_key E s T allow hdr w = (Inr (Some a, jwk), w')"
  shows "\<exists>i. acct_at T w i a \<and> w' = advance w"
  using assms by (auto simp: request_key_def account_by_kid_Inr ebind_Inr_iff stored_def split: option.splits if_splits)

lemma verify_signed_in:
  "triple K (acme_inv E s T) (acme_inv E s T) (verify_request E s rq T allow) (\<lambda>r w. signed_in E s r w \<and> jr_tenant r = T)"
proof (rule tripleI)
  have k: "steps (kept (acme_docs T)) (verify_request E s rq T allow)" by (rule kept_verify) simp
  show "ticking (verify_request E s rq T allow)" using k kept_tick by (rule steps_mono)
  show "acme_inv E s T w'" if "acme_inv E s T w" "verify_request E s rq T allow w = (Inl e, w')" for w e w'
    using acme_inv_kept [OF that(1) stepsD [OF k that(2)]] .
  show "signed_in E s r w' \<and> jr_tenant r = T" if inv: "acme_inv E s T w" and run: "verify_request E s rq T allow w = (Inr r, w')" for w r w'
  proof -
    note kw = stepsD [OF k run]
    obtain jws hdr v acct jwk where rest: "request_key E s T allow hdr v = (Inr (acct, jwk), w')" "open_jws E T jws hdr acct jwk = Inr r"
      using run by (auto simp: verify_request_def ebind_Inr_iff split: if_splits)
    have acc: "jr_account r = acct" using rest(2) by (auto simp: open_jws_def act_elims split: option.splits)
    have inv': "acme_inv E s T w'" using acme_inv_kept [OF inv kw] .
    have "acct_at T w' (acc_id a) a" if a: "acct = Some a" for a
    proof -
      obtain i where i: "acct_at T v i a" "w' = advance v" using request_key_account rest(1) unfolding a by blast
      then have "acct_at T w' i a" by (simp add: stored_def)
      with acme_inv_acct [OF inv'] show ?thesis by fastforce
    qed
    then show ?thesis using inv' acc verify_tenant [OF run] by (simp add: signed_in_def)
  qed
qed

lemma keeps_handler:
  assumes ids: "distinct_ids E K"
  shows "triple K (acme_inv E s (jr_tenant r)) (signed_in E s r) (acme_handler E s rq e r) (\<lambda>_. acme_inv E s (jr_tenant r))"
proof -
  have w: "triple K (acme_inv E s (jr_tenant r)) (acme_inv E s (jr_tenant r)) m Q \<Longrightarrow>
      triple K (acme_inv E s (jr_tenant r)) (signed_in E s r) m Q" for m :: "acme_response act" and Q
    by (erule triple_weaken) (auto simp: signed_in_inv)
  have read: "triple K (acme_inv E s (jr_tenant r)) (signed_in E s r) m (\<lambda>_. acme_inv E s (jr_tenant r))"
    if "steps (kept (acme_docs (jr_tenant r))) m" for m :: "acme_response act"
    by (rule w [OF keeps_readers [OF that]])
  have nil: "steps (kept (acme_docs (jr_tenant r))) (no_such_resource rq)" unfolding no_such_resource_def by (rule kept.steps_ret)
  show ?thesis
    by (cases e)
      (auto intro!: read [OF kept_readers(1)] read [OF kept_readers(2)] read [OF kept_readers(3)] read [OF kept_readers(4)] read [OF nil]
        w [OF keeps_new_account [OF ids refl]] keeps_account w [OF keeps_new_order [OF ids]] w [OF keeps_finalize] keeps_challenge
        triple_fail simp: signed_in_inv split: option.split)
qed

lemma keeps_serve:
  assumes ids: "distinct_ids E K"
  shows "triple K (acme_inv E s T) (acme_inv E s T) (acme_serve E s rq) (\<lambda>_. acme_inv E s T)"
proof -
  let ?I = "acme_inv E s T"
  have open_endpoints: "steps (kept (acme_docs T)) (get_tenant E t)" "steps (kept (acme_docs T)) (handle_directory s t)"
    "steps (kept (acme_docs T)) (handle_new_nonce E st t)" "steps (kept (acme_docs T)) (issue_nonce E t)"
    "steps (kept (acme_docs T)) (no_such_resource rq)" for t st
    unfolding handle_directory_def acme_reply_def handle_new_nonce_def no_such_resource_def
    by (intro kept.world_rules kept_engine kept_verify | simp)+
  have answer: "triple K ?I ?I (ret x) (\<lambda>_. ?I)" for x :: acme_response by (rule triple_ret)
  have post: "triple K ?I ?I (acme_post E s rq t allow (acme_handler E s rq e)) (\<lambda>_. ?I)" for t allow e
  proof (cases "t = T")
    case True
    have h: "triple K ?I (\<lambda>w. signed_in E s r w \<and> jr_tenant r = T) (acme_handler E s rq e r) (\<lambda>_. ?I)" for r
      using keeps_handler [OF ids, of s r rq e] triple_ticking by (intro triple_assume) auto
    show ?thesis
      unfolding True acme_post_def with_acme_tenant_def
      by (rule triple_case [OF keeps_readers [OF open_endpoints(1)]] triple_case [OF keeps_readers [OF open_endpoints(4)]]
          triple_case [OF triple_bind [OF verify_signed_in h]] answer)+
  next
    case False
    have w: "acme_writes t \<inter> acme_docs T = {}" using False by (rule other_tenant)
    have "steps (kept (acme_docs T)) (acme_handler E s rq e r)" if "verify_request E s rq t allow u = (Inr r, v)" for r u v
      by (rule kept_handler) (simp_all add: verify_tenant [OF that] w)
    then have "steps (kept (acme_docs T)) (acme_post E s rq t allow (acme_handler E s rq e))"
      by (intro kept.steps_acme_post kept_verify nonce_not_doc)
    then show ?thesis by (rule keeps_readers)
  qed
  have tenant: "triple K ?I ?I (with_acme_tenant E t h) (\<lambda>_. ?I)" if "\<And>t. steps (kept (acme_docs T)) (h t)" for t h
    unfolding with_acme_tenant_def by (rule triple_case [OF keeps_readers [OF open_endpoints(1)] answer keeps_readers [OF that]])
  have "triple K ?I ?I (acme_endpoint_reply E s rq t e) (\<lambda>_. ?I)" for t e
    using post tenant [OF open_endpoints(2)] tenant [OF open_endpoints(3)] by (cases e) simp_all
  moreover have "triple K ?I ?I (no_such_resource rq) (\<lambda>_. ?I)" by (rule keeps_readers [OF open_endpoints(5)])
  ultimately show ?thesis by (auto simp: acme_serve_def split: list.split option.split)
qed

lemma acme_inv_serve:
  assumes ids: "distinct_ids E (tick w')" and inv: "acme_inv E s T w" and run: "acme_serve E s rq w = (r, w')"
  shows "acme_inv E s T w'"
  using tripleD [OF keeps_serve [OF ids] inv run] by (cases r) simp_all

lemma ticks_serve: "ticking (acme_serve E s rq)"
  using triple_ticking [OF keeps_serve [of E 0]] by (simp add: distinct_ids_def)

end
