(* ===== verification/Acme_Proved.thy ===== *)
theory Acme_Proved
  imports Acme_Orders
begin

text \<open>
  Certificates of the ACME server: every name in a certificate it had issued has been proved by a
  challenge of the account that ordered it, and what a proof is.
\<close>

section \<open>Reachable states\<close>

text \<open>
  A state with no ACME object, then requests one after another; between them the rest of the
  program may do anything that leaves the objects of the server alone.
\<close>

inductive at_work :: "'x nenv_scheme \<Rightarrow> acme_server \<Rightarrow> world \<Rightarrow> bool" for E s where
  fresh_start: "(\<And>p i. acme_path p \<Longrightarrow> lookup w p i = None) \<Longrightarrow> at_work E s w"
| request: "at_work E s w \<Longrightarrow> at_work E s (snd (acme_serve E s rq w))"
| elsewhere: "at_work E s w \<Longrightarrow> kept {p. acme_path p} w w' \<Longrightarrow> at_work E s w'"

inductive_cases at_workE: "at_work E s w"

lemma acme_docs_paths: "acme_docs T \<subseteq> {p. acme_path p}"
  by (auto simp: acme_docs_def acme_path_def acme_bucket_defs)

lemma at_work_inv: "at_work E s w \<Longrightarrow> distinct_ids E (tick w) \<Longrightarrow> acme_inv E s T w"
proof (induction rule: at_work.induct)
  case (fresh_start w)
  have "lookup w p i = None" if "p \<in> acme_docs T" for p i
    using fresh_start(1) acme_docs_paths that by blast
  then show ?case by (simp add: acme_inv_def acme_docs_def stored_def)
next
  case (request w rq)
  obtain r v where run: "acme_serve E s rq w = (r, v)" by (cases "acme_serve E s rq w")
  then have ids: "distinct_ids E (tick v)" using request.prems by simp
  then have "acme_inv E s T w" using request.IH distinct_ids_mono stepsD [OF ticks_serve run] by blast
  then show ?case using acme_inv_serve [OF ids _ run] run by simp
next
  case (elsewhere w w')
  have k: "kept (acme_docs T) w w'" using elsewhere(2) acme_docs_paths unfolding kept_def by blast
  then have "acme_inv E s T w" using elsewhere distinct_ids_mono kept_tick by blast
  with k show ?case using acme_inv_kept by blast
qed

section \<open>The names of certificate records\<close>

text \<open>Every certificate record was there with its names, or has names in \<open>S\<close>.\<close>

definition names_in :: "string list set \<Rightarrow> world \<Rightarrow> world \<Rightarrow> bool" where
  "names_in S w w' \<longleftrightarrow> (\<forall>T k rec. stored cert_record_of (certs_bucket T) w' k rec \<longrightarrow>
     cr_sans rec \<in> S \<or> (\<exists>rec0. stored cert_record_of (certs_bucket T) w k rec0 \<and> cr_sans rec0 = cr_sans rec))"

interpretation names: world_contract "names_in S" for S
proof
  fix w w' w'' :: world
  show "names_in S w w" unfolding names_in_def by blast
  show "names_in S w w' \<Longrightarrow> names_in S w' w'' \<Longrightarrow> names_in S w w''" unfolding names_in_def by metis
  show "names_in S w (advance w)" by (auto simp: names_in_def stored_def)
qed

lemma names_lookup: "(\<And>T k. lookup w' (certs_bucket T) k = lookup w (certs_bucket T) k) \<Longrightarrow> names_in S w w'"
  by (auto simp: names_in_def stored_def)

lemma names_set [simp]: "(\<And>t. p \<noteq> certs_bucket t) \<Longrightarrow> names_in S w (set_doc w p k d)" "(\<And>t. p \<noteq> certs_bucket t) \<Longrightarrow> names_in S w (del_doc w p k)"
  by (intro names_lookup; simp add: lookup_set_doc lookup_del_doc; metis)+

lemma names_record: "cr_sans r \<in> S \<Longrightarrow> names_in S w (set_doc w p k (cert_record_json r))"
  by (auto simp: names_in_def stored_set)

lemma names_log: "steps (names_in S) (log_event E a r)"
  by (rule stepsI, rule names_lookup) (metis log_buckets_apart(3) log_event_lookup prod.collapse)

lemma names_revoke: "steps (names_in S) (revoke E m t serial reason who)"
proof -
  let ?u = "update_json E cert_record_of cert_record_json zero_record (certs_bucket t) serial False (mark_revoked E serial reason)"
  have "names_in S w w'" if run: "?u w = (res, w')" for res w w'
    using run
  proof (cases rule: update_json_cases)
    case (untouched e)
    then show ?thesis by (simp add: names.advance_ok)
  next
    case (refused v e e')
    have "steps (names_in S) (mark_revoked E serial reason v)" unfolding mark_revoked_def by (intro names.world_rules)
    from stepsD [OF this refused(2)] show ?thesis using names.contract_trans [OF names.advance_ok] by blast
  next
    case (written v v' w1)
    have old: "stored cert_record_of (certs_bucket t) w serial v"
      using written(1,2) by (cases "lookup w (certs_bucket t) serial") (auto simp: stored_def)
    have v': "cr_sans v' = cr_sans v" and l: "lookup w1 = lookup w"
      using written(3) by (auto simp: mark_revoked_def act_elims clock_def split: if_splits)
    show ?thesis using old v' by (auto simp: names_in_def written(4) stored_set) (auto simp: stored_def l)
  qed
  then have "steps (names_in S) ?u" by (intro stepsI) (metis prod.collapse)
  then show ?thesis unfolding revoke_def by (intro names.world_rules names_log)
qed

lemma names_issue:
  assumes "iq_csr req = Some csr"
  shows "steps (names_in {san_summary E csr}) (issue E m req)"
proof -
  let ?S = "{san_summary E csr}"
  have ab: "steps (names_in ?S) (abandon_issued E m who t serials cause)" for who t serials cause
    unfolding abandon_issued_def try_revoke_def by (intro names.world_rules names_log names_revoke)
  have one: "steps (names_in ?S) (issue_one E m t ri p csr who target v)" for t ri p who target v
    unfolding issue_one_def Let_def
    by (intro names.store_rules names.steps_issue_leaf names_log) (auto intro: names_record simp: leaf_record_def)
  have targets: "steps (names_in ?S) (issue_targets E m t ri p csr who v out targets)" for t ri p who v out targets
    by (induction targets arbitrary: out) (auto intro!: names.world_rules one ab split: issue_fail.split)
  have "check_request E p (iq_csr req) x = Inr c \<Longrightarrow> c = csr" for p x c
    by (auto simp: check_request_def assms act_elims split: if_splits)
  then have body: "steps (names_in ?S) (ebind (lift_sum (check_request E p (iq_csr req) x)) k)" if "steps (names_in ?S) (k csr)" for p x and k :: "cert_request \<Rightarrow> issued list act"
    using that by (cases "check_request E p (iq_csr req) x") (auto simp: steps_def ebind_apply names.contract_refl)
  show ?thesis unfolding issue_def get_tenant_def root_def
  proof (rule names.steps_ebind)
    show "steps (names_in ?S) (wrap_err (unknown_tenant (iq_tenant req)) (get_json E tenant_of tenants_bucket (iq_tenant req)))"
      by (intro names.store_rules)
  qed (rule names.steps_ebind [OF names.steps_lift body], intro names.store_rules targets)
qed

section \<open>The names of an order\<close>

text \<open>An order of an account with the names, and for each of them a challenge of the order that passes.\<close>

definition certified :: "'x nenv_scheme \<Rightarrow> acme_server \<Rightarrow> string \<Rightarrow> world \<Rightarrow> string list \<Rightarrow> bool" where
  "certified E s t w vs \<longleftrightarrow> (\<exists>i od a. order_at t w i od \<and> acct_at t w (od_account od) a \<and> set vs = id_value ` set (od_idents od) \<and>
     (\<forall>v \<in> set vs. \<exists>cid ch. chal_at t w cid ch \<and> ch_authz ch \<in> set (od_authzs od) \<and> passes E s ch v a))"

lemma certified_kept: "kept (acme_docs t) w w' \<Longrightarrow> certified E s t w' = certified E s t w"
  by (simp add: certified_def docs_kept fun_eq_iff)

lemma find_None: "find P xs = None \<longleftrightarrow> (\<forall>x \<in> set xs. \<not> P x)"
  by (auto simp: find_None_iff)

lemma check_csr_identifiers_Inr:
  "check_csr_identifiers csr idents = Inr u \<Longrightarrow> set (csr_dns csr) = id_value ` set idents \<and> csr_emails csr = [] \<and> csr_ips csr = [] \<and> csr_uris csr = [] \<and>
     (csr_cn csr = [] \<or> csr_cn csr \<in> id_value ` set idents)"
  by (auto simp: check_csr_identifiers_def Let_def find_None split: if_splits option.splits)

lemma read_csr_Inr: "read_csr E payload idents = Inr csr \<Longrightarrow> check_csr_identifiers csr idents = Inr () \<and> csr_check_signature E csr = Inr ()"
  by (auto simp: read_csr_def act_elims split: option.splits sum.splits)

lemma order_certified:
  assumes "order_ok E s t w od" and "od_status od = status_ready" and "order_at t w i od" and "acct_at t w (od_account od) a"
    and "set vs = id_value ` set (od_idents od)"
  shows "certified E s t w vs"
proof -
  have all: "list_all2 (\<lambda>aid ident. proven E s t w (od_account od) aid (id_value ident)) (od_authzs od) (od_idents od)"
    using assms(1,2) by (simp add: order_ok_def)
  have "\<exists>cid ch. chal_at t w cid ch \<and> ch_authz ch \<in> set (od_authzs od) \<and> passes E s ch v a" if v: "v \<in> set vs" for v
  proof -
    obtain n where n: "n < length (od_idents od)" "v = id_value (od_idents od ! n)" using v assms(5) by (auto simp: in_set_conv_nth)
    with all have p: "proven E s t w (od_account od) (od_authzs od ! n) v" "n < length (od_authzs od)" by (auto simp: list_all2_conv_all_nth)
    then obtain a' cid ch where c: "acct_at t w (od_account od) a'" "chal_at t w cid ch" "ch_authz ch = od_authzs od ! n" "passes E s ch v a'"
      by (auto simp: proven_def)
    have "a' = a" using c(1) assms(4) by (rule stored_unique)
    with c p(2) show ?thesis by (metis nth_mem)
  qed
  with assms(3-5) show ?thesis unfolding certified_def by blast
qed

section \<open>What finalization may issue\<close>

lemma names_mono: "names_in S w w' \<Longrightarrow> S \<subseteq> S' \<Longrightarrow> names_in S' w w'"
  unfolding names_in_def by blast

lemma acme_write_names: "p \<in> acme_writes t \<Longrightarrow> names_in S w (set_doc w p i d)"
  by (rule names_set) (auto simp: acme_writes_def acme_docs_def acme_bucket_defs certs_bucket_def)

lemma finalize_names:
  assumes si: "signed_in E s r w" and run: "handle_finalize E s rq r i w = (res, w')"
  shows "names_in {vs. certified E s (jr_tenant r) w vs} w w'"
proof -
  let ?T = "jr_tenant r" and ?S = "{vs. certified E s (jr_tenant r) w vs}"
  obtain lr w1 where load: "load_order E r i w = (lr, w1)" by (cases "load_order E r i w")
  have n1: "names_in ?S w w1" using stepsD [OF names.steps_reads(6) load] .
  have k1: "kept (acme_docs ?T) w w1" using stepsD [OF kept.steps_reads(6) load] .
  have stop: "names_in ?S w w'" if "w' = w1" using n1 that by simp
  show ?thesis
  proof (cases lr)
    case (Inl e)
    with run load stop show ?thesis by (simp add: handle_finalize_def ebind_apply)
  next
    case (Inr x)
    obtain a od where x: "x = (a, od)" by (cases x)
    note o = triple_Inr [OF triple_load_order signed_in_inv [OF si] load [unfolded Inr x] order_refl]
    have a: "acct_at ?T w (od_account od) a" using si o by (simp add: signed_in_def)
    have od: "order_at ?T w i od" using o by (simp add: docs_kept [OF k1])
    have run': "(if od_status od \<noteq> status_ready
       then fail (errf 403 ''orderNotReady'' (''order is '' @ od_status od @ '', not ready''))
       else ebind (lift_sum (read_csr E (jr_payload r) (od_idents od))) (\<lambda>csr.
         ebind (wrap_err (\<lambda>e. bad_csr 403 (''issuance refused: '' @ text_of e))
           (issue E (xs_manager s) (acme_issue_request ?T csr a))) (\<lambda>is.
         finish_order E s rq ?T a od (hd is)))) w1 = (res, w')"
      using run by (simp add: handle_finalize_def ebind_apply load Inr x)
    show ?thesis
    proof (cases "od_status od = status_ready")
      case False
      with run' stop show ?thesis by simp
    next
      case ready: True
      show ?thesis
      proof (cases "read_csr E (jr_payload r) (od_idents od)")
        case (Inl e)
        with run' ready stop show ?thesis by (simp add: ebind_apply)
      next
        case (Inr csr)
        have c: "set (csr_dns csr) = id_value ` set (od_idents od)" "san_summary E csr = csr_dns csr"
          using check_csr_identifiers_Inr [of csr "od_idents od"] read_csr_Inr [OF Inr] by (simp_all add: san_summary_def)
        have "certified E s ?T w (csr_dns csr)"
          using order_certified [OF _ ready od a c(1)] acme_inv_order [OF signed_in_inv [OF si] od] by blast
        then have sub: "{san_summary E csr} \<subseteq> ?S" by (simp add: c(2))
        define k where "k c = ebind (wrap_err (\<lambda>e. bad_csr 403 (''issuance refused: '' @ text_of e))
           (issue E (xs_manager s) (acme_issue_request ?T c a))) (\<lambda>is. finish_order E s rq ?T a od (hd is))" for c
        have k: "steps (names_in {san_summary E csr}) (k csr)" unfolding k_def
          by (rule names.steps_ebind [OF names.steps_wrap [OF names_issue] names.steps_writers(5) [OF names_log acme_write_names]])
            (simp_all add: acme_issue_request_def)
        have "ebind (lift_sum (Inr csr)) k w1 = (res, w')" using run' ready unfolding k_def [symmetric] Inr by simp
        then have "k csr w1 = (res, w')" by (simp add: ebind_apply)
        with k have "names_in {san_summary E csr} w1 w'" by (rule stepsD)
        then have "names_in ?S w1 w'" using sub by (rule names_mono)
        with n1 show ?thesis by (rule names.contract_trans)
      qed
    qed
  qed
qed

text \<open>What is in front of a handler.\<close>

definition ahead :: "string \<Rightarrow> world \<Rightarrow> world \<Rightarrow> bool" where
  "ahead t w w' \<longleftrightarrow> kept (acme_docs t) w w' \<and> names_in {} w w'"

interpretation ahead: world_contract "ahead t" for t
  by unfold_locales
    (auto simp: ahead_def kept.contract_refl names.contract_refl kept.advance_ok names.advance_ok intro: kept.contract_trans names.contract_trans)

lemma ahead_nonces: "ahead t w (set_doc w (nonce_bucket u) n d)" "ahead t w (del_doc w (nonce_bucket u) n)"
  by (auto simp: ahead_def acme_docs_def acme_bucket_defs certs_bucket_def intro!: kept_set kept_del names_set)

lemma acme_post_split:
  assumes run: "acme_post E s rq t allow next' w = (res, w')"
  shows "ahead t w w' \<or> (\<exists>v r w2 x. ahead t w v \<and> verify_request E s rq t allow v = (Inr r, w2) \<and> ahead t w w2 \<and> next' r w2 = (x, w'))"
proof -
  obtain g w1 where g: "get_tenant E t w = (g, w1)" by (cases "get_tenant E t w")
  have "steps (ahead t) (get_tenant E t)" unfolding get_tenant_def by (intro ahead.store_rules)
  then have s1: "ahead t w w1" using g by (rule stepsD)
  show ?thesis
  proof (cases g)
    case (Inl e)
    then show ?thesis using run s1 by (simp add: acme_post_def with_acme_tenant_def ecase_apply g)
  next
    case (Inr ten)
    obtain n w2 where n: "issue_nonce E t w1 = (n, w2)" by (cases "issue_nonce E t w1")
    have "steps (ahead t) (issue_nonce E t)" by (rule ahead.steps_issue_nonce) (rule ahead_nonces)
    from ahead.contract_trans [OF s1 stepsD [OF this n]] have s2: "ahead t w w2" .
    show ?thesis
    proof (cases n)
      case (Inl e)
      then show ?thesis using run s2 Inr by (simp add: acme_post_def with_acme_tenant_def ecase_apply g n)
    next
      case nonce: (Inr m)
      obtain x w3 where v: "verify_request E s rq t allow w2 = (x, w3)" by (cases "verify_request E s rq t allow w2")
      have "steps (ahead t) (verify_request E s rq t allow)" by (rule ahead.steps_verify) (rule ahead_nonces)
      from ahead.contract_trans [OF s2 stepsD [OF this v]] have s3: "ahead t w w3" .
      show ?thesis
      proof (cases x)
        case (Inl e)
        then show ?thesis using run s3 Inr nonce by (simp add: acme_post_def with_acme_tenant_def ecase_apply ebind_apply g n v)
      next
        case req: (Inr r)
        obtain y u where y: "next' r w3 = (y, u)" by (cases "next' r w3")
        have "w' = u" using run Inr nonce req y
          by (auto simp: acme_post_def with_acme_tenant_def ecase_apply ebind_apply g n v split: sum.splits)
        with y s2 s3 v req show ?thesis by blast
      qed
    qed
  qed
qed

lemma handler_names:
  assumes "\<And>i. e \<noteq> Finalize i"
  shows "steps (names_in S) (acme_handler E s rq e r)"
  by (rule names.steps_handler) (use assms in \<open>auto intro: names_log acme_write_names names_revoke\<close>)

lemma post_names:
  assumes inv: "acme_inv E s t w" and run: "acme_post E s rq t allow (acme_handler E s rq e) w = (res, w')"
  shows "names_in {vs. certified E s t w vs} w w'"
proof -
  let ?S = "{vs. certified E s t w vs}"
  have a: "names_in ?S u v" if "ahead t u v" for u v using that names_mono [of "{}" u v ?S] by (simp add: ahead_def)
  from acme_post_split [OF run] show ?thesis
  proof (elim disjE exE conjE)
    fix v r w2 x
    assume v: "ahead t w v" and ver: "verify_request E s rq t allow v = (Inr r, w2)" and w2: "ahead t w w2"
      and h: "acme_handler E s rq e r w2 = (x, w')"
    have "acme_inv E s t v" using acme_inv_kept [OF inv] v by (simp add: ahead_def)
    with triple_Inr [OF verify_signed_in _ ver order_refl] have si: "signed_in E s r w2" and t: "jr_tenant r = t" by blast+
    have "names_in ?S w2 w'"
    proof (cases "\<exists>i. e = Finalize i")
      case True
      then obtain i where "handle_finalize E s rq r i w2 = (x, w')" using h by auto
      from finalize_names [OF si this] have "names_in {vs. certified E s t w2 vs} w2 w'" by (simp add: t)
      moreover have "certified E s t w2 = certified E s t w" using w2 by (intro certified_kept) (simp add: ahead_def)
      ultimately show ?thesis by simp
    next
      case False
      then have "steps (names_in ?S) (acme_handler E s rq e r)" by (intro handler_names) blast
      then show ?thesis using h by (rule stepsD)
    qed
    with a [OF w2] show ?thesis by (rule names.contract_trans)
  qed (rule a)
qed

lemma serve_names:
  assumes inv: "\<And>t. acme_inv E s t w" and run: "acme_serve E s rq w = (res, w')"
  shows "names_in {vs. \<exists>t. certified E s t w vs} w w'"
proof -
  let ?S = "{vs. \<exists>t. certified E s t w vs}"
  have post: "names_in ?S w (snd (acme_post E s rq t allow (acme_handler E s rq e) w))" for t allow e
  proof -
    obtain r v where run: "acme_post E s rq t allow (acme_handler E s rq e) w = (r, v)"
      by (cases "acme_post E s rq t allow (acme_handler E s rq e) w")
    have "names_in {vs. certified E s t w vs} w v" using inv run by (rule post_names)
    then have "names_in ?S w v" by (rule names_mono) blast
    with run show ?thesis by simp
  qed
  have nonce: "steps (names_in ?S) (issue_nonce E t)" for t
    by (rule names.steps_issue_nonce) (auto simp: acme_bucket_defs certs_bucket_def intro!: names_set)
  have ten: "steps (names_in ?S) (with_acme_tenant E t h)" if "\<And>t. steps (names_in ?S) (h t)" for t h
    unfolding with_acme_tenant_def get_tenant_def by (intro names.store_rules that)
  have "steps (names_in ?S) (handle_directory s t)" "steps (names_in ?S) (handle_new_nonce E st t)" for t st
    unfolding handle_directory_def acme_reply_def handle_new_nonce_def by (intro names.world_rules nonce)+
  note open_endpoints = ten [OF this(1)] ten [OF this(2)]
  have "names_in ?S w (snd (acme_endpoint_reply E s rq t e w))" for t e
    using open_endpoints post by (cases e) (simp_all add: steps_def)
  then have "names_in ?S w (snd (acme_serve E s rq w))"
    by (auto simp: acme_serve_def no_such_resource_def names.contract_refl split: list.split option.split)
  with run show ?thesis by simp
qed


section \<open>What a passed check is\<close>

lemma check_reply_Inr: "check_reply url ka r = Inr () \<longleftrightarrow> hr_status r = 200 \<and> (\<exists>b. hr_body r = Inr b \<and> trim_space (take max_challenge_body b) = ka)"
  by (auto simp: check_reply_def split: sum.splits)

text \<open>
  Claim C28: a check that succeeds rests on an answer of the network.  For http-01, a server at some
  address sent, with status 200, a body that is the token and the thumbprint of the account's key;
  unless the server is set to allow it, that address is not a blocked one.  For dns-01, the digest of
  the same text is among the TXT records of the name.  No other kind of challenge succeeds.
\<close>

theorem check_rests_on_answer:
  assumes "run_check E s ty v token thumb w = (Inr (), w')"
  shows "ty = ''http-01'' \<and> (\<exists>k a url r b. http_at E k a url = Some r \<and> hr_status r = 200 \<and> hr_body r = Inr b \<and>
      trim_space (take max_challenge_body b) = token @ ''.'' @ thumb \<and> (xs_allow_private s \<or> \<not> blocked_address a)) \<or>
    ty = ''dns-01'' \<and> (\<exists>k txts. txt_at E k (''_acme-challenge.'' @ trim_prefix v ''*.'') = Inr txts \<and>
      raw_b64 (sha256 E (token @ ''.'' @ thumb)) \<in> set txts)"
proof -
  have "ty = ''http-01'' \<or> ty = ''dns-01''" using assms by (auto simp: run_check_def split: if_splits)
  then show ?thesis
  proof
    assume ty: "ty = ''http-01''"
    have "check_http01 E s v token (key_authorization token thumb) w = (Inr (), w')" using assms ty by (simp add: run_check_def)
    then obtain r tr where get: "client_get E (\<not> xs_allow_private s) 0 (challenge_url s v token) w = (Inr (Inr r, tr), w')"
      and ok: "check_reply (challenge_url s v token) (key_authorization token thumb) r = Inr ()"
      by (auto simp: check_http01_def Let_def ebind_Inr_iff act_elims split: if_splits)
    obtain k a u where a: "a \<in> set tr" "http_at E k a u = Some r" using client_get_reply [OF get] by blast
    have "\<not> blocked_address a" if "\<not> xs_allow_private s" using client_get_guard [of E 0 "challenge_url s v token" w "Inr r" tr w'] get a(1) that by simp
    with ok a(2) ty show ?thesis unfolding check_reply_Inr key_authorization_def by blast
  next
    assume ty: "ty = ''dns-01''"
    then have "check_dns01 E (trim_prefix v ''*.'') (key_authorization token thumb) w = (Inr (), w')" using assms by (simp add: run_check_def)
    then have "\<exists>k txts. txt_at E k (''_acme-challenge.'' @ trim_prefix v ''*.'') = Inr txts \<and> raw_b64 (sha256 E (key_authorization token thumb)) \<in> set txts"
      by (auto simp: check_dns01_def Let_def ebind_Inr_iff at_tick_def split: sum.splits if_splits)
    with ty show ?thesis by (simp add: key_authorization_def)
  qed
qed

end
