(* ===== verification/Ca_Samples.thy ===== *)
theory Ca_Samples
  imports Ca_Ready
begin

text \<open>
  A concrete instance, used to show that the hypotheses of the theorems about the CA hold together:
  an Ed25519 root with its audit key and a tenant, made in the sample environment with keys in the
  store.
\<close>

definition store_manager :: manager where
  "store_manager = \<lparr>mg_signers = [(''storekey'', Storekey ''pw'')], mg_audit = NopLog, mg_backend = ''storekey''\<rparr>"

lemma store_manager_ok: "manager_ok store_manager" "registry_backend (mg_signers store_manager) (mg_backend store_manager) = Inr (Storekey ''pw'')"
  "mg_audit store_manager = NopLog"
  by (simp_all add: manager_ok_def registered_def store_manager_def registry_backend_def)

section \<open>Running with no faults\<close>

definition later :: "world \<Rightarrow> world \<Rightarrow> bool" where
  "later w w' \<longleftrightarrow> (\<forall>p k. lookup w' p k = lookup w p k)"

lemma later_refl [simp]: "later w w" "later w (advance w)"
  by (simp_all add: later_def)

lemma later_trans: "later u v \<Longrightarrow> later v w \<Longrightarrow> later u w"
  by (simp add: later_def)

lemma sample_generate_key:
  "generate_key (sample_at xe) Ed25519 w = (Inr sample_key, advance w)"
  "\<exists>seed. length seed = 32 \<and> generate_key (sample_at xe) MLDSA65 w = (Inr (MldsaPriv ''ML-DSA-65'' seed (take 4 seed)), advance w)"
proof -
  show "generate_key (sample_at xe) Ed25519 w = (Inr sample_key, advance w)"
    by (simp add: generate_key_def classic_generate_def) (simp add: sample_env_def)
  let ?seed = "map (rnd_at (sample_at xe) (tick w)) [0..<32]"
  have "mldsa_name MLDSA65 = Some ''ML-DSA-65''" by (simp add: mldsa_name_def alg_defs)
  moreover have "mldsa_expand (sample_at xe) p ?seed = Some (take 4 ?seed)" for p by (simp add: sample_env_def)
  moreover have "MLDSA65 \<notin> {ECDSAP256, ECDSAP384, Ed25519}" by (simp add: alg_defs)
  ultimately have "generate_key (sample_at xe) MLDSA65 w = (Inr (MldsaPriv ''ML-DSA-65'' ?seed (take 4 ?seed)), advance w)"
    by (simp add: generate_key_def mldsa_generate_def sample_rand ebind_apply mldsa_seed_size_def new_mldsa_private_key_def)
  then show "\<exists>seed. length seed = 32 \<and> generate_key (sample_at xe) MLDSA65 w = (Inr (MldsaPriv ''ML-DSA-65'' seed (take 4 seed)), advance w)"
    by (intro exI [of _ ?seed]) simp
qed

lemma sample_store_generate:
  assumes key: "generate_key (sample_at xe) alg w = (Inr key, advance w)" "marshal_key_material (sample_at xe) key = Inr m"
    and free: "lookup w keys_bucket label = None" "label \<noteq> []"
  shows "\<exists>ref w' d. backend_generate (sample_at xe) (Storekey ''pw'') alg label w = (Inr (\<lparr>sg_key = key, sg_alg = alg\<rparr>, ref), w') \<and>
    (\<forall>p k. lookup w' p k = (if (p, k) = (keys_bucket, label) then Some d else lookup w p k))"
proof -
  have "scrypt (sample_at xe) = (\<lambda>p s n r q. Some p)" by (simp add: sample_env_def)
  then obtain v where v: "seal_envelope (sample_at xe) ''pw'' alg m (advance w) = (Inr v, advance (advance (advance w)))"
    by (simp add: seal_envelope_def sample_rand ebind_apply)
  have "update_json (sample_at xe) envelope_of envelope_json zero_envelope keys_bucket label True (insert_key label v)
      (advance (advance (advance w))) =
      (Inr (), set_doc (advance (advance (advance (advance w)))) keys_bucket label (envelope_json v))"
    using free by (simp add: update_json_Inr keys_bucket_def insert_key_def zero_envelope_def lookup_def)
  with key v free show ?thesis
    by (simp add: storekey_generate_def ebind_apply lookup_set_doc) blast
qed

lemma sample_generate_ed:
  assumes "lookup w keys_bucket label = None" "label \<noteq> []"
  shows "\<exists>ref w' d. backend_generate (sample_at xe) (Storekey ''pw'') Ed25519 label w =
      (Inr (\<lparr>sg_key = sample_key, sg_alg = Ed25519\<rparr>, ref), w') \<and>
    (\<forall>p k. lookup w' p k = (if (p, k) = (keys_bucket, label) then Some d else lookup w p k))"
proof -
  have "marshal_key_material (sample_at xe) sample_key = Inr ''k''"
    by (simp add: sample_key_def sample_env_def pkcs8_marshal_def)
  with sample_store_generate [OF sample_generate_key(1) [where xe = xe] _ assms] show ?thesis by blast
qed

lemma sample_generate_ml:
  assumes "lookup w keys_bucket label = None" "label \<noteq> []"
  shows "\<exists>seed ref w' d. length seed = 32 \<and> backend_generate (sample_at xe) (Storekey ''pw'') MLDSA65 label w =
      (Inr (\<lparr>sg_key = MldsaPriv ''ML-DSA-65'' seed (take 4 seed), sg_alg = MLDSA65\<rparr>, ref), w') \<and>
    (\<forall>p k. lookup w' p k = (if (p, k) = (keys_bucket, label) then Some d else lookup w p k))"
proof -
  obtain seed where s: "length seed = 32"
    "generate_key (sample_at xe) MLDSA65 w = (Inr (MldsaPriv ''ML-DSA-65'' seed (take 4 seed)), advance w)"
    using sample_generate_key(2) [where xe = xe] by blast
  have "marshal_key_material (sample_at xe) (MldsaPriv ''ML-DSA-65'' seed (take 4 seed)) = Inr seed" by simp
  with sample_store_generate [OF s(2) _ assms] s(1) show ?thesis by blast
qed

lemma sample_serial: "\<exists>n. new_serial (sample_at xe) w = (Inr n, advance w)"
  by (simp add: new_serial_def sample_rand ebind_apply)

lemma sample_clock: "clock (sample_at xe) w = (Inr (1000000000 * int (tick w)), advance w)"
  by (simp add: clock_def) (simp add: sample_env_def)

section \<open>Certificates with Ed25519 keys\<close>

lemma sample_key_der:
  obtains d where "pack_key (Ed25519Key sample_pub) = Some d" "marshal_public_key (sample_at xe) (Ed25519Key sample_pub) = Inr d"
    "parse_public_key (sample_at xe) d = Inr (Ed25519Key sample_pub)" "\<exists>s. subject_key_id (sample_at xe) (Ed25519Key sample_pub) = Inr s"
proof -
  have "\<exists>d. pack_key (Ed25519Key sample_pub) = Some d" by (simp del: pack.simps)
  then obtain d where d: "pack_key (Ed25519Key sample_pub) = Some d" by blast
  then have m: "marshal_public_key (sample_at xe) (Ed25519Key sample_pub) = Inr d"
    by (simp add: marshal_public_key_def) (simp add: sample_env_def)
  have p: "parse_public_key (sample_at xe) d = Inr (Ed25519Key sample_pub)"
    by (rule public_key_round_trip [OF sample_key_der_laws _ m]) simp
  have "\<exists>o' b. spki_parse (sample_at xe) d = Some (o', b, [])"
    using d by (auto simp: sample_env_def simp del: pack.simps)
  with m have "\<exists>s. subject_key_id (sample_at xe) (Ed25519Key sample_pub) = Inr s" by (auto simp: subject_key_id_def)
  with d m p that show thesis by blast
qed

lemma sample_create:
  "\<exists>c v. create_certificate (sample_at xe) t issuer (Ed25519Key sample_pub) sample_key Ed25519 w = (Inr c, v) \<and> later w v \<and>
    crt_alg c = Ed25519 \<and> crt_pub c = Ed25519Key sample_pub \<and> crt_pub_alg c = Ed25519"
proof -
  obtain d s where d: "pack_key (Ed25519Key sample_pub) = Some d" "parse_public_key (sample_at xe) d = Inr (Ed25519Key sample_pub)"
    and ski: "subject_key_id (sample_at xe) (Ed25519Key sample_pub) = Inr s" by (rule sample_key_der [where xe = xe]) blast
  have cl: "\<exists>c v. create_classical (sample_at xe) u issuer (Ed25519Key sample_pub) sample_key Ed25519 w = (Inr c, v) \<and> later w v \<and>
    crt_alg c = Ed25519 \<and> crt_pub c = Ed25519Key sample_pub \<and> crt_pub_alg c = Ed25519" for u
  proof -
    define t2 where "t2 = (case issuer of None \<Rightarrow> u\<lparr>t_sig_alg := Ed25519\<rparr> | Some c \<Rightarrow> with_aki (xc_ski (crt_x509 c)) (u\<lparr>t_sig_alg := Ed25519\<rparr>))"
    have a: "t_sig_alg t2 = Ed25519" by (simp add: t2_def with_aki_def split: option.split)
    define i where "i = plain_info Ed25519 [1, 3, 101, 112] NoHash"
    have i: "lookup_alg Ed25519 = Inr i" by (simp add: i_def)
    have bo: "by_oid (i_oid i) = Inr i" "i_alg i = Ed25519" using by_oid_lookup [OF i] by (simp_all add: i_def plain_info_def)
    obtain der where der: "sample_x509_create (tick w) t2 (map_option crt_x509 issuer) (Ed25519Key sample_pub) sample_key = Some der"
      and "\<exists>sg. unpack_signed der = Some sg" and o: "\<exists>tbs sg. unpack_signed der = Some (tbs, i_oid i, sg, [])"
      and xc: "\<exists>xc. unpack_cert der = Some xc \<and> xc_spki xc = d"
      by (simp add: sample_x509_create_def a i d Let_def unpack_signed_def pack_signed_def unpack_cert_def pack_tbs_def unpack_exts
          del: pack.simps pack_key.simps lookup_alg_simps)
    then have "\<exists>c. parse_certificate (sample_at xe) der = Inr c \<and> crt_alg c = Ed25519 \<and> crt_pub c = Ed25519Key sample_pub \<and> crt_pub_alg c = Ed25519"
    proof -
      obtain xc where "x509_parse (sample_at xe) der = Some xc" "xc_spki xc = d" using xc by (auto simp: sample_env_def)
      moreover have "cert_outer (sample_at xe) der = Some (i_oid i, [])" using o by (auto simp: sample_env_def)
      ultimately show ?thesis by (simp add: parse_certificate_def bo d)
    qed
    moreover have "x509_issue (sample_at xe) t2 (map_option crt_x509 issuer) (Ed25519Key sample_pub) sample_key w = (Inr der, advance w)"
      using der by (simp add: x509_issue_def) (simp add: sample_env_def)
    ultimately show ?thesis by (auto simp: create_classical_def Let_def ebind_apply t2_def [symmetric])
  qed
  show ?thesis
    using cl [of t] cl [of "t\<lparr>t_ski := s\<rparr>"] ski by (simp add: create_certificate_def ebind_apply plain_info_def)
qed

section \<open>A root\<close>

lemma sample_buckets [simp]: "keys_bucket \<noteq> meta_bucket" "meta_bucket \<noteq> keys_bucket" "keys_bucket \<noteq> tenants_bucket"
  "tenants_bucket \<noteq> keys_bucket" "keys_bucket \<noteq> certs_bucket t" "certs_bucket t \<noteq> keys_bucket"
  by (simp_all add: keys_bucket_def meta_bucket_def tenants_bucket_def certs_bucket_def)

abbreviation sample_signer_ed :: signer where
  "sample_signer_ed \<equiv> \<lparr>sg_key = sample_key, sg_alg = Ed25519\<rparr>"

lemma store_holds:
  assumes "holds_key (sample_at xe) (mg_signers store_manager) w ref s"
    and "\<And>l d. lookup w keys_bucket l = Some d \<Longrightarrow> lookup w' keys_bucket l = Some d"
  shows "holds_key (sample_at xe) (mg_signers store_manager) w' ref s"
  using assms by (fastforce simp: holds_key_def store_manager_def store_slot_def split: sum.splits if_splits)

definition sample_options :: init_options where
  "sample_options = \<lparr>io_name = ''Root'', io_alg = Ed25519, io_pair_alg = [], io_root_validity = 0, io_experimental = False,
     io_actor = system_actor\<rparr>"

lemma sample_new_root:
  assumes "lookup w keys_bucket label = None" "label \<noteq> []"
  shows "\<exists>ref c w' d. new_root_cert (sample_at xe) store_manager name Ed25519 validity label w = (Inr (ref, c), w') \<and>
    (\<forall>p k. lookup w' p k = (if (p, k) = (keys_bucket, label) then Some d else lookup w p k)) \<and>
    holds_key (sample_at xe) (mg_signers store_manager) w' ref sample_signer_ed \<and> crt_alg c = Ed25519 \<and>
    parse_certificate_pem (sample_at xe) (encode_certificate_pem (sample_at xe) c) = Inr c"
proof -
  obtain ref v d where g: "backend_generate (sample_at xe) (Storekey ''pw'') Ed25519 label w =
      (Inr (\<lparr>sg_key = sample_key, sg_alg = Ed25519\<rparr>, ref), v)"
    and l: "\<forall>p k. lookup v p k = (if (p, k) = (keys_bucket, label) then Some d else lookup w p k)"
    using sample_generate_ed [OF assms, where xe = xe] by blast
  obtain n where n: "new_serial (sample_at xe) v = (Inr n, advance v)" using sample_serial [where xe = xe] by blast
  have pub: "public_of sample_key = Ed25519Key sample_pub" by (simp add: sample_key_def)
  obtain c u where c: "create_certificate (sample_at xe) (ca_template n (NamedSubject name [''MnemoCA''] [])
        (1000000000 * int (tick (advance v)) - five_minutes) (1000000000 * int (tick (advance (advance v))) + validity) False)
      None (Ed25519Key sample_pub) sample_key Ed25519 (advance (advance (advance v))) = (Inr c, u)" "later (advance (advance (advance v))) u"
      "crt_alg c = Ed25519"
    using sample_create [where xe = xe] by blast
  have "new_root_cert (sample_at xe) store_manager name Ed25519 validity label w = (Inr (ref, c), u)"
    by (simp add: new_root_cert_def ebind_apply store_manager_ok g n sample_clock pub c(1)[simplified]
        del: backend_generate.simps)
  moreover have "\<forall>p k. lookup u p k = (if (p, k) = (keys_bucket, label) then Some d else lookup w p k)"
    using c(2) l by (simp add: later_def)
  moreover have "holds_key (sample_at xe) (mg_signers store_manager) v ref sample_signer_ed"
    using generated_holds [OF sample_libs_ok g] by (simp add: registered_def store_manager_def)
  then have "holds_key (sample_at xe) (mg_signers store_manager) u ref sample_signer_ed"
    by (rule store_holds) (use c(2) in \<open>simp add: later_def\<close>)
  moreover have "parse_certificate_pem (sample_at xe) (encode_certificate_pem (sample_at xe) c) = Inr c"
    by (rule pem_created [OF sample_pem_laws c(1)])
  ultimately show ?thesis using c(3) by blast
qed

lemma sample_init_from:
  assumes e: "\<And>p k. lookup w0 p k = None"
  obtains ri w c where "init_root (sample_at xe) store_manager (sample_options\<lparr>io_actor := who\<rparr>) w0 = (Inr ri, w)"
    and "\<And>p k. p \<notin> {keys_bucket, meta_bucket} \<Longrightarrow> lookup w p k = None"
    and "\<And>l. l \<notin> {''root/primary'', ''root/audit''} \<Longrightarrow> lookup w keys_bucket l = None"
    and "holds_key (sample_at xe) (mg_signers store_manager) w (ri_key_ref ri) sample_signer_ed" "ri_alg ri = Ed25519"
    and "parse_certificate_pem (sample_at xe) (ri_cert_pem ri) = Inr c" "crt_alg c = Ed25519"
proof -
  let ?w0 = "advance w0" and ?opts = "sample_options\<lparr>io_actor := who\<rparr>"
  have n: "not_initialized (sample_at xe) w0 = (Inr (), ?w0)"
    using get_json_not_found [of "sample_at xe" root_info_of meta_bucket root_key w0 err_not_found ?w0]
    by (simp add: not_initialized_Inr e)
  have x: "check_experimental Ed25519 False = Inr ()" by (simp add: check_experimental_def plain_info_def)
  obtain ref c w1 d1 where r: "new_root_cert (sample_at xe) store_manager ''Root'' Ed25519 (7300 * one_day) ''root/primary'' ?w0 = (Inr (ref, c), w1)"
    and l1: "\<forall>p k. lookup w1 p k = (if (p, k) = (keys_bucket, ''root/primary'') then Some d1 else lookup ?w0 p k)"
    and h1: "holds_key (sample_at xe) (mg_signers store_manager) w1 ref sample_signer_ed" "crt_alg c = Ed25519"
      "parse_certificate_pem (sample_at xe) (encode_certificate_pem (sample_at xe) c) = Inr c"
    using sample_new_root [where w = ?w0 and label = "''root/primary''" and name = "''Root''" and validity = "7300 * one_day" and xe = xe] by (auto simp: e)
  have a0: "lookup (advance w1) keys_bucket ''root/audit'' = None" using l1 by (simp add: e)
  obtain seed aref w2 d2 where seed: "length seed = 32"
    and g: "backend_generate (sample_at xe) (Storekey ''pw'') MLDSA65 ''root/audit'' (advance w1) =
      (Inr (\<lparr>sg_key = MldsaPriv ''ML-DSA-65'' seed (take 4 seed), sg_alg = MLDSA65\<rparr>, aref), w2)"
    and l2: "\<forall>p k. lookup w2 p k = (if (p, k) = (keys_bucket, ''root/audit'') then Some d2 else lookup (advance w1) p k)"
    using sample_generate_ml [OF a0, where xe = xe] by auto
  obtain pub where pub: "marshal_public_key (sample_at xe) (MldsaKey ''ML-DSA-65'' (take 4 seed)) = Inr pub"
    by (simp add: marshal_public_key_def sample_env_def del: pack.simps)
  have put: "put_json (sample_at xe) root_info_json meta_bucket root_key ri w2 = (Inr (), set_doc (advance w2) meta_bucket root_key (root_info_json ri))" for ri
    by (simp add: put_json_Inr)
  have run: "\<exists>ri. init_root (sample_at xe) store_manager ?opts w0 =
      (Inr ri, set_doc (advance w2) meta_bucket root_key (root_info_json ri)) \<and> ri_key_ref ri = ref \<and> ri_alg ri = Ed25519 \<and>
      ri_cert_pem ri = encode_certificate_pem (sample_at xe) c"
    by (simp add: init_root_def ebind_apply n sample_options_def x Let_def wrap_err_apply r sample_clock add_pair_root_def
        store_manager_ok g pub put del: backend_generate.simps)
  then obtain ri where ri: "init_root (sample_at xe) store_manager ?opts w0 =
      (Inr ri, set_doc (advance w2) meta_bucket root_key (root_info_json ri))"
      "ri_key_ref ri = ref" "ri_alg ri = Ed25519" "ri_cert_pem ri = encode_certificate_pem (sample_at xe) c" by blast
  define W where "W = set_doc (advance w2) meta_bucket root_key (root_info_json ri)"
  have lk: "lookup W p k = (if p = meta_bucket \<and> k = root_key then Some (root_info_json ri)
      else if p = keys_bucket \<and> k = ''root/audit'' then Some d2
      else if p = keys_bucket \<and> k = ''root/primary'' then Some d1 else None)" for p k
    using l1 l2 by (simp add: e W_def lookup_set_doc)
  have keep: "lookup W keys_bucket l = Some d" if d: "lookup w1 keys_bucket l = Some d" for l d
  proof -
    have "l = ''root/primary'' \<and> d = d1"
      using d l1 e by (cases "l = ''root/primary''") auto
    then show ?thesis by (simp add: lk)
  qed
  have holds: "holds_key (sample_at xe) (mg_signers store_manager) W ref sample_signer_ed"
    by (rule store_holds [OF h1(1)]) (rule keep)
  have none: "lookup W p k = None" if "p \<notin> {keys_bucket, meta_bucket}" for p k
    using that by (simp add: lk)
  have nokey: "lookup W keys_bucket l = None" if "l \<notin> {''root/primary'', ''root/audit''}" for l
    using that by (simp add: lk)
  show ?thesis
    by (rule that [of ri W c])
      (rule ri(1) [folded W_def], erule none, erule nokey, unfold ri(2,4), rule holds, rule ri(3), rule h1(3), rule h1(2))
qed

lemma sample_init:
  obtains ri w c where "init_root (sample_at xe) store_manager sample_options empty_world = (Inr ri, w)"
    and "\<And>p k. p \<notin> {keys_bucket, meta_bucket} \<Longrightarrow> lookup w p k = None"
    and "\<And>l. l \<notin> {''root/primary'', ''root/audit''} \<Longrightarrow> lookup w keys_bucket l = None"
    and "holds_key (sample_at xe) (mg_signers store_manager) w (ri_key_ref ri) sample_signer_ed" "ri_alg ri = Ed25519"
    and "parse_certificate_pem (sample_at xe) (ri_cert_pem ri) = Inr c" "crt_alg c = Ed25519"
proof -
  have o: "sample_options\<lparr>io_actor := system_actor\<rparr> = sample_options" by (simp add: sample_options_def)
  have e: "lookup empty_world p k = None" for p k by (simp add: lookup_def empty_world_def)
  show thesis
  proof (rule sample_init_from [where xe = xe and who = system_actor and ?w0.0 = empty_world, unfolded o, OF e])
    fix ri w c
    assume init: "init_root (sample_at xe) store_manager sample_options empty_world = (Inr ri, w)"
      and none: "\<And>p k. p \<notin> {keys_bucket, meta_bucket} \<Longrightarrow> lookup w p k = None"
        "\<And>l. l \<notin> {''root/primary'', ''root/audit''} \<Longrightarrow> lookup w keys_bucket l = None"
      and key: "holds_key (sample_at xe) (mg_signers store_manager) w (ri_key_ref ri) sample_signer_ed" "ri_alg ri = Ed25519"
        "parse_certificate_pem (sample_at xe) (ri_cert_pem ri) = Inr c" "crt_alg c = Ed25519"
    show thesis by (rule that [OF init none key])
  qed
qed

theorem init_root_ready_witness:
  "\<exists>ri w. init_root sample_env store_manager sample_options empty_world = (Inr ri, w) \<and>
     root_ok sample_env (mg_signers store_manager) w ri \<and> lookup w meta_bucket root_key = Some (root_info_json ri)"
proof -
  obtain ri w where r: "init_root sample_env store_manager sample_options empty_world = (Inr ri, w)" by (rule sample_init [where xe = "()"])
  with init_root_ready [OF sample_libs_ok store_manager_ok(1) r] show ?thesis by blast
qed

section \<open>A tenant\<close>

lemma sample_tenant_run:
  assumes free: "lookup w tenants_bucket ''acme'' = None" "lookup w keys_bucket ''tenants/acme/issuing'' = None"
    and root: "lookup w meta_bucket root_key = Some (root_info_json ri)" "ri_alg ri = Ed25519"
      "holds_key (sample_at xe) (mg_signers store_manager) w (ri_key_ref ri) sample_signer_ed"
    and rc: "parse_certificate_pem (sample_at xe) (ri_cert_pem ri) = Inr rc" "crt_alg rc = Ed25519"
  shows "\<exists>t w'. create_tenant (sample_at xe) store_manager ''acme'' [] [] False system_actor w = (Inr t, w') \<and>
    tn_id t = ''acme'' \<and> tn_profiles t = default_profiles \<and>
    holds_key (sample_at xe) (mg_signers store_manager) w' (tn_key_ref t) sample_signer_ed \<and>
    (\<exists>c. parse_certificate_pem (sample_at xe) (tn_cert_pem t) = Inr c \<and> crt_pub_alg c = Ed25519) \<and>
    (\<forall>p k. p \<notin> {keys_bucket, tenants_bucket} \<longrightarrow> lookup w' p k = lookup w p k)"
proof -
  have tid: "tenant_id_ok ''acme''" by (simp add: tenant_id_ok_def lower_alnum_def)
  have n: "no_tenant (sample_at xe) ''acme'' w = (Inr (), advance w)"
    using get_json_not_found [of "sample_at xe" tenant_of tenants_bucket "''acme''" w err_not_found "advance w"] free
    by (simp add: no_tenant_Inr)
  have r: "root (sample_at xe) (advance w) = (Inr ri, advance (advance w))"
    using root(1) by (simp add: root_def wrap_err_Inr_iff get_json_Inr)
  define w3 where "w3 = advance (advance (advance w))"
  have lk: "lookup w3 p k = lookup w p k" for p k by (simp add: w3_def)
  have h: "holds_key (sample_at xe) (mg_signers store_manager) w3 (ri_key_ref ri) sample_signer_ed"
    by (rule store_holds [OF root(3)]) (simp add: lk)
  then have o: "registry_open (sample_at xe) (mg_signers store_manager) (ri_key_ref ri) w3 = (Inr sample_signer_ed, advance w3)"
    by (rule holds_key_opens) simp
  obtain ref v d where g: "backend_generate (sample_at xe) (Storekey ''pw'') Ed25519 ''tenants/acme/issuing'' (advance w3) = (Inr (sample_signer_ed, ref), v)"
    and l: "\<forall>p k. lookup v p k = (if (p, k) = (keys_bucket, ''tenants/acme/issuing'') then Some d else lookup (advance w3) p k)"
    using sample_generate_ed [where w = "advance w3" and label = "''tenants/acme/issuing''" and xe = xe] free by (auto simp: lk)
  obtain sn where sn: "new_serial (sample_at xe) v = (Inr sn, advance v)" using sample_serial [where xe = xe] by blast
  have pub: "public_of sample_key = Ed25519Key sample_pub" by (simp add: sample_key_def)
  define tmpl where "tmpl = ca_template sn (NamedSubject (''acme'' @ '' Issuing CA'') [''MnemoCA''] [''acme''])
    (1000000000 * int (tick (advance v)) - five_minutes) (xc_not_after (crt_x509 rc) - one_day) True"
  obtain c u where c: "create_certificate (sample_at xe) tmpl (Some rc) (Ed25519Key sample_pub) sample_key Ed25519 (advance (advance v)) = (Inr c, u)"
      "later (advance (advance v)) u" "crt_pub_alg c = Ed25519"
    using sample_create [where xe = xe] by blast
  have i: "issue_ca (sample_at xe) store_manager ''acme'' ''acme'' Ed25519 (ri_key_ref ri) (ri_cert_pem ri) ''tenants/acme/issuing'' w3
      = (Inr (ref, encode_certificate_pem (sample_at xe) c), u)"
    using c(1) by (simp add: issue_ca_def ebind_apply rc o store_manager_ok g sn sample_clock pub tmpl_def del: backend_generate.simps)
  define t where "t = \<lparr>tn_id = ''acme'', tn_name = ''acme'', tn_created_at = 1000000000 * int (tick (advance (advance w))), tn_alg = Ed25519,
          tn_key_ref = ref, tn_cert_pem = encode_certificate_pem (sample_at xe) c, tn_pair_alg = [], tn_pair_key_ref = [], tn_pair_cert_pem = [],
          tn_profiles = default_profiles\<rparr>"
  have run: "create_tenant (sample_at xe) store_manager ''acme'' [] [] False system_actor w =
      (Inr t, set_doc (advance u) tenants_bucket ''acme'' (tenant_json t))"
    using i by (simp add: create_tenant_def tid n r ebind_apply Let_def root(2) sample_clock wrap_err_apply w3_def [symmetric] add_pair_ca_def
        put_json_Inr put_ok store_manager_ok t_def) (simp add: ebind_apply put_json_def put_ok t_def)
  have lu: "lookup u p k = (if (p, k) = (keys_bucket, ''tenants/acme/issuing'') then Some d else lookup w p k)" for p k
    using c(2) l by (simp add: later_def lk)
  have "holds_key (sample_at xe) (mg_signers store_manager) v ref sample_signer_ed"
    using generated_holds [OF sample_libs_ok g] by (simp add: registered_def store_manager_def)
  then have "holds_key (sample_at xe) (mg_signers store_manager) (set_doc (advance u) tenants_bucket ''acme'' (tenant_json t)) ref sample_signer_ed"
    by (rule store_holds) (use l lu in \<open>simp add: lookup_set_doc lk split: if_splits\<close>)
  moreover have "parse_certificate_pem (sample_at xe) (encode_certificate_pem (sample_at xe) c) = Inr c"
    by (rule pem_created [OF sample_pem_laws c(1)])
  ultimately show ?thesis
    using run c(3) lu
    by (intro exI [of _ t] exI [of _ "set_doc (advance u) tenants_bucket ''acme'' (tenant_json t)"] conjI allI impI)
      (simp_all add: t_def lookup_set_doc)
qed

theorem create_tenant_ready_witness:
  "\<exists>ri w t w'. init_root sample_env store_manager sample_options empty_world = (Inr ri, w) \<and>
     create_tenant sample_env store_manager ''acme'' [] [] False system_actor w = (Inr t, w') \<and>
     tenant_ok sample_env (mg_signers store_manager) w' ri t"
proof -
  obtain ri w rc where r: "init_root sample_env store_manager sample_options empty_world = (Inr ri, w)"
    and n: "\<And>p k. p \<notin> {keys_bucket, meta_bucket} \<Longrightarrow> lookup w p k = None"
      "\<And>l. l \<notin> {''root/primary'', ''root/audit''} \<Longrightarrow> lookup w keys_bucket l = None"
    and k: "holds_key sample_env (mg_signers store_manager) w (ri_key_ref ri) sample_signer_ed" "ri_alg ri = Ed25519"
    and rc: "parse_certificate_pem sample_env (ri_cert_pem ri) = Inr rc" "crt_alg rc = Ed25519"
    by (rule sample_init [where xe = "()"]) metis
  have f: "lookup w tenants_bucket ''acme'' = None" "lookup w keys_bucket ''tenants/acme/issuing'' = None"
    by (rule n, simp)+
  have ok: "lookup w meta_bucket root_key = Some (root_info_json ri)" "root_ok sample_env (mg_signers store_manager) w ri"
    using init_root_sound [OF sample_libs_ok store_manager_ok(1) r] by blast+
  obtain t w' where t: "create_tenant sample_env store_manager ''acme'' [] [] False system_actor w = (Inr t, w')"
    using sample_tenant_run [OF f ok(1) k(2,1) rc] by blast
  with create_tenant_ready [OF sample_libs_ok store_manager_ok(1) ok t] r show ?thesis by blast
qed

end
