(* ===== verification/Ca_Issue_Samples.thy ===== *)
theory Ca_Issue_Samples
  imports Ca_Samples Ca_Publish
begin

text \<open>
  The sample instance at work: its tenant issues a certificate, revokes it and publishes a list.
\<close>

definition acme :: string where "acme = ''acme''"

lemma sample_ca:
  obtains ri t w c rc where "lookup w meta_bucket root_key = Some (root_info_json ri)"
    and "lookup w tenants_bucket acme = Some (tenant_json t)" "tenant_of (tenant_json t) = Some t" "tn_id t = acme"
    and "tn_profiles t = default_profiles" "tn_pair_alg t = []"
    and "tenant_ok (sample_at xe) (mg_signers store_manager) w ri t"
    and "holds_key (sample_at xe) (mg_signers store_manager) w (tn_key_ref t) sample_signer_ed"
    and "parse_certificate_pem (sample_at xe) (tn_cert_pem t) = Inr c" "crt_pub_alg c = Ed25519"
    and "parse_certificate_pem (sample_at xe) (ri_cert_pem ri) = Inr rc"
    and "\<And>s k. lookup w (certs_bucket s) k = None"
proof -
  obtain ri w rc where r: "init_root (sample_at xe) store_manager sample_options empty_world = (Inr ri, w)"
    and n: "\<And>p k. p \<notin> {keys_bucket, meta_bucket} \<Longrightarrow> lookup w p k = None"
      "\<And>l. l \<notin> {''root/primary'', ''root/audit''} \<Longrightarrow> lookup w keys_bucket l = None"
    and k: "holds_key (sample_at xe) (mg_signers store_manager) w (ri_key_ref ri) sample_signer_ed" "ri_alg ri = Ed25519"
    and rc: "parse_certificate_pem (sample_at xe) (ri_cert_pem ri) = Inr rc" "crt_alg rc = Ed25519"
    by (rule sample_init [where xe = xe]) metis
  have f: "lookup w tenants_bucket ''acme'' = None" "lookup w keys_bucket ''tenants/acme/issuing'' = None"
    by (rule n, simp)+
  have ok: "lookup w meta_bucket root_key = Some (root_info_json ri)" "root_ok (sample_at xe) (mg_signers store_manager) w ri"
    using init_root_sound [OF sample_libs_ok store_manager_ok(1) r] by blast+
  from sample_tenant_run [OF f ok(1) k(2,1) rc] obtain t w' c where
    t: "create_tenant (sample_at xe) store_manager ''acme'' [] [] False system_actor w = (Inr t, w')"
      "tn_id t = ''acme''" "tn_profiles t = default_profiles"
      "holds_key (sample_at xe) (mg_signers store_manager) w' (tn_key_ref t) sample_signer_ed"
      "parse_certificate_pem (sample_at xe) (tn_cert_pem t) = Inr c" "crt_pub_alg c = Ed25519"
    and frame: "\<forall>p k. p \<notin> {keys_bucket, tenants_bucket} \<longrightarrow> lookup w' p k = lookup w p k"
    by (elim exE conjE) (rule that; assumption)
  note sound = create_tenant_sound [OF sample_libs_ok store_manager_ok(1) ok t(1)]
  have pair: "tn_pair_alg t = []" using t(1) by (auto simp: create_tenant_def add_pair_ca_def act_elims Let_def split: if_splits)
  have wf: "tenant_of (tenant_json t) = Some t" by (rule tenant_of_json) (simp add: t(3) default_profiles_def)
  show thesis
  proof (rule that [of w' ri t c rc])
    show "lookup w' meta_bucket root_key = Some (root_info_json ri)" using frame ok(1) by simp
    show "lookup w' (certs_bucket s) k = None" for s k using frame n(1) [of "certs_bucket s" k] by simp
  qed (use sound t wf pair rc in \<open>simp_all add: acme_def\<close>)
qed

definition sample_leaf_csr :: cert_request where
  "sample_leaf_csr = \<lparr>csr_raw = [], csr_cn = ''leaf'', csr_raw_subject = ''cn=leaf'', csr_pub = Ed25519Key sample_pub,
     csr_pub_alg = Ed25519, csr_alg = Ed25519, csr_dns = [''a.example''], csr_emails = [], csr_ips = [], csr_uris = [],
     csr_extensions = [], csr_cri = ''cri'', csr_sig = ''scri''\<rparr>"

definition sample_request :: "chain \<Rightarrow> issue_request" where
  "sample_request c = \<lparr>iq_tenant = acme, iq_profile = [], iq_csr = Some sample_leaf_csr, iq_validity = 0, iq_chain = c,
     iq_experimental = False, iq_actor = system_actor\<rparr>"

definition default_profile :: profile where
  "default_profile = snd (hd default_profiles)"

lemma sample_checks:
  "tn_profiles t = default_profiles \<Longrightarrow> select_profile t [] = Inr default_profile"
  "check_request (sample_at xe) default_profile (Some sample_leaf_csr) False = Inr sample_leaf_csr"
  "wf_pub (sample_at xe) (csr_pub sample_leaf_csr)" "target_chains t (select_chain default_profile []) = Inr [chain_primary]"
  "key_usage default_profile = Inr 1" "\<exists>e. ext_key_usages default_profile = Inr e"
proof -
  show "tn_profiles t = default_profiles \<Longrightarrow> select_profile t [] = Inr default_profile"
    by (simp add: select_profile_def default_profiles_def default_profile_def Let_def)
  have "verify_signature (sample_at xe) (Ed25519Key sample_pub) Ed25519 ''cri'' ''scri'' = Inr ()"
    by (simp add: verify_signature_def sample_env_def alg_defs)
  then show "check_request (sample_at xe) default_profile (Some sample_leaf_csr) False = Inr sample_leaf_csr"
    by (simp add: check_request_def sample_leaf_csr_def csr_check_signature_def default_profile_def default_profiles_def plain_info_def)
qed (simp_all add: sample_leaf_csr_def wf_pub_def target_chains_def select_chain_def default_profile_def default_profiles_def
    key_usage_def ext_key_usages_def ku_digital_signature_def)

lemma sample_issue_run:
  assumes root: "lookup w meta_bucket root_key = Some (root_info_json ri)" "parse_certificate_pem (sample_at xe) (ri_cert_pem ri) = Inr rc"
    and ten: "lookup w tenants_bucket acme = Some (tenant_json t)" "tenant_of (tenant_json t) = Some t" "tn_profiles t = default_profiles"
    and key: "holds_key (sample_at xe) (mg_signers store_manager) w (tn_key_ref t) sample_signer_ed"
      "parse_certificate_pem (sample_at xe) (tn_cert_pem t) = Inr c" "crt_pub_alg c = Ed25519"
  shows "\<exists>i w'. issue (sample_at xe) store_manager (sample_request []) w = (Inr [i], w')"
proof -
  define v where "v = advance (advance w)"
  have g: "get_tenant (sample_at xe) acme w = (Inr t, advance w)"
    using ten by (simp add: get_tenant_def wrap_err_Inr_iff get_json_Inr)
  have r: "root (sample_at xe) (advance w) = (Inr ri, v)"
    using root(1) by (simp add: root_def wrap_err_Inr_iff get_json_Inr v_def)
  have "holds_key (sample_at xe) (mg_signers store_manager) v (tn_key_ref t) sample_signer_ed"
    by (rule store_holds [OF key(1)]) (simp add: v_def)
  then have o: "registry_open (sample_at xe) (mg_signers store_manager) (tn_key_ref t) v = (Inr sample_signer_ed, advance v)"
    by (rule holds_key_opens) simp
  obtain n where n: "new_serial (sample_at xe) (advance v) = (Inr n, advance (advance v))" using sample_serial [where xe = xe] by blast
  obtain e where e: "ext_key_usages default_profile = Inr e" using sample_checks(6) by blast
  let ?t = "1000000000 * int (Suc (Suc (tick v)))" and ?u = "1000000000 * int (Suc (Suc (Suc (tick v))))"
  let ?v = "clamp_validity default_profile 0"
  obtain x u where x: "create_certificate (sample_at xe) (leaf_template n sample_leaf_csr (?t - five_minutes) (?u + ?v) 1 e)
      (Some c) (Ed25519Key sample_pub) sample_key Ed25519 (advance (advance (advance (advance v)))) = (Inr x, u)"
    using sample_create [where xe = xe] by blast
  have pub: "csr_pub sample_leaf_csr = Ed25519Key sample_pub" by (simp add: sample_leaf_csr_def)
  have leaf: "issue_leaf (sample_at xe) store_manager t ri default_profile sample_leaf_csr chain_primary ?v v = (Inr (n, x, c, rc), u)"
    using x by (simp add: issue_leaf_def issuing_part_def ebind_apply key(2,3) root(2) o n e sample_checks(5) sample_clock pub wrap_err_apply)
  let ?r = "leaf_record (sample_at xe) t default_profile sample_leaf_csr chain_primary n x"
  have put: "put_json (sample_at xe) cert_record_json (certs_bucket (tn_id t)) (cr_serial ?r) ?r u =
      (Inr (), set_doc (advance u) (certs_bucket (tn_id t)) (cr_serial ?r) (cert_record_json ?r))"
    by (simp add: put_json_Inr)
  have "\<exists>i w'. issue_one (sample_at xe) store_manager t ri default_profile sample_leaf_csr system_actor chain_primary ?v v = (Inr i, w')"
    by (simp add: issue_one_def ecase_apply leaf Let_def put store_manager_ok)
  then show ?thesis
    by (auto simp: issue_def sample_request_def ebind_apply g ten(3) sample_checks r ecase_apply)
qed

text \<open>The instance before and after the issuance.\<close>

lemma sample_issued:
  obtains ri t w c i w' where "lookup w meta_bucket root_key = Some (root_info_json ri)"
    and "lookup w tenants_bucket (iq_tenant (sample_request x)) = Some (tenant_json t)" "tenant_of (tenant_json t) = Some t"
    and "tenant_ok (sample_at xe) (mg_signers store_manager) w ri t" "iq_csr (sample_request x) = Some sample_leaf_csr"
    and "wf_pub (sample_at xe) (csr_pub sample_leaf_csr)"
    and "issue (sample_at xe) store_manager (sample_request []) w = (Inr [i], w')"
    and "tn_id t = acme" "tn_profiles t = default_profiles" "tn_pair_alg t = []"
    and "holds_key (sample_at xe) (mg_signers store_manager) w (tn_key_ref t) sample_signer_ed"
    and "parse_certificate_pem (sample_at xe) (tn_cert_pem t) = Inr c" "crt_pub_alg c = Ed25519"
    and "\<And>s k. lookup w (certs_bucket s) k = None"
proof (rule sample_ca [where xe = xe])
  fix ri t w c rc
  assume s: "lookup w meta_bucket root_key = Some (root_info_json ri)"
    "lookup w tenants_bucket acme = Some (tenant_json t)" "tenant_of (tenant_json t) = Some t" "tn_id t = acme"
    "tn_profiles t = default_profiles" "tn_pair_alg t = []" "tenant_ok (sample_at xe) (mg_signers store_manager) w ri t"
    "holds_key (sample_at xe) (mg_signers store_manager) w (tn_key_ref t) sample_signer_ed"
    "parse_certificate_pem (sample_at xe) (tn_cert_pem t) = Inr c" "crt_pub_alg c = Ed25519"
    "parse_certificate_pem (sample_at xe) (ri_cert_pem ri) = Inr rc" and none: "\<And>s k. lookup w (certs_bucket s) k = None"
  obtain i w' where i: "issue (sample_at xe) store_manager (sample_request []) w = (Inr [i], w')"
    using sample_issue_run [OF s(1,11,2,3,5,8-10)] by blast
  show thesis
    by (rule that [OF s(1) _ s(3,7) _ sample_checks(3) i s(4-6,8-10) none]) (simp_all add: sample_request_def s(2))
qed

theorem issue_complete_witness:
  "\<exists>w i w'. issue sample_env store_manager (sample_request []) w = (Inr [i], w') \<and> leaf_good sample_env sample_leaf_csr i \<and>
     lookup w' (certs_bucket acme) (issued_serial i) \<noteq> None"
proof -
  obtain ri t w i w' where s: "lookup w meta_bucket root_key = Some (root_info_json ri)"
    "lookup w tenants_bucket (iq_tenant (sample_request [])) = Some (tenant_json t)" "tenant_of (tenant_json t) = Some t"
    "tenant_ok sample_env (mg_signers store_manager) w ri t" "iq_csr (sample_request []) = Some sample_leaf_csr"
    "wf_pub sample_env (csr_pub sample_leaf_csr)" and run: "issue sample_env store_manager (sample_request []) w = (Inr [i], w')"
    and t: "tn_id t = acme" by (rule sample_issued [where xe = "()"])
  have "leaf_good sample_env sample_leaf_csr i \<and> lookup w' (certs_bucket acme) (issued_serial i) \<noteq> None"
    using issue_complete [OF sample_libs_ok s run] t by (auto simp: leaf_recorded_def)
  with run show ?thesis by blast
qed

theorem validity_bounded_witness:
  "\<exists>w i w' k. issue sample_env store_manager (sample_request []) w = (Inr [i], w') \<and> tick w \<le> k \<and>
     xc_not_after (crt_x509 (is_cert i)) = sec_floor (now_at sample_env k + 30 * one_day)"
proof -
  obtain ri t w i w' where s: "lookup w meta_bucket root_key = Some (root_info_json ri)"
    "lookup w tenants_bucket (iq_tenant (sample_request [])) = Some (tenant_json t)" "tenant_of (tenant_json t) = Some t"
    "tenant_ok sample_env (mg_signers store_manager) w ri t" "iq_csr (sample_request []) = Some sample_leaf_csr"
    "wf_pub sample_env (csr_pub sample_leaf_csr)" and run: "issue sample_env store_manager (sample_request []) w = (Inr [i], w')"
    and t: "tn_profiles t = default_profiles" by (rule sample_issued [where xe = "()"])
  have p: "select_profile t (iq_profile (sample_request [])) = Inr default_profile"
    using sample_checks(1) [OF t] by (simp add: sample_request_def)
  have "i \<in> set [i]" by simp
  from validity_bounded [OF sample_libs_ok s run this p] run show ?thesis
    by (auto simp: sample_request_def default_profile_def default_profiles_def one_day_def)
qed


section \<open>Revocation and publication\<close>

lemma sample_revoke:
  assumes "lookup w (certs_bucket tenant) serial = Some (cert_record_json r)" "\<not> cr_revoked r"
  shows "revoke (sample_at xe) store_manager tenant serial 1 system_actor w = (Inr (), set_doc (advance (advance w)) (certs_bucket tenant) serial
     (cert_record_json (revoked_record r (1000000000 * int (Suc (tick w))) 1)))"
proof -
  have "mark_revoked (sample_at xe) serial 1 r (advance w) = (Inr (revoked_record r (1000000000 * int (Suc (tick w))) 1), advance (advance w))"
    using assms(2) by (simp add: mark_revoked_def ebind_apply sample_clock revoked_record_def)
  then show ?thesis
    using assms(1) by (simp add: revoke_def ebind_apply wrap_err_apply update_json_Inr store_manager_ok)
       (simp add: update_json_def update_json_out_def update_out_def effect_def Let_def ebind_apply decode_def)
qed

definition sample_record :: cert_record where
  "sample_record = zero_record\<lparr>cr_serial := ''7'', cr_chain := chain_primary\<rparr>"

definition record_world :: world where
  "record_world = set_doc empty_world (certs_bucket acme) ''7'' (cert_record_json sample_record)"

theorem revoke_once_witness:
  "\<exists>w. revoke sample_env store_manager acme ''7'' 1 system_actor record_world = (Inr (), w) \<and> newly_revoked sample_env record_world w acme ''7'' 1"
proof -
  have "lookup record_world (certs_bucket acme) ''7'' = Some (cert_record_json sample_record)" "\<not> cr_revoked sample_record"
    by (simp_all add: record_world_def lookup_set_doc sample_record_def zero_record_def)
  note run = sample_revoke [OF this, of "()"]
  from run revoke_once [OF run] show ?thesis by blast
qed

theorem revocation_permanent_witness:
  "\<exists>w w'. ca_step sample_env store_manager w w' \<and> revoked_in acme ''x'' w \<and> revoked_in acme ''x'' w'"
proof -
  define w where "w = set_doc record_world (certs_bucket acme) ''x'' (cert_record_json (sample_record\<lparr>cr_revoked := True\<rparr>))"
  have w: "revoked_in acme ''x'' w" by (auto simp: revoked_in_def w_def lookup_set_doc)
  have "lookup w (certs_bucket acme) ''7'' = Some (cert_record_json sample_record)" "\<not> cr_revoked sample_record"
    by (simp_all add: w_def record_world_def lookup_set_doc sample_record_def zero_record_def)
  from ca_step.revoke [OF sample_revoke [OF this, of "()"]] obtain w' where step: "ca_step sample_env store_manager w w'" by blast
  then have steps: "(ca_step sample_env store_manager)\<^sup>*\<^sup>* w w'" by (rule r_into_rtranclp)
  have "CHR ''x'' \<notin> set (dec n)" for n using dec_digits [of "CHR ''x''" n] by auto
  then have "\<forall>k \<ge> tick w. dec (drawn sample_env k) \<noteq> ''x''" by (metis list.set_intros(1))
  from revocation_permanent [OF steps w this] step w show ?thesis by blast
qed

text \<open>Signing a list with an Ed25519 key.\<close>

lemma sample_create_crl:
  "\<exists>c v. create_crl (sample_at xe) issuer sample_key Ed25519 revoked n th nx w = (Inr c, v)"
proof -
  define i where "i = plain_info Ed25519 [1, 3, 101, 112] NoHash"
  have i: "lookup_alg Ed25519 = Inr i" by (simp add: i_def)
  have nk: "\<not> i_key_only i" by (simp add: i_def plain_info_def)
  define t where "t = \<lparr>tcl_sig_oid = i_oid i, tcl_issuer = xc_raw_subject (crt_x509 issuer), tcl_this = th, tcl_next = nx,
     tcl_revoked = map (write_entry (sample_at xe)) revoked,
     tcl_exts = [(oid_extension_aki, aki_der (sample_at xe) (xc_ski (crt_x509 issuer))), (oid_extension_crl_number, asn1_int (sample_at xe) n)]\<rparr>"
  obtain sg v where sg: "sign_tbs (sample_at xe) sample_key Ed25519 (crl_tbs_der (sample_at xe) t) w = (Inr sg, v)"
    by (simp add: sign_tbs_def sample_key_def plain_info_def ebind_apply prim_sign_def) (simp add: sample_env_def)
  have "crl_outer (sample_at xe) (crl_der (sample_at xe) (crl_tbs_der (sample_at xe) t) (i_oid i) sg) = Some (crl_tbs_der (sample_at xe) t, i_oid i, sg, [])"
    by (simp add: sample_env_def unpack_signed_def pack_signed_def del: pack.simps)
  moreover have "\<exists>t'. crl_tbs_parse (sample_at xe) (crl_tbs_der (sample_at xe) t) = Some t'"
    by (simp add: sample_env_def unpack_tcl_def pack_tcl_def del: pack.simps)
  then obtain t' where t': "crl_tbs_parse (sample_at xe) (crl_tbs_der (sample_at xe) t) = Some t'" by blast
  moreover have "t' = t\<lparr>tcl_this := sec_floor (tcl_this t), tcl_next := sec_floor (tcl_next t),
      tcl_revoked := map (\<lambda>(s, u, x). (s, sec_floor u, x)) (tcl_revoked t)\<rparr>"
    using sample_crl_laws [where xe = xe] t' unfolding crl_laws_def by blast
  then have "tcl_exts t' = tcl_exts t" by simp
  then have "sfold (read_number (sample_at xe)) None (tcl_exts t') = Inr (Some n)"
    using read_numbers [OF sample_crl_laws [where xe = xe]] by (simp add: t_def)
  ultimately have "\<exists>c. parse_crl (sample_at xe) (crl_der (sample_at xe) (crl_tbs_der (sample_at xe) t) (i_oid i) sg) = Inr c"
    using by_oid_lookup [OF i nk] by (simp add: parse_crl_def)
  moreover have "signature_algorithm_identifier Ed25519 = Inr (i_oid i)" by (simp add: signature_algorithm_identifier_def i_def)
  ultimately show ?thesis
    using sg by (auto simp: create_crl_def ebind_apply Let_def t_def wrap_err_apply)
qed

lemma single_bucket:
  assumes "\<And>k. lookup w p k = (if k = l then Some d else None)"
  shows "bucket w p = [(l, d)]"
proof -
  have "keys_of w p = [l]"
    by (rule sorted_distinct_set_unique) (use assms in \<open>auto simp: mem_keys_of split: if_splits\<close>)
  then show ?thesis by (simp add: bucket_def assms)
qed

lemma sample_revoked_state:
  obtains ri t w0 w c where "revoke (sample_at xe) store_manager acme ''7'' 1 system_actor w0 = (Inr (), w)"
    and "\<exists>r. lookup w (certs_bucket acme) ''7'' = Some (cert_record_json r) \<and> cr_serial r = dec 7 \<and> cr_chain r = chain_or_primary []"
    and "lookup w tenants_bucket acme = Some (tenant_json t)" "tenant_of (tenant_json t) = Some t"
    and "tenant_ok (sample_at xe) (mg_signers store_manager) w ri t"
    and "build_crl (sample_at xe) store_manager acme [] system_actor w = (Inr (fst c), snd c)"
proof (rule sample_ca [where xe = xe])
  fix ri t v c rc
  assume s: "lookup v meta_bucket root_key = Some (root_info_json ri)"
    "lookup v tenants_bucket acme = Some (tenant_json t)" "tenant_of (tenant_json t) = Some t" "tn_id t = acme"
    "tn_profiles t = default_profiles" "tn_pair_alg t = []" "tenant_ok (sample_at xe) (mg_signers store_manager) v ri t"
    "holds_key (sample_at xe) (mg_signers store_manager) v (tn_key_ref t) sample_signer_ed"
    "parse_certificate_pem (sample_at xe) (tn_cert_pem t) = Inr c" "crt_pub_alg c = Ed25519"
    and none: "\<And>s k. lookup v (certs_bucket s) k = None"
  define w0 where "w0 = set_doc v (certs_bucket acme) ''7'' (cert_record_json sample_record)"
  define r where "r = revoked_record sample_record (1000000000 * int (Suc (tick w0))) 1"
  define w where "w = set_doc (advance (advance w0)) (certs_bucket acme) ''7'' (cert_record_json r)"
  have rev: "revoke (sample_at xe) store_manager acme ''7'' 1 system_actor w0 = (Inr (), w)"
    unfolding w_def r_def by (rule sample_revoke) (simp_all add: w0_def lookup_set_doc sample_record_def zero_record_def)
  have seven: "dec 7 = ''7''" by (simp add: dec.simps digit_def char_of_def bit_iff_odd)
  have lw: "lookup w b k = (if b = certs_bucket acme \<and> k = ''7'' then Some (cert_record_json r) else lookup v b k)" for b k
    by (simp add: w_def w0_def lookup_set_doc)
  have k0: "keeps_keys v w0" unfolding w0_def by (rule keeps_certs_doc)
  have k1: "keeps_keys w0 w" unfolding w_def
    by (rule keeps_keys.contract_trans [OF keeps_keys.contract_trans [OF keeps_keys.advance_ok keeps_keys.advance_ok] keeps_certs_doc])
  have keep: "keeps_keys v w" using k0 k1 by (rule keeps_keys.contract_trans)
  have key: "holds_key (sample_at xe) (mg_signers store_manager) (advance w) (tn_key_ref t) sample_signer_ed"
    by (rule holds_key_kept [OF keeps_keys.contract_trans [OF keep keeps_keys.advance_ok] s(8)])
  have o: "registry_open (sample_at xe) (mg_signers store_manager) (tn_key_ref t) (advance w) = (Inr sample_signer_ed, advance (advance w))"
    by (rule holds_key_opens [OF key]) simp
  have g: "get_tenant (sample_at xe) acme w = (Inr t, advance w)"
    using s(2,3) lw by (simp add: get_tenant_def wrap_err_Inr_iff get_json_Inr)
  define u where "u = advance (advance w)"
  have b: "bucket u (certs_bucket acme) = [(''7'', cert_record_json r)]"
    by (rule single_bucket) (simp add: u_def lw none)
  have e: "for_each_json (sample_at xe) cert_record_of (certs_bucket acme) (collect_revoked []) [] u = (Inr [crl_entry r], advance u)"
    using parse_serial_dec [of 7] by (simp add: for_each_json_Inr b collect_revoked_def seven crl_entry_def)
      (simp add: r_def sample_record_def zero_record_def revoked_record_def chain_or_primary_def)
  obtain num u2 where q: "next_seq (sample_at xe) (crl_bucket acme) (advance u) = (Inr num, u2)"
    by (simp add: next_seq_Inr)
  obtain x u3 where x: "create_crl (sample_at xe) c sample_key Ed25519 [crl_entry r] (uint num) (1000000000 * int (tick u2))
      (1000000000 * int (Suc (tick u2)) + one_day) (advance (advance u2)) = (Inr x, u3)" using sample_create_crl [where xe = xe] by blast
  have run: "build_crl (sample_at xe) store_manager acme [] system_actor w = (Inr x, u3)"
    using x by (simp add: build_crl_def ebind_apply g crl_issuer_def chain_pair_def s(9,10) o u_def [symmetric] e q sample_clock store_manager_ok)
  show thesis
  proof (rule that [OF rev _ _ s(3) tenant_ok_kept [OF keep s(7)], of "(x, u3)"])
    show "\<exists>r. lookup w (certs_bucket acme) ''7'' = Some (cert_record_json r) \<and> cr_serial r = dec 7 \<and> cr_chain r = chain_or_primary []"
      by (intro exI [of _ r]) (simp add: lw seven r_def revoked_record_def sample_record_def chain_or_primary_def)
  qed (use lw s(2) run in simp_all)
qed

theorem crl_lists_exactly_witness:
  "\<exists>w c w'. build_crl sample_env store_manager acme [] system_actor w = (Inr c, w') \<and> length (crl_revoked c) =
     length (filter (\<lambda>r. cr_revoked r \<and> cr_chain r = chain_primary)
       (map snd (the (decode_all cert_record_of (bucket w (certs_bucket acme))))))"
proof -
  obtain ri t w0 w c where s: "lookup w tenants_bucket acme = Some (tenant_json t)" "tenant_of (tenant_json t) = Some t"
    "tenant_ok sample_env (mg_signers store_manager) w ri t"
    and run: "build_crl sample_env store_manager acme [] system_actor w = (Inr (fst c), snd c)" by (rule sample_revoked_state [where xe = "()"])
  have l: "listed [] = (\<lambda>r. cr_revoked r \<and> cr_chain r = chain_primary)" by (simp add: listed_def chain_or_primary_def fun_eq_iff)
  from crl_lists_exactly [OF sample_libs_ok s run] obtain kvs where
    "decode_all cert_record_of (bucket w (certs_bucket acme)) = Some kvs"
    "crl_revoked (fst c) = map (in_seconds \<circ> crl_entry) (filter (listed []) (map snd kvs))" by (elim exE conjE) (rule that)
  then have "length (crl_revoked (fst c)) = length (filter (\<lambda>r. cr_revoked r \<and> cr_chain r = chain_primary)
       (map snd (the (decode_all cert_record_of (bucket w (certs_bucket acme))))))" by (simp only: l length_map option.sel)
  with run show ?thesis by blast
qed


end
