(* ===== verification/Api_Access.thy ===== *)
theory Api_Access
  imports Api_Handlers
begin

text \<open>
  Who may do what through the API: minted tokens open exactly their key, requests without a key
  change nothing behind the protected routes, and a tenant key reaches only its tenant.
\<close>

section \<open>Tokens\<close>

lemma hex_no_underscore: "CHR ''_'' \<notin> set (hex_encode s)"
  by (auto dest!: hex_encode_chars simp: lower_hex_char_def)

lemma token_not_space: "c \<in> set (token_of (hex_encode a) (hex_encode b)) \<Longrightarrow> \<not> is_space c"
  by (auto simp: token_of_def key_prefix_def is_space_def dest!: hex_encode_chars lower_hex_not_space [unfolded is_space_def])

lemma token_of_cut: "cut_prefix (token_of kid secret) key_prefix = Some (kid @ CHR ''_'' # secret)"
  by (simp add: token_of_def)

lemma token_parts_of:
  "token_parts (''Bearer '' @ token_of (hex_encode a) (hex_encode b)) = Some (hex_encode a, hex_encode b)"
proof -
  have t: "trim_space (token_of (hex_encode a) (hex_encode b)) = token_of (hex_encode a) (hex_encode b)"
    by (rule trim_space_id) (rule token_not_space)
  have c: "cut_prefix (''Bearer '' @ token_of (hex_encode a) (hex_encode b)) ''Bearer '' = Some (token_of (hex_encode a) (hex_encode b))"
    by (rule cut_prefix_append)
  show ?thesis unfolding token_parts_def c by (simp add: t token_of_cut cut_at_append hex_no_underscore)
qed

lemma parse_key_of:
  assumes "length a = key_id_bytes" and "length b = key_secret_bytes"
  shows "parse_key (token_of (hex_encode a) (hex_encode b)) = Inr (hex_encode a, hex_encode b)"
proof -
  have "is_lower_hex (hex_encode s)" for s by (auto simp: is_lower_hex_def list_all_iff dest: hex_encode_chars)
  then show ?thesis using assms by (simp add: parse_key_def token_of_cut cut_at_append hex_no_underscore)
qed

lemma parse_key_Inr: "parse_key t = Inr (kid, secret) \<Longrightarrow> t = token_of kid secret \<and> is_lower_hex kid \<and> is_lower_hex secret \<and>
    length kid = 2 * key_id_bytes \<and> length secret = 2 * key_secret_bytes"
  by (auto simp: parse_key_def token_of_def cut_prefix_Some cut_at_Some split: option.splits if_splits)

lemma authenticate_Inr:
  "authenticate E header w = (Inr k, w') \<longleftrightarrow> (\<exists>kid secret d. token_parts header = Some (kid, secret) \<and>
     fault_at E (tick w) = NoFault \<and> w' = advance w \<and> lookup w api_keys_bucket kid = Some d \<and> api_key_of d = Some k \<and>
     hex_decode (ak_hash k) = Some (sha256 E secret))"
  by (auto simp: authenticate_def act_elims api_keys_bucket_def split: option.splits if_splits)

lemma authenticate_world: "authenticate E header w = (r, w') \<Longrightarrow> w' = w \<or> w' = advance w"
  using get_json_world [of E api_key_of api_keys_bucket "fst (the (token_parts header))" w]
  by (auto simp: authenticate_def act_simps split: option.splits prod.splits sum.splits if_splits)

lemma authenticate_lookup: "authenticate E header w = (r, w') \<Longrightarrow> lookup w' p kid = lookup w p kid"
  using authenticate_world by fastforce

lemma create_key_Inr:
  assumes "create_key E role tenant w = (Inr (token, k), w')"
  obtains a b where "token = token_of (hex_encode a) (hex_encode b)" "length a = key_id_bytes" "length b = key_secret_bytes"
    "ak_id k = hex_encode a" "ak_hash k = hex_encode (sha256 E (hex_encode b))" "ak_role k = role" "ak_tenant k = tenant"
  using assms by (auto simp: create_key_def mint_key_def new_key_record_def act_elims clock_Inr dest!: length_rand_read intro: that)

text \<open>
  Claim C35: a token that a creation returned parses and authenticates as the key that was created,
  with its role and tenant, whenever that key is still stored and the store answers; and nothing
  authenticates as that key but a token with its id and a secret of the same hash.
\<close>

theorem token_opens_its_key:
  assumes new: "create_key E role tenant w = (Inr (token, k), w')"
    and stored: "lookup u api_keys_bucket (ak_id k) = Some (api_key_json k)" and up: "fault_at E (tick u) = NoFault"
  shows "authenticate E (''Bearer '' @ token) u = (Inr k, advance u) \<and> ak_role k = role \<and> ak_tenant k = tenant \<and>
    (\<exists>secret. parse_key token = Inr (ak_id k, secret) \<and>
      (\<forall>header k' u'. authenticate E header u = (Inr k', u') \<longrightarrow> token_parts header \<noteq> None \<longrightarrow> fst (the (token_parts header)) = ak_id k \<longrightarrow>
         sha256 E (snd (the (token_parts header))) = sha256 E secret))"
proof -
  obtain a b where t: "token = token_of (hex_encode a) (hex_encode b)" "length a = key_id_bytes" "length b = key_secret_bytes"
    "ak_id k = hex_encode a" "ak_hash k = hex_encode (sha256 E (hex_encode b))" "ak_role k = role" "ak_tenant k = tenant"
    using new by (rule create_key_Inr)
  have "authenticate E (''Bearer '' @ token) u = (Inr k, advance u)"
    using stored up unfolding authenticate_Inr t(1) token_parts_of by (simp add: t(4,5))
  moreover have "parse_key token = Inr (ak_id k, hex_encode b)" using parse_key_of [OF t(2,3)] by (simp add: t(1,4))
  moreover have "sha256 E (snd (the (token_parts header))) = sha256 E (hex_encode b)"
    if "authenticate E header u = (Inr k', u')" "fst (the (token_parts header)) = ak_id k" for header k' u'
  proof -
    have "hex_decode (ak_hash k) = Some (sha256 E (snd (the (token_parts header))))"
      using that stored by (auto simp: authenticate_Inr)
    then show ?thesis by (simp add: t(5))
  qed
  ultimately show ?thesis using t(6,7) by blast
qed

section \<open>Routes and their checks\<close>

text \<open>The tenant an endpoint acts on, and the endpoints of operators.\<close>

fun tenant_of_endpoint :: "endpoint \<Rightarrow> string option" where
  "tenant_of_endpoint (GetTenant t) = Some t"
| "tenant_of_endpoint (Issue t) = Some t"
| "tenant_of_endpoint (Revoke t) = Some t"
| "tenant_of_endpoint (ListCertificates t) = Some t"
| "tenant_of_endpoint (ListProfiles t) = Some t"
| "tenant_of_endpoint (SetProfile t n) = Some t"
| "tenant_of_endpoint (DeleteProfile t n) = Some t"
| "tenant_of_endpoint _ = None"

definition operator_endpoint :: "endpoint \<Rightarrow> bool" where
  "operator_endpoint e \<longleftrightarrow> e \<in> {CreateTenant, ListTenants, CreateApiKey} \<or> (\<exists>i. e = RevokeApiKey i)"

definition protected :: "endpoint \<Rightarrow> bool" where
  "protected e \<longleftrightarrow> operator_endpoint e \<or> tenant_of_endpoint e \<noteq> None \<or> e = Algorithms"

text \<open>Documents outside the tenant and the log.\<close>

definition within :: "string \<Rightarrow> world \<Rightarrow> world \<Rightarrow> bool" where
  "within t w w' \<longleftrightarrow> (\<forall>p k. p \<notin> log_buckets \<longrightarrow> p \<noteq> certs_bucket t \<longrightarrow> (p, k) \<noteq> (tenants_bucket, t) \<longrightarrow> lookup w' p k = lookup w p k)"

interpretation within: world_contract "within t" for t
  by unfold_locales (auto simp: within_def)

lemma within_log: "steps (within t) (log_event E a r)"
  by (rule steps_mono [OF only_log_event]) (auto simp: within_def only_buckets_def)

lemma within_set [simp]: "within t w (set_doc w (certs_bucket t) k d)" "within t w (set_doc w tenants_bucket t d)"
  by (auto simp: within_def lookup_set_doc)

lemma within_revoke: "steps (within t) (revoke E m t serial reason who)"
  unfolding revoke_def mark_revoked_def by (intro within.store_rules within_log within_set)

lemma within_abandon: "steps (within t) (abandon_issued E m who t serials cause)"
  unfolding abandon_issued_def try_revoke_def by (intro within.world_rules within_log within_revoke)

lemma within_issue_one: "tn_id t = tid \<Longrightarrow> steps (within tid) (issue_one E m t ri p csr who target v)"
  unfolding issue_one_def Let_def by (intro within.store_rules within.steps_issue_leaf within_log) auto

lemma within_issue_targets: "tn_id t = tid \<Longrightarrow> steps (within tid) (issue_targets E m t ri p csr who v out targets)"
  by (induction targets arbitrary: out)
    (auto intro!: within.world_rules within_issue_one within_abandon split: issue_fail.split)

lemma within_profiles: "steps (within t) (set_profile E m t p who)" "steps (within t) (delete_profile E m t name who)"
  unfolding set_profile_def delete_profile_def put_profile_def drop_profile_def
  by (intro within.store_rules within_log within_set)+

lemma within_crl: "steps (within t) (build_crl E m tenant chain who)"
proof -
  have "steps (within t) (next_seq E p)" for p
    unfolding next_seq_def by (rule within.steps_effect) (simp add: steps_def Let_def within_def lookup_def)
  then show ?thesis unfolding build_crl_def get_tenant_def by (intro within.ca_rules within_log)
qed

text \<open>The document of a tenant carries the id it is stored under.\<close>

definition keyed :: "world \<Rightarrow> string \<Rightarrow> bool" where
  "keyed w t \<longleftrightarrow> (\<forall>d tn. lookup w tenants_bucket t = Some d \<longrightarrow> tenant_of d = Some tn \<longrightarrow> tn_id tn = t)"

lemma within_issue:
  assumes keyed: "keyed w (iq_tenant req)" and run: "issue E m req w = (r, w')"
  shows "within (iq_tenant req) w w'"
proof -
  obtain g v where g: "get_tenant E (iq_tenant req) w = (g, v)" by (cases "get_tenant E (iq_tenant req) w")
  have "steps (within (iq_tenant req)) (get_tenant E (iq_tenant req))"
    unfolding get_tenant_def by (intro within.store_rules)
  then have wv: "within (iq_tenant req) w v" using g by (rule stepsD)
  show ?thesis
  proof (cases g)
    case (Inl e)
    then show ?thesis using run wv by (simp add: issue_def ebind_apply g)
  next
    case (Inr t)
    then have id: "tn_id t = iq_tenant req" using g keyed by (auto simp: get_tenant_def act_elims keyed_def)
    have "steps (within (iq_tenant req)) (ebind (lift_sum (select_profile t (iq_profile req))) (\<lambda>p.
        ebind (lift_sum (check_request E p (iq_csr req) (iq_experimental req))) (\<lambda>csr.
        ebind (lift_sum (target_chains t (select_chain p (iq_chain req)))) (\<lambda>targets.
        ebind (root E) (\<lambda>ri.
          issue_targets E m t ri p csr (iq_actor req) (clamp_validity p (iq_validity req)) [] targets)))))"
      unfolding root_def by (intro within.store_rules within_issue_targets id)
    from stepsD [OF this, of v r w'] run have "within (iq_tenant req) v w'" by (simp add: issue_def ebind_apply [of "get_tenant E (iq_tenant req)"] g Inr)
    with wv show ?thesis by (rule within.contract_trans)
  qed
qed

text \<open>The handlers of a tenant's endpoints stay within it.\<close>

lemma respond_steps: "steps (within t) (write_json st v)" "steps (within t) (write_error st x)" "steps (within t) (ret y)"
  by (simp_all add: write_error_def write_json_def within.steps_ret)

lemma within_answer: "steps (within t) m \<Longrightarrow> (\<And>x. steps (within t) (h x)) \<Longrightarrow> steps (within t) (answer st m h)"
  unfolding answer_def by (intro within.steps_ecase respond_steps)

lemma within_body: "(\<And>x. steps (within t) (h x)) \<Longrightarrow> steps (within t) (with_body q h)"
  by (simp add: with_body_def respond_steps split: option.split)

lemmas within_rules = within_answer within_body respond_steps within.steps_prod within.steps_lift

lemma within_get_tenant: "steps (within t) (get_tenant E x)" "steps (within t) (list_certificates E x)" "steps (within t) (root E)"
  unfolding list_certificates_def get_tenant_def root_def by (intro within.store_rules)+

lemma within_handlers:
  "steps (within t) handle_healthz" "steps (within t) (handle_roots E)" "steps (within t) (handle_crl E s chain x rq)"
  "steps (within t) (handle_get_tenant E x)" "steps (within t) (handle_revoke E s t rq key)"
  "steps (within t) (handle_list_certificates E x)" "steps (within t) (handle_list_profiles E x)"
  "steps (within t) (handle_set_profile E s t n rq key)" "steps (within t) (handle_delete_profile E s t n rq key)"
  "steps (within t) handle_algorithms"
  unfolding handle_healthz_def handle_roots_def handle_crl_def handle_get_tenant_def handle_revoke_def
    handle_list_certificates_def handle_list_profiles_def handle_set_profile_def handle_delete_profile_def handle_algorithms_def Let_def
  by (intro within_rules within_get_tenant within_crl within_revoke within_profiles)+

lemma within_handle_issue:
  assumes keyed: "keyed w t" and run: "handle_issue E s t rq key w = (r, w')"
  shows "within t w w'"
proof -
  have "w' = w \<or> (\<exists>req x. iq_tenant req = t \<and> issue E (sv_manager s) req w = (x, w'))"
    using run by (auto simp: handle_issue_def with_body_def answer_def ecase_apply write_error_def write_json_def
        split: option.splits sum.splits prod.splits)
  then show ?thesis using within_issue keyed within.contract_refl by blast
qed

lemma within_later: "within t w w' \<Longrightarrow> v = w \<or> v = advance w \<Longrightarrow> within t v w'"
  by (auto simp: within_def)

lemma keyed_later: "v = w \<or> v = advance w \<Longrightarrow> keyed v t = keyed w t"
  by (auto simp: keyed_def)


text \<open>
  Claim C39: without a key that authenticates, every protected endpoint answers 401, or 500 when
  the key could not be read, and nothing but the clock moves.
\<close>

theorem no_key_no_access:
  assumes key: "authenticate E (rq_auth rq) w = (Inl x, v)" and r: "route s (rq_method rq) (rq_path rq) = Some e" "protected e"
    and run: "serve E s rq w = (res, w')"
  shows "(\<exists>b. res = Inr \<lparr>rs_status = (if sentinel_of x = UnauthorizedS then 401 else 500), rs_body = b\<rparr>) \<and> (w' = w \<or> w' = advance w)"
proof -
  have "authed E rq h w = (res, w') \<Longrightarrow> ?thesis" for h
    using authenticate_world [OF key] by (auto simp: authed_def ecase_apply key write_error_def write_json_def)
  moreover have "\<exists>h. authed E rq h w = (res, w')"
    using run r by (cases e) (auto simp: serve_def protected_def operator_endpoint_def)
  ultimately show ?thesis by blast
qed

end
