(* ===== verification/Api_Operators.thy ===== *)
theory Api_Operators
  imports Api_Keys
begin

text \<open>
  Concurrent revocation of operator keys: the steps of the handlers that change the keys or the
  document that counts the operators, interleaved in any order, and the guard that keeps one
  operator key.
\<close>

section \<open>The two buckets\<close>

text \<open>The operator set as the next update reads it, and the keys that are operators.\<close>

definition ops :: "world \<Rightarrow> operator_set option" where
  "ops w = (case lookup w operator_meta_bucket operator_meta_key of None \<Rightarrow> Some \<lparr>op_ids = [], op_revoking = []\<rparr>
     | Some d \<Rightarrow> operator_set_of d)"

definition operator_stored :: "world \<Rightarrow> string \<Rightarrow> bool" where
  "operator_stored w kid \<longleftrightarrow> (\<exists>d k. lookup w api_keys_bucket kid = Some d \<and> api_key_of d = Some k \<and> ak_role k = role_operator)"

lemma ops_wf: "ops w = Some o' \<Longrightarrow> wf_map (op_revoking o')"
  by (auto simp: ops_def wf_map_def dest: operator_set_wf split: option.splits)

text \<open>What an update of the set can have done.\<close>

definition keys_same :: "world \<Rightarrow> world \<Rightarrow> bool" where
  "keys_same w w' \<longleftrightarrow> tick w \<le> tick w' \<and> (\<forall>kid. lookup w' api_keys_bucket kid = lookup w api_keys_bucket kid)"

interpretation keys_same: world_contract keys_same
  by unfold_locales (auto simp: keys_same_def)

definition set_same :: "world \<Rightarrow> world \<Rightarrow> bool" where
  "set_same w w' \<longleftrightarrow> keys_same w w' \<and> lookup w' operator_meta_bucket operator_meta_key = lookup w operator_meta_bucket operator_meta_key"

interpretation set_same: world_contract set_same
  by unfold_locales (auto simp: set_same_def keys_same_def)

lemma update_operators_cases:
  assumes "update_operators E fn w = (r, w')" and "\<And>o'. steps set_same (fn o')"
    and wf: "\<And>o' v v' o''. wf_map (op_revoking o') \<Longrightarrow> fn o' v = (Inr o'', v') \<Longrightarrow> wf_map (op_revoking o'')"
  obtains (kept) "set_same w w'" "\<forall>u. r \<noteq> Inr u"
  | (changed) o' o'' v where "ops w = Some o'" "fn o' (advance w) = (Inr o'', v)" "keys_same w w'" "ops w' = Some o''"
      "tick v = tick w'"
  using assms(1) unfolding update_operators_def
proof (cases rule: update_json_cases)
  case (untouched e)
  then show thesis using kept set_same.advance_ok by auto
next
  case (refused v e e')
  have "set_same w w'" using stepsD [OF assms(2) refused(2)] set_same.advance_ok by (blast intro: set_same.contract_trans)
  then show thesis using kept refused(3) by auto
next
  case (written o' o'' v)
  have o': "ops w = Some o'" using written(1) by (simp add: ops_def split: option.splits)
  have sv: "set_same w v" using stepsD [OF assms(2) written(3)] set_same.advance_ok by (blast intro: set_same.contract_trans)
  have "wf_map (op_revoking o'')" using wf [OF ops_wf [OF o'] written(3)] .
  then have "ops w' = Some o''" by (simp add: ops_def written(4) lookup_set_doc operator_set_of_json)
  moreover have "keys_same w w'" using sv by (simp add: written(4) keys_same_def set_same_def lookup_set_doc)
  ultimately show thesis using changed o' written(3,4) by simp
qed

lemma steps_claim_live: "steps set_same (claim_live E claims kid)"
  unfolding claim_live_def by (intro set_same.world_rules)

lemma steps_claim: "steps set_same (claim_revoke E kid o')"
  unfolding claim_revoke_def by (intro set_same.world_rules steps_claim_live)

lemma steps_reconciled: "steps set_same (reconciled E actual o')"
  unfolding reconciled_def drop_expired_def recheck_def by (intro set_same.store_rules)

section \<open>The steps\<close>

text \<open>
  Where a request stands: it holds the claim of a key (before the delete, after a failure, with the
  key found present or gone), a start has scanned the keys, or a creation has stored its key.
\<close>

datatype stage = Idle | Claimed string | Troubled string | Present string | Gone string | Scanned "string list" | Minted string

definition holding :: "stage \<Rightarrow> string \<Rightarrow> bool" where
  "holding p kid \<longleftrightarrow> p \<in> {Claimed kid, Troubled kid, Present kid, Gone kid}"

text \<open>The claims of requests in flight are not expired at the ticks of a step.\<close>

definition timely :: "'x cenv_scheme \<Rightarrow> (nat \<Rightarrow> stage) \<Rightarrow> world \<Rightarrow> world \<Rightarrow> bool" where
  "timely E s w w' \<longleftrightarrow> (\<forall>i kid o' t k. holding (s i) kid \<longrightarrow> ops w = Some o' \<longrightarrow> jfind (op_revoking o') kid = Some t \<longrightarrow>
     tick w \<le> k \<longrightarrow> k < tick w' \<longrightarrow> now_at E k - t < revoke_claim_ttl)"

text \<open>An id that was just drawn at random is not the id of anything.\<close>

definition new_id :: "(nat \<Rightarrow> stage) \<Rightarrow> world \<Rightarrow> string \<Rightarrow> bool" where
  "new_id s w kid \<longleftrightarrow> lookup w api_keys_bucket kid = None \<and> (\<forall>i. \<not> holding (s i) kid \<and> (\<forall>a. s i = Scanned a \<longrightarrow> kid \<notin> set a))"

definition scan_operators :: "'x cenv_scheme \<Rightarrow> string list act" where
  "scan_operators E = for_each_json E api_key_of api_keys_bucket
     (\<lambda>actual kid k. Inr (if ak_role k = role_operator then actual @ [kid] else actual)) []"

inductive op_step :: "'x cenv_scheme \<Rightarrow> world \<times> (nat \<Rightarrow> stage) \<Rightarrow> world \<times> (nat \<Rightarrow> stage) \<Rightarrow> bool" for E where
  other: "tick w \<le> tick w' \<Longrightarrow> \<forall>kid. operator_stored w' kid = operator_stored w kid \<Longrightarrow>
    \<forall>kid. (lookup w' api_keys_bucket kid = None) = (lookup w api_keys_bucket kid = None) \<Longrightarrow> ops w' = ops w \<Longrightarrow> op_step E (w, s) (w', s)"
| start: "s i = Idle \<Longrightarrow> operator_stored w kid \<or> lookup w api_keys_bucket kid = None \<Longrightarrow> \<forall>j. s j \<noteq> Minted kid \<Longrightarrow>
    begin_revoke E kid w = (r, w') \<Longrightarrow> timely E s w w' \<Longrightarrow>
    op_step E (w, s) (w', s(i := (case r of Inl _ \<Rightarrow> Idle | Inr _ \<Rightarrow> Claimed kid)))"
| crash: "op_step E (w, s) (w, s(i := Idle))"
| audit_fails: "s i = Claimed kid \<Longrightarrow> set_same w w' \<Longrightarrow> op_step E (w, s) (w', s(i := Troubled kid))"
| remove: "s i = Claimed kid \<Longrightarrow> delete E api_keys_bucket kid w = (r, w') \<Longrightarrow>
    op_step E (w, s) (w', s(i := (case r of Inl _ \<Rightarrow> Troubled kid | Inr _ \<Rightarrow> Gone kid)))"
| look: "s i = Troubled kid \<Longrightarrow> get E api_keys_bucket kid w = (r, w') \<Longrightarrow>
    op_step E (w, s) (w', s(i := (case r of Inr _ \<Rightarrow> Present kid | Inl e \<Rightarrow> if is_not_found e then Gone kid else Idle)))"
| abort: "s i = Present kid \<Longrightarrow> abort_revoke E kid w = (r, w') \<Longrightarrow> op_step E (w, s) (w', s(i := Idle))"
| finish: "s i = Gone kid \<Longrightarrow> finish_revoke E kid w = (r, w') \<Longrightarrow> op_step E (w, s) (w', s(i := Idle))"
| remove_other: "\<not> operator_stored w kid \<Longrightarrow> delete E api_keys_bucket kid w = (r, w') \<Longrightarrow> op_step E (w, s) (w', s)"
| scan: "s i = Idle \<Longrightarrow> scan_operators E w = (Inr actual, w') \<Longrightarrow> op_step E (w, s) (w', s(i := Scanned actual))"
| reconcile: "s i = Scanned actual \<Longrightarrow> update_operators E (reconciled E actual) w = (r, w') \<Longrightarrow> timely E s w w' \<Longrightarrow>
    op_step E (w, s) (w', s(i := Idle))"
| mint: "s i = Idle \<Longrightarrow> new_id s w (ak_id k) \<Longrightarrow> put_json E api_key_json api_keys_bucket (ak_id k) k w = (r, w') \<Longrightarrow>
    op_step E (w, s) (w', s(i := (case r of Inl _ \<Rightarrow> Idle | Inr _ \<Rightarrow> if ak_role k = role_operator then Minted (ak_id k) else Idle)))"
| add: "s i = Minted kid \<Longrightarrow> add_operator E kid w = (r, w') \<Longrightarrow> op_step E (w, s) (w', s(i := Idle))"

text \<open>
  The invariant: counted keys are stored operator keys no request holds, a held key has a claim and
  one holder, and some operator key is not held.
\<close>

definition counted_ok :: "world \<Rightarrow> (nat \<Rightarrow> stage) \<Rightarrow> string list \<Rightarrow> bool" where
  "counted_ok w s ids \<longleftrightarrow> distinct ids \<and> (\<forall>kid \<in> set ids. operator_stored w kid \<and> (\<forall>i. \<not> holding (s i) kid))"

definition held_ok :: "(nat \<Rightarrow> stage) \<Rightarrow> (string \<times> int) list \<Rightarrow> bool" where
  "held_ok s claims \<longleftrightarrow> (\<forall>i kid. holding (s i) kid \<longrightarrow> jfind claims kid \<noteq> None \<and> (\<forall>j. holding (s j) kid \<longrightarrow> j = i))"

definition one_safe :: "world \<Rightarrow> (nat \<Rightarrow> stage) \<Rightarrow> bool" where
  "one_safe w s \<longleftrightarrow> (\<exists>kid. operator_stored w kid \<and> (\<forall>i. \<not> holding (s i) kid))"

definition stage_ok :: "world \<Rightarrow> (nat \<Rightarrow> stage) \<Rightarrow> stage \<Rightarrow> bool" where
  "stage_ok w s p \<longleftrightarrow>
     (\<forall>kid. holding p kid \<longrightarrow> operator_stored w kid \<or> lookup w api_keys_bucket kid = None) \<and>
     (\<forall>kid. p = Present kid \<longrightarrow> operator_stored w kid) \<and>
     (\<forall>kid. p = Minted kid \<longrightarrow> operator_stored w kid \<and> (\<forall>j. \<not> holding (s j) kid)) \<and>
     (\<forall>a. p = Scanned a \<longrightarrow> distinct a \<and> (\<forall>kid \<in> set a. operator_stored w kid \<or> lookup w api_keys_bucket kid = None))"

definition op_inv :: "world \<Rightarrow> (nat \<Rightarrow> stage) \<Rightarrow> bool" where
  "op_inv w s \<longleftrightarrow> (\<exists>o'. ops w = Some o' \<and> counted_ok w s (op_ids o') \<and> held_ok s (op_revoking o')) \<and> one_safe w s \<and>
     (\<forall>i. stage_ok w s (s i))"

lemma holding_simps [simp]: "holding Idle kid = False" "holding (Scanned a) kid = False" "holding (Minted l) kid = False"
  "holding (Claimed l) kid = (l = kid)" "holding (Troubled l) kid = (l = kid)" "holding (Present l) kid = (l = kid)"
  "holding (Gone l) kid = (l = kid)"
  by (auto simp: holding_def)

lemma operator_stored_same: "(\<forall>kid. lookup w' api_keys_bucket kid = lookup w api_keys_bucket kid) \<Longrightarrow> operator_stored w' = operator_stored w"
  by (simp add: operator_stored_def fun_eq_iff)

lemma keys_sameD: "keys_same w w' \<Longrightarrow> operator_stored w' = operator_stored w \<and> (\<forall>kid. lookup w' api_keys_bucket kid = lookup w api_keys_bucket kid)"
  using operator_stored_same by (auto simp: keys_same_def)

lemma set_sameD: "set_same w w' \<Longrightarrow> ops w' = ops w \<and> operator_stored w' = operator_stored w \<and>
    (\<forall>kid. lookup w' api_keys_bucket kid = lookup w api_keys_bucket kid)"
  using keys_sameD by (auto simp: set_same_def ops_def)

lemma op_inv_keys:
  "op_inv w s \<Longrightarrow> operator_stored w' = operator_stored w \<Longrightarrow> ops w' = ops w \<Longrightarrow>
   \<forall>kid. (lookup w' api_keys_bucket kid = None) = (lookup w api_keys_bucket kid = None) \<Longrightarrow> op_inv w' s"
  by (simp add: op_inv_def counted_ok_def one_safe_def stage_ok_def)

lemma op_inv_same: "op_inv w s \<Longrightarrow> set_same w w' \<Longrightarrow> op_inv w' s"
  using set_sameD [of w w'] by (auto elim: op_inv_keys)

text \<open>A session moves between stages that hold the same key, or lets go.\<close>

lemma op_inv_stage:
  assumes inv: "op_inv w s" and hold: "holding p = holding (s i)" and ok: "stage_ok w s p"
  shows "op_inv w (s(i := p))"
proof -
  have h: "holding ((s(i := p)) j) = holding (s j)" for j using hold by simp
  have st: "stage_ok w (s(i := p)) q = stage_ok w s q" for q by (simp only: stage_ok_def h)
  show ?thesis using inv ok unfolding op_inv_def counted_ok_def held_ok_def one_safe_def h st by auto
qed

lemma op_inv_idle:
  assumes inv: "op_inv w s"
  shows "op_inv w (s(i := Idle))"
proof -
  define s' where "s' = s(i := Idle)"
  have h: "holding (s' j) kid \<Longrightarrow> holding (s j) kid" for j kid by (simp add: s'_def split: if_splits)
  have st: "stage_ok w s q \<Longrightarrow> stage_ok w s' q" for q unfolding stage_ok_def by (auto dest: h)
  have "counted_ok w s ids \<Longrightarrow> counted_ok w s' ids" for ids unfolding counted_ok_def by (auto dest: h)
  moreover have "held_ok s c \<Longrightarrow> held_ok s' c" for c unfolding held_ok_def by (auto dest: h)
  moreover have "one_safe w s \<Longrightarrow> one_safe w s'" unfolding one_safe_def by (auto dest: h)
  moreover have "stage_ok w s' (s' j)" if "stage_ok w s (s j)" for j
    using st [OF that] by (cases "j = i") (simp_all add: s'_def stage_ok_def)
  ultimately show ?thesis using inv unfolding op_inv_def s'_def [symmetric] by auto
qed

lemma op_invE:
  assumes "op_inv w s"
  obtains o' where "ops w = Some o'" "counted_ok w s (op_ids o')" "held_ok s (op_revoking o')" "one_safe w s" "\<And>i. stage_ok w s (s i)"
  using assms unfolding op_inv_def by blast

section \<open>Each step keeps the invariant\<close>

text \<open>The update of the set by a session that then lets go of the key.\<close>

lemma op_inv_released:
  assumes inv: "op_inv w s" and free: "\<And>j. \<not> holding (s j) kid" and same: "keys_same w w'" and o': "ops w = Some o'"
    and new: "ops w' = Some (without_operator kid o') \<or> operator_stored w kid \<and> ops w' = Some (with_operator kid o')"
  shows "op_inv w' s"
proof -
  have keys: "operator_stored w' = operator_stored w" "\<And>l. lookup w' api_keys_bucket l = lookup w api_keys_bucket l"
    using keys_sameD [OF same] by auto
  obtain "counted_ok w s (op_ids o')" "held_ok s (op_revoking o')" "one_safe w s" and st: "\<And>i. stage_ok w s (s i)"
    using inv o' by (auto elim!: op_invE)
  moreover have "held_ok s (map_del kid (op_revoking o'))" if "held_ok s (op_revoking o')"
    using that free unfolding held_ok_def by (auto split: if_splits)
  ultimately have "\<exists>o''. ops w' = Some o'' \<and> counted_ok w s (op_ids o'') \<and> held_ok s (op_revoking o'')"
    using new free by (auto simp: counted_ok_def without_operator_def with_operator_def has_operator_def)
  then show ?thesis using \<open>one_safe w s\<close> st by (simp add: op_inv_def counted_ok_def one_safe_def stage_ok_def keys)
qed

lemma update_pure:
  assumes run: "update_operators E (\<lambda>o'. ret (g o')) w = (r, w')" and wf: "\<And>o'. wf_map (op_revoking o') \<Longrightarrow> wf_map (op_revoking (g o'))"
  obtains (kept) "set_same w w'" | (changed) o' where "ops w = Some o'" "keys_same w w'" "ops w' = Some (g o')"
proof -
  have w: "wf_map (op_revoking o') \<Longrightarrow> ret (g o') v = (Inr o'', v') \<Longrightarrow> wf_map (op_revoking o'')" for o' o'' and v v' :: world
    using wf by auto
  from run show thesis
  proof (rule update_operators_cases)
    show "steps set_same (ret (g o'))" for o' by (rule set_same.steps_ret)
  next
    fix o' o'' v assume "ops w = Some o'" "ret (g o') (advance w) = (Inr o'', v)" "keys_same w w'" "ops w' = Some o''"
    then show thesis using changed by simp
  qed (use w kept in blast)+
qed

lemma wf_with [simp]: "wf_map (op_revoking o') \<Longrightarrow> wf_map (op_revoking (with_operator kid o'))"
  "wf_map (op_revoking o') \<Longrightarrow> wf_map (op_revoking (without_operator kid o'))"
  by (simp_all add: with_operator_def without_operator_def)

lemma op_inv_add:
  assumes inv: "op_inv w s" and free: "\<And>j. \<not> holding (s j) kid" and stored: "operator_stored w kid"
    and run: "add_operator E kid w = (r, w')"
  shows "op_inv w' s"
proof (rule update_pure [OF run [unfolded add_operator_def] wf_with(1)])
  show "op_inv w' s" if "set_same w w'" using inv that by (rule op_inv_same)
next
  fix o' assume "ops w = Some o'" "keys_same w w'" "ops w' = Some (with_operator kid o')"
  then show "op_inv w' s" using op_inv_released [OF inv free] stored by blast
qed

lemma op_inv_finish:
  assumes inv: "op_inv w s" and free: "\<And>j. \<not> holding (s j) kid" and run: "finish_revoke E kid w = (r, w')"
  shows "op_inv w' s"
proof (rule update_pure [OF run [unfolded finish_revoke_def] wf_with(2)])
  show "op_inv w' s" if "set_same w w'" using inv that by (rule op_inv_same)
next
  fix o' assume "ops w = Some o'" "keys_same w w'" "ops w' = Some (without_operator kid o')"
  then show "op_inv w' s" using op_inv_released [OF inv free] by blast
qed

lemma idle_free: "op_inv w s \<Longrightarrow> holding (s i) kid \<Longrightarrow> \<not> holding ((s(i := Idle)) j) kid"
  by (auto elim!: op_invE simp: held_ok_def split: if_splits)

text \<open>Removing a key that one session holds, or that is no operator's.\<close>

lemma delete_cases:
  assumes "delete E api_keys_bucket kid w = (r, w')"
  shows "ops w' = ops w \<and> ((\<forall>l. lookup w' api_keys_bucket l = lookup w api_keys_bucket l) \<or>
    (\<forall>l. lookup w' api_keys_bucket l = (if l = kid then None else lookup w api_keys_bucket l)))"
  using assms unfolding delete_def
  by (cases rule: effect_cases [where E = E and w = w and
        f = "\<lambda>w. if api_keys_bucket = [] then (Inl err_empty_path, w) else (Inr (), del_doc w api_keys_bucket kid)"])
    (auto simp: ops_def lookup_del_doc)

lemma op_inv_delete:
  assumes inv: "op_inv w s" and may: "\<not> operator_stored w kid \<or> s i = Claimed kid" and run: "delete E api_keys_bucket kid w = (r, w')"
  shows "op_inv w' s"
proof (cases "\<forall>l. lookup w' api_keys_bucket l = lookup w api_keys_bucket l")
  case True
  then have eq: "lookup w' api_keys_bucket l = lookup w api_keys_bucket l" and o: "ops w' = ops w" for l
    using delete_cases [OF run] by blast+
  have "operator_stored w' = operator_stored w" by (rule operator_stored_same) (simp add: eq)
  then show ?thesis by (rule op_inv_keys [OF inv]) (simp_all add: o eq)
next
  case False
  then have l: "lookup w' api_keys_bucket l = (if l = kid then None else lookup w api_keys_bucket l)" and o: "ops w' = ops w" for l
    using delete_cases [OF run] by blast+
  have st: "operator_stored w' l \<longleftrightarrow> l \<noteq> kid \<and> operator_stored w l" for l by (simp add: operator_stored_def l)
  from inv obtain o' where i: "ops w = Some o'" "counted_ok w s (op_ids o')" "held_ok s (op_revoking o')" "one_safe w s"
    "\<And>i. stage_ok w s (s i)" by (rule op_invE) blast
  have kid: "operator_stored w kid \<Longrightarrow> s i = Claimed kid" using may by blast
  then have held: "operator_stored w kid \<Longrightarrow> holding (s i) kid" by simp
  have "counted_ok w' s (op_ids o')" using i(2) held by (auto simp: counted_ok_def st)
  moreover have "one_safe w' s"
  proof -
    obtain l where safe: "operator_stored w l" "\<forall>i. \<not> holding (s i) l" using i(4) unfolding one_safe_def by (elim exE conjE) (rule that)
    then have "l \<noteq> kid" using held by auto
    then show ?thesis using safe unfolding one_safe_def st by (intro exI [of _ l]) simp
  qed
  moreover have "stage_ok w' s (s j)" for j
  proof -
    have "l \<noteq> kid" if "s j = Present l" for l
    proof
      assume eq: "l = kid"
      then have "operator_stored w kid" using i(5) [of j] that by (simp add: stage_ok_def)
      then have "s i = Claimed kid" by (rule kid)
      moreover from this have "j = i" using i(3) that eq unfolding held_ok_def by (metis holding_simps(4,6))
      ultimately show False using that by simp
    qed
    moreover have "l \<noteq> kid" if "s j = Minted l" for l
      using i(5) [of j] that held by (auto simp: stage_ok_def)
    ultimately show ?thesis using i(5) [of j] by (auto simp: stage_ok_def st l)
  qed
  ultimately show ?thesis using i(1,3) o by (simp add: op_inv_def)
qed


text \<open>Claiming: the key was not held, some other key is counted.\<close>

lemma claim_live_Inr:
  "claim_live E claims kid w = (Inr b, w') \<longleftrightarrow> (case jfind claims kid of None \<Rightarrow> \<not> b \<and> w' = w
     | Some t \<Rightarrow> b = (now_at E (tick w) - t < revoke_claim_ttl) \<and> w' = advance w)"
  by (auto simp: claim_live_def act_elims clock_Inr split: option.splits)

lemma claim_revoke_Inr:
  assumes "claim_revoke E kid o' v = (Inr o'', v')"
  shows "(jfind (op_revoking o') kid = None \<or>
      (\<exists>t. jfind (op_revoking o') kid = Some t \<and> tick v < tick v' \<and> \<not> now_at E (tick v) - t < revoke_claim_ttl)) \<and>
    op_ids o' \<noteq> [] \<and> \<not> (length (op_ids o') \<le> 1 \<and> kid \<in> set (op_ids o')) \<and>
    (\<exists>now. o'' = \<lparr>op_ids = filter (\<lambda>x. x \<noteq> kid) (op_ids o'), op_revoking = map_put kid now (op_revoking o')\<rparr>)"
  using assms by (auto simp: claim_revoke_def act_elims claim_live_Inr clock_Inr has_operator_def split: option.splits if_splits)

lemma counted_other:
  assumes "distinct ids" and "ids \<noteq> []" and "\<not> (length ids \<le> 1 \<and> kid \<in> set ids)"
  obtains l where "l \<in> set ids" "l \<noteq> kid"
proof -
  have "\<not> set ids \<subseteq> {kid}"
  proof
    assume sub: "set ids \<subseteq> {kid}"
    then have "card (set ids) \<le> 1" using card_mono [OF _ sub] by simp
    then have "length ids \<le> 1" using distinct_card [OF assms(1)] by simp
    moreover have "kid \<in> set ids" using sub assms(2) by (cases ids) auto
    ultimately show False using assms(3) by simp
  qed
  then show thesis using that by blast
qed

lemma op_inv_claim:
  assumes inv: "op_inv w s" and idle: "s i = Idle" and kid: "operator_stored w kid \<or> lookup w api_keys_bucket kid = None"
    and no_mint: "\<forall>j. s j \<noteq> Minted kid" and o': "ops w = Some o'" and same: "keys_same w w'" and timely: "timely E s w w'"
    and v: "tick v = Suc (tick w)" "tick v' = tick w'" and run: "claim_revoke E kid o' v = (Inr o'', v')"
    and new: "ops w' = Some o''" and p: "p = Idle \<or> p = Claimed kid"
  shows "op_inv w' (s(i := p))"
proof -
  define s' where "s' = s(i := p)"
  have keys: "operator_stored w' = operator_stored w" "\<And>l. lookup w' api_keys_bucket l = lookup w api_keys_bucket l"
    using keys_sameD [OF same] by auto
  from inv obtain u where u: "ops w = Some u" "counted_ok w s (op_ids u)" "held_ok s (op_revoking u)" "one_safe w s"
    "\<And>i. stage_ok w s (s i)" by (rule op_invE) blast
  have i: "counted_ok w s (op_ids o')" "held_ok s (op_revoking o')" using u(1-3) o' by simp_all
  note c = claim_revoke_Inr [OF run]
  note expired = conjunct1 [OF c]
  have free: "\<not> holding (s j) kid" for j
  proof
    assume h: "holding (s j) kid"
    then have "jfind (op_revoking o') kid \<noteq> None" using i(2) unfolding held_ok_def by blast
    then obtain t where t: "jfind (op_revoking o') kid = Some t" "tick v < tick v'" "\<not> now_at E (tick v) - t < revoke_claim_ttl"
      using expired by auto
    have "now_at E (tick v) - t < revoke_claim_ttl"
      using timely [unfolded timely_def, rule_format, OF h o' t(1), of "tick v"] v t(2) by simp
    then show False using t(3) by simp
  qed
  obtain l where l: "l \<in> set (op_ids o')" "l \<noteq> kid" using counted_other [of "op_ids o'" kid] i(1) c unfolding counted_ok_def by auto
  have h: "holding (s' j) x \<Longrightarrow> holding (s j) x \<or> x = kid \<and> j = i" for j x using p by (auto simp: s'_def split: if_splits)
  obtain now where o'': "o'' = \<lparr>op_ids = filter (\<lambda>x. x \<noteq> kid) (op_ids o'), op_revoking = map_put kid now (op_revoking o')\<rparr>"
    using c by auto
  have "counted_ok w' s' (op_ids o'')" using i(1) h by (auto simp: counted_ok_def o'' keys)
  moreover have "held_ok s' (op_revoking o'')"
    unfolding held_ok_def
  proof (intro allI impI conjI)
    fix j x assume hx: "holding (s' j) x"
    show "jfind (op_revoking o'') x \<noteq> None" using h [OF hx] i(2) unfolding held_ok_def by (auto simp: o'')
    show "k = j" if "holding (s' k) x" for k
      using h [OF hx] h [OF that] i(2) free unfolding held_ok_def by metis
  qed
  moreover have "one_safe w' s'" unfolding one_safe_def
    using l i(1) h by (intro exI [of _ l]) (auto simp: counted_ok_def keys)
  moreover have "stage_ok w' s' (s' j)" for j
  proof (cases "j = i")
    case True
    then show ?thesis using p kid by (auto simp: stage_ok_def s'_def keys)
  next
    case False
    then have "s' j = s j" by (simp add: s'_def)
    moreover have "\<not> holding (s' k) x" if "s j = Minted x" for k x
      using u(5) [of j] that no_mint h [of k x] by (auto simp: stage_ok_def)
    ultimately show ?thesis using u(5) [of j] by (simp add: stage_ok_def keys)
  qed
  ultimately show ?thesis using new by (simp add: op_inv_def s'_def [symmetric])
qed

lemma op_inv_start:
  assumes inv: "op_inv w s" and idle: "s i = Idle" and kid: "operator_stored w kid \<or> lookup w api_keys_bucket kid = None"
    and no_mint: "\<forall>j. s j \<noteq> Minted kid" and run: "begin_revoke E kid w = (r, w')" and timely: "timely E s w w'"
  shows "op_inv w' (s(i := (case r of Inl _ \<Rightarrow> Idle | Inr _ \<Rightarrow> Claimed kid)))"
proof -
  have wf: "wf_map (op_revoking o') \<Longrightarrow> claim_revoke E kid o' v = (Inr o'', v') \<Longrightarrow> wf_map (op_revoking o'')" for o' v v' o''
    using claim_revoke_Inr [of E kid o' v o'' v'] by auto
  show ?thesis
  proof (rule update_operators_cases [OF run [unfolded begin_revoke_def] steps_claim wf])
    assume "set_same w w'" "\<forall>u. r \<noteq> Inr u"
    then show ?thesis using op_inv_idle [OF op_inv_same [OF inv], of w' i] by (cases r) simp_all
  next
    fix o' o'' v assume c: "ops w = Some o'" "claim_revoke E kid o' (advance w) = (Inr o'', v)" "keys_same w w'"
      "ops w' = Some o''" "tick v = tick w'"
    show ?thesis
      by (rule op_inv_claim [OF inv idle kid no_mint c(1,3) timely _ c(5,2,4)]) (simp_all split: sum.split)
  qed assumption+
qed


text \<open>Looking at the key after a failure.\<close>

lemma set_same_get: "get E p k w = (r, w') \<Longrightarrow> set_same w w'"
  using get_world [of E p k w] set_same.advance_ok by simp

lemma op_inv_look:
  assumes inv: "op_inv w s" and at: "s i = Troubled kid" and run: "get E api_keys_bucket kid w = (r, w')"
  shows "op_inv w' (s(i := (case r of Inr _ \<Rightarrow> Present kid | Inl e \<Rightarrow> if is_not_found e then Gone kid else Idle)))"
proof -
  have inv': "op_inv w' s" using op_inv_same [OF inv set_same_get [OF run]] .
  have ok: "stage_ok w' s (Troubled kid)" using inv' at by (metis op_invE)
  then have kid: "operator_stored w' kid \<or> lookup w' api_keys_bucket kid = None" by (simp add: stage_ok_def)
  have present: "operator_stored w' kid" if "r = Inr d" for d
    using run that kid by (auto simp: get_Inr)
  have "op_inv w' (s(i := Present kid))" if "r = Inr d" for d
    by (rule op_inv_stage [OF inv']) (simp_all add: at fun_eq_iff stage_ok_def present [OF that])
  moreover have "op_inv w' (s(i := Gone kid))"
    by (rule op_inv_stage [OF inv']) (simp_all add: at fun_eq_iff stage_ok_def kid)
  ultimately show ?thesis using op_inv_idle [OF inv', of i] by (simp split: sum.split)
qed

text \<open>A scan reads operator keys in their order.\<close>

lemma sfold_operators:
  "sfold (\<lambda>a (kid, k). Inr (if ak_role k = role_operator then a @ [kid] else a)) a kvs =
   Inr (a @ map fst (filter (\<lambda>kv. ak_role (snd kv) = role_operator) kvs))"
  by (induction kvs arbitrary: a) (auto split: prod.split)

lemma scan_Inr:
  assumes "scan_operators E w = (Inr actual, w')"
  shows "w' = advance w \<and> distinct actual \<and> (\<forall>kid. kid \<in> set actual \<longleftrightarrow> operator_stored w kid)"
proof -
  obtain kvs where kvs: "decode_all api_key_of (bucket w api_keys_bucket) = Some kvs" and w': "w' = advance w"
    and a: "actual = map fst (filter (\<lambda>kv. ak_role (snd kv) = role_operator) kvs)"
    using assms by (auto simp: scan_operators_def for_each_json_Inr sfold_operators)
  have "distinct (map fst kvs)" using decode_all_keys [OF kvs] by (simp add: bucket_keys)
  then have "distinct actual" unfolding a by (rule distinct_map_filter)
  moreover have "kid \<in> set actual \<longleftrightarrow> operator_stored w kid" for kid
    using decode_all_mem [OF kvs, of kid] by (force simp: a operator_stored_def mem_bucket)
  ultimately show ?thesis using w' by simp
qed

lemma op_inv_scan:
  assumes inv: "op_inv w s" and at: "s i = Idle" and run: "scan_operators E w = (Inr actual, w')"
  shows "op_inv w' (s(i := Scanned actual))"
proof -
  note sc = scan_Inr [OF run]
  have inv': "op_inv w' s" using op_inv_same [OF inv set_same.advance_ok] sc by simp
  have "operator_stored w' = operator_stored w" by (rule operator_stored_same) (simp add: sc)
  then have "stage_ok w' s (Scanned actual)" using sc by (simp add: stage_ok_def)
  then show ?thesis by (intro op_inv_stage [OF inv']) (simp_all add: at fun_eq_iff)
qed

text \<open>A key that was just stored.\<close>

lemma op_inv_mint:
  assumes inv: "op_inv w s" and at: "s i = Idle" and new: "new_id s w (ak_id k)"
    and run: "put_json E api_key_json api_keys_bucket (ak_id k) k w = (r, w')"
  shows "op_inv w' (s(i := (case r of Inl _ \<Rightarrow> Idle | Inr _ \<Rightarrow> if ak_role k = role_operator then Minted (ak_id k) else Idle)))"
proof -
  have fresh: "lookup w api_keys_bucket (ak_id k) = None" "\<And>j. \<not> holding (s j) (ak_id k)"
    "\<And>j a. s j = Scanned a \<Longrightarrow> ak_id k \<notin> set a" using new by (auto simp: new_id_def)
  have absent: "\<not> operator_stored w (ak_id k)" by (simp add: operator_stored_def fresh)
  consider (kept) "set_same w w'" "\<forall>u. r \<noteq> Inr u"
    | (stored) "ops w' = ops w" "\<And>l. lookup w' api_keys_bucket l = (if l = ak_id k then Some (api_key_json k) else lookup w api_keys_bucket l)"
  proof -
    have "set_same w w' \<and> (\<forall>u. r \<noteq> Inr u) \<or> w' = set_doc (advance w) api_keys_bucket (ak_id k) (api_key_json k)"
      using run unfolding put_json_def put_def
      by (cases rule: effect_cases [where E = E and w = w and f = "\<lambda>w. if api_keys_bucket = [] then (Inl err_empty_path, w)
            else (Inr (), set_doc w api_keys_bucket (ak_id k) (api_key_json k))"]) (auto intro: set_same.advance_ok)
    then show thesis using kept stored by (auto simp: ops_def lookup_set_doc)
  qed
  then show ?thesis
  proof cases
    case kept
    then show ?thesis using op_inv_idle [OF op_inv_same [OF inv], of w' i] by (cases r) simp_all
  next
    case stored
    have st: "operator_stored w' l \<longleftrightarrow> (if l = ak_id k then ak_role k = role_operator else operator_stored w l)" for l
      by (simp add: operator_stored_def stored(2))
    from inv obtain u where u: "ops w = Some u" "counted_ok w s (op_ids u)" "held_ok s (op_revoking u)" "one_safe w s"
      "\<And>i. stage_ok w s (s i)" by (rule op_invE) blast
    have "counted_ok w' s (op_ids u)" using u(2) absent by (auto simp: counted_ok_def st)
    moreover have "one_safe w' s"
    proof -
      obtain l where l: "operator_stored w l" "\<forall>i. \<not> holding (s i) l" using u(4) unfolding one_safe_def by (elim exE conjE) (rule that)
      then show ?thesis using absent unfolding one_safe_def by (intro exI [of _ l]) (auto simp: st)
    qed
    moreover have "stage_ok w' s (s j)" for j
    proof -
      have "l \<noteq> ak_id k" if "holding (s j) l" for l using fresh(2) [of j] that by auto
      moreover have "l \<noteq> ak_id k" if "s j = Minted l" for l using u(5) [of j] that absent by (auto simp: stage_ok_def)
      moreover have "l \<noteq> ak_id k" if "s j = Present l" for l using fresh(2) [of j] that by auto
      moreover have "l \<noteq> ak_id k" if "s j = Scanned a" "l \<in> set a" for l a using fresh(3) that by auto
      ultimately show ?thesis using u(5) [of j] by (auto simp: stage_ok_def st stored(2))
    qed
    ultimately have inv': "op_inv w' s" using u(1,3) stored(1) by (simp add: op_inv_def)
    have "op_inv w' (s(i := Minted (ak_id k)))" if "ak_role k = role_operator"
      using fresh(2) that by (intro op_inv_stage [OF inv']) (simp_all add: at fun_eq_iff stage_ok_def st)
    then show ?thesis using op_inv_idle [OF inv', of i] by (simp split: sum.split)
  qed
qed


text \<open>Reconciling keeps the claims that are not expired and counts the stored keys without one.\<close>

lemma drop_expired_apply: "drop_expired E c (l, t) v =
  (Inr (if now_at E (tick v) - t \<ge> revoke_claim_ttl then map_del l c else c), advance v)"
  by (simp add: drop_expired_def act_simps clock_def)

lemma expire_Inr:
  "efold (drop_expired E) c kvs v = (Inr c', v') \<Longrightarrow> tick v \<le> tick v' \<and> (\<forall>p k. lookup v' p k = lookup v p k) \<and> (wf_map c \<longrightarrow> wf_map c') \<and>
   (\<forall>kid. jfind c' kid = jfind c kid \<or>
      (\<exists>t k. (kid, t) \<in> set kvs \<and> tick v \<le> k \<and> k < tick v' \<and> \<not> now_at E k - t < revoke_claim_ttl))"
proof (induction kvs arbitrary: c v)
  case (Cons x kvs)
  obtain l t where x: "x = (l, t)" by (cases x)
  define c1 where "c1 = (if now_at E (tick v) - t \<ge> revoke_claim_ttl then map_del l c else c)"
  have "efold (drop_expired E) c1 kvs (advance v) = (Inr c', v')"
    using Cons.prems by (simp add: drop_expired_apply act_elims x c1_def)
  note IH = Cons.IH [OF this]
  have "jfind c' kid = jfind c kid \<or>
      (\<exists>t k. (kid, t) \<in> set (x # kvs) \<and> tick v \<le> k \<and> k < tick v' \<and> \<not> now_at E k - t < revoke_claim_ttl)" for kid
  proof (cases "jfind c' kid = jfind c1 kid")
    case True
    show ?thesis
    proof (cases "jfind c1 kid = jfind c kid")
      case False
      then have "kid = l" "\<not> now_at E (tick v) - t < revoke_claim_ttl" by (auto simp: c1_def split: if_splits)
      then show ?thesis using IH by (intro disjI2 exI [of _ t] exI [of _ "tick v"]) (auto simp: x)
    qed (simp add: True)
  next
    case False
    then obtain t' k where "(kid, t') \<in> set kvs" "tick (advance v) \<le> k" "k < tick v'" "\<not> now_at E k - t' < revoke_claim_ttl"
      using IH by blast
    then show ?thesis by (intro disjI2 exI [of _ t'] exI [of _ k]) auto
  qed
  moreover have "wf_map c \<longrightarrow> wf_map c1" by (simp add: c1_def)
  ultimately show ?case using IH by auto
qed simp

lemma recheck_Inr:
  "efold (recheck E claims) ids actual v = (Inr ids', v') \<Longrightarrow>
   ids' = ids @ filter (\<lambda>kid. jfind claims kid = None \<and> lookup v api_keys_bucket kid \<noteq> None) actual \<and> tick v \<le> tick v'"
proof (induction actual arbitrary: ids v)
  case (Cons kid actual)
  obtain ids1 v1 where one: "recheck E claims ids kid v = (Inr ids1, v1)" "efold (recheck E claims) ids1 actual v1 = (Inr ids', v')"
    using Cons.prems by (auto simp: act_elims)
  have "ids1 = (if jfind claims kid = None \<and> lookup v api_keys_bucket kid \<noteq> None then ids @ [kid] else ids)
      \<and> (v1 = v \<or> v1 = advance v)"
  proof (cases "jfind claims kid = None")
    case False
    then show ?thesis using one(1) by (simp add: recheck_def)
  next
    case True
    obtain r u where g: "get E api_keys_bucket kid v = (r, u)" by (cases "get E api_keys_bucket kid v")
    show ?thesis
    proof (cases r)
      case (Inl e)
      then have "is_not_found e" "ids1 = ids" "v1 = u" using one(1) True g by (auto simp: recheck_def ecase_apply split: if_splits)
      then show ?thesis using get_not_found [of E api_keys_bucket kid v e u] g Inl by auto
    next
      case (Inr d)
      then show ?thesis using one(1) True g by (auto simp: recheck_def ecase_apply get_Inr)
    qed
  qed
  then show ?case using Cons.IH [OF one(2)] by auto
qed simp

lemma reconciled_Inr:
  assumes wf: "wf_map (op_revoking o')" and run: "reconciled E actual o' v = (Inr o'', v')"
  shows "wf_map (op_revoking o'') \<and> set (op_ids o'') = {kid \<in> set actual. jfind (op_revoking o'') kid = None \<and> lookup v api_keys_bucket kid \<noteq> None} \<and>
    (distinct actual \<longrightarrow> distinct (op_ids o'')) \<and>
    (\<forall>kid t. jfind (op_revoking o') kid = Some t \<longrightarrow> jfind (op_revoking o'') kid = Some t \<or>
       (\<exists>k. tick v \<le> k \<and> k < tick v' \<and> \<not> now_at E k - t < revoke_claim_ttl))"
proof -
  obtain claims ids v1 where c: "efold (drop_expired E) (op_revoking o') (op_revoking o') v = (Inr claims, v1)"
    and i: "efold (recheck E claims) [] actual v1 = (Inr ids, v')" and o'': "o'' = \<lparr>op_ids = sort ids, op_revoking = claims\<rparr>"
    using run by (auto simp: reconciled_def act_elims)
  note ids = recheck_Inr [OF i] and cl = expire_Inr [OF c]
  have look: "lookup v1 p k = lookup v p k" for p k using cl by blast
  have "jfind claims kid = Some t \<or> (\<exists>k. tick v \<le> k \<and> k < tick v' \<and> \<not> now_at E k - t < revoke_claim_ttl)"
    if f: "jfind (op_revoking o') kid = Some t" for kid t
  proof (cases "jfind claims kid = Some t")
    case False
    then obtain t' k where k: "(kid, t') \<in> set (op_revoking o')" "tick v \<le> k" "k < tick v1" "\<not> now_at E k - t' < revoke_claim_ttl"
      using cl f by metis
    then have "t' = t" using jfind_distinct [of "op_revoking o'" kid t'] wf f by (auto simp: wf_map_def)
    then show ?thesis using k ids by (intro disjI2 exI [of _ k]) auto
  qed simp
  then show ?thesis using ids cl wf by (auto simp: o'' look)
qed


lemma op_inv_reconcile:
  assumes inv: "op_inv w s" and at: "s i = Scanned actual" and run: "update_operators E (reconciled E actual) w = (r, w')"
    and timely: "timely E s w w'"
  shows "op_inv w' (s(i := Idle))"
proof (rule update_operators_cases [OF run steps_reconciled])
  show "wf_map (op_revoking o'')" if "wf_map (op_revoking o')" "reconciled E actual o' v = (Inr o'', v')" for o' v v' o''
    using reconciled_Inr [OF that] by blast
  show ?thesis if "set_same w w'" using op_inv_idle [OF op_inv_same [OF inv that]] .
  fix o' o'' v
  assume o': "ops w = Some o'" and c: "reconciled E actual o' (advance w) = (Inr o'', v)" and same: "keys_same w w'"
    and new: "ops w' = Some o''" and v: "tick v = tick w'"
  have keys: "operator_stored w' = operator_stored w" "\<And>l. lookup w' api_keys_bucket l = lookup w api_keys_bucket l"
    using keys_sameD [OF same] by auto
  from inv obtain u where u: "ops w = Some u" "counted_ok w s (op_ids u)" "held_ok s (op_revoking u)" "one_safe w s"
    "\<And>i. stage_ok w s (s i)" by (rule op_invE) blast
  have held: "held_ok s (op_revoking o')" using u(1,3) o' by simp
  note rec = reconciled_Inr [OF ops_wf [OF o'] c]
  have kept: "jfind (op_revoking o'') kid \<noteq> None" if h: "holding (s j) kid" for j kid
  proof -
    obtain t where t: "jfind (op_revoking o') kid = Some t" using held h unfolding held_ok_def by blast
    have "now_at E k - t < revoke_claim_ttl" if "tick (advance w) \<le> k" "k < tick v" for k
      using timely [unfolded timely_def, rule_format, OF h o' t, of k] that v by simp
    then show ?thesis using rec [THEN conjunct2, THEN conjunct2, THEN conjunct2, rule_format, OF t] by auto
  qed
  have "held_ok s (op_revoking o'')" using held kept unfolding held_ok_def by blast
  moreover have "counted_ok w' s (op_ids o'')"
  proof -
    have sc: "distinct actual" "\<And>kid. kid \<in> set actual \<Longrightarrow> operator_stored w kid \<or> lookup w api_keys_bucket kid = None"
      using u(5) [of i] at by (auto simp: stage_ok_def)
    have ids: "kid \<in> set actual \<and> jfind (op_revoking o'') kid = None \<and> lookup w api_keys_bucket kid \<noteq> None"
      if "kid \<in> set (op_ids o'')" for kid
      using rec that by auto
    have "operator_stored w kid \<and> (\<forall>j. \<not> holding (s j) kid)" if "kid \<in> set (op_ids o'')" for kid
      using ids [OF that] sc(2) [of kid] kept [of _ kid] by auto
    then show ?thesis using rec sc(1) by (simp add: counted_ok_def keys)
  qed
  moreover have "one_safe w' s" "stage_ok w' s (s j)" for j using u(4,5) by (simp_all add: one_safe_def stage_ok_def keys)
  ultimately have "op_inv w' s" using new by (simp add: op_inv_def)
  then show ?thesis by (rule op_inv_idle)
qed

section \<open>All steps\<close>

lemma op_inv_step:
  assumes "op_step E x y"
  shows "case x of (w, s) \<Rightarrow> op_inv w s \<longrightarrow> (case y of (w', s') \<Rightarrow> op_inv w' s')"
  using assms
proof induction
  case (other w w' s)
  then show ?case using op_inv_keys [of w s w'] by (auto simp: fun_eq_iff)
next
  case (start s i w kid r w')
  then show ?case using op_inv_start [of w s i kid E r w'] by auto
next
  case (crash w s i)
  then show ?case using op_inv_idle by blast
next
  case (audit_fails s i kid w w')
  have "op_inv w' (s(i := Troubled kid))" if "op_inv w s"
  proof -
    have inv: "op_inv w' s" using op_inv_same [OF that audit_fails(2)] .
    then have "stage_ok w' s (Claimed kid)" using audit_fails(1) by (metis op_invE)
    then show ?thesis by (intro op_inv_stage [OF inv]) (simp_all add: audit_fails(1) fun_eq_iff stage_ok_def)
  qed
  then show ?case by simp
next
  case (remove s i kid w r w')
  have "op_inv w' (s(i := q))" if "op_inv w s" "q \<in> {Troubled kid, Gone kid}" for q
  proof -
    have inv: "op_inv w' s" using op_inv_delete [OF that(1) _ remove(2), of i] remove(1) by blast
    then have "stage_ok w' s (Claimed kid)" using remove(1) by (metis op_invE)
    then show ?thesis using that(2) by (intro op_inv_stage [OF inv]) (auto simp: remove(1) fun_eq_iff stage_ok_def)
  qed
  then show ?case by (simp split: sum.split)
next
  case (look s i kid w r w')
  then show ?case using op_inv_look [of w s i kid E r w'] by auto
next
  case (abort s i kid w r w')
  have "op_inv w' (s(i := Idle))" if inv: "op_inv w s"
  proof -
    have "operator_stored w kid" using inv abort(1) by (metis op_invE stage_ok_def)
    moreover have "\<not> holding ((s(i := Idle)) j) kid" for j using idle_free [OF inv, of i kid j] abort(1) by simp
    ultimately show ?thesis using op_inv_add [OF op_inv_idle [OF inv]] abort(2) [unfolded abort_revoke_def] by blast
  qed
  then show ?case by simp
next
  case (finish s i kid w r w')
  have "op_inv w' (s(i := Idle))" if inv: "op_inv w s"
  proof -
    have "\<not> holding ((s(i := Idle)) j) kid" for j using idle_free [OF inv, of i kid j] finish(1) by simp
    then show ?thesis using op_inv_finish [OF op_inv_idle [OF inv]] finish(2) by blast
  qed
  then show ?case by simp
next
  case (remove_other w kid r w' s)
  then show ?case using op_inv_delete by blast
next
  case (scan s i w actual w')
  then show ?case using op_inv_scan by blast
next
  case (reconcile s i actual w r w')
  then show ?case using op_inv_reconcile by blast
next
  case (mint s i w k r w')
  then show ?case using op_inv_mint [of w s i k E r w'] by auto
next
  case (add s i kid w r w')
  have "op_inv w' (s(i := Idle))" if inv: "op_inv w s"
  proof -
    have a: "operator_stored w kid" "\<forall>j. \<not> holding (s j) kid" using inv add(1) by (metis op_invE stage_ok_def)+
    have "\<not> holding ((s(i := Idle)) j) kid" for j using a(2) by simp
    then show ?thesis using op_inv_add [OF op_inv_idle [OF inv] _ a(1) add(2)] by blast
  qed
  then show ?case by simp
qed

lemma op_inv_run: "(op_step E)\<^sup>*\<^sup>* x y \<Longrightarrow> case x of (w, s) \<Rightarrow> op_inv w s \<longrightarrow> (case y of (w', s') \<Rightarrow> op_inv w' s')"
proof (induction rule: rtranclp_induct)
  case (step y z)
  then show ?case using op_inv_step [OF step(2)] by (auto split: prod.splits)
qed auto


end
