(* ===== verification/Api_Bootstrap.thy ===== *)
theory Api_Bootstrap
  imports Api_Access Api_Operators
begin

text \<open>
  The first operator key (internal/api/auth.go): adopted from a file or, with the embedded store,
  minted into a file of the data directory, when the store has no operator key; and the repair of a
  start that crashed half way.
\<close>

section \<open>Files\<close>

definition err_no_file :: "string \<Rightarrow> err" where
  "err_no_file path = errorf (path @ '': no such file or directory'')"

definition read_file :: "'x env_scheme \<Rightarrow> string \<Rightarrow> string act" where
  "read_file E path = effect E (\<lambda>w. case map_of (text_files w) path of None \<Rightarrow> (Inl (err_no_file path), w) | Some c \<Rightarrow> (Inr c, w))"

definition lstat :: "'x env_scheme \<Rightarrow> string \<Rightarrow> unit act" where
  "lstat E path = ebind (read_file E path) (\<lambda>_. ret ())"

definition put_file :: "string \<Rightarrow> string \<Rightarrow> world \<Rightarrow> world" where
  "put_file path c w = w\<lparr>text_files := AList.update path c (text_files w)\<rparr>"

text \<open>Opening with \<open>O_EXCL\<close> makes an empty file or fails.\<close>

definition create_excl :: "'x env_scheme \<Rightarrow> string \<Rightarrow> unit act" where
  "create_excl E path = effect E (\<lambda>w. if map_of (text_files w) path \<noteq> None then (Inl (errorf (path @ '': file exists'')), w)
     else (Inr (), put_file path [] w))"

definition write_text :: "'x env_scheme \<Rightarrow> string \<Rightarrow> string \<Rightarrow> unit act" where
  "write_text E path c = effect E (\<lambda>w. (Inr (), put_file path c w))"

definition close_file :: "'x env_scheme \<Rightarrow> unit act" where
  "close_file E = effect E (ret ())"

definition rename_file :: "'x env_scheme \<Rightarrow> string \<Rightarrow> string \<Rightarrow> unit act" where
  "rename_file E a b = effect E (\<lambda>w. case map_of (text_files w) a of
     None \<Rightarrow> (Inl (err_no_file a), w)
   | Some c \<Rightarrow> (Inr (), put_file b c (w\<lparr>text_files := AList.delete a (text_files w)\<rparr>)))"

definition temp_prefix :: "server \<Rightarrow> string" where
  "temp_prefix s = sv_dir s @ ''/.'' @ bootstrap_key_file_name @ ''.''"

text \<open>\<open>filepath.Glob\<close> lists in order and ignores errors; the directory has no pattern characters.\<close>

definition glob_temps :: "'x env_scheme \<Rightarrow> server \<Rightarrow> string list act" where
  "glob_temps E s = ecase (effect E (\<lambda>w. (Inr (sort (filter (\<lambda>p. has_prefix p (temp_prefix s)) (remdups (map fst (text_files w))))), w)))
     (\<lambda>e. ret []) ret"

definition removed :: "'x env_scheme \<Rightarrow> string \<Rightarrow> unit act" where
  "removed E path = ecase (remove_file E path) (\<lambda>_. ret ()) ret"

definition write_temp_secret :: "'x env_scheme \<Rightarrow> server \<Rightarrow> string \<Rightarrow> string act" where
  "write_temp_secret E s content =
     ebind (rand_read E 8) (\<lambda>suffix. let path = temp_prefix s @ hex_encode suffix in
     ebind (create_excl E path) (\<lambda>_.
     ecase (write_text E path content) (\<lambda>e. ecase (close_file E) (\<lambda>_. ebind (removed E path) (\<lambda>_. fail e)) (\<lambda>_. ebind (removed E path) (\<lambda>_. fail e))) (\<lambda>_.
     ecase (close_file E) (\<lambda>e. ebind (removed E path) (\<lambda>_. fail e)) (\<lambda>_. ret path))))"

definition file_holds_key_hash :: "'x cenv_scheme \<Rightarrow> string \<Rightarrow> string \<Rightarrow> bool act" where
  "file_holds_key_hash E path h = ecase (read_file E path) (\<lambda>_. ret False) (\<lambda>data.
     case parse_key (trim_space data) of Inl _ \<Rightarrow> ret False | Inr (kid, secret) \<Rightarrow> ret (hex_encode (sha256 E secret) = h))"

section \<open>Minting\<close>

definition minted_record :: "'x cenv_scheme \<Rightarrow> string \<Rightarrow> bool \<Rightarrow> int \<Rightarrow> api_key" where
  "minted_record E secret recovery t = \<lparr>ak_id = bootstrap_minted_id, ak_hash = hex_encode (sha256 E secret), ak_role = role_operator,
     ak_tenant = [], ak_created_at = t, ak_bootstrap = True, ak_audited = False, ak_recovery = recovery\<rparr>"

definition install_minted :: "'x cenv_scheme \<Rightarrow> server \<Rightarrow> api_key \<Rightarrow> string \<Rightarrow> bool act" where
  "install_minted E s k tmp =
     ecase (insert_api_key E k) (\<lambda>e. ebind (removed E tmp) (\<lambda>_. fail e)) (\<lambda>created.
       if \<not> created then ebind (removed E tmp) (\<lambda>_. ret False)
       else ecase (rename_file E tmp (bootstrap_path s))
         (\<lambda>e. ebind (file_holds_key_hash E (bootstrap_path s) (ak_hash k)) (\<lambda>holds.
            if holds then ret True else fail (wrapf ''installing bootstrap key file: '' e)))
         (\<lambda>_. ret True))"

definition mint_bootstrap_file :: "'x cenv_scheme \<Rightarrow> server \<Rightarrow> bool \<Rightarrow> bool act" where
  "mint_bootstrap_file E s recovery =
     ebind (mint_key E role_operator []) (\<lambda>(minted, _).
     ebind (lift_sum (parse_key minted)) (\<lambda>(_, secret).
     ebind (clock E) (\<lambda>t.
     ebind (wrap_err (wrapf ''writing bootstrap key file: '')
       (write_temp_secret E s (token_of bootstrap_minted_id secret @ [CHR 0x0A]))) (\<lambda>tmp.
       install_minted E s (minted_record E secret recovery t) tmp))))"

fun restore_from :: "'x cenv_scheme \<Rightarrow> server \<Rightarrow> api_key \<Rightarrow> string list \<Rightarrow> unit act" where
  "restore_from E s rec [] = ret ()"
| "restore_from E s rec (tmp # temps) =
     ecase (read_file E tmp) (\<lambda>_. restore_from E s rec temps) (\<lambda>data.
       case parse_key (trim_space data) of
         Inl _ \<Rightarrow> restore_from E s rec temps
       | Inr (kid, secret) \<Rightarrow>
          if kid \<noteq> bootstrap_minted_id \<or> hex_encode (sha256 E secret) \<noteq> ak_hash rec then restore_from E s rec temps
          else ecase (rename_file E tmp (bootstrap_path s))
            (\<lambda>e. ebind (file_holds_key_hash E (bootstrap_path s) (ak_hash rec)) (\<lambda>holds.
               if holds then ret () else fail (wrapf ''restoring bootstrap key file: '' e))) ret)"

text \<open>The last look at the path only decides what is printed.\<close>

definition recover_minted_file :: "'x cenv_scheme \<Rightarrow> server \<Rightarrow> unit act" where
  "recover_minted_file E s =
     (if sv_db s \<noteq> ''bolt'' then ret ()
      else ecase (get_json E api_key_of api_keys_bucket bootstrap_minted_id)
        (\<lambda>e. if is_not_found e then ret () else fail e)
        (\<lambda>rec. ecase (lstat E (bootstrap_path s)) (\<lambda>_. ebind (glob_temps E s) (restore_from E s rec)) ret))"

section \<open>Starting\<close>

definition mark_audited :: "api_key \<Rightarrow> api_key act" where
  "mark_audited k = ret (k\<lparr>ak_audited := True\<rparr>)"

definition bootstrap_event :: "string \<Rightarrow> bool \<Rightarrow> audit_rec" where
  "bootstrap_event kid recovery = key_event [] \<lparr>ac_type = ''system'', ac_id = ''mnemoca'', ac_ip = []\<rparr>
     (if recovery then ''apikey.bootstrap.recover'' else ''apikey.create'') kid
     ([(''role'', role_operator), (''bootstrap'', ''true'')] @ (if recovery then [(''recovery'', ''true'')] else []))"

definition audit_bootstrap :: "'x cenv_scheme \<Rightarrow> server \<Rightarrow> string \<Rightarrow> bool \<Rightarrow> unit act" where
  "audit_bootstrap E s kid recovery =
     ebind (wrap_err (wrapf ''auditing bootstrap key: '') (log_event E (mg_audit (sv_manager s)) (bootstrap_event kid recovery))) (\<lambda>_.
     ecase (update_json E api_key_of api_key_json zero_key api_keys_bucket kid False mark_audited)
       (\<lambda>e. if is_not_found e then ret () else fail e) ret)"

definition read_supplied :: "'x cenv_scheme \<Rightarrow> server \<Rightarrow> api_key option act" where
  "read_supplied E s =
     (if sv_key_file s = [] then ret None
      else ebind (wrap_err (wrapf ''reading bootstrap key file: '') (read_file E (sv_key_file s))) (\<lambda>data.
        ebind (wrap_err (wrapf ''bootstrap key file: '') (lift_sum (parse_key (trim_space data)))) (\<lambda>(kid, secret).
        ebind (new_key_record E kid secret role_operator []) (\<lambda>k. ret (Some (k\<lparr>ak_bootstrap := True\<rparr>))))))"

text \<open>What a start sees: whether there is a key, an operator key, and the keys not yet audited.\<close>

definition survey_keys :: "'x cenv_scheme \<Rightarrow> (bool \<times> bool \<times> api_key list) act" where
  "survey_keys E = for_each_json E api_key_of api_keys_bucket (\<lambda>(anyk, oper, unaudited) _ k. Inr (True,
     oper \<or> ak_role k = role_operator, if ak_bootstrap k \<and> \<not> ak_audited k then unaudited @ [k] else unaudited)) (False, False, [])"

definition audit_pending :: "'x cenv_scheme \<Rightarrow> server \<Rightarrow> api_key list \<Rightarrow> unit act" where
  "audit_pending E s ks = efold (\<lambda>_ k. audit_bootstrap E s (ak_id k) (ak_recovery k)) () ks"

text \<open>A supplied key is inserted; when its id is taken, by an operator key only.\<close>

definition key_source :: "server \<Rightarrow> string" where
  "key_source s = (if sv_key_source s \<noteq> [] then sv_key_source s else ''$MNEMOCA_BOOTSTRAP_API_KEY_FILE'')"

definition adopt_key :: "'x cenv_scheme \<Rightarrow> server \<Rightarrow> api_key \<Rightarrow> bool act" where
  "adopt_key E s k =
     ebind (insert_api_key E k) (\<lambda>created.
       if created then ret True
       else ebind (get_json E api_key_of api_keys_bucket (ak_id k)) (\<lambda>existing.
         if ak_role existing \<noteq> role_operator
         then fail (errorf (''bootstrap key id '' @ ak_id k @ '' from '' @ key_source s @ '' collides with an existing non-operator key''))
         else ret False))"

definition make_operator :: "'x cenv_scheme \<Rightarrow> server \<Rightarrow> api_key option \<Rightarrow> bool \<Rightarrow> (string \<times> bool) act" where
  "make_operator E s supplied recovery = (case supplied of
     Some k \<Rightarrow> ebind (adopt_key E s (k\<lparr>ak_recovery := recovery\<rparr>)) (\<lambda>created. ret (ak_id k, created))
   | None \<Rightarrow>
      if sv_db s \<noteq> ''bolt''
      then fail (errorf (''no operator API key exists and the '' @ sv_db s @
        '' store will not auto-mint one: set MNEMOCA_BOOTSTRAP_API_KEY_FILE to a file holding mnemoca_<16 hex>_<64 hex>''))
      else ebind (mint_bootstrap_file E s recovery) (\<lambda>created. ret (bootstrap_minted_id, created)))"

definition bootstrap_key :: "'x cenv_scheme \<Rightarrow> server \<Rightarrow> unit act" where
  "bootstrap_key E s =
     ebind (read_supplied E s) (\<lambda>supplied.
     ebind (reconcile_operators E) (\<lambda>_.
     ebind (survey_keys E) (\<lambda>(anyk, oper, unaudited).
       if oper
       then ebind (audit_pending E s unaudited) (\<lambda>_.
            ebind (case supplied of None \<Rightarrow> ret ()
              | Some k \<Rightarrow> ecase (get E api_keys_bucket (ak_id k)) (\<lambda>e. if is_not_found e then ret () else fail e) (\<lambda>_. ret ())) (\<lambda>_.
            recover_minted_file E s))
       else ebind (make_operator E s supplied anyk) (\<lambda>(kid, created).
            if \<not> created then ret ()
            else ebind (add_operator E kid) (\<lambda>_. audit_bootstrap E s kid anyk)))))"

section \<open>What a start does to the keys\<close>

text \<open>Stored keys stay as they are, but for the flag that their creation was audited.\<close>

definition flagged :: "world \<Rightarrow> world \<Rightarrow> bool" where
  "flagged w w' \<longleftrightarrow> (\<forall>l. lookup w' api_keys_bucket l = lookup w api_keys_bucket l \<or>
     (\<exists>d k. lookup w api_keys_bucket l = Some d \<and> api_key_of d = Some k \<and>
        lookup w' api_keys_bucket l = Some (api_key_json (k\<lparr>ak_audited := True\<rparr>))))"

lemma flagged_trans: "flagged u v \<Longrightarrow> flagged v w \<Longrightarrow> flagged u w"
  unfolding flagged_def
proof
  fix l
  assume "\<forall>l. lookup v api_keys_bucket l = lookup u api_keys_bucket l \<or>
     (\<exists>d k. lookup u api_keys_bucket l = Some d \<and> api_key_of d = Some k \<and> lookup v api_keys_bucket l = Some (api_key_json (k\<lparr>ak_audited := True\<rparr>)))"
    and "\<forall>l. lookup w api_keys_bucket l = lookup v api_keys_bucket l \<or>
     (\<exists>d k. lookup v api_keys_bucket l = Some d \<and> api_key_of d = Some k \<and> lookup w api_keys_bucket l = Some (api_key_json (k\<lparr>ak_audited := True\<rparr>)))"
  from this [rule_format, of l]
  show "lookup w api_keys_bucket l = lookup u api_keys_bucket l \<or>
     (\<exists>d k. lookup u api_keys_bucket l = Some d \<and> api_key_of d = Some k \<and> lookup w api_keys_bucket l = Some (api_key_json (k\<lparr>ak_audited := True\<rparr>)))"
    by (cases "lookup u api_keys_bucket l"; cases "lookup v api_keys_bucket l") auto
qed

interpretation flagged: world_contract flagged
proof unfold_locales
  show "flagged u v \<Longrightarrow> flagged v w \<Longrightarrow> flagged u w" for u v w by (rule flagged_trans)
qed (simp_all add: flagged_def)

lemma flagged_keys: "\<forall>l. lookup w' api_keys_bucket l = lookup w api_keys_bucket l \<Longrightarrow> flagged w w'"
  by (simp add: flagged_def)

lemma flagged_operator:
  assumes "flagged w w'"
  shows "operator_stored w' kid = operator_stored w kid" "(lookup w' api_keys_bucket kid = None) = (lookup w api_keys_bucket kid = None)"
  using assms [unfolded flagged_def, rule_format, of kid] by (elim disjE exE conjE; simp add: operator_stored_def)+

interpretation files: world_contract "same text_files"
  by (rule same_advance_contract) simp

definition quiet :: "world \<Rightarrow> world \<Rightarrow> bool" where
  "quiet w w' \<longleftrightarrow> flagged w w' \<and> text_files w' = text_files w"

interpretation quiet: world_contract quiet
  by unfold_locales (auto simp: quiet_def intro: flagged_trans flagged.advance_ok flagged.contract_refl)

lemma quiet_log: "steps quiet (log_event E a r)"
proof (rule stepsI)
  fix w
  obtain x v where run: "log_event E a r w = (x, v)" by (cases "log_event E a r w")
  have "flagged w v" by (rule flagged_keys) (simp add: log_event_lookup [OF run])
  moreover have "steps (same text_files) (log_event E a r)"
  proof -
    have "steps (same text_files) (store_log E l r)" for l
      unfolding store_log_def claim_head_def write_record_def advance_head_def
      by (intro files.store_rules files.steps_seal_record) (simp_all add: same_def)
    moreover have "steps (same text_files) (file_log E l r)" for l
      unfolding file_log_def append_line_def fsync_def
      by (intro files.world_rules files.steps_seal_record same.steps_pure) (simp_all add: same_def)
    ultimately show ?thesis by (cases a) (simp_all add: same.steps_ret)
  qed
  from stepsD [OF this run] have "text_files v = text_files w" by (simp add: same_def)
  ultimately show "quiet w (snd (log_event E a r w))" by (simp add: run quiet_def)
qed

lemma quiet_set [simp]: "quiet w (set_doc w operator_meta_bucket l d)"
  by (simp add: quiet_def flagged_def lookup_set_doc)

lemma quiet_audit: "steps quiet (audit_bootstrap E s kid recovery)"
proof -
  have "steps quiet (update_json E api_key_of api_key_json zero_key api_keys_bucket kid False mark_audited)"
  proof (rule stepsI)
    fix w
    obtain x v where run: "update_json E api_key_of api_key_json zero_key api_keys_bucket kid False mark_audited w = (x, v)"
      by (cases "update_json E api_key_of api_key_json zero_key api_keys_bucket kid False mark_audited w")
    from run have "quiet w v"
    proof (cases rule: update_json_cases)
      case (written k k' u)
      then obtain d where "lookup w api_keys_bucket kid = Some d" "api_key_of d = Some k" by (auto split: option.splits)
      then show ?thesis using written(3,4) by (auto simp: quiet_def flagged_def mark_audited_def lookup_set_doc)
    qed (auto simp: mark_audited_def quiet.advance_ok)
    then show "quiet w (snd (update_json E api_key_of api_key_json zero_key api_keys_bucket kid False mark_audited w))" by (simp add: run)
  qed
  then show ?thesis unfolding audit_bootstrap_def by (intro quiet.world_rules quiet_log)
qed

lemma quiet_reconcile: "steps quiet (reconcile_operators E)"
  unfolding reconcile_operators_def update_operators_def reconciled_def drop_expired_def recheck_def
  by (intro quiet.store_rules quiet_set)

lemma quiet_add: "steps quiet (add_operator E kid)"
  unfolding add_operator_def update_operators_def by (intro quiet.store_rules quiet_set)

lemma survey_Inr:
  assumes "survey_keys E w = (Inr (anyk, oper, unaudited), w')"
  shows "w' = advance w \<and> oper = (\<exists>kid. operator_stored w kid)"
proof -
  have fold: "sfold (\<lambda>(a, o', u) kv. case kv of (_, k) \<Rightarrow> Inr (True, o' \<or> ak_role k = role_operator,
      if ak_bootstrap k \<and> \<not> ak_audited k then u @ [k] else u)) acc kvs = (Inr (a, oper, u) :: err + _) \<Longrightarrow>
    oper = (fst (snd acc) \<or> (\<exists>kid k. (kid, k) \<in> set kvs \<and> ak_role k = role_operator))" for kvs a u and acc :: "bool \<times> bool \<times> api_key list"
    by (induction kvs arbitrary: acc) (force split: prod.splits)+
  obtain kvs where kvs: "decode_all api_key_of (bucket w api_keys_bucket) = Some kvs" and w': "w' = advance w"
    and f: "sfold (\<lambda>(a, o', u) kv. case kv of (_, k) \<Rightarrow> Inr (True, o' \<or> ak_role k = role_operator,
      if ak_bootstrap k \<and> \<not> ak_audited k then u @ [k] else u)) (False, False, []) kvs = (Inr (anyk, oper, unaudited) :: err + _)"
    using assms by (auto simp: survey_keys_def for_each_json_Inr case_prod_unfold)
  have "oper = (\<exists>kid k. (kid, k) \<in> set kvs \<and> ak_role k = role_operator)" using fold [OF f] by simp
  then show ?thesis using w' by (auto simp: decode_all_mem [OF kvs] mem_bucket operator_stored_def)
qed

section \<open>Minting\<close>

lemma parse_key_token:
  assumes "is_lower_hex kid" "is_lower_hex secret" "length kid = 2 * key_id_bytes" "length secret = 2 * key_secret_bytes"
  shows "parse_key (token_of kid secret) = Inr (kid, secret)" "trim_space (token_of kid secret @ [CHR 0x0A]) = token_of kid secret"
proof -
  have "CHR ''_'' \<notin> set kid" using assms(1) by (auto simp: is_lower_hex_def list_all_iff lower_hex_char_def)
  then show "parse_key (token_of kid secret) = Inr (kid, secret)" using assms by (simp add: parse_key_def token_of_cut cut_at_append)
  have "\<not> is_space c" if "c \<in> set (token_of kid secret)" for c
    using that assms(1,2) by (auto simp: token_of_def key_prefix_def is_space_def is_lower_hex_def list_all_iff
        dest!: lower_hex_not_space [unfolded is_space_def])
  then show "trim_space (token_of kid secret @ [CHR 0x0A]) = token_of kid secret" by (rule trim_space_newline)
qed

lemma minted_id_ok: "is_lower_hex bootstrap_minted_id" "length bootstrap_minted_id = 2 * key_id_bytes"
  by (simp_all add: bootstrap_minted_id_def is_lower_hex_def lower_hex_char_def key_id_bytes_def)

lemma put_file_simps [simp]: "text_files (put_file p c w) = AList.update p c (text_files w)" "lookup (put_file p c w) = lookup w"
  "tick (put_file p c w) = tick w"
  by (simp_all add: put_file_def lookup_def fun_eq_iff)

lemma lookup_text_files [simp]: "lookup (w\<lparr>text_files := x\<rparr>) = lookup w"
  by (simp add: lookup_def fun_eq_iff)

lemma temp_not_final: "temp_prefix s @ x \<noteq> bootstrap_path s"
  by (simp add: temp_prefix_def bootstrap_path_def bootstrap_key_file_name_def)

lemma read_file_Inr [act_elims]:
  "read_file E path w = (Inr c, w') \<longleftrightarrow> fault_at E (tick w) = NoFault \<and> map_of (text_files w) path = Some c \<and> w' = advance w"
  by (auto simp: read_file_def effect_def Let_def split: fault.splits option.splits)

lemma read_file_world: "read_file E path w = (r, w') \<Longrightarrow> w' = advance w"
  by (auto simp: read_file_def effect_def Let_def split: fault.splits option.splits)

lemma write_temp_secret_Inr:
  assumes "write_temp_secret E s content w = (Inr tmp, v)"
  shows "lookup v = lookup w \<and> map_of (text_files v) tmp = Some content \<and> (\<exists>x. tmp = temp_prefix s @ x) \<and>
    map_of (text_files v) (bootstrap_path s) = map_of (text_files w) (bootstrap_path s)"
proof -
  have no: "ebind m (\<lambda>_. fail e) u \<noteq> (Inr tmp, v)" for m :: "unit act" and e u by (simp add: ebind_Inr_iff)
  obtain suffix where tmp: "tmp = temp_prefix s @ hex_encode suffix"
    and v: "v = advance (put_file tmp content (advance (put_file tmp [] (advance (advance w)))))"
    using assms by (auto simp: write_temp_secret_def Let_def ebind_Inr_iff ecase_eq_iff no create_excl_def write_text_def close_file_def
        rand_read_def dest!: effect_InrD split: if_splits)
  have "lookup v = lookup w" by (simp add: v lookup_def fun_eq_iff)
  then show ?thesis using temp_not_final [of s "hex_encode suffix"] by (auto simp: v tmp update_conv')
qed

text \<open>A file holds the secret of a stored operator key, and its id when \<open>exact\<close>.\<close>

definition opens_operator :: "'x cenv_scheme \<Rightarrow> world \<Rightarrow> string \<Rightarrow> bool \<Rightarrow> bool" where
  "opens_operator E w c exact \<longleftrightarrow> (\<exists>kid kid' secret d k. parse_key (trim_space c) = Inr (kid', secret) \<and>
     lookup w api_keys_bucket kid = Some d \<and> api_key_of d = Some k \<and> ak_role k = role_operator \<and>
     ak_hash k = hex_encode (sha256 E secret) \<and> (exact \<longrightarrow> kid' = kid))"

lemma opens_operator_kept:
  assumes "flagged w w'" and "opens_operator E w c exact"
  shows "opens_operator E w' c exact"
proof -
  obtain kid kid' secret d k where o: "parse_key (trim_space c) = Inr (kid', secret)" "lookup w api_keys_bucket kid = Some d"
    "api_key_of d = Some k" "ak_role k = role_operator" "ak_hash k = hex_encode (sha256 E secret)" "exact \<longrightarrow> kid' = kid"
    using assms(2) unfolding opens_operator_def by (elim exE conjE) (rule that)
  have "\<exists>d' k'. lookup w' api_keys_bucket kid = Some d' \<and> api_key_of d' = Some k' \<and> ak_role k' = ak_role k \<and> ak_hash k' = ak_hash k"
    using assms(1) [unfolded flagged_def, rule_format, of kid] o(2,3) by auto
  then obtain d' k' where "lookup w' api_keys_bucket kid = Some d'" "api_key_of d' = Some k'" "ak_role k' = ak_role k" "ak_hash k' = ak_hash k"
    by blast
  with o show ?thesis unfolding opens_operator_def
    by (intro exI [of _ kid] exI [of _ kid'] exI [of _ secret] exI [of _ d'] exI [of _ k']) simp
qed

lemma rename_cases:
  assumes "rename_file E a b w = (r, w')" and "map_of (text_files w) a = Some c" and "a \<noteq> b"
  shows "lookup w' = lookup w \<and> (map_of (text_files w') b = Some c \<or> (\<forall>u. r \<noteq> Inr u) \<and> text_files w' = text_files w)"
  using assms unfolding rename_file_def
  by (cases rule: effect_cases [where E = E and w = w and f = "\<lambda>w. case map_of (text_files w) a of
        None \<Rightarrow> (Inl (err_no_file a), w) | Some c \<Rightarrow> (Inr (), put_file b c (w\<lparr>text_files := AList.delete a (text_files w)\<rparr>))"])
    (auto simp: update_conv')

lemma file_holds_Inr:
  assumes "file_holds_key_hash E path h w = (Inr True, w')"
  shows "w' = advance w \<and> (\<exists>c kid secret. map_of (text_files w) path = Some c \<and> parse_key (trim_space c) = Inr (kid, secret) \<and>
    hex_encode (sha256 E secret) = h)"
proof -
  have "\<exists>c. map_of (text_files w) path = Some c \<and>
    (case parse_key (trim_space c) of Inl _ \<Rightarrow> ret False | Inr (kid, secret) \<Rightarrow> ret (hex_encode (sha256 E secret) = h)) (advance w) = (Inr True :: err + bool, w')"
    using assms by (auto simp: file_holds_key_hash_def ecase_eq_iff read_file_Inr)
  then obtain c where "map_of (text_files w) path = Some c"
    "(case parse_key (trim_space c) of Inl _ \<Rightarrow> ret False | Inr (kid, secret) \<Rightarrow> ret (hex_encode (sha256 E secret) = h)) (advance w) = (Inr True :: err + bool, w')"
    by blast
  then show ?thesis by (cases "parse_key (trim_space c)") auto
qed

lemma mint_key_Inr:
  assumes "mint_key E role tenant w = (Inr (token, k), w')"
  obtains a b where "token = token_of (hex_encode a) (hex_encode b)" "length a = key_id_bytes" "length b = key_secret_bytes"
    "lookup w' = lookup w" "text_files w' = text_files w"
proof -
  have "quiet w w' \<and> lookup w' = lookup w"
    using assms by (auto simp: mint_key_def new_key_record_def act_elims clock_Inr rand_read_def quiet_def flagged_def lookup_def fun_eq_iff
        dest!: effect_InrD)
  then show thesis using assms that
    by (auto simp: mint_key_def new_key_record_def act_elims clock_Inr quiet_def dest!: length_rand_read)
qed

lemma install_Inr:
  assumes run: "install_minted E s k tmp w = (Inr b, w')" and id: "ak_id k = bootstrap_minted_id" "ak_role k = role_operator"
    and tmp: "map_of (text_files w) tmp = Some c" "tmp = temp_prefix s @ x"
    and c: "parse_key (trim_space c) = Inr (bootstrap_minted_id, secret)" "ak_hash k = hex_encode (sha256 E secret)"
  shows "if lookup w api_keys_bucket bootstrap_minted_id \<noteq> None then \<not> b
    else b \<and> (\<exists>c. map_of (text_files w') (bootstrap_path s) = Some c \<and>
      opens_operator E w' c (map_of (text_files w) (bootstrap_path s) \<noteq> Some c))"
proof -
  let ?path = "bootstrap_path s"
  have no: "ebind m (\<lambda>_. fail e) u \<noteq> (Inr b, w')" for m :: "unit act" and e u by (simp add: ebind_Inr_iff)
  from run no obtain created v where i: "insert_api_key E k w = (Inr created, v)"
    and rest: "(if \<not> created then ebind (removed E tmp) (\<lambda>_. ret False)
       else ecase (rename_file E tmp ?path)
         (\<lambda>e. ebind (file_holds_key_hash E ?path (ak_hash k)) (\<lambda>holds.
            if holds then ret True else fail (wrapf ''installing bootstrap key file: '' e))) (\<lambda>_. ret True)) v = (Inr b, w')"
    unfolding install_minted_def ecase_eq_iff by blast
  show ?thesis
  proof (cases "lookup w api_keys_bucket bootstrap_minted_id = None")
    case False
    then have "\<not> created" using i by (auto simp: insert_api_key_def put_if_absent_Inr id(1))
    then show ?thesis using rest False by (simp add: ebind_Inr_iff)
  next
    case True
    then have cr: "created" and v: "v = set_doc (advance w) api_keys_bucket bootstrap_minted_id (api_key_json k)"
      using i by (auto simp: insert_api_key_def put_if_absent_Inr id(1))
    have files: "text_files v = text_files w" by (simp add: v)
    have stored: "opens_operator E u c' exact"
      if "lookup u = lookup v" "parse_key (trim_space c') = Inr (kid', sec)" "ak_hash k = hex_encode (sha256 E sec)"
        "exact \<longrightarrow> kid' = bootstrap_minted_id" for u c' kid' sec exact
      unfolding opens_operator_def using that id(2)
      by (intro exI [of _ bootstrap_minted_id] exI [of _ kid'] exI [of _ sec] exI [of _ "api_key_json k"] exI [of _ k])
        (simp add: v lookup_set_doc)
    obtain r u where ren: "rename_file E tmp ?path v = (r, u)" by (cases "rename_file E tmp ?path v")
    have "tmp \<noteq> ?path" using temp_not_final tmp(2) by simp
    from rename_cases [OF ren _ this] tmp(1) files
    have u: "lookup u = lookup v" "map_of (text_files u) ?path = Some c \<or> (\<forall>y. r \<noteq> Inr y) \<and> text_files u = text_files v" by auto
    have exact: ?thesis if "map_of (text_files w') ?path = Some c" "lookup w' = lookup v" b
      using stored [OF that(2) c(1) c(2)] that(1,3) True by auto
    show ?thesis
    proof (cases r)
      case (Inr y)
      then have "w' = u" b using rest cr ren by (simp_all add: ecase_apply)
      then show ?thesis using exact u Inr by simp
    next
      case (Inl e)
      then have h: "file_holds_key_hash E ?path (ak_hash k) u = (Inr True, w')" b
        using rest cr ren by (auto simp: ecase_apply ebind_Inr_iff split: if_splits)
      from file_holds_Inr [OF h(1)] obtain c' kid' sec where f: "w' = advance u" "map_of (text_files u) ?path = Some c'"
        "parse_key (trim_space c') = Inr (kid', sec)" "hex_encode (sha256 E sec) = ak_hash k" by blast
      have look: "lookup w' = lookup v" using u(1) by (simp add: f(1))
      show ?thesis
      proof (cases "map_of (text_files u) ?path = Some c")
        case True
        then show ?thesis using exact look h(2) by (simp add: f(1))
      next
        case False
        then have "map_of (text_files w) ?path = Some c'" using u(2) f(2) files by simp
        then show ?thesis using stored [OF look f(3) f(4) [symmetric], of False] True h(2) f(2) by (auto simp: f(1))
      qed
    qed
  qed
qed

lemma mint_Inr:
  assumes run: "mint_bootstrap_file E s recovery w = (Inr b, w')"
  shows "if lookup w api_keys_bucket bootstrap_minted_id \<noteq> None then \<not> b
    else b \<and> (\<exists>c. map_of (text_files w') (bootstrap_path s) = Some c \<and>
      opens_operator E w' c (map_of (text_files w) (bootstrap_path s) \<noteq> Some c))"
proof -
  obtain minted k1 w1 pid secret tmp w3 where m: "mint_key E role_operator [] w = (Inr (minted, k1), w1)"
    and p: "parse_key minted = Inr (pid, secret)"
    and t: "write_temp_secret E s (token_of bootstrap_minted_id secret @ [CHR 0x0A]) (advance w1) = (Inr tmp, w3)"
    and i: "install_minted E s (minted_record E secret recovery (now_at E (tick w1))) tmp w3 = (Inr b, w')"
    using run by (auto simp: mint_bootstrap_file_def ebind_Inr_iff wrap_err_Inr_iff clock_Inr)
  obtain x y where same: "lookup w1 = lookup w" "text_files w1 = text_files w" using mint_key_Inr [OF m] by metis
  have tm: "lookup w3 = lookup w" "map_of (text_files w3) tmp = Some (token_of bootstrap_minted_id secret @ [CHR 0x0A])"
    "\<exists>x. tmp = temp_prefix s @ x" "map_of (text_files w3) (bootstrap_path s) = map_of (text_files w) (bootstrap_path s)"
    using write_temp_secret_Inr [OF t] same by auto
  then obtain x where x: "tmp = temp_prefix s @ x" by blast
  have sec: "is_lower_hex secret" "length secret = 2 * key_secret_bytes" using parse_key_Inr [OF p] by simp_all
  have c: "parse_key (trim_space (token_of bootstrap_minted_id secret @ [CHR 0x0A])) = Inr (bootstrap_minted_id, secret)"
    using parse_key_token [OF minted_id_ok(1) sec(1) minted_id_ok(2) sec(2)] by simp
  show ?thesis using install_Inr [OF i _ _ tm(2) x c] unfolding tm(1,4) by (simp add: minted_record_def)
qed

section \<open>What a successful start leaves\<close>

lemma read_supplied_Inr:
  assumes "read_supplied E s w = (Inr given, w')"
  shows "quiet w w' \<and> lookup w' = lookup w \<and> (case given of None \<Rightarrow> sv_key_file s = []
    | Some k \<Rightarrow> sv_key_file s \<noteq> [] \<and> ak_role k = role_operator \<and> (\<exists>c secret. map_of (text_files w) (sv_key_file s) = Some c \<and>
        parse_key (trim_space c) = Inr (ak_id k, secret) \<and> ak_hash k = hex_encode (sha256 E secret)))"
  using assms by (auto simp: read_supplied_def new_key_record_def act_elims clock_Inr quiet_def flagged_def split: if_splits)

lemma adopt_key_Inr:
  assumes run: "adopt_key E s k w = (Inr created, w')" and none: "\<not> operator_stored w (ak_id k)"
  shows "created \<and> w' = set_doc (advance w) api_keys_bucket (ak_id k) (api_key_json k)"
proof (cases "lookup w api_keys_bucket (ak_id k) = None")
  case True
  then show ?thesis using run by (auto simp: adopt_key_def act_elims insert_api_key_def put_if_absent_Inr)
next
  case False
  then show ?thesis using run none
    by (auto simp: adopt_key_def act_elims insert_api_key_def put_if_absent_Inr operator_stored_def split: if_splits)
qed

definition key_path :: "server \<Rightarrow> string" where
  "key_path s = (if sv_key_file s \<noteq> [] then sv_key_file s else bootstrap_path s)"

lemma make_operator_Inr:
  assumes run: "make_operator E s given recovery w = (Inr (kid, created), w')" and none: "\<forall>kid. \<not> operator_stored w kid"
    and given: "case given of None \<Rightarrow> sv_key_file s = []
    | Some k \<Rightarrow> sv_key_file s \<noteq> [] \<and> ak_role k = role_operator \<and> (\<exists>c secret. map_of (text_files w) (sv_key_file s) = Some c \<and>
        parse_key (trim_space c) = Inr (ak_id k, secret) \<and> ak_hash k = hex_encode (sha256 E secret))"
  shows "if sv_key_file s = [] \<and> lookup w api_keys_bucket bootstrap_minted_id \<noteq> None then \<not> created
    else created \<and> (\<exists>c. map_of (text_files w') (key_path s) = Some c \<and>
      opens_operator E w' c (sv_key_file s \<noteq> [] \<or> map_of (text_files w) (key_path s) \<noteq> Some c))"
proof (cases given)
  case None
  then have "mint_bootstrap_file E s recovery w = (Inr created, w')"
    using run by (auto simp: make_operator_def ebind_Inr_iff split: if_splits)
  from mint_Inr [OF this] show ?thesis using given None by (simp add: key_path_def)
next
  case (Some k)
  let ?k = "k\<lparr>ak_recovery := recovery\<rparr>"
  have "adopt_key E s ?k w = (Inr created, w')" using run Some by (auto simp: make_operator_def ebind_Inr_iff)
  from adopt_key_Inr [OF this] none have a: "created" "w' = set_doc (advance w) api_keys_bucket (ak_id k) (api_key_json ?k)" by simp_all
  obtain c secret where c: "sv_key_file s \<noteq> []" "ak_role k = role_operator" "map_of (text_files w) (sv_key_file s) = Some c"
    "parse_key (trim_space c) = Inr (ak_id k, secret)" "ak_hash k = hex_encode (sha256 E secret)" using given Some by auto
  have "opens_operator E w' c True" unfolding opens_operator_def using c(2,4,5)
    by (intro exI [of _ "ak_id k"] exI [of _ secret] exI [of _ "api_key_json ?k"] exI [of _ ?k]) (simp add: a(2) lookup_set_doc)
  then show ?thesis using a c(1,3) by (simp add: key_path_def)
qed

lemma recover_keys: "recover_minted_file E s w = (r, w') \<Longrightarrow> flagged w w'"
proof (erule stepsD [rotated])
  have ren: "steps flagged (rename_file E a b)" for a b
    unfolding rename_file_def by (rule flagged.steps_effect) (simp add: steps_def flagged_def split: option.split)
  have rd: "steps flagged (read_file E a)" for a
    unfolding read_file_def by (rule flagged.steps_effect) (simp add: steps_def flagged_def split: option.split)
  have hold: "steps flagged (file_holds_key_hash E a h)" for a h
    unfolding file_holds_key_hash_def by (intro flagged.world_rules rd)
  have glob: "steps flagged (glob_temps E s)"
    unfolding glob_temps_def by (intro flagged.world_rules flagged.steps_pure flagged.contract_refl)
  have "steps flagged (restore_from E s rec temps)" for rec temps
  proof (induction temps)
    case Nil
    show ?case unfolding restore_from.simps by (rule flagged.steps_ret)
  next
    case (Cons tmp temps)
    show ?case unfolding restore_from.simps by (intro flagged.world_rules rd ren hold Cons)
  qed
  then show "steps flagged (recover_minted_file E s)"
    unfolding recover_minted_file_def lstat_def by (intro flagged.store_rules rd glob)
qed

lemma bootstrap_sound:
  assumes run: "bootstrap_key E s w = (Inr (), w')"
  shows "if \<exists>kid. operator_stored w kid then flagged w w'
    else sv_key_file s \<noteq> [] \<or> lookup w api_keys_bucket bootstrap_minted_id = None \<longrightarrow> (\<exists>c. map_of (text_files w') (key_path s) = Some c \<and>
      opens_operator E w' c (sv_key_file s \<noteq> [] \<or> map_of (text_files w) (key_path s) \<noteq> Some c))"
proof -
  obtain given v1 v2 anyk oper un v3 where r: "read_supplied E s w = (Inr given, v1)" and c: "reconcile_operators E v1 = (Inr (), v2)"
    and sv: "survey_keys E v2 = (Inr (anyk, oper, un), v3)"
    and rest: "(if oper
       then ebind (audit_pending E s un) (\<lambda>_.
            ebind (case given of None \<Rightarrow> ret ()
              | Some k \<Rightarrow> ecase (get E api_keys_bucket (ak_id k)) (\<lambda>e. if is_not_found e then ret () else fail e) (\<lambda>_. ret ())) (\<lambda>_.
            recover_minted_file E s))
       else ebind (make_operator E s given anyk) (\<lambda>(kid, created).
            if \<not> created then ret ()
            else ebind (add_operator E kid) (\<lambda>_. audit_bootstrap E s kid anyk))) v3 = (Inr (), w')"
    using run unfolding bootstrap_key_def ebind_Inr_iff [where m = "read_supplied E s"] ebind_Inr_iff [where m = "reconcile_operators E"]
      ebind_Inr_iff [where m = "survey_keys E"] by (elim exE conjE) (auto split: prod.splits)
  note rs = read_supplied_Inr [OF r] and su = survey_Inr [OF sv]
  have q: "quiet w v3"
    using rs stepsD [OF quiet_reconcile c] su quiet.advance_ok by (blast intro: quiet.contract_trans)
  have same: "operator_stored v3 = operator_stored w" "text_files v3 = text_files w"
    "(lookup v3 api_keys_bucket l = None) = (lookup w api_keys_bucket l = None)" for l
    using q flagged_operator [of w v3] by (auto simp: quiet_def fun_eq_iff)
  have "operator_stored v2 = operator_stored w"
    using rs stepsD [OF quiet_reconcile c] flagged_operator [of w v2] by (auto simp: quiet_def fun_eq_iff dest: flagged_trans)
  then have oper: "oper = (\<exists>kid. operator_stored w kid)" using su by simp
  show ?thesis
  proof (cases oper)
    case True
    obtain v4 v5 where p: "audit_pending E s un v3 = (Inr (), v4)" "recover_minted_file E s v5 = (Inr (), w')" and v5: "flagged v4 v5"
    proof -
      have st: "steps flagged (case given of None \<Rightarrow> ret ()
          | Some k \<Rightarrow> ecase (get E api_keys_bucket (ak_id k)) (\<lambda>e. if is_not_found e then ret () else fail e) (\<lambda>_. ret ()))"
        by (intro flagged.store_rules)
      show thesis using rest True that stepsD [OF st] by (auto simp: ebind_Inr_iff)
    qed
    have "steps quiet (audit_pending E s un)" unfolding audit_pending_def by (intro quiet.world_rules quiet_audit)
    then have "quiet v3 v4" using p(1) by (rule stepsD)
    then have "flagged w w'" using q v5 recover_keys [OF p(2)] by (auto simp: quiet_def dest: flagged_trans)
    then show ?thesis using True oper by simp
  next
    case False
    obtain kid created v4 where mk: "make_operator E s given anyk v3 = (Inr (kid, created), v4)"
      and fin: "(if \<not> created then ret () else ebind (add_operator E kid) (\<lambda>_. audit_bootstrap E s kid anyk)) v4 = (Inr (), w')"
      using rest False by (auto simp: ebind_Inr_iff)
    have none: "\<forall>kid. \<not> operator_stored v3 kid" using False oper same(1) by simp
    have "case given of None \<Rightarrow> sv_key_file s = []
      | Some k \<Rightarrow> sv_key_file s \<noteq> [] \<and> ak_role k = role_operator \<and> (\<exists>c secret. map_of (text_files v3) (sv_key_file s) = Some c \<and>
        parse_key (trim_space c) = Inr (ak_id k, secret) \<and> ak_hash k = hex_encode (sha256 E secret))"
      using rs same(2) by (simp split: option.splits)
    note made = make_operator_Inr [OF mk none this]
    show ?thesis
    proof (cases "sv_key_file s = [] \<and> lookup w api_keys_bucket bootstrap_minted_id \<noteq> None")
      case True
      then show ?thesis using False oper by auto
    next
      case no: False
      then have cr: "created" and "\<exists>c. map_of (text_files v4) (key_path s) = Some c \<and>
          opens_operator E v4 c (sv_key_file s \<noteq> [] \<or> map_of (text_files w) (key_path s) \<noteq> Some c)"
        using made same(2,3) by (simp_all split: if_splits)
      then obtain c where c: "map_of (text_files v4) (key_path s) = Some c"
        "opens_operator E v4 c (sv_key_file s \<noteq> [] \<or> map_of (text_files w) (key_path s) \<noteq> Some c)" by blast
      have "steps quiet (ebind (add_operator E kid) (\<lambda>_. audit_bootstrap E s kid anyk))"
        by (intro quiet.world_rules quiet_add quiet_audit)
      then have "quiet v4 w'" using fin cr stepsD by fastforce
      then show ?thesis using c no False oper opens_operator_kept by (auto simp: quiet_def)
    qed
  qed
qed

text \<open>
  Claim C20: a start that succeeds leaves an operator key, and adopts or mints one only when there
  is none.  If an operator key was stored, no key is added, removed or changed but for the flag that
  its creation was audited.  If none was (and the fixed id of minted keys is free), the key file, or
  the file of the data directory, holds a token whose secret is that of a stored operator key; the
  id in it is that key's too, unless the file is one that was already there and could not be replaced.
\<close>

theorem bootstrap_only_when_needed:
  assumes "bootstrap_key E s w = (Inr (), w')"
  shows "if \<exists>kid. operator_stored w kid then flagged w w'
    else sv_key_file s \<noteq> [] \<or> lookup w api_keys_bucket bootstrap_minted_id = None \<longrightarrow> (\<exists>c. map_of (text_files w') (key_path s) = Some c \<and>
      opens_operator E w' c (sv_key_file s \<noteq> [] \<or> map_of (text_files w) (key_path s) \<noteq> Some c))"
  using assms by (rule bootstrap_sound)

end
