(* ===== verification/Api_Samples.thy ===== *)
theory Api_Samples
  imports Ca_Issue_Samples Api_Bootstrap
begin

text \<open>
  Concrete API keys in the sample environment, on which the theorems about the API apply.
\<close>

section \<open>Two operator keys\<close>

definition sample_operator :: "string \<Rightarrow> api_key" where
  "sample_operator kid = zero_key\<lparr>ak_id := kid, ak_role := role_operator\<rparr>"

definition two_operators :: world where
  "two_operators = set_doc (set_doc (set_doc empty_world api_keys_bucket ''a'' (api_key_json (sample_operator ''a'')))
     api_keys_bucket ''b'' (api_key_json (sample_operator ''b'')))
     operator_meta_bucket operator_meta_key (operator_set_json \<lparr>op_ids = [''a'', ''b''], op_revoking = []\<rparr>)"

lemma two_operators_start:
  "operator_stored two_operators ''a''" "operator_stored two_operators ''b''"
  "ops two_operators = Some \<lparr>op_ids = [''a'', ''b''], op_revoking = []\<rparr>"
  by (simp_all add: two_operators_def operator_stored_def ops_def lookup_set_doc sample_operator_def operator_set_of_json wf_map_def)


section \<open>Tokens\<close>

lemma token_opens_its_key_witness:
  "\<exists>token k w'. create_key sample_env role_tenant ''acme'' empty_world = (Inr (token, k), w') \<and>
     authenticate sample_env (''Bearer '' @ token) w' = (Inr k, advance w') \<and> ak_role k = role_tenant"
proof -
  have "\<exists>token k w'. create_key sample_env role_tenant ''acme'' empty_world = (Inr (token, k), w') \<and>
     lookup w' api_keys_bucket (ak_id k) = Some (api_key_json k)"
    by (simp add: create_key_def mint_key_def new_key_record_def ebind_apply clock_def sample_rand put_json_def put_ok role_tenant_def role_operator_def
        lookup_set_doc)
  then obtain token k w' where c: "create_key sample_env role_tenant ''acme'' empty_world = (Inr (token, k), w')"
    and l: "lookup w' api_keys_bucket (ak_id k) = Some (api_key_json k)" by blast
  have up: "fault_at sample_env (tick w') = NoFault" by simp
  show ?thesis using c token_opens_its_key [OF c l up] by blast
qed

section \<open>Access\<close>

definition sample_api :: aenv where
  "sample_api = cenv.extend sample_env (aenv.fields (\<lambda>v. Inr 0))"

lemma sample_api_simps [simp]: "fault_at sample_api n = NoFault" "sha256 sample_api = sha256 sample_env"
  by (simp_all add: sample_api_def cenv.extend_def sample_env_def)

definition sample_server :: server where
  "sample_server = \<lparr>sv_manager = store_manager, sv_db = ''mongo'', sv_dir = ''/data'', sv_key_file = ''/key'', sv_key_source = [], sv_acme = None\<rparr>"

definition sample_tenant_key :: api_key where
  "sample_tenant_key = zero_key\<lparr>ak_id := ''a'', ak_hash := hex_encode (sha256 sample_env ''s''), ak_role := role_tenant, ak_tenant := ''acme''\<rparr>"

definition key_world :: world where
  "key_world = set_doc empty_world api_keys_bucket ''a'' (api_key_json sample_tenant_key)"

definition sample_get :: "string \<Rightarrow> request" where
  "sample_get auth = \<lparr>rq_method = ''GET'', rq_path = [''api'', ''v1'', ''tenants''], rq_auth = auth, rq_remote = [], rq_body = None\<rparr>"

lemma sample_route: "route sample_server (rq_method (sample_get a)) (rq_path (sample_get a)) = Some ListTenants"
  by (simp add: route_def sample_get_def is_get_def sample_server_def)

lemma sample_authenticates:
  "authenticate sample_api (rq_auth (sample_get ''Bearer mnemoca_a_s'')) key_world = (Inr sample_tenant_key, advance key_world)"
proof -
  have "token_parts ''Bearer mnemoca_a_s'' = Some (''a'', ''s'')"
    by (simp add: token_parts_def cut_prefix_def has_prefix_def trim_space_def is_space_def key_prefix_def)
  then show ?thesis by (simp add: authenticate_Inr sample_get_def key_world_def lookup_set_doc sample_tenant_key_def)
qed


lemma no_key_no_access_witness:
  "\<exists>res w'. serve sample_api sample_server (sample_get []) key_world = (res, w') \<and> (\<exists>b. res = Inr \<lparr>rs_status = 401, rs_body = b\<rparr>)"
proof -
  obtain res w' where run: "serve sample_api sample_server (sample_get []) key_world = (res, w')"
    by (cases "serve sample_api sample_server (sample_get []) key_world")
  have key: "authenticate sample_api (rq_auth (sample_get [])) key_world = (Inl err_unauthorized, key_world)"
    by (simp add: authenticate_def token_parts_def cut_prefix_def has_prefix_def sample_get_def)
  from no_key_no_access [OF key sample_route _ run]
  have "\<exists>b. res = Inr \<lparr>rs_status = 401, rs_body = b\<rparr>" by (simp add: protected_def operator_endpoint_def err_unauthorized_def)
  with run show ?thesis by blast
qed

section \<open>Starting\<close>

definition sample_token :: string where
  "sample_token = token_of (replicate 16 (CHR ''1'')) (replicate 64 (CHR ''2''))"

lemma sample_token_parses: "parse_key (trim_space sample_token) = Inr (replicate 16 (CHR ''1''), replicate 64 (CHR ''2''))"
proof -
  have "\<not> is_space c" if "c \<in> set sample_token" for c
    using that by (auto simp: sample_token_def token_of_def key_prefix_def is_space_def)
  then have "trim_space sample_token = sample_token" by (rule trim_space_id)
  moreover have "parse_key sample_token = Inr (replicate 16 (CHR ''1''), replicate 64 (CHR ''2''))"
    unfolding sample_token_def
    by (rule parse_key_token) (simp_all add: is_lower_hex_def lower_hex_char_def key_id_bytes_def key_secret_bytes_def list_all_iff)
  ultimately show ?thesis by simp
qed

definition first_start :: world where
  "first_start = put_file ''/key'' sample_token empty_world"

definition sample_adopted :: api_key where
  "sample_adopted = \<lparr>ak_id = replicate 16 (CHR ''1''), ak_hash = hex_encode (sha256 sample_env (replicate 64 (CHR ''2''))), ak_role = role_operator,
     ak_tenant = [], ak_created_at = now_at sample_env 1, ak_bootstrap = True, ak_audited = False, ak_recovery = False\<rparr>"

lemma bootstrap_only_when_needed_witness:
  "\<exists>w'. bootstrap_key sample_env sample_server first_start = (Inr (), w') \<and>
     (\<exists>c. map_of (text_files w') ''/key'' = Some c \<and> opens_operator sample_env w' c True)"
proof -
  have none: "bucket w api_keys_bucket = []" if "docs w = []" for w by (simp add: bucket_def keys_of_def that)
  have read: "read_supplied sample_env sample_server first_start = (Inr (Some sample_adopted), advance (advance first_start))"
    using sample_token_parses
    by (simp add: read_supplied_def new_key_record_def act_elims clock_Inr first_start_def sample_server_def sample_adopted_def empty_world_def)
  have "\<exists>v. reconcile_operators sample_env (advance (advance first_start)) = (Inr (), v) \<and> docs v = [((operator_meta_bucket, operator_meta_key), operator_set_json \<lparr>op_ids = [], op_revoking = []\<rparr>)]"
    by (simp add: reconcile_operators_def act_elims none first_start_def put_file_def empty_world_def
        update_operators_def lookup_def reconciled_def set_doc_def)
  then obtain v where v: "reconcile_operators sample_env (advance (advance first_start)) = (Inr (), v)"
    "docs v = [((operator_meta_bucket, operator_meta_key), operator_set_json \<lparr>op_ids = [], op_revoking = []\<rparr>)]" by blast
  have meta: "lookup v operator_meta_bucket operator_meta_key = Some (operator_set_json \<lparr>op_ids = [], op_revoking = []\<rparr>)"
    by (simp add: lookup_def v(2))
  have survey: "survey_keys sample_env v = (Inr (False, False, []), advance v)"
    by (simp add: survey_keys_def act_elims bucket_def keys_of_def v(2))
  have "\<exists>u. make_operator sample_env sample_server (Some sample_adopted) False (advance v) = (Inr (ak_id sample_adopted, True), u) \<and>
      u = set_doc (advance (advance v)) api_keys_bucket (ak_id sample_adopted) (api_key_json sample_adopted)"
    by (simp add: make_operator_def adopt_key_def insert_api_key_def act_elims sample_adopted_def) (auto simp: lookup_def v(2))
  then have make: "make_operator sample_env sample_server (Some sample_adopted) False (advance v) =
      (Inr (ak_id sample_adopted, True), set_doc (advance (advance v)) api_keys_bucket (ak_id sample_adopted) (api_key_json sample_adopted))" by simp
  have "\<exists>w'. bootstrap_key sample_env sample_server first_start = (Inr (), w')"
    unfolding bootstrap_key_def ebind_ok [where m = "read_supplied sample_env sample_server", OF read]
      ebind_ok [where m = "reconcile_operators sample_env", OF v(1)] ebind_ok [where m = "survey_keys sample_env", OF survey]
    by (simp add: ebind_ok [where m = "make_operator sample_env sample_server (Some sample_adopted) False", OF make])
      (simp add: add_operator_def update_operators_def act_elims audit_bootstrap_def ecase_eq_iff sample_server_def store_manager_def
        lookup_set_doc mark_audited_def meta operator_set_of_json wf_map_def, blast)
  then obtain w' where run: "bootstrap_key sample_env sample_server first_start = (Inr (), w')" by blast
  have "\<not> (\<exists>kid. operator_stored first_start kid)" by (simp add: operator_stored_def first_start_def) (simp add: lookup_def empty_world_def)
  then have "\<exists>c. map_of (text_files w') ''/key'' = Some c \<and> opens_operator sample_env w' c True"
    using bootstrap_only_when_needed [OF run] by (simp add: sample_server_def key_path_def)
  with run show ?thesis by blast
qed

end
