(* ===== verification/Acme_Samples.thy ===== *)
theory Acme_Samples
  imports Acme_Proved Api_Samples
begin

text \<open>
  A small network and a signed request in the sample environment, on which the theorems about the
  ACME server apply.
\<close>

section \<open>The environment\<close>

text \<open>Every host has the address 8.8.8.8; a server there answers with the body \<open>t.k\<close>, as do the TXT records, with its digest.\<close>

definition sample_jwk :: json where
  "sample_jwk = JObj [(''kty'', JStr ''OKP''), (''crv'', JStr ''Ed25519''), (''x'', JStr (raw_b64 sample_pub))]"

definition sample_jws :: json where
  "sample_jws = JObj [(''protected'', JStr (raw_b64 ''h'')), (''payload'', JStr []),
     (''signature'', JStr (raw_b64 (CHR ''s'' # raw_b64 ''h'' @ ''.'')))]"

definition sample_header :: json where
  "sample_header = JObj [(''alg'', JStr ''EdDSA''), (''nonce'', JStr ''n''), (''url'', JStr ''u/acme/acme/revoke-cert''), (''jwk'', sample_jwk)]"

definition sample_address :: string where
  "sample_address = [CHR 0x08, CHR 0x08, CHR 0x08, CHR 0x08]"

definition sample_net :: nenv where
  "sample_net = aenv.extend sample_api (nenv.fields (map_of [(''j'', sample_jws), (''h'', sample_header)]) (\<lambda>k d. k @ d)
     (\<lambda>k d r s. r = s) Some Some (\<lambda>u. Some (''http'', ''a.example'', ''80'')) (\<lambda>b r. Some r) (\<lambda>k h. [sample_address])
     (\<lambda>k a u. Some \<lparr>hr_status = 200, hr_location = [], hr_body = Inr ''t.k''\<rparr>) (\<lambda>k n. Inr [raw_b64 ''ht.k'']))"

lemma sample_net_simps [simp]:
  "fault_at sample_net n = NoFault" "sha256 sample_net = sha256 sample_env" "now_at sample_net = now_at sample_env"
  "ed25519_ok sample_net = ed25519_ok sample_env" "rnd_at sample_net = rnd_at sample_env"
  "json_parse sample_net = map_of [(''j'', sample_jws), (''h'', sample_header)]" "media_type sample_net = Some"
  "resolve_at sample_net k h = [sample_address]" "txt_at sample_net k m = Inr [raw_b64 ''ht.k'']"
  "http_at sample_net k a u = Some \<lparr>hr_status = 200, hr_location = [], hr_body = Inr ''t.k''\<rparr>"
  "url_split sample_net u = Some (''http'', ''a.example'', ''80'')"
  by (simp_all add: sample_net_def sample_api_def aenv.extend_def nenv.fields_def aenv.fields_def cenv.extend_def sample_env_def)

definition sample_acme :: acme_server where
  "sample_acme = new_acme store_manager NopLog ''u'' False False"

lemma raw_b64_Nil_iff: "raw_b64 s = [] \<longleftrightarrow> s = []"
  by (metis raw_b64.simps(1) raw_b64_inject)

section \<open>Challenges\<close>

theorem challenge_fetch_ends_witness:
  "\<exists>r tr w'. client_get sample_net True 0 ''u'' empty_world = (Inr (r, tr), w') \<and> length tr \<le> 5 \<and> (\<forall>a \<in> set tr. \<not> blocked_address a)"
proof -
  have "length (resolve_at sample_net k host) \<le> 1" for k host by simp
  from challenge_fetch_ends [OF this, of True "''u''" empty_world] show ?thesis by auto
qed

lemma sample_dns_check: "run_check sample_net sample_acme ''dns-01'' ''a.example'' ''t'' ''k'' empty_world = (Inr (), advance empty_world)"
  by (simp add: run_check_def check_dns01_def key_authorization_def trim_prefix_def cut_prefix_def has_prefix_def at_tick_def ebind_apply
      sample_env_def Let_def)

theorem check_rests_on_answer_witness:
  "\<exists>k txts. txt_at sample_net k ''_acme-challenge.a.example'' = Inr txts \<and> raw_b64 (sha256 sample_net ''t.k'') \<in> set txts"
  using check_rests_on_answer [OF sample_dns_check] by (simp add: trim_prefix_def cut_prefix_def has_prefix_def)

section \<open>A signed request\<close>

definition sample_post :: acme_request where
  "sample_post = \<lparr>xq_method = ''POST'', xq_path = [''acme'', ''acme'', ''revoke-cert''], xq_type = ''application/jose+json'', xq_remote = [],
     xq_body = Inr ''j''\<rparr>"

definition nonce_world :: world where
  "nonce_world = set_doc empty_world (nonce_bucket ''acme'') ''n'' (nonce_rec_json \<lparr>nr_expires = 1000000000000\<rparr>)"

lemma sample_read: "\<exists>jws hdr. read_jws sample_net sample_acme sample_post = Inr (jws, hdr) \<and> jp_nonce hdr = ''n'' \<and> jp_alg hdr = ''EdDSA'' \<and> jp_kid hdr = [] \<and>
    jp_jwk hdr = Some sample_jwk \<and> jw_protected jws = raw_b64 ''h'' \<and> jw_payload jws = [] \<and> jw_signature jws = raw_b64 (CHR ''s'' # raw_b64 ''h'' @ ''.'')"
  by (simp add: read_jws_def sample_post_def unmarshal_def flat_jws_of_def sample_jws_def loose_fields_def field_named_def jws_protected_of_def
      sample_header_def jget_def request_url_def path_text_def sample_acme_def new_acme_def max_body_bytes_def trim_slashes_def lower_char_def json_simps raw_b64_Nil_iff
      del: raw_b64.simps)

lemma sample_verified: "\<exists>r. verify_request sample_net sample_acme sample_post ''acme'' True nonce_world = (Inr r, advance (advance empty_world))"
proof -
  obtain jws hdr where rd: "read_jws sample_net sample_acme sample_post = Inr (jws, hdr)" "jp_nonce hdr = ''n''" "jp_alg hdr = ''EdDSA''" "jp_kid hdr = []"
    "jp_jwk hdr = Some sample_jwk" "jw_protected jws = raw_b64 ''h''" "jw_payload jws = []" "jw_signature jws = raw_b64 (CHR ''s'' # raw_b64 ''h'' @ ''.'')"
    using sample_read by blast
  have nonce: "consume_nonce sample_net ''acme'' ''n'' nonce_world = (Inr True, advance (del_doc (advance nonce_world) (nonce_bucket ''acme'') ''n''))"
    by (simp add: consume_nonce_Inr nonce_world_def lookup_set_doc) (simp add: sample_env_def empty_world_def)
  have w: "advance (del_doc (advance nonce_world) (nonce_bucket ''acme'') ''n'') = advance (advance empty_world)"
    by (simp add: nonce_world_def del_doc_def set_doc_def advance_def empty_world_def)
  have fields: "jwk_fields_of sample_jwk = Some \<lparr>jk_kty = ''OKP'', jk_crv = ''Ed25519'', jk_x = raw_b64 sample_pub, jk_y = [], jk_n = [], jk_e = []\<rparr>"
    by (simp add: jwk_fields_of_def sample_jwk_def loose_fields_def field_named_def jget_def lower_char_def json_simps)
  have "parse_jwk sample_net sample_jwk = Inr (Ed25519Key sample_pub)"
    by (simp add: parse_jwk_def fields parse_okp_def jwk_member_def)
  moreover have "\<exists>t. jwk_thumbprint sample_net (Some sample_jwk) = Inr t"
    by (simp add: jwk_thumbprint_def fields canonical_jwk_def)
  moreover have "b64_decode [] = Some []" by (simp add: b64_decode_def)
  moreover have "ed25519_ok sample_env k m (CHR ''s'' # m)" for k m by (simp add: sample_env_def)
  ultimately have "\<exists>r. open_jws sample_net ''acme'' jws hdr None sample_jwk = Inr r"
    by (auto simp: open_jws_def verify_jws_signature_def rd simp del: raw_b64.simps)
  then show ?thesis using nonce
    by (auto simp: verify_request_def ebind_apply rd request_key_def w)
qed

theorem nonce_single_use_witness:
  "\<exists>r w1 e w3. verify_request sample_net sample_acme sample_post ''acme'' True nonce_world = (Inr r, w1) \<and>
     verify_request sample_net sample_acme sample_post ''acme'' True (serve_all sample_net sample_acme [sample_post] w1) = (Inl e, w3)"
proof -
  obtain r w1 where v: "verify_request sample_net sample_acme sample_post ''acme'' True nonce_world = (Inr r, w1)" using sample_verified by blast
  obtain jws hdr where rd: "read_jws sample_net sample_acme sample_post = Inr (jws, hdr)" "jp_nonce hdr = ''n''" using sample_read by blast
  have "length (raw_b64 (map (rnd_at sample_net k) [0..<16])) \<noteq> length ''n''" for k
    by (simp add: upt_rec Let_def)
  then have "fresh_nonces sample_net (tick w1) (jp_nonce hdr)" unfolding fresh_nonces_def rd(2) by metis
  note use = nonce_single_use [OF rd(1) v this rd(1) refl]
  obtain res w3 where run: "verify_request sample_net sample_acme sample_post ''acme'' True (serve_all sample_net sample_acme [sample_post] w1) = (res, w3)"
    by (cases "verify_request sample_net sample_acme sample_post ''acme'' True (serve_all sample_net sample_acme [sample_post] w1)")
  from use [OF run] run v show ?thesis by blast
qed

section \<open>A certificate beside the server\<close>

text \<open>A state with one certificate and no object of the server, and a request that reads the directory.\<close>

definition sample_read_directory :: acme_request where
  "sample_read_directory = \<lparr>xq_method = ''GET'', xq_path = [''acme'', ''acme'', ''directory''], xq_type = [], xq_remote = [], xq_body = Inr []\<rparr>"


end
