(* ===== verification/Store_Refine.thy ===== *)
theory Store_Refine
  imports Store
begin

text \<open>
  Refinement of the store: an implementation over a state of its own simulates an operation of the
  store model when each of its runs is one of the runs of the operation, for some outcome of the call
  (it works, fails without effect, fails after its effect), in related states.
\<close>

definition same_answer :: "err + 'a \<Rightarrow> err + 'a \<Rightarrow> bool" where
  "same_answer r r' \<longleftrightarrow> r = r' \<or> (\<exists>e t. r = Inl e \<and> \<not> is_not_found e \<and> r' = Inl (io_error t))"

definition simulates :: "'x env_scheme \<Rightarrow> ('db \<Rightarrow> world \<Rightarrow> bool) \<Rightarrow> ('db, err, 'a) action \<Rightarrow> ('x env_scheme \<Rightarrow> 'a act) \<Rightarrow> bool" where
  "simulates E R m spec \<longleftrightarrow> (\<forall>db w r db'. R db w \<longrightarrow> m db = (r, db') \<longrightarrow>
     (\<exists>f r' w'. spec (E\<lparr>fault_at := \<lambda>_. f\<rparr>) w = (r', w') \<and> R db' w' \<and> same_answer r r'))"

lemma same_answer_refl [simp]: "same_answer r r"
  by (simp add: same_answer_def)

lemma simulatesD:
  assumes "simulates E R m spec" and "R db w" and "m db = (r, db')"
  obtains f r' w' where "spec (E\<lparr>fault_at := \<lambda>_. f\<rparr>) w = (r', w')" "R db' w'" "same_answer r r'"
  using assms unfolding simulates_def by blast

text \<open>The three outcomes of a call with a body.\<close>

lemma outcome_of_effect:
  assumes spec: "\<And>E. spec E = effect E body"
    and run: "(\<exists>w'. body (advance w) = (r, w') \<and> Q w') \<or>
      (\<exists>e. r = Inl e \<and> \<not> is_not_found e \<and> (Q (advance w) \<or> Q (snd (body (advance w)))))"
  shows "\<exists>f r' w'. spec (E\<lparr>fault_at := \<lambda>_. f\<rparr>) w = (r', w') \<and> Q w' \<and> same_answer r r'"
proof -
  have s: "spec (E\<lparr>fault_at := \<lambda>_. f\<rparr>) w = (case f of NoFault \<Rightarrow> body (advance w) | FailClean t \<Rightarrow> (Inl (io_error t), advance w)
      | FailCommitted t \<Rightarrow> (Inl (io_error t), snd (body (advance w))))" for f
    by (simp add: spec effect_def Let_def)
  from run show ?thesis
  proof (elim disjE exE conjE)
    show ?thesis if "body (advance w) = (r, w')" "Q w'" for w'
      by (intro exI [of _ NoFault] exI [of _ r] exI [of _ w']) (simp add: s that)
    show ?thesis if "r = Inl e" "\<not> is_not_found e" "Q (advance w)" for e
      by (intro exI [of _ "FailClean []"] exI [of _ "Inl (io_error [])"] exI [of _ "advance w"]) (use that in \<open>auto simp: s same_answer_def\<close>)
    show ?thesis if "r = Inl e" "\<not> is_not_found e" "Q (snd (body (advance w)))" for e
      by (intro exI [of _ "FailCommitted []"] exI [of _ "Inl (io_error [])"] exI [of _ "snd (body (advance w))"])
        (use that in \<open>auto simp: s same_answer_def\<close>)
  qed
qed

lemma simulates_effect:
  assumes spec: "\<And>E. spec E = effect E body"
    and run: "\<And>db w r db'. R db w \<Longrightarrow> m db = (r, db') \<Longrightarrow> (\<exists>w'. body (advance w) = (r, w') \<and> R db' w') \<or>
      (\<exists>e. r = Inl e \<and> \<not> is_not_found e \<and> (R db' (advance w) \<or> R db' (snd (body (advance w)))))"
  shows "simulates E R m spec"
  unfolding simulates_def by (intro allI impI outcome_of_effect [OF spec] run)

text \<open>The operations as calls with a body.\<close>

lemma update_as_effect:
  "update E p k create (\<lambda>data. lift_sum (fn data)) = effect E (\<lambda>w. if p = [] then (Inl err_empty_path, w)
     else if lookup w p k = None \<and> \<not> create then (Inl err_not_found, w)
     else case fn (lookup w p k) of Inl e \<Rightarrow> (Inl e, w) | Inr d \<Rightarrow> (Inr (), set_doc w p k d))"
  unfolding update_def update_out_def
  by (rule arg_cong [where f = "effect E"]) (auto simp: fun_eq_iff ebind_apply split: sum.split)

text \<open>The counters.\<close>

lemma seq_of_set [simp]: "seq_of (set_doc w p k d) = seq_of w" "seq_of (del_doc w p k) = seq_of w"
  by (simp_all add: seq_of_def fun_eq_iff)

lemma seq_of_advance [simp]: "seq_of (advance w) = seq_of w"
  by (simp add: seq_of_def fun_eq_iff)

lemma seq_of_next: "seq_of (w\<lparr>seqs := AList.update p n (seqs w)\<rparr>) q = (if q = p then n else seq_of w q)"
  by (simp add: seq_of_def update_conv')

text \<open>The listing of a bucket by its laws.\<close>

lemma bucket_unique:
  assumes "sorted (map fst xs)" "distinct (map fst xs)" and "\<And>k d. (k, d) \<in> set xs \<longleftrightarrow> lookup w p k = Some d"
  shows "xs = bucket w p"
proof -
  have "k \<in> set (map fst xs) \<longleftrightarrow> lookup w p k \<noteq> None" for k
    using assms(3) by (force simp: image_iff)
  then have "set (map fst xs) = set (keys_of w p)" by (intro set_eqI) (unfold mem_keys_of)
  then have "map fst xs = keys_of w p"
    using assms(1,2) by (intro sorted_distinct_set_unique) simp_all
  moreover have "map (\<lambda>k. (k, the (lookup w p k))) (map fst xs) = xs"
    unfolding map_map by (rule map_idI) (use assms(3) in \<open>auto simp: o_def\<close>)
  ultimately show ?thesis by (simp add: bucket_def)
qed

end
