(* ===== verification/Store_Bolt.thy ===== *)
theory Store_Bolt
  imports Store_Refine
begin

text \<open>
  The embedded store (internal/store/bolt.go) over the bbolt library: every operation is one
  transaction on a tree of buckets.  The library is a parameter: the operations the code calls, and
  what its documentation says of them.  The theorem is the refinement of the store that the rest of
  the development uses.
\<close>

section \<open>The library\<close>

text \<open>
  A database, handles of buckets (no handle stands for the transaction itself), and the calls of the
  code.  A call that fails gives a text; a commit has the database of before and of after.
\<close>

record ('db, 'h, 'd) bbolt =
  b_begin :: "'db \<Rightarrow> string option"
  b_commit :: "'db \<Rightarrow> 'db \<Rightarrow> (string + unit) \<times> 'db"
  b_open :: "'h option \<Rightarrow> string \<Rightarrow> 'db \<Rightarrow> 'h option"
  b_make :: "'h option \<Rightarrow> string \<Rightarrow> 'db \<Rightarrow> (string + 'h) \<times> 'db"
  b_get :: "'h \<Rightarrow> string \<Rightarrow> 'db \<Rightarrow> 'd option"
  b_put :: "'h \<Rightarrow> string \<Rightarrow> 'd \<Rightarrow> 'db \<Rightarrow> (string + unit) \<times> 'db"
  b_delete :: "'h \<Rightarrow> string \<Rightarrow> 'db \<Rightarrow> (string + unit) \<times> 'db"
  b_items :: "'h \<Rightarrow> 'db \<Rightarrow> (string \<times> 'd option) list"
  b_next :: "'h \<Rightarrow> 'db \<Rightarrow> (string + u64) \<times> 'db"

text \<open>The text of an error of the library, as a value of the error type.\<close>

definition told :: "('db \<Rightarrow> (string + 'a) \<times> 'db) \<Rightarrow> ('db, err, 'a) action" where
  "told f db = (case f db of (Inl t, db') \<Rightarrow> (Inl (errorf t), db') | (Inr x, db') \<Rightarrow> (Inr x, db'))"

lemma told_eq_iff: "told f db = (r, db') \<longleftrightarrow> (\<exists>t. f db = (Inl t, db') \<and> r = Inl (errorf t)) \<or> (\<exists>x. f db = (Inr x, db') \<and> r = Inr x)"
  by (auto simp: told_def split: prod.splits sum.splits)

section \<open>Transactions\<close>

text \<open>A transaction that returns an error is rolled back.\<close>

definition db_update :: "('db, 'h, 'd) bbolt \<Rightarrow> ('db, err, 'a) action \<Rightarrow> ('db, err, 'a) action" where
  "db_update B f db = (case b_begin B db of Some t \<Rightarrow> (Inl (errorf t), db)
     | None \<Rightarrow> (case f db of
         (Inl e, _) \<Rightarrow> (Inl e, db)
       | (Inr x, db1) \<Rightarrow> (case b_commit B db db1 of (Inl t, db2) \<Rightarrow> (Inl (errorf t), db2) | (Inr _, db2) \<Rightarrow> (Inr x, db2))))"

definition db_view :: "('db, 'h, 'd) bbolt \<Rightarrow> ('db, err, 'a) action \<Rightarrow> ('db, err, 'a) action" where
  "db_view B f db = (case b_begin B db of Some t \<Rightarrow> (Inl (errorf t), db) | None \<Rightarrow> (fst (f db), db))"

section \<open>Operations\<close>

definition enter :: "('db, 'h, 'd) bbolt \<Rightarrow> bool \<Rightarrow> 'h option \<Rightarrow> string \<Rightarrow> ('db, err, 'h) action" where
  "enter B create b seg =
     (if create then told (b_make B b seg)
      else (\<lambda>db. case b_open B b seg db of None \<Rightarrow> (Inl err_not_found, db) | Some b' \<Rightarrow> (Inr b', db)))"

fun walk :: "('db, 'h, 'd) bbolt \<Rightarrow> bool \<Rightarrow> 'h \<Rightarrow> string list \<Rightarrow> ('db, err, 'h) action" where
  "walk B create b [] = ret b"
| "walk B create b (seg # segs) = ebind (enter B create (Some b) seg) (\<lambda>b'. walk B create b' segs)"

fun bucket_path :: "('db, 'h, 'd) bbolt \<Rightarrow> string list \<Rightarrow> bool \<Rightarrow> ('db, err, 'h) action" where
  "bucket_path B [] create = fail err_empty_path"
| "bucket_path B (seg # segs) create = ebind (enter B create None seg) (\<lambda>b. walk B create b segs)"

definition bolt_put :: "('db, 'h, 'd) bbolt \<Rightarrow> bpath \<Rightarrow> string \<Rightarrow> 'd \<Rightarrow> ('db, err, unit) action" where
  "bolt_put B p k d = db_update B (ebind (bucket_path B p True) (\<lambda>b. told (b_put B b k d)))"

definition bolt_put_if_absent :: "('db, 'h, 'd) bbolt \<Rightarrow> bpath \<Rightarrow> string \<Rightarrow> 'd \<Rightarrow> ('db, err, bool) action" where
  "bolt_put_if_absent B p k d = db_update B (ebind (bucket_path B p True) (\<lambda>b db.
     if b_get B b k db \<noteq> None then (Inr False, db) else ebind (told (b_put B b k d)) (\<lambda>_. ret True) db))"

definition bolt_get :: "('db, 'h, 'd) bbolt \<Rightarrow> bpath \<Rightarrow> string \<Rightarrow> ('db, err, 'd) action" where
  "bolt_get B p k = db_view B (ebind (bucket_path B p False) (\<lambda>b db.
     case b_get B b k db of None \<Rightarrow> (Inl err_not_found, db) | Some d \<Rightarrow> (Inr d, db)))"

definition bolt_take :: "('db, 'h, 'd) bbolt \<Rightarrow> bpath \<Rightarrow> string \<Rightarrow> ('db, err, 'd) action" where
  "bolt_take B p k = db_update B (ebind (bucket_path B p False) (\<lambda>b db.
     case b_get B b k db of None \<Rightarrow> (Inl err_not_found, db)
     | Some d \<Rightarrow> ebind (told (b_delete B b k)) (\<lambda>_. ret d) db))"

definition bolt_delete :: "('db, 'h, 'd) bbolt \<Rightarrow> bpath \<Rightarrow> string \<Rightarrow> ('db, err, unit) action" where
  "bolt_delete B p k = db_update B (ecase (bucket_path B p False)
     (\<lambda>e. if is_not_found e then ret () else fail e) (\<lambda>b. told (b_delete B b k)))"

text \<open>Nested buckets come along without a value and are skipped.\<close>

definition visit :: "('a \<Rightarrow> string \<times> 'd \<Rightarrow> err + 'a) \<Rightarrow> 'a \<Rightarrow> string \<times> 'd option \<Rightarrow> err + 'a" where
  "visit f a item = (case snd item of None \<Rightarrow> Inr a | Some d \<Rightarrow> f a (fst item, d))"

definition bolt_for_each :: "('db, 'h, 'd) bbolt \<Rightarrow> bpath \<Rightarrow> ('a \<Rightarrow> string \<times> 'd \<Rightarrow> err + 'a) \<Rightarrow> 'a \<Rightarrow> ('db, err, 'a) action" where
  "bolt_for_each B p f a = db_view B (ecase (bucket_path B p False)
     (\<lambda>e. if is_not_found e then ret a else fail e) (\<lambda>b db. (sfold (visit f) a (b_items B b db), db)))"

definition bolt_update :: "('db, 'h, 'd) bbolt \<Rightarrow> bpath \<Rightarrow> string \<Rightarrow> bool \<Rightarrow> ('d option \<Rightarrow> err + 'd) \<Rightarrow> ('db, err, unit) action" where
  "bolt_update B p k create fn = db_update B (ebind (bucket_path B p True) (\<lambda>b db.
     let data = b_get B b k db in
     if data = None \<and> \<not> create then (Inl err_not_found, db)
     else ebind (lift_sum (fn data)) (\<lambda>out. told (b_put B b k out)) db))"

definition bolt_next_seq :: "('db, 'h, 'd) bbolt \<Rightarrow> bpath \<Rightarrow> ('db, err, u64) action" where
  "bolt_next_seq B p = db_update B (ebind (bucket_path B p True) (\<lambda>b. told (b_next B b)))"

section \<open>What the library promises\<close>

text \<open>
  A database is seen as a tree of buckets: which paths are buckets, the values under keys, and a
  counter for each bucket.
\<close>

record ('db, 'h, 'd) bview =
  v_path :: "'h \<Rightarrow> bpath"
  v_buckets :: "'db \<Rightarrow> bpath set"
  v_val :: "'db \<Rightarrow> bpath \<Rightarrow> string \<Rightarrow> 'd option"
  v_seq :: "'db \<Rightarrow> bpath \<Rightarrow> u64"

definition under :: "('db, 'h, 'd) bview \<Rightarrow> 'h option \<Rightarrow> bpath" where
  "under V b = (case b of None \<Rightarrow> [] | Some h \<Rightarrow> v_path V h)"

definition live :: "('db, 'h, 'd) bview \<Rightarrow> 'db \<Rightarrow> 'h option \<Rightarrow> bool" where
  "live V db b \<longleftrightarrow> (case b of None \<Rightarrow> True | Some h \<Rightarrow> v_path V h \<in> v_buckets V db)"

text \<open>Buckets lie in buckets, and what is no bucket holds nothing.\<close>

definition tree_laws :: "('db, 'h, 'd) bview \<Rightarrow> bool" where
  "tree_laws V \<longleftrightarrow> (\<forall>db p seg. p \<noteq> [] \<longrightarrow> p @ [seg] \<in> v_buckets V db \<longrightarrow> p \<in> v_buckets V db) \<and>
     (\<forall>db p k. p \<notin> v_buckets V db \<longrightarrow> v_val V db p k = None \<and> v_seq V db p = 0)"

text \<open>Opening finds the bucket if it is there; making it leaves everything else as it was.\<close>

definition bucket_laws :: "('db, 'h, 'd) bbolt \<Rightarrow> ('db, 'h, 'd) bview \<Rightarrow> bool" where
  "bucket_laws B V \<longleftrightarrow>
     (\<forall>db b seg. b_open B b seg db = None \<longleftrightarrow> under V b @ [seg] \<notin> v_buckets V db) \<and>
     (\<forall>db b seg h. b_open B b seg db = Some h \<longrightarrow> v_path V h = under V b @ [seg]) \<and>
     (\<forall>db b seg h db'. live V db b \<longrightarrow> b_make B b seg db = (Inr h, db') \<longrightarrow> v_path V h = under V b @ [seg] \<and>
        v_buckets V db' = insert (under V b @ [seg]) (v_buckets V db) \<and> v_val V db' = v_val V db \<and> v_seq V db' = v_seq V db)"

definition value_laws :: "('db, 'h, 'd) bbolt \<Rightarrow> ('db, 'h, 'd) bview \<Rightarrow> bool" where
  "value_laws B V \<longleftrightarrow>
     (\<forall>db h k. v_path V h \<in> v_buckets V db \<longrightarrow> b_get B h k db = v_val V db (v_path V h) k) \<and>
     (\<forall>db h k d db'. v_path V h \<in> v_buckets V db \<longrightarrow> b_put B h k d db = (Inr (), db') \<longrightarrow>
        v_val V db' = (v_val V db)(v_path V h := (v_val V db (v_path V h))(k \<mapsto> d)) \<and> v_seq V db' = v_seq V db) \<and>
     (\<forall>db h k db'. v_path V h \<in> v_buckets V db \<longrightarrow> b_delete B h k db = (Inr (), db') \<longrightarrow>
        v_val V db' = (v_val V db)(v_path V h := (v_val V db (v_path V h))(k := None)) \<and> v_seq V db' = v_seq V db) \<and>
     (\<forall>db h n db'. v_path V h \<in> v_buckets V db \<longrightarrow> b_next B h db = (Inr n, db') \<longrightarrow>
        n = v_seq V db (v_path V h) + 1 \<and> v_seq V db' = (v_seq V db)(v_path V h := n) \<and> v_val V db' = v_val V db)"

text \<open>Iteration is in the order of the keys.\<close>

definition item_laws :: "('db, 'h, 'd) bbolt \<Rightarrow> ('db, 'h, 'd) bview \<Rightarrow> bool" where
  "item_laws B V \<longleftrightarrow> (\<forall>db h. v_path V h \<in> v_buckets V db \<longrightarrow> sorted (map fst (b_items B h db)) \<and> distinct (map fst (b_items B h db)) \<and>
     (\<forall>k d. (k, Some d) \<in> set (b_items B h db) \<longleftrightarrow> v_val V db (v_path V h) k = Some d))"

text \<open>A commit that fails may have reached the disk all the same.\<close>

definition commit_laws :: "('db, 'h, 'd) bbolt \<Rightarrow> bool" where
  "commit_laws B \<longleftrightarrow> (\<forall>db db1 r db2. b_commit B db db1 = (r, db2) \<longrightarrow> db2 = db1 \<or> db2 = db \<and> (\<exists>t. r = Inl t))"

definition bbolt_laws :: "('db, 'h, 'd) bbolt \<Rightarrow> ('db, 'h, 'd) bview \<Rightarrow> bool" where
  "bbolt_laws B V \<longleftrightarrow> tree_laws V \<and> bucket_laws B V \<and> value_laws B V \<and> item_laws B V \<and> commit_laws B"

section \<open>The refinement\<close>

definition bolt_rel :: "('db, 'h, json) bview \<Rightarrow> 'db \<Rightarrow> world \<Rightarrow> bool" where
  "bolt_rel V db w \<longleftrightarrow> (\<forall>p. p \<noteq> [] \<longrightarrow> lookup w p = v_val V db p \<and> seq_of w p = v_seq V db p)"

lemma bolt_rel_advance [simp]: "bolt_rel V db (advance w) = bolt_rel V db w"
  by (simp add: bolt_rel_def seq_of_def)

lemma bolt_rel_same: "bolt_rel V db w \<Longrightarrow> v_val V db' = v_val V db \<Longrightarrow> v_seq V db' = v_seq V db \<Longrightarrow> bolt_rel V db' w"
  by (simp add: bolt_rel_def)

lemma bolt_rel_lookup: "bolt_rel V db w \<Longrightarrow> p \<noteq> [] \<Longrightarrow> lookup w p k = v_val V db p k"
  by (simp add: bolt_rel_def)

lemma bolt_rel_set:
  assumes "bolt_rel V db w" "v_val V db' = (v_val V db)(p := (v_val V db p)(k \<mapsto> d))" "v_seq V db' = v_seq V db"
  shows "bolt_rel V db' (set_doc w p k d)"
  using assms by (auto simp: bolt_rel_def fun_eq_iff lookup_set_doc)

lemma bolt_rel_del:
  assumes "bolt_rel V db w" "v_val V db' = (v_val V db)(p := (v_val V db p)(k := None))" "v_seq V db' = v_seq V db"
  shows "bolt_rel V db' (del_doc w p k)"
  using assms by (auto simp: bolt_rel_def fun_eq_iff lookup_del_doc)

text \<open>Descending a path: with \<open>create\<close> every bucket on it is made, without it a missing one is reported.\<close>

definition same_docs :: "('db, 'h, 'd) bview \<Rightarrow> 'db \<Rightarrow> 'db \<Rightarrow> bool" where
  "same_docs V db db' \<longleftrightarrow> v_buckets V db \<subseteq> v_buckets V db' \<and> v_val V db' = v_val V db \<and> v_seq V db' = v_seq V db"

lemma same_docs_trans: "same_docs V a b \<Longrightarrow> same_docs V b c \<Longrightarrow> same_docs V a c"
  by (auto simp: same_docs_def)

definition arrived :: "('db, 'h, 'd) bview \<Rightarrow> bool \<Rightarrow> bpath \<Rightarrow> 'db \<Rightarrow> err + 'h \<Rightarrow> 'db \<Rightarrow> bool" where
  "arrived V create q db r db' \<longleftrightarrow> (case r of
     Inr h \<Rightarrow> v_path V h = q \<and> q \<in> v_buckets V db' \<and> same_docs V db db' \<and> (\<not> create \<longrightarrow> db' = db)
   | Inl e \<Rightarrow> if create then \<not> is_not_found e else e = err_not_found \<and> q \<notin> v_buckets V db \<and> db' = db)"

lemma enter_arrives:
  assumes laws: "bucket_laws B V" and b: "live V db b" and run: "enter B create b seg db = (r, db')"
  shows "arrived V create (under V b @ [seg]) db r db'"
proof (cases create)
  case True
  show ?thesis
  proof (cases r)
    case (Inl e)
    then show ?thesis using run True by (auto simp: enter_def told_eq_iff arrived_def)
  next
    case (Inr h)
    then have m: "b_make B b seg db = (Inr h, db')" using run True by (auto simp: enter_def told_eq_iff)
    have "v_path V h = under V b @ [seg] \<and> v_buckets V db' = insert (under V b @ [seg]) (v_buckets V db) \<and> v_val V db' = v_val V db \<and> v_seq V db' = v_seq V db"
      using laws b m unfolding bucket_laws_def by blast
    with Inr True show ?thesis by (auto simp: arrived_def same_docs_def)
  qed
next
  case False
  have o: "b_open B b seg db = None \<longleftrightarrow> under V b @ [seg] \<notin> v_buckets V db"
    "b_open B b seg db = Some h \<Longrightarrow> v_path V h = under V b @ [seg]" for h
    using laws unfolding bucket_laws_def by blast+
  show ?thesis
  proof (cases "b_open B b seg db")
    case None
    with run False o(1) show ?thesis by (auto simp: enter_def arrived_def)
  next
    case (Some h)
    with run False have "r = Inr h" "db' = db" by (auto simp: enter_def)
    with False Some o show ?thesis by (simp add: arrived_def same_docs_def)
  qed
qed

lemma bucket_prefix:
  assumes "tree_laws V"
  shows "p \<noteq> [] \<Longrightarrow> p @ q \<in> v_buckets V db \<Longrightarrow> p \<in> v_buckets V db"
proof (induction q rule: rev_induct)
  case (snoc seg q)
  have "(p @ q) @ [seg] \<in> v_buckets V db \<Longrightarrow> p @ q \<in> v_buckets V db"
    using assms snoc.prems(1) unfolding tree_laws_def by blast
  with snoc show ?case by simp
qed simp

lemma arrived_then:
  assumes one: "arrived V create q db (Inr h) db1" and two: "arrived V create q' db1 r db'"
  shows "arrived V create q' db r db'"
  using assms by (auto simp: arrived_def intro: same_docs_trans split: sum.splits if_splits)

lemma arrived_short:
  assumes "tree_laws V" and "arrived V create q db (Inl e) db1" and "q \<noteq> []"
  shows "arrived V create (q @ q') db (Inl e) db1"
  using assms(2) bucket_prefix [OF assms(1,3)] by (auto simp: arrived_def split: if_splits)

lemma walk_arrives:
  assumes t: "tree_laws V" and laws: "bucket_laws B V" and "v_path V h \<in> v_buckets V db" and "walk B create h segs db = (r, db')"
  shows "arrived V create (v_path V h @ segs) db r db'"
  using assms(3,4)
proof (induction segs arbitrary: h db)
  case Nil
  then show ?case by (auto simp: arrived_def same_docs_def)
next
  case (Cons seg segs)
  obtain x db1 where e: "enter B create (Some h) seg db = (x, db1)" by (cases "enter B create (Some h) seg db")
  have a: "arrived V create (v_path V h @ [seg]) db x db1"
    using enter_arrives [OF laws _ e] Cons.prems(1) by (simp add: live_def under_def)
  show ?case
  proof (cases x)
    case (Inl err)
    then have "r = Inl err" "db' = db1" using Cons.prems(2) e by (simp_all add: ebind_apply)
    with arrived_short [OF t, of create "v_path V h @ [seg]" db err db1 segs] a Inl show ?thesis by simp
  next
    case (Inr h1)
    then have "v_path V h1 = v_path V h @ [seg]" "v_path V h1 \<in> v_buckets V db1" using a by (simp_all add: arrived_def)
    moreover have "walk B create h1 segs db1 = (r, db')" using Cons.prems(2) e Inr by (simp add: ebind_apply)
    ultimately have "arrived V create (v_path V h @ seg # segs) db1 r db'" using Cons.IH [of h1 db1] by simp
    with a [unfolded Inr] show ?thesis by (rule arrived_then)
  qed
qed

lemma bucket_path_arrives:
  assumes t: "tree_laws V" and laws: "bucket_laws B V" and "p \<noteq> []" and run: "bucket_path B p create db = (r, db')"
  shows "arrived V create p db r db'"
proof -
  obtain seg segs where p: "p = seg # segs" using assms(3) by (cases p) auto
  obtain x db1 where e: "enter B create None seg db = (x, db1)" by (cases "enter B create None seg db")
  have a: "arrived V create [seg] db x db1" using enter_arrives [OF laws _ e] by (simp add: live_def under_def)
  show ?thesis
  proof (cases x)
    case (Inl err)
    then have "r = Inl err" "db' = db1" using run e by (simp_all add: ebind_apply p)
    with arrived_short [OF t, of create "[seg]" db err db1 segs] a Inl show ?thesis by (simp add: p)
  next
    case (Inr h)
    then have h: "v_path V h = [seg]" "v_path V h \<in> v_buckets V db1" using a by (simp_all add: arrived_def)
    have "walk B create h segs db1 = (r, db')" using run e Inr by (simp add: ebind_apply p)
    from walk_arrives [OF t laws h(2) this] h(1) have "arrived V create p db1 r db'" by (simp add: p)
    with a [unfolded Inr] show ?thesis by (rule arrived_then)
  qed
qed

section \<open>Transactions against calls\<close>

text \<open>A writing transaction simulates a call when its body does, with the same error or one of the library.\<close>

definition does :: "('db \<Rightarrow> world \<Rightarrow> bool) \<Rightarrow> ('db, err, 'a) action \<Rightarrow> 'a act \<Rightarrow> bool" where
  "does R f body \<longleftrightarrow> (\<forall>db w. R db w \<longrightarrow> (case f db of
     (Inl e, db1) \<Rightarrow> (\<exists>w1. body w = (Inl e, w1) \<and> R db w1) \<or> \<not> is_not_found e
   | (Inr x, db1) \<Rightarrow> \<exists>w1. body w = (Inr x, w1) \<and> R db1 w1))"

lemma update_simulates:
  assumes commit: "commit_laws B" and adv: "\<And>db w. R db w \<Longrightarrow> R db (advance w)"
    and spec: "\<And>E. spec E = effect E body" and f: "does R f body"
  shows "simulates E R (db_update B f) spec"
proof (rule simulates_effect [OF spec])
  fix db w r db'
  assume R: "R db w" and run: "db_update B f db = (r, db')"
  have R': "R db (advance w)" using R by (rule adv)
  obtain x db1 where fx: "f db = (x, db1)" by (cases "f db")
  show "(\<exists>w'. body (advance w) = (r, w') \<and> R db' w') \<or>
      (\<exists>e. r = Inl e \<and> \<not> is_not_found e \<and> (R db' (advance w) \<or> R db' (snd (body (advance w)))))"
  proof (cases "b_begin B db")
    case (Some t)
    with run R' show ?thesis by (auto simp: db_update_def)
  next
    case None
    show ?thesis
    proof (cases x)
      case (Inl e)
      then have r: "r = Inl e" "db' = db" using run None fx by (simp_all add: db_update_def)
      have "(\<exists>w1. body (advance w) = (Inl e, w1) \<and> R db w1) \<or> \<not> is_not_found e"
        using f R' fx Inl unfolding does_def by fastforce
      with r R' show ?thesis by blast
    next
      case (Inr y)
      obtain w1 where b: "body (advance w) = (Inr y, w1)" "R db1 w1" using f R' fx Inr unfolding does_def by fastforce
      obtain c db2 where c: "b_commit B db db1 = (c, db2)" by (cases "b_commit B db db1")
      then have law: "db2 = db1 \<or> db2 = db \<and> (\<exists>t. c = Inl t)" using commit unfolding commit_laws_def by blast
      have r: "db' = db2" "r = (case c of Inl t \<Rightarrow> Inl (errorf t) | Inr _ \<Rightarrow> Inr y)"
        using run None fx Inr c by (auto simp: db_update_def split: sum.splits)
      show ?thesis
      proof (cases c)
        case (Inl t)
        with r law b R' show ?thesis by auto
      next
        case (Inr u)
        with r law b show ?thesis by auto
      qed
    qed
  qed
qed

lemma view_simulates:
  assumes adv: "\<And>db w. R db w \<Longrightarrow> R db (advance w)" and spec: "\<And>E. spec E = effect E body"
    and f: "does R f body" and reads: "\<And>w. snd (body w) = w"
  shows "simulates E R (db_view B f) spec"
proof (rule simulates_effect [OF spec])
  fix db w r db'
  assume R: "R db w" and run: "db_view B f db = (r, db')"
  have R': "R db (advance w)" using R by (rule adv)
  obtain x db1 where fx: "f db = (x, db1)" by (cases "f db")
  show "(\<exists>w'. body (advance w) = (r, w') \<and> R db' w') \<or>
      (\<exists>e. r = Inl e \<and> \<not> is_not_found e \<and> (R db' (advance w) \<or> R db' (snd (body (advance w)))))"
  proof (cases "b_begin B db")
    case (Some t)
    with run R' show ?thesis by (auto simp: db_view_def)
  next
    case None
    then have r: "r = x" "db' = db" using run fx by (simp_all add: db_view_def)
    have "(\<exists>w1. body (advance w) = (x, w1)) \<or> (\<exists>e. x = Inl e \<and> \<not> is_not_found e)"
      using f R' fx unfolding does_def by (cases x) fastforce+
    moreover have "body (advance w) = (x, w1) \<Longrightarrow> w1 = advance w" for w1 using reads [of "advance w"] by simp
    ultimately show ?thesis using r R' by blast
  qed
qed

section \<open>The operations\<close>

text \<open>What a bucket that was reached says of the document under a key.\<close>

lemma reached:
  assumes laws: "bbolt_laws B V" and p: "p \<noteq> []" and R: "bolt_rel V db w" and run: "bucket_path B p create db = (Inr h, db1)"
  shows "v_path V h = p" "v_path V h \<in> v_buckets V db1" "bolt_rel V db1 w" "\<And>k. b_get B h k db1 = lookup w p k" "\<not> create \<Longrightarrow> db1 = db"
proof -
  have "tree_laws V" "bucket_laws B V" "value_laws B V" using laws by (simp_all add: bbolt_laws_def)
  with bucket_path_arrives [OF _ _ p run] have a: "v_path V h = p" "p \<in> v_buckets V db1" "same_docs V db db1" "\<not> create \<Longrightarrow> db1 = db"
    by (simp_all add: arrived_def)
  then show "v_path V h = p" "v_path V h \<in> v_buckets V db1" "\<not> create \<Longrightarrow> db1 = db" by simp_all
  show r1: "bolt_rel V db1 w" using a(3) bolt_rel_same [OF R] by (simp add: same_docs_def)
  show "b_get B h k db1 = lookup w p k" for k
    using \<open>value_laws B V\<close> a(1,2) bolt_rel_lookup [OF r1 p] unfolding value_laws_def by simp
qed

lemma not_reached:
  assumes laws: "bbolt_laws B V" and p: "p \<noteq> []" and R: "bolt_rel V db w" and run: "bucket_path B p create db = (Inl e, db1)"
  shows "create \<Longrightarrow> \<not> is_not_found e" "\<not> create \<Longrightarrow> e = err_not_found \<and> (\<forall>k. lookup w p k = None) \<and> db1 = db"
proof -
  have t: "tree_laws V" "bucket_laws B V" using laws by (simp_all add: bbolt_laws_def)
  note a = bucket_path_arrives [OF t p run]
  show "create \<Longrightarrow> \<not> is_not_found e" using a by (simp add: arrived_def)
  assume "\<not> create"
  with a have "e = err_not_found" "p \<notin> v_buckets V db" "db1 = db" by (simp_all add: arrived_def)
  with t(1) bolt_rel_lookup [OF R p] show "e = err_not_found \<and> (\<forall>k. lookup w p k = None) \<and> db1 = db" unfolding tree_laws_def by simp
qed

text \<open>A write through a reached bucket.\<close>

lemma written:
  assumes laws: "bbolt_laws B V" and R: "bolt_rel V db w" and h: "v_path V h = p" "v_path V h \<in> v_buckets V db"
  shows "told (b_put B h k d) db = (Inr u, db') \<Longrightarrow> bolt_rel V db' (set_doc w p k d)"
    and "told (b_delete B h k) db = (Inr u, db') \<Longrightarrow> bolt_rel V db' (del_doc w p k)"
proof -
  have v: "value_laws B V" using laws by (simp add: bbolt_laws_def)
  show "bolt_rel V db' (set_doc w p k d)" if "told (b_put B h k d) db = (Inr u, db')"
  proof (rule bolt_rel_set [OF R])
    have "b_put B h k d db = (Inr (), db')" using that by (auto simp: told_eq_iff)
    then show "v_val V db' = (v_val V db)(p := (v_val V db p)(k \<mapsto> d))" "v_seq V db' = v_seq V db"
      using v h unfolding value_laws_def by blast+
  qed
  show "bolt_rel V db' (del_doc w p k)" if "told (b_delete B h k) db = (Inr u, db')"
  proof (rule bolt_rel_del [OF R])
    have "b_delete B h k db = (Inr (), db')" using that by (auto simp: told_eq_iff)
    then show "v_val V db' = (v_val V db)(p := (v_val V db p)(k := None))" "v_seq V db' = v_seq V db"
      using v h unfolding value_laws_def by blast+
  qed
qed

lemma told_Inl [simp]: "told f db = (Inl e, db') \<Longrightarrow> \<not> is_not_found e"
  by (auto simp: told_eq_iff)

text \<open>How the body of a transaction and that of the call agree.\<close>

definition agrees :: "('db \<Rightarrow> world \<Rightarrow> bool) \<Rightarrow> 'db \<Rightarrow> (err + 'a) \<times> 'db \<Rightarrow> world \<Rightarrow> (err + 'a) \<times> world \<Rightarrow> bool" where
  "agrees R db out w spec \<longleftrightarrow> (case out of
     (Inl e, db1) \<Rightarrow> spec = (Inl e, w) \<or> \<not> is_not_found e
   | (Inr x, db1) \<Rightarrow> \<exists>w1. spec = (Inr x, w1) \<and> R db1 w1)"

lemma doesI:
  assumes "\<And>db w. R db w \<Longrightarrow> agrees R db (f db) w (body w)"
  shows "does R f body"
  unfolding does_def
proof (intro allI impI)
  fix db w
  assume R: "R db w"
  obtain x db1 where x: "f db = (x, db1)" by (cases "f db")
  show "case f db of (Inl e, db1) \<Rightarrow> (\<exists>w1. body w = (Inl e, w1) \<and> R db w1) \<or> \<not> is_not_found e | (Inr x, db1) \<Rightarrow> \<exists>w1. body w = (Inr x, w1) \<and> R db1 w1"
    using assms [OF R] x R by (cases x) (auto simp: agrees_def)
qed

text \<open>A transaction that makes its bucket, by what it does in it.\<close>

lemma does_in_bucket:
  assumes laws: "bbolt_laws B V"
    and body: "\<And>b db w. p \<noteq> [] \<Longrightarrow> bolt_rel V db w \<Longrightarrow> v_path V b = p \<Longrightarrow> v_path V b \<in> v_buckets V db \<Longrightarrow> (\<And>k. b_get B b k db = lookup w p k) \<Longrightarrow>
      agrees (bolt_rel V) db (f b db) w (g w)"
  shows "does (bolt_rel V) (ebind (bucket_path B p True) f) (\<lambda>w. if p = [] then (Inl err_empty_path, w) else g w)"
proof (rule doesI)
  fix db w
  assume R: "bolt_rel V db w"
  show "agrees (bolt_rel V) db (ebind (bucket_path B p True) f db) w (if p = [] then (Inl err_empty_path, w) else g w)"
  proof (cases "p = []")
    case True
    then show ?thesis by (simp add: ebind_apply agrees_def)
  next
    case False
    obtain x db1 where b: "bucket_path B p True db = (x, db1)" by (cases "bucket_path B p True db")
    show ?thesis
    proof (cases x)
      case (Inl e)
      with b not_reached(1) [OF laws False R] show ?thesis by (simp add: ebind_apply agrees_def)
    next
      case (Inr h)
      note r = reached [OF laws False R b [unfolded Inr]]
      from body [OF False r(3,1,2,4)] b Inr False show ?thesis by (simp add: ebind_apply agrees_def)
    qed
  qed
qed

text \<open>A transaction that looks for its bucket: the same, or the answer to its absence.\<close>

lemma does_if_bucket:
  assumes laws: "bbolt_laws B V" and empty: "h err_empty_path = fail err_empty_path"
    and missing: "\<And>db w. p \<noteq> [] \<Longrightarrow> bolt_rel V db w \<Longrightarrow> (\<And>k. lookup w p k = None) \<Longrightarrow> agrees (bolt_rel V) db (h err_not_found db) w (g w)"
    and body: "\<And>b db w. p \<noteq> [] \<Longrightarrow> bolt_rel V db w \<Longrightarrow> v_path V b = p \<Longrightarrow> v_path V b \<in> v_buckets V db \<Longrightarrow> (\<And>k. b_get B b k db = lookup w p k) \<Longrightarrow>
      agrees (bolt_rel V) db (f b db) w (g w)"
  shows "does (bolt_rel V) (ecase (bucket_path B p False) h f) (\<lambda>w. if p = [] then (Inl err_empty_path, w) else g w)"
proof (rule doesI)
  fix db w
  assume R: "bolt_rel V db w"
  show "agrees (bolt_rel V) db (ecase (bucket_path B p False) h f db) w (if p = [] then (Inl err_empty_path, w) else g w)"
  proof (cases "p = []")
    case True
    then show ?thesis by (simp add: ecase_apply empty agrees_def)
  next
    case False
    obtain x db1 where b: "bucket_path B p False db = (x, db1)" by (cases "bucket_path B p False db")
    show ?thesis
    proof (cases x)
      case (Inl e)
      have e: "e = err_not_found" "db1 = db" "\<And>k. lookup w p k = None" using not_reached(2) [OF laws False R b [unfolded Inl]] by simp_all
      then show ?thesis using missing [OF False R e(3)] b Inl False by (simp add: ecase_apply)
    next
      case (Inr h')
      note r = reached [OF laws False R b [unfolded Inr]]
      have "db1 = db" using r(5) by simp
      with body [OF False r(3,1,2,4)] b Inr False show ?thesis by (simp add: ecase_apply)
    qed
  qed
qed

lemma store_errors [simp]: "is_not_found err_not_found" "\<not> is_not_found err_empty_path"
  by (simp_all add: err_not_found_def err_empty_path_def is_not_found_def)

lemma get_sim: "bbolt_laws B V \<Longrightarrow> simulates E (bolt_rel V) (bolt_get B p k) (\<lambda>E. get E p k)"
  unfolding bolt_get_def ebind_def
  by (rule view_simulates [OF _ get_def does_if_bucket]) (auto simp: agrees_def split: option.split)

lemma put_sim:
  assumes laws: "bbolt_laws B V"
  shows "simulates E (bolt_rel V) (bolt_put B p k d) (\<lambda>E. put E p k d)"
proof -
  have c: "commit_laws B" using laws by (simp add: bbolt_laws_def)
  show ?thesis unfolding bolt_put_def
    by (rule update_simulates [OF c _ put_def does_in_bucket [OF laws]])
      (auto simp: agrees_def dest: written(1) [OF laws] split: prod.split sum.split)
qed

lemma put_if_absent_sim:
  assumes laws: "bbolt_laws B V"
  shows "simulates E (bolt_rel V) (bolt_put_if_absent B p k d) (\<lambda>E. put_if_absent E p k d)"
proof -
  have c: "commit_laws B" using laws by (simp add: bbolt_laws_def)
  show ?thesis unfolding bolt_put_if_absent_def
    by (rule update_simulates [OF c _ put_if_absent_def does_in_bucket [OF laws]])
      (auto simp: agrees_def ebind_apply dest: written(1) [OF laws] split: prod.split sum.split)
qed

lemma take_sim:
  assumes laws: "bbolt_laws B V"
  shows "simulates E (bolt_rel V) (bolt_take B p k) (\<lambda>E. take_doc E p k)"
proof -
  have c: "commit_laws B" using laws by (simp add: bbolt_laws_def)
  show ?thesis unfolding bolt_take_def ebind_def
    by (rule update_simulates [OF c _ take_doc_def does_if_bucket [OF laws]])
      (auto simp: agrees_def ecase_apply dest: written(2) [OF laws] split: prod.split sum.split option.split)
qed

lemma delete_sim:
  assumes laws: "bbolt_laws B V"
  shows "simulates E (bolt_rel V) (bolt_delete B p k) (\<lambda>E. delete E p k)"
proof -
  have c: "commit_laws B" using laws by (simp add: bbolt_laws_def)
  have gone: "bolt_rel V db (del_doc w p k)" if "bolt_rel V db w" "lookup w p k = None" for db w
    using that by (auto simp: bolt_rel_def fun_eq_iff lookup_del_doc)
  show ?thesis unfolding bolt_delete_def
    by (rule update_simulates [OF c _ delete_def does_if_bucket [OF laws]])
      (auto simp: agrees_def gone dest: written(2) [OF laws] split: prod.split sum.split)
qed

text \<open>The items with a value.\<close>

fun valued :: "(string \<times> 'd option) list \<Rightarrow> (string \<times> 'd) list" where
  "valued [] = []"
| "valued ((k, None) # items) = valued items"
| "valued ((k, Some d) # items) = (k, d) # valued items"

lemma visit_items: "sfold (visit f) a items = sfold f a (valued items)"
  by (induction items arbitrary: a rule: valued.induct) (auto simp: visit_def split: sum.split)

lemma mem_valued: "(k, d) \<in> set (valued items) \<longleftrightarrow> (k, Some d) \<in> set items"
  by (induction items rule: valued.induct) auto

lemma valued_keys: "set (map fst (valued items)) \<subseteq> set (map fst items)"
  by (induction items rule: valued.induct) auto

lemma valued_sorted: "sorted (map fst items) \<Longrightarrow> sorted (map fst (valued items))"
proof (induction items rule: valued.induct)
  case (3 k d items)
  then have "\<forall>x \<in> set (map fst items). k \<le> x" by simp
  then have "\<forall>x \<in> set (map fst (valued items)). k \<le> x" using valued_keys by blast
  with 3 show ?case by simp
qed auto

lemma valued_distinct: "distinct (map fst items) \<Longrightarrow> distinct (map fst (valued items))"
proof (induction items rule: valued.induct)
  case (3 k d items)
  then show ?case using valued_keys [of items] by auto
qed auto

lemma for_each_sim:
  assumes laws: "bbolt_laws B V"
  shows "simulates E (bolt_rel V) (bolt_for_each B p f a) (\<lambda>E. for_each E p f a)"
proof -
  have items: "valued (b_items B b db) = bucket w p"
    if p: "p \<noteq> []" "bolt_rel V db w" and h: "v_path V b = p" "v_path V b \<in> v_buckets V db" for b db w
  proof (rule bucket_unique)
    have law: "sorted (map fst (b_items B b db))" "distinct (map fst (b_items B b db))"
      "(k, Some d) \<in> set (b_items B b db) \<longleftrightarrow> v_val V db p k = Some d" for k d
      using laws h unfolding bbolt_laws_def item_laws_def by blast+
    then show "sorted (map fst (valued (b_items B b db)))" "distinct (map fst (valued (b_items B b db)))"
      by (auto intro: valued_sorted valued_distinct)
    show "(k, d) \<in> set (valued (b_items B b db)) \<longleftrightarrow> lookup w p k = Some d" for k d
      using law(3) [of k d] bolt_rel_lookup [OF p(2,1)] by (simp add: mem_valued)
  qed
  have nil: "bucket w p = []" if "\<And>k. lookup w p k = None" for w
    using bucket_unique [of "[]" w p] that by simp
  show ?thesis unfolding bolt_for_each_def
    by (rule view_simulates [OF _ for_each_def does_if_bucket [OF laws]])
      (auto simp: agrees_def visit_items items nil split: sum.split)
qed

lemma update_sim:
  assumes laws: "bbolt_laws B V"
  shows "simulates E (bolt_rel V) (bolt_update B p k create fn) (\<lambda>E. update E p k create (\<lambda>data. lift_sum (fn data)))"
proof -
  have c: "commit_laws B" using laws by (simp add: bbolt_laws_def)
  show ?thesis unfolding bolt_update_def
    by (rule update_simulates [OF c _ update_as_effect does_in_bucket [OF laws]])
      (auto simp: agrees_def ebind_apply Let_def dest: written(1) [OF laws] split: prod.split sum.split)
qed

lemma next_seq_sim:
  assumes laws: "bbolt_laws B V"
  shows "simulates E (bolt_rel V) (bolt_next_seq B p) (\<lambda>E. next_seq E p)"
proof -
  have c: "commit_laws B" "value_laws B V" using laws by (simp_all add: bbolt_laws_def)
  have step: "n = seq_of w p + 1 \<and> bolt_rel V db' (w\<lparr>seqs := AList.update p n (seqs w)\<rparr>)"
    if p: "p \<noteq> []" and R: "bolt_rel V db w" and h: "v_path V b = p" "v_path V b \<in> v_buckets V db" and run: "told (b_next B b) db = (Inr n, db')" for b db w n db'
  proof -
    have "b_next B b db = (Inr n, db')" using run by (auto simp: told_eq_iff)
    then have "n = v_seq V db p + 1 \<and> v_seq V db' = (v_seq V db)(p := n) \<and> v_val V db' = v_val V db"
      using c(2) h unfolding value_laws_def by blast
    moreover have "lookup (w\<lparr>seqs := AList.update p n (seqs w)\<rparr>) = lookup w" by (simp add: lookup_def fun_eq_iff)
    ultimately show ?thesis using R p by (simp add: bolt_rel_def seq_of_next)
  qed
  show ?thesis unfolding bolt_next_seq_def
  proof (rule update_simulates [OF c(1) _ next_seq_def does_in_bucket [OF laws]])
    show "agrees (bolt_rel V) db (told (b_next B b) db) w (let n = seq_of w p + 1 in (Inr n, w\<lparr>seqs := AList.update p n (seqs w)\<rparr>))"
      if "p \<noteq> []" "bolt_rel V db w" "v_path V b = p" "v_path V b \<in> v_buckets V db" for b db w
      using step [OF that] by (cases "told (b_next B b) db") (auto simp: agrees_def Let_def split: sum.split)
  qed simp
qed

text \<open>
  Claim C13: the embedded store refines the document store that the rest of the program is proved on.
  Whatever a library with the documented laws does in a run of an operation, the store model has a
  run of the same operation, for one outcome of the call, that ends in a related state with the same
  answer; where the library itself failed, both fail, and neither as a missing document.
\<close>

theorem bolt_refines_store:
  assumes "bbolt_laws B V"
  shows "simulates E (bolt_rel V) (bolt_put B p k d) (\<lambda>E. put E p k d)
    \<and> simulates E (bolt_rel V) (bolt_put_if_absent B p k d) (\<lambda>E. put_if_absent E p k d)
    \<and> simulates E (bolt_rel V) (bolt_get B p k) (\<lambda>E. get E p k)
    \<and> simulates E (bolt_rel V) (bolt_take B p k) (\<lambda>E. take_doc E p k)
    \<and> simulates E (bolt_rel V) (bolt_delete B p k) (\<lambda>E. delete E p k)
    \<and> simulates E (bolt_rel V) (bolt_for_each B p f a) (\<lambda>E. for_each E p f a)
    \<and> simulates E (bolt_rel V) (bolt_update B p k create fn) (\<lambda>E. update E p k create (\<lambda>data. lift_sum (fn data)))
    \<and> simulates E (bolt_rel V) (bolt_next_seq B p) (\<lambda>E. next_seq E p)"
  by (intro conjI put_sim put_if_absent_sim get_sim take_sim delete_sim for_each_sim update_sim next_seq_sim assms)

end
