(* ===== verification/Store_Mongo.thy ===== *)
theory Store_Mongo
  imports Store_Refine
begin

text \<open>
  The MongoDB store (internal/store/mongo.go), which several replicas share.  The goodm library and
  the driver are a parameter: the calls the code makes, what their documentation says of each, and
  what the other clients of the database do between two calls.
\<close>

section \<open>The library\<close>

text \<open>The errors that the code tells apart; any other is passed on with its text.\<close>

datatype gkind = NotFoundG | NoDocumentsG | ConflictG | DuplicateG | OtherG

datatype gerr = Gerr (g_kind: gkind) (g_text: string)

text \<open>The part of the library in a document is its identity with the version.\<close>

record 'm mdoc =
  md_model :: 'm
  md_path :: string
  md_key :: string
  md_data :: json

record ('s, 'm) mongo =
  m_others :: "'s \<Rightarrow> 's"
  m_ctx :: "'s \<Rightarrow> string option"
  m_find :: "string \<Rightarrow> string \<Rightarrow> ('s, gerr, 'm mdoc) action"
  m_create :: "string \<Rightarrow> string \<Rightarrow> json \<Rightarrow> ('s, gerr, unit) action"
  m_update :: "'m mdoc \<Rightarrow> ('s, gerr, unit) action"
  m_delete :: "string \<Rightarrow> string \<Rightarrow> ('s, gerr, unit) action"
  m_take :: "string \<Rightarrow> string \<Rightarrow> ('s, gerr, 'm mdoc) action"
  m_scan :: "string \<Rightarrow> ('s, gerr, (gerr + 'm mdoc) list \<times> gerr option) action"
  m_inc :: "string \<Rightarrow> ('s, gerr, u64) action"

definition mcall :: "('s, 'm) mongo \<Rightarrow> ('s, 'e, 'a) action \<Rightarrow> ('s, 'e, 'a) action" where
  "mcall M f s = f (m_others M s)"

section \<open>Operations\<close>

definition join_path :: "bpath \<Rightarrow> err + string" where
  "join_path p = (if p = [] then Inl err_empty_path else Inr (join_with ''/'' p))"

definition mongo_err :: "string \<Rightarrow> string \<Rightarrow> gerr \<Rightarrow> err" where
  "mongo_err op name e = errorf (''store: mongo '' @ op @ '' '' @ name @ '': '' @ g_text e)"

definition doc_name :: "string \<Rightarrow> string \<Rightarrow> string" where
  "doc_name q k = q @ ''/'' @ k"

definition gave_up :: "string \<Rightarrow> string \<Rightarrow> err" where
  "gave_up op name = errorf (''store: mongo '' @ op @ '' '' @ name @ '': gave up after 128 conflicts'')"

definition update_max_attempts :: nat where
  "update_max_attempts = 128"

text \<open>The document has gone or changed since it was read: try again.\<close>

definition stale :: "gerr \<Rightarrow> bool" where
  "stale e \<longleftrightarrow> g_kind e = ConflictG \<or> g_kind e = NotFoundG"

definition create_attempt :: "('s, 'm) mongo \<Rightarrow> string \<Rightarrow> string \<Rightarrow> (json option \<Rightarrow> err + json) \<Rightarrow> ('s, err, unit) action \<Rightarrow> ('s, err, unit) action" where
  "create_attempt M q k fn again = ebind (lift_sum (fn None)) (\<lambda>out. ecase (mcall M (m_create M q k out))
     (\<lambda>e. if g_kind e = DuplicateG then again else fail (mongo_err ''update'' (doc_name q k) e)) ret)"

definition modify_attempt :: "('s, 'm) mongo \<Rightarrow> string \<Rightarrow> string \<Rightarrow> (json option \<Rightarrow> err + json) \<Rightarrow> 'm mdoc \<Rightarrow> ('s, err, unit) action \<Rightarrow> ('s, err, unit) action" where
  "modify_attempt M q k fn d again = ebind (lift_sum (fn (Some (md_data d)))) (\<lambda>out. ecase (mcall M (m_update M (d\<lparr>md_data := out\<rparr>)))
     (\<lambda>e. if stale e then again else fail (mongo_err ''update'' (doc_name q k) e)) ret)"

fun update_attempts :: "('s, 'm) mongo \<Rightarrow> string \<Rightarrow> string \<Rightarrow> bool \<Rightarrow> (json option \<Rightarrow> err + json) \<Rightarrow> nat \<Rightarrow> ('s, err, unit) action" where
  "update_attempts M q k create fn 0 = fail (gave_up ''update'' (doc_name q k))"
| "update_attempts M q k create fn (Suc n) = (\<lambda>s. case m_ctx M s of Some t \<Rightarrow> (Inl (errorf t), s) | None \<Rightarrow>
     ecase (mcall M (m_find M q k))
       (\<lambda>e. if g_kind e = NotFoundG
             then if \<not> create then fail err_not_found else create_attempt M q k fn (update_attempts M q k create fn n)
             else fail (mongo_err ''update'' (doc_name q k) e))
       (\<lambda>d. modify_attempt M q k fn d (update_attempts M q k create fn n)) s)"

definition mongo_update :: "('s, 'm) mongo \<Rightarrow> bpath \<Rightarrow> string \<Rightarrow> bool \<Rightarrow> (json option \<Rightarrow> err + json) \<Rightarrow> ('s, err, unit) action" where
  "mongo_update M p k create fn = ebind (lift_sum (join_path p)) (\<lambda>q. update_attempts M q k create fn update_max_attempts)"

definition mongo_put :: "('s, 'm) mongo \<Rightarrow> bpath \<Rightarrow> string \<Rightarrow> json \<Rightarrow> ('s, err, unit) action" where
  "mongo_put M p k d = mongo_update M p k True (\<lambda>_. Inr d)"

definition mongo_put_if_absent :: "('s, 'm) mongo \<Rightarrow> bpath \<Rightarrow> string \<Rightarrow> json \<Rightarrow> ('s, err, bool) action" where
  "mongo_put_if_absent M p k d = ebind (lift_sum (join_path p)) (\<lambda>q. ecase (mcall M (m_create M q k d))
     (\<lambda>e. if g_kind e = DuplicateG then ret False else fail (mongo_err ''put-if-absent'' (doc_name q k) e)) (\<lambda>_. ret True))"

definition mongo_get :: "('s, 'm) mongo \<Rightarrow> bpath \<Rightarrow> string \<Rightarrow> ('s, err, json) action" where
  "mongo_get M p k = ebind (lift_sum (join_path p)) (\<lambda>q. ecase (mcall M (m_find M q k))
     (\<lambda>e. fail (if g_kind e = NotFoundG then err_not_found else mongo_err ''get'' (doc_name q k) e)) (\<lambda>d. ret (md_data d)))"

definition mongo_take :: "('s, 'm) mongo \<Rightarrow> bpath \<Rightarrow> string \<Rightarrow> ('s, err, json) action" where
  "mongo_take M p k = ebind (lift_sum (join_path p)) (\<lambda>q. ecase (mcall M (m_take M q k))
     (\<lambda>e. fail (if g_kind e = NoDocumentsG then err_not_found else mongo_err ''take'' (doc_name q k) e)) (\<lambda>d. ret (md_data d)))"

definition mongo_delete :: "('s, 'm) mongo \<Rightarrow> bpath \<Rightarrow> string \<Rightarrow> ('s, err, unit) action" where
  "mongo_delete M p k = ebind (lift_sum (join_path p)) (\<lambda>q. ecase (mcall M (m_delete M q k))
     (\<lambda>e. if g_kind e = NotFoundG then ret () else fail (mongo_err ''delete'' (doc_name q k) e)) ret)"

text \<open>What the cursor yields, one document or an error of decoding it, and how it ended.\<close>

definition scanned :: "string \<Rightarrow> ('a \<Rightarrow> string \<times> json \<Rightarrow> err + 'a) \<Rightarrow> 'a \<Rightarrow> gerr + 'm mdoc \<Rightarrow> err + 'a" where
  "scanned q f a item = (case item of Inl e \<Rightarrow> Inl (mongo_err ''scan'' q (Gerr (g_kind e) (''decoding: '' @ g_text e)))
     | Inr d \<Rightarrow> f a (md_key d, md_data d))"

definition mongo_for_each :: "('s, 'm) mongo \<Rightarrow> bpath \<Rightarrow> ('a \<Rightarrow> string \<times> json \<Rightarrow> err + 'a) \<Rightarrow> 'a \<Rightarrow> ('s, err, 'a) action" where
  "mongo_for_each M p f a = ebind (lift_sum (join_path p)) (\<lambda>q. ecase (mcall M (m_scan M q))
     (\<lambda>e. fail (mongo_err ''scan'' q e))
     (\<lambda>(items, last_err). lift_sum (sbind (sfold (scanned q f) a items)
        (\<lambda>b. case last_err of None \<Rightarrow> Inr b | Some e \<Rightarrow> Inl (mongo_err ''scan'' q e)))))"

fun seq_attempts :: "('s, 'm) mongo \<Rightarrow> string \<Rightarrow> nat \<Rightarrow> ('s, err, u64) action" where
  "seq_attempts M q 0 = fail (gave_up ''next-seq'' q)"
| "seq_attempts M q (Suc n) = (\<lambda>s. case m_ctx M s of Some t \<Rightarrow> (Inl (errorf t), s) | None \<Rightarrow>
     ecase (mcall M (m_inc M q)) (\<lambda>e. if g_kind e = DuplicateG then seq_attempts M q n else fail (mongo_err ''next-seq'' q e)) ret s)"

definition mongo_next_seq :: "('s, 'm) mongo \<Rightarrow> bpath \<Rightarrow> ('s, err, u64) action" where
  "mongo_next_seq M p = ebind (lift_sum (join_path p)) (\<lambda>q. seq_attempts M q update_max_attempts)"

section \<open>What the library promises\<close>

text \<open>
  A state is seen as the documents under path and key (the unique index makes them one each), the
  counters, and what was ever written under an identity with its version.
\<close>

record ('s, 'm, 'i) mview =
  d_stamp :: "'m \<Rightarrow> 'i"
  d_docs :: "'s \<Rightarrow> string \<times> string \<Rightarrow> 'm mdoc option"
  d_seq :: "'s \<Rightarrow> string \<Rightarrow> u64"
  d_log :: "'s \<Rightarrow> 'i \<Rightarrow> (string \<times> string \<times> json) option"

definition sound :: "('s, 'm, 'i) mview \<Rightarrow> 's \<Rightarrow> bool" where
  "sound V s \<longleftrightarrow> (\<forall>q k d. d_docs V s (q, k) = Some d \<longrightarrow> md_path d = q \<and> md_key d = k \<and>
     d_log V s (d_stamp V (md_model d)) = Some (q, k, md_data d))"

text \<open>No version is written twice.\<close>

definition advances :: "('s, 'm, 'i) mview \<Rightarrow> 's \<Rightarrow> 's \<Rightarrow> bool" where
  "advances V s s' \<longleftrightarrow> sound V s' \<and> d_log V s \<subseteq>\<^sub>m d_log V s'"

definition unchanged :: "('s, 'm, 'i) mview \<Rightarrow> 's \<Rightarrow> 's \<Rightarrow> bool" where
  "unchanged V s s' \<longleftrightarrow> d_docs V s' = d_docs V s \<and> d_seq V s' = d_seq V s"

text \<open>
  A call that succeeds has its effect; a refusal changes nothing; any other error leaves open whether
  the effect took place.
\<close>

definition answers :: "('s, 'm, 'i) mview \<Rightarrow> ('s \<Rightarrow> bool) \<Rightarrow> ('s, gerr, 'a) action \<Rightarrow> ('s \<Rightarrow> 'a \<Rightarrow> 's \<Rightarrow> bool) \<Rightarrow> ('s \<Rightarrow> gkind \<Rightarrow> bool) \<Rightarrow> bool" where
  "answers V pre f eff refused \<longleftrightarrow> (\<forall>s r s'. sound V s \<longrightarrow> pre s \<longrightarrow> f s = (r, s') \<longrightarrow> advances V s s' \<and> (case r of
     Inr x \<Rightarrow> eff s x s'
   | Inl e \<Rightarrow> unchanged V s s' \<and> refused s (g_kind e) \<or> g_kind e = OtherG \<and> (unchanged V s s' \<or> (\<exists>x. eff s x s'))))"

definition read_laws :: "('s, 'm) mongo \<Rightarrow> ('s, 'm, 'i) mview \<Rightarrow> bool" where
  "read_laws M V \<longleftrightarrow> (\<forall>s. sound V s \<longrightarrow> advances V s (m_others M s)) \<and>
     (\<forall>q k. answers V (\<lambda>_. True) (m_find M q k) (\<lambda>s d s'. d_docs V s (q, k) = Some d \<and> unchanged V s s')
        (\<lambda>s g. g = NotFoundG \<and> d_docs V s (q, k) = None))"

text \<open>An update stores over the document with the same identity and version only.\<close>

definition write_laws :: "('s, 'm) mongo \<Rightarrow> ('s, 'm, 'i) mview \<Rightarrow> bool" where
  "write_laws M V \<longleftrightarrow>
     (\<forall>q k d. answers V (\<lambda>_. True) (m_create M q k d)
        (\<lambda>s _ s'. d_docs V s (q, k) = None \<and> d_seq V s' = d_seq V s \<and>
           (\<exists>m. d_docs V s' = (d_docs V s)((q, k) \<mapsto> \<lparr>md_model = m, md_path = q, md_key = k, md_data = d\<rparr>)))
        (\<lambda>s g. g = DuplicateG \<and> d_docs V s (q, k) \<noteq> None)) \<and>
     (\<forall>d. answers V (\<lambda>s. \<exists>x. d_log V s (d_stamp V (md_model d)) = Some (md_path d, md_key d, x)) (m_update M d)
        (\<lambda>s _ s'. d_seq V s' = d_seq V s \<and> (\<exists>d0 m. d_docs V s (md_path d, md_key d) = Some d0 \<and>
           d_stamp V (md_model d0) = d_stamp V (md_model d) \<and> d_docs V s' = (d_docs V s)((md_path d, md_key d) \<mapsto> d\<lparr>md_model := m\<rparr>)))
        (\<lambda>s g. (g = ConflictG \<or> g = NotFoundG) \<and>
           (\<forall>d0. d_docs V s (md_path d, md_key d) = Some d0 \<longrightarrow> d_stamp V (md_model d0) \<noteq> d_stamp V (md_model d)))) \<and>
     (\<forall>q. answers V (\<lambda>_. True) (m_inc M q)
        (\<lambda>s n s'. n = d_seq V s q + 1 \<and> d_seq V s' = (d_seq V s)(q := n) \<and> d_docs V s' = d_docs V s) (\<lambda>s g. g = DuplicateG))"

definition remove_laws :: "('s, 'm) mongo \<Rightarrow> ('s, 'm, 'i) mview \<Rightarrow> bool" where
  "remove_laws M V \<longleftrightarrow>
     (\<forall>q k. answers V (\<lambda>_. True) (m_take M q k)
        (\<lambda>s d s'. d_docs V s (q, k) = Some d \<and> d_docs V s' = (d_docs V s)((q, k) := None) \<and> d_seq V s' = d_seq V s)
        (\<lambda>s g. g = NoDocumentsG \<and> d_docs V s (q, k) = None)) \<and>
     (\<forall>q k. answers V (\<lambda>_. True) (m_delete M q k)
        (\<lambda>s _ s'. d_docs V s' = (d_docs V s)((q, k) := None) \<and> d_seq V s' = d_seq V s)
        (\<lambda>s g. g = NotFoundG \<and> d_docs V s (q, k) = None))"

definition mongo_laws :: "('s, 'm) mongo \<Rightarrow> ('s, 'm, 'i) mview \<Rightarrow> bool" where
  "mongo_laws M V \<longleftrightarrow> read_laws M V \<and> write_laws M V \<and> remove_laws M V"

end
