(* ===== verification/Store_Linear.thy ===== *)
theory Store_Linear
  imports Store_Mongo
begin

text \<open>
  The MongoDB store is linearizable: whatever the other clients do between its calls, an operation
  takes effect at one moment, as the operation of the store model does in the state of that moment;
  before it only the other clients changed anything.  An update retries only when another client has
  written the document, so that it succeeds when they are fewer than its attempts.
\<close>

section \<open>Paths\<close>

definition slashless :: "bpath \<Rightarrow> bool" where
  "slashless p \<longleftrightarrow> (\<forall>seg \<in> set p. CHR ''/'' \<notin> set seg)"

lemma split_at_join: "p \<noteq> [] \<Longrightarrow> slashless p \<Longrightarrow> split_at (CHR ''/'') (join_with ''/'' p) = p"
  by (induction "''/''" p rule: join_with.induct) (simp_all add: slashless_def split_at_single split_at_append)

lemma join_with_inject: "slashless p \<Longrightarrow> slashless q \<Longrightarrow> p \<noteq> [] \<Longrightarrow> q \<noteq> [] \<Longrightarrow> join_with ''/'' p = join_with ''/'' q \<longleftrightarrow> p = q"
  by (metis split_at_join)

section \<open>The abstraction\<close>

definition mongo_rel :: "('s, 'm, 'i) mview \<Rightarrow> 's \<Rightarrow> world \<Rightarrow> bool" where
  "mongo_rel V s w \<longleftrightarrow> (\<forall>p. p \<noteq> [] \<longrightarrow> slashless p \<longrightarrow> seq_of w p = d_seq V s (join_with ''/'' p) \<and>
     (\<forall>k. lookup w p k = map_option md_data (d_docs V s (join_with ''/'' p, k))))"

lemma mongo_rel_advance [simp]: "mongo_rel V s (advance w) = mongo_rel V s w"
  by (simp add: mongo_rel_def)

lemma mongo_rel_unchanged: "unchanged V s s' \<Longrightarrow> mongo_rel V s' w = mongo_rel V s w"
  by (simp add: mongo_rel_def unchanged_def)

lemma mongo_rel_lookup: "mongo_rel V s w \<Longrightarrow> p \<noteq> [] \<Longrightarrow> slashless p \<Longrightarrow> lookup w p k = map_option md_data (d_docs V s (join_with ''/'' p, k))"
  by (simp add: mongo_rel_def)

lemma mongo_rel_set:
  assumes "mongo_rel V s w" and p: "p \<noteq> []" "slashless p"
    and "d_docs V s' = (d_docs V s)((join_with ''/'' p, k) \<mapsto> d)" "d_seq V s' = d_seq V s"
  shows "mongo_rel V s' (set_doc w p k (md_data d))"
  using assms by (auto simp: mongo_rel_def lookup_set_doc join_with_inject)

lemma mongo_rel_del:
  assumes "mongo_rel V s w" and p: "p \<noteq> []" "slashless p"
    and "d_docs V s' = (d_docs V s)((join_with ''/'' p, k) := None)" "d_seq V s' = d_seq V s"
  shows "mongo_rel V s' (del_doc w p k)"
  using assms by (auto simp: mongo_rel_def lookup_del_doc join_with_inject)

section \<open>What happens meanwhile\<close>

inductive meanwhile :: "('s, 'm) mongo \<Rightarrow> ('s, 'm, 'i) mview \<Rightarrow> 's \<Rightarrow> 's \<Rightarrow> bool" for M V where
  start: "meanwhile M V s s"
| others: "meanwhile M V s t \<Longrightarrow> meanwhile M V s (m_others M t)"
| idle: "meanwhile M V s t \<Longrightarrow> unchanged V t u \<Longrightarrow> meanwhile M V s u"

lemma meanwhile_trans:
  assumes "meanwhile M V s t" "meanwhile M V t u" shows "meanwhile M V s u"
  using assms(2,1) by induction (blast intro: others idle)+

text \<open>The moment at which a run takes effect.\<close>

definition takes_effect :: "('s, 'm) mongo \<Rightarrow> ('s, 'm, 'i) mview \<Rightarrow> 'a act \<Rightarrow> 's \<Rightarrow> err + 'a \<Rightarrow> 's \<Rightarrow> bool" where
  "takes_effect M V body s r s' \<longleftrightarrow> sound V s' \<and> (\<exists>t. meanwhile M V s t \<and> (\<forall>w. mongo_rel V t w \<longrightarrow>
     (\<exists>w'. body w = (r, w') \<and> mongo_rel V s' w') \<or>
     (\<exists>e. r = Inl e \<and> \<not> is_not_found e \<and> (mongo_rel V s' w \<or> mongo_rel V s' (snd (body w))))))"

lemma takes_effect_later: "meanwhile M V s t \<Longrightarrow> takes_effect M V body t r s' \<Longrightarrow> takes_effect M V body s r s'"
  unfolding takes_effect_def by (blast intro: meanwhile_trans)

lemma takes_no_effect:
  assumes "sound V s" "\<not> is_not_found e" shows "takes_effect M V body s (Inl e) s"
  unfolding takes_effect_def using assms by (blast intro: start)

definition linearizes :: "'x env_scheme \<Rightarrow> ('s, 'm) mongo \<Rightarrow> ('s, 'm, 'i) mview \<Rightarrow> ('s, err, 'a) action \<Rightarrow> ('x env_scheme \<Rightarrow> 'a act) \<Rightarrow> bool" where
  "linearizes E M V m spec \<longleftrightarrow> (\<forall>s r s'. sound V s \<longrightarrow> m s = (r, s') \<longrightarrow> sound V s' \<and> (\<exists>t. meanwhile M V s t \<and> (\<forall>w. mongo_rel V t w \<longrightarrow>
     (\<exists>f r' w'. spec (E\<lparr>fault_at := \<lambda>_. f\<rparr>) w = (r', w') \<and> mongo_rel V s' w' \<and> same_answer r r'))))"

lemma linearizesI:
  assumes spec: "\<And>E. spec E = effect E body"
    and run: "\<And>s r s'. sound V s \<Longrightarrow> m s = (r, s') \<Longrightarrow> takes_effect M V body s r s'"
  shows "linearizes E M V m spec"
  unfolding linearizes_def
proof (intro allI impI)
  fix s r s'
  assume "sound V s" "m s = (r, s')"
  from run [OF this] obtain t where s': "sound V s'" and t: "meanwhile M V s t" and
    b: "\<And>w. mongo_rel V t w \<Longrightarrow> (\<exists>w'. body w = (r, w') \<and> mongo_rel V s' w') \<or>
     (\<exists>e. r = Inl e \<and> \<not> is_not_found e \<and> (mongo_rel V s' w \<or> mongo_rel V s' (snd (body w))))"
    unfolding takes_effect_def by blast
  show "sound V s' \<and> (\<exists>t. meanwhile M V s t \<and> (\<forall>w. mongo_rel V t w \<longrightarrow>
     (\<exists>f r' w'. spec (E\<lparr>fault_at := \<lambda>_. f\<rparr>) w = (r', w') \<and> mongo_rel V s' w' \<and> same_answer r r')))"
    by (intro conjI s' exI [of _ t] t allI impI outcome_of_effect [OF spec] b) simp
qed

section \<open>One call\<close>

text \<open>
  A call with its moment: the other clients come first, and the call then answers with its effect,
  refuses, or fails in a way that leaves its effect open.
\<close>

lemma answersD:
  assumes "answers V pre f eff refused" "sound V s" "pre s" "f s = (r, s')"
  obtains x where "r = Inr x" "eff s x s'" "advances V s s'"
  | e where "r = Inl e" "unchanged V s s'" "refused s (g_kind e)" "advances V s s'"
  | e where "r = Inl e" "g_kind e = OtherG" "unchanged V s s' \<or> (\<exists>x. eff s x s')" "advances V s s'"
proof -
  have a: "advances V s s'" and c: "case r of Inr x \<Rightarrow> eff s x s'
   | Inl e \<Rightarrow> unchanged V s s' \<and> refused s (g_kind e) \<or> g_kind e = OtherG \<and> (unchanged V s s' \<or> (\<exists>x. eff s x s'))"
    using assms unfolding answers_def by blast+
  show thesis using a c that by (cases r) auto
qed

lemma others_advance: "mongo_laws M V \<Longrightarrow> sound V s \<Longrightarrow> advances V s (m_others M s)"
  by (simp add: mongo_laws_def read_laws_def)

lemma others_meanwhile: "meanwhile M V s (m_others M s)"
  by (blast intro: start others)

lemma advances_sound: "advances V s s' \<Longrightarrow> sound V s'"
  by (simp add: advances_def)

text \<open>An operation of a single call: what the model does on success, on refusal and on failure.\<close>

lemma one_call:
  assumes laws: "mongo_laws M V" "sound V s" and call: "answers V pre f eff refused" and pre: "pre (m_others M s)"
    and run: "ecase (mcall M f) h g s = (r, s')"
    and ok: "\<And>t x u. advances V s t \<Longrightarrow> sound V u \<Longrightarrow> eff t x u \<Longrightarrow> takes_effect M V body t (fst (g x u)) (snd (g x u))"
    and ref: "\<And>t e u. sound V u \<Longrightarrow> unchanged V t u \<Longrightarrow> refused t (g_kind e) \<Longrightarrow> takes_effect M V body t (fst (h e u)) (snd (h e u))"
    and unclear: "\<And>t e u. advances V s t \<Longrightarrow> sound V u \<Longrightarrow> g_kind e = OtherG \<Longrightarrow> unchanged V t u \<or> (\<exists>x. eff t x u) \<Longrightarrow>
      takes_effect M V body t (fst (h e u)) (snd (h e u))"
  shows "takes_effect M V body s r s'"
proof (rule takes_effect_later [OF others_meanwhile])
  let ?t = "m_others M s"
  have adv: "advances V s ?t" using laws by (rule others_advance)
  then have t: "sound V ?t" by (rule advances_sound)
  obtain c u where c: "f ?t = (c, u)" by (cases "f ?t")
  then have rs: "(r, s') = (case c of Inl e \<Rightarrow> h e u | Inr x \<Rightarrow> g x u)" using run by (simp add: ecase_apply mcall_def)
  from call t pre c show "takes_effect M V body ?t r s'"
  proof (cases rule: answersD)
    case (1 x)
    with ok [OF adv advances_sound [OF 1(3)] 1(2)] rs show ?thesis by (cases "g x u") simp
  next
    case (2 e)
    with ref [OF advances_sound [OF 2(4)] 2(2,3)] rs show ?thesis by (cases "h e u") simp
  next
    case (3 e)
    with unclear [OF adv advances_sound [OF 3(4)] 3(2,3)] rs show ?thesis by (cases "h e u") simp
  qed
qed

lemma takes_effect_now:
  assumes "sound V u" and "\<And>w. mongo_rel V t w \<Longrightarrow> (\<exists>w'. body w = (r, w') \<and> mongo_rel V u w') \<or>
     (\<exists>e. r = Inl e \<and> \<not> is_not_found e \<and> (mongo_rel V u w \<or> mongo_rel V u (snd (body w))))"
  shows "takes_effect M V body t r u"
  using assms unfolding takes_effect_def by (blast intro: start)

lemma with_path:
  assumes "sound V s" and run: "ebind (lift_sum (join_path p)) g s = (r, s')"
    and empty: "\<And>w. p = [] \<Longrightarrow> body w = (Inl err_empty_path, w)"
    and rest: "p \<noteq> [] \<Longrightarrow> g (join_with ''/'' p) s = (r, s') \<Longrightarrow> takes_effect M V body s r s'"
  shows "takes_effect M V body s r s'"
proof (cases "p = []")
  case True
  then have "r = Inl err_empty_path" "s' = s" using run by (simp_all add: ebind_apply join_path_def)
  with empty [OF True] show ?thesis by (auto intro: takes_effect_now [OF assms(1)])
next
  case False
  then show ?thesis using run by (intro rest) (simp_all add: ebind_apply join_path_def)
qed

lemma library_error: "\<not> is_not_found (mongo_err op name e)"
  by (simp add: mongo_err_def)

section \<open>Operations of one call\<close>

lemma call_linear:
  assumes laws: "mongo_laws M V" and spec: "\<And>E. spec E = effect E body"
    and empty: "\<And>w. p = [] \<Longrightarrow> body w = (Inl err_empty_path, w)"
    and call: "\<And>q. answers V (\<lambda>_. True) (f q) (eff q) (refused q)"
    and ok: "\<And>t x u q. sound V u \<Longrightarrow> p \<noteq> [] \<Longrightarrow> q = join_with ''/'' p \<Longrightarrow> eff q t x u \<Longrightarrow> takes_effect M V body t (fst (g q x u)) (snd (g q x u))"
    and ref: "\<And>t e u q. sound V u \<Longrightarrow> p \<noteq> [] \<Longrightarrow> q = join_with ''/'' p \<Longrightarrow> unchanged V t u \<Longrightarrow> refused q t (g_kind e) \<Longrightarrow>
      takes_effect M V body t (fst (h q e u)) (snd (h q e u))"
    and unclear: "\<And>t e u q. sound V u \<Longrightarrow> p \<noteq> [] \<Longrightarrow> q = join_with ''/'' p \<Longrightarrow> g_kind e = OtherG \<Longrightarrow> unchanged V t u \<or> (\<exists>x. eff q t x u) \<Longrightarrow>
      takes_effect M V body t (fst (h q e u)) (snd (h q e u))"
  shows "linearizes E M V (ebind (lift_sum (join_path p)) (\<lambda>q. ecase (mcall M (f q)) (h q) (g q))) spec"
proof (rule linearizesI [OF spec])
  fix s r s'
  assume s: "sound V s" and run: "ebind (lift_sum (join_path p)) (\<lambda>q. ecase (mcall M (f q)) (h q) (g q)) s = (r, s')"
  show "takes_effect M V body s r s'"
  proof (rule with_path [OF s run empty])
    assume p: "p \<noteq> []" and "ecase (mcall M (f (join_with ''/'' p))) (h (join_with ''/'' p)) (g (join_with ''/'' p)) s = (r, s')"
    from one_call [OF laws s call TrueI this(2)] show "takes_effect M V body s r s'"
      using ok [OF _ p refl] ref [OF _ p refl] unclear [OF _ p refl] by blast
  qed
qed

lemma get_linear:
  assumes laws: "mongo_laws M V" and p: "slashless p"
  shows "linearizes E M V (mongo_get M p k) (\<lambda>E. get E p k)"
proof -
  have find: "answers V (\<lambda>_. True) (m_find M q k) (\<lambda>s d s'. d_docs V s (q, k) = Some d \<and> unchanged V s s')
        (\<lambda>s g. g = NotFoundG \<and> d_docs V s (q, k) = None)" for q
    using laws by (simp add: mongo_laws_def read_laws_def)
  show ?thesis unfolding mongo_get_def
    by (rule call_linear [OF laws get_def _ find]; (rule takes_effect_now)?)
      (use p in \<open>auto simp: library_error mongo_rel_lookup mongo_rel_unchanged\<close>)
qed

lemma take_linear:
  assumes laws: "mongo_laws M V" and p: "slashless p"
  shows "linearizes E M V (mongo_take M p k) (\<lambda>E. take_doc E p k)"
proof -
  have take: "answers V (\<lambda>_. True) (m_take M q k)
        (\<lambda>s d s'. d_docs V s (q, k) = Some d \<and> d_docs V s' = (d_docs V s)((q, k) := None) \<and> d_seq V s' = d_seq V s)
        (\<lambda>s g. g = NoDocumentsG \<and> d_docs V s (q, k) = None)" for q
    using laws by (simp add: mongo_laws_def remove_laws_def)
  show ?thesis unfolding mongo_take_def
    by (rule call_linear [OF laws take_doc_def _ take]; (rule takes_effect_now)?)
      (use p in \<open>auto simp: library_error mongo_rel_lookup mongo_rel_unchanged intro: mongo_rel_del\<close>)
qed

lemma gone_already:
  assumes "mongo_rel V s w" "d_docs V s (join_with ''/'' p, k) = None" "p \<noteq> []" "slashless p"
  shows "mongo_rel V s (del_doc w p k)"
  using assms by (auto simp: mongo_rel_def lookup_del_doc)

lemma delete_linear:
  assumes laws: "mongo_laws M V" and p: "slashless p"
  shows "linearizes E M V (mongo_delete M p k) (\<lambda>E. delete E p k)"
proof -
  have del: "answers V (\<lambda>_. True) (m_delete M q k)
        (\<lambda>s _ s'. d_docs V s' = (d_docs V s)((q, k) := None) \<and> d_seq V s' = d_seq V s)
        (\<lambda>s g. g = NotFoundG \<and> d_docs V s (q, k) = None)" for q
    using laws by (simp add: mongo_laws_def remove_laws_def)
  show ?thesis unfolding mongo_delete_def
    by (rule call_linear [OF laws delete_def _ del]; (rule takes_effect_now)?)
      (use p in \<open>auto simp: library_error mongo_rel_unchanged intro: mongo_rel_del gone_already\<close>)
qed

lemma created:
  assumes "mongo_rel V t w" "p \<noteq> []" "slashless p" and "d_seq V u = d_seq V t"
    and "d_docs V u = (d_docs V t)((join_with ''/'' p, k) \<mapsto> \<lparr>md_model = m, md_path = q, md_key = k, md_data = d\<rparr>)"
  shows "mongo_rel V u (set_doc w p k d)"
  using mongo_rel_set [OF assms(1-3,5,4)] by simp

definition creates :: "('s, 'm, 'i) mview \<Rightarrow> string \<Rightarrow> string \<Rightarrow> json \<Rightarrow> 's \<Rightarrow> 's \<Rightarrow> bool" where
  "creates V q k d s s' \<longleftrightarrow> d_docs V s (q, k) = None \<and> d_seq V s' = d_seq V s \<and>
     (\<exists>m. d_docs V s' = (d_docs V s)((q, k) \<mapsto> \<lparr>md_model = m, md_path = q, md_key = k, md_data = d\<rparr>))"

lemma creates_absent: "creates V q k d t u \<Longrightarrow> d_docs V t (q, k) = None"
  by (simp add: creates_def)

lemma creates_rel: "creates V (join_with ''/'' p) k d t u \<Longrightarrow> mongo_rel V t w \<Longrightarrow> p \<noteq> [] \<Longrightarrow> slashless p \<Longrightarrow> mongo_rel V u (set_doc w p k d)"
  by (auto simp: creates_def intro: created)

lemma create_answers:
  assumes "mongo_laws M V"
  shows "answers V (\<lambda>_. True) (m_create M q k d) (\<lambda>s _ s'. creates V q k d s s') (\<lambda>s g. g = DuplicateG \<and> d_docs V s (q, k) \<noteq> None)"
  using assms unfolding creates_def by (simp add: mongo_laws_def write_laws_def)

lemma put_if_absent_linear:
  assumes laws: "mongo_laws M V" and p: "slashless p"
  shows "linearizes E M V (mongo_put_if_absent M p k d) (\<lambda>E. put_if_absent E p k d)"
  unfolding mongo_put_if_absent_def
  by (rule call_linear [OF laws put_if_absent_def _ create_answers [OF laws]]; (rule takes_effect_now)?)
    (use p in \<open>auto simp: library_error mongo_rel_lookup mongo_rel_unchanged dest: creates_absent intro: creates_rel\<close>)

section \<open>Update\<close>

definition update_body :: "bpath \<Rightarrow> string \<Rightarrow> bool \<Rightarrow> (json option \<Rightarrow> err + json) \<Rightarrow> unit act" where
  "update_body p k create fn w = (if p = [] then (Inl err_empty_path, w)
     else if lookup w p k = None \<and> \<not> create then (Inl err_not_found, w)
     else case fn (lookup w p k) of Inl e \<Rightarrow> (Inl e, w) | Inr d \<Rightarrow> (Inr (), set_doc w p k d))"

lemma update_by_body: "update E p k create (\<lambda>data. lift_sum (fn data)) = effect E (update_body p k create fn)"
  unfolding update_as_effect update_body_def by simp

lemma create_takes:
  assumes laws: "mongo_laws M V" "sound V s" and p: "p \<noteq> []" "slashless p" and fn: "fn None = Inr out" "create"
    and run: "ecase (mcall M (m_create M (join_with ''/'' p) k out))
     (\<lambda>e. if g_kind e = DuplicateG then again else fail (mongo_err op name e)) ret s = (r, s')"
    and again: "\<And>u v x. sound V u \<Longrightarrow> again u = (x, v) \<Longrightarrow> takes_effect M V (update_body p k create fn) u x v"
  shows "takes_effect M V (update_body p k create fn) s r s'"
proof (rule one_call [OF laws create_answers [OF laws(1)] TrueI run])
  have body: "update_body p k create fn w = (Inr (), set_doc w p k out)" if "mongo_rel V t w" "creates V (join_with ''/'' p) k out t u" for t w u
    using that p fn by (simp add: update_body_def mongo_rel_lookup creates_absent)
  show "takes_effect M V (update_body p k create fn) t (fst (ret x u)) (snd (ret x u))"
    if "sound V u" "creates V (join_with ''/'' p) k out t u" for t and x :: unit and u
    by (rule takes_effect_now) (use that p in \<open>auto simp: body intro: creates_rel\<close>)
  show "takes_effect M V (update_body p k create fn) t (fst ((if g_kind e = DuplicateG then again else fail (mongo_err op name e)) u))
     (snd ((if g_kind e = DuplicateG then again else fail (mongo_err op name e)) u))"
    if "sound V u" "unchanged V t u" "g_kind e = DuplicateG \<and> d_docs V t (join_with ''/'' p, k) \<noteq> None" for t e u
    using that again [of u "fst (again u)" "snd (again u)"] by (auto intro: takes_effect_later [OF idle [OF start]])
  show "takes_effect M V (update_body p k create fn) t (fst ((if g_kind e = DuplicateG then again else fail (mongo_err op name e)) u))
     (snd ((if g_kind e = DuplicateG then again else fail (mongo_err op name e)) u))"
    if "sound V u" "g_kind e = OtherG" "unchanged V t u \<or> (\<exists>x :: unit. creates V (join_with ''/'' p) k out t u)" for t e u
    by (rule takes_effect_now)
      (use that p in \<open>auto simp: library_error mongo_rel_unchanged body intro: creates_rel\<close>)
qed

text \<open>The document stored over is the one that was read: no other has its identity and version.\<close>

definition updates :: "('s, 'm, 'i) mview \<Rightarrow> 'm mdoc \<Rightarrow> 's \<Rightarrow> 's \<Rightarrow> bool" where
  "updates V d s s' \<longleftrightarrow> d_seq V s' = d_seq V s \<and> (\<exists>d0 m. d_docs V s (md_path d, md_key d) = Some d0 \<and>
     d_stamp V (md_model d0) = d_stamp V (md_model d) \<and> d_docs V s' = (d_docs V s)((md_path d, md_key d) \<mapsto> d\<lparr>md_model := m\<rparr>))"

definition outdated :: "('s, 'm, 'i) mview \<Rightarrow> 'm mdoc \<Rightarrow> 's \<Rightarrow> bool" where
  "outdated V d s \<longleftrightarrow> (\<forall>d0. d_docs V s (md_path d, md_key d) = Some d0 \<longrightarrow> d_stamp V (md_model d0) \<noteq> d_stamp V (md_model d))"

lemma update_answers:
  assumes "mongo_laws M V"
  shows "answers V (\<lambda>s. \<exists>x. d_log V s (d_stamp V (md_model d)) = Some (md_path d, md_key d, x)) (m_update M d)
    (\<lambda>s _ s'. updates V d s s') (\<lambda>s g. (g = ConflictG \<or> g = NotFoundG) \<and> outdated V d s)"
  using assms unfolding updates_def outdated_def by (simp add: mongo_laws_def write_laws_def)

lemma log_kept: "advances V s t \<Longrightarrow> d_log V s i = Some x \<Longrightarrow> d_log V t i = Some x"
  unfolding advances_def map_le_def by (metis domI)

lemma updates_read:
  assumes up: "updates V (d\<lparr>md_data := out\<rparr>) t u" and t: "sound V t"
    and log: "d_log V t (d_stamp V (md_model d)) = Some (md_path d, md_key d, md_data d)"
  shows "\<exists>d0 m. d_docs V t (md_path d, md_key d) = Some d0 \<and> md_data d0 = md_data d \<and> d_seq V u = d_seq V t \<and>
    d_docs V u = (d_docs V t)((md_path d, md_key d) \<mapsto> d\<lparr>md_data := out, md_model := m\<rparr>)"
proof -
  obtain d0 m where d0: "d_docs V t (md_path d, md_key d) = Some d0" "d_stamp V (md_model d0) = d_stamp V (md_model d)"
    and u: "d_docs V u = (d_docs V t)((md_path d, md_key d) \<mapsto> d\<lparr>md_data := out, md_model := m\<rparr>)" "d_seq V u = d_seq V t"
    using up unfolding updates_def by auto
  have "d_log V t (d_stamp V (md_model d0)) = Some (md_path d, md_key d, md_data d0)"
    using t d0(1) unfolding sound_def by blast
  then have "md_data d0 = md_data d" using d0(2) log by simp
  with d0(1) u show ?thesis by blast
qed

lemma modify_takes:
  assumes laws: "mongo_laws M V" "sound V s" and p: "p \<noteq> []" "slashless p" and fn: "fn (Some (md_data d)) = Inr out"
    and d: "md_path d = join_with ''/'' p" "md_key d = k" "d_log V s (d_stamp V (md_model d)) = Some (md_path d, md_key d, md_data d)"
    and run: "ecase (mcall M (m_update M (d\<lparr>md_data := out\<rparr>))) (\<lambda>e. if stale e then again else fail (mongo_err op name e)) ret s = (r, s')"
    and again: "\<And>u v x. sound V u \<Longrightarrow> again u = (x, v) \<Longrightarrow> takes_effect M V (update_body p k create fn) u x v"
  shows "takes_effect M V (update_body p k create fn) s r s'"
proof (rule one_call [OF laws update_answers [OF laws(1)] _ run])
  show "\<exists>x. d_log V (m_others M s) (d_stamp V (md_model (d\<lparr>md_data := out\<rparr>))) = Some (md_path (d\<lparr>md_data := out\<rparr>), md_key (d\<lparr>md_data := out\<rparr>), x)"
    using log_kept [OF others_advance [OF laws] d(3)] by auto
  have body: "\<exists>w'. update_body p k create fn w = (Inr (), w') \<and> mongo_rel V u w'"
    if R: "mongo_rel V t w" and up: "updates V (d\<lparr>md_data := out\<rparr>) t u" and adv: "advances V s t" for t w u
  proof -
    obtain d0 m where d0: "d_docs V t (join_with ''/'' p, k) = Some d0" "md_data d0 = md_data d" "d_seq V u = d_seq V t"
      and u: "d_docs V u = (d_docs V t)((join_with ''/'' p, k) \<mapsto> d\<lparr>md_data := out, md_model := m\<rparr>)"
      using updates_read [OF up advances_sound [OF adv] log_kept [OF adv d(3)]] d(1,2) by auto
    have "mongo_rel V u (set_doc w p k (md_data (d\<lparr>md_data := out, md_model := m\<rparr>)))"
      by (rule mongo_rel_set [OF R p u d0(3)])
    then show ?thesis using p fn d0(2) by (simp add: update_body_def mongo_rel_lookup [OF R p] d0(1))
  qed
  show "takes_effect M V (update_body p k create fn) t (fst (ret x u)) (snd (ret x u))"
    if "advances V s t" "sound V u" "updates V (d\<lparr>md_data := out\<rparr>) t u" for t and x :: unit and u
    by (rule takes_effect_now) (use that body in auto)
  show "takes_effect M V (update_body p k create fn) t (fst ((if stale e then again else fail (mongo_err op name e)) u))
     (snd ((if stale e then again else fail (mongo_err op name e)) u))"
    if "sound V u" "unchanged V t u" "(g_kind e = ConflictG \<or> g_kind e = NotFoundG) \<and> outdated V (d\<lparr>md_data := out\<rparr>) t" for t e u
    using that again [of u "fst (again u)" "snd (again u)"] by (auto simp: stale_def intro: takes_effect_later [OF idle [OF start]])
  show "takes_effect M V (update_body p k create fn) t (fst ((if stale e then again else fail (mongo_err op name e)) u))
     (snd ((if stale e then again else fail (mongo_err op name e)) u))"
    if "advances V s t" "sound V u" "g_kind e = OtherG" "unchanged V t u \<or> (\<exists>x :: unit. updates V (d\<lparr>md_data := out\<rparr>) t u)" for t e u
    by (rule takes_effect_now) (use that in \<open>auto simp: stale_def library_error mongo_rel_unchanged dest: body\<close>)
qed

lemma soundD:
  "sound V s \<Longrightarrow> d_docs V s (q, k) = Some d \<Longrightarrow> md_path d = q \<and> md_key d = k \<and> d_log V s (d_stamp V (md_model d)) = Some (q, k, md_data d)"
  by (simp add: sound_def)

lemma update_attempts_take:
  assumes laws: "mongo_laws M V" and p: "p \<noteq> []" "slashless p"
  shows "sound V s \<Longrightarrow> update_attempts M (join_with ''/'' p) k create fn n s = (r, s') \<Longrightarrow> takes_effect M V (update_body p k create fn) s r s'"
proof (induction n arbitrary: s r s')
  case 0
  then show ?case by (auto simp: gave_up_def intro: takes_no_effect)
next
  case (Suc n)
  let ?q = "join_with ''/'' p" and ?again = "update_attempts M (join_with ''/'' p) k create fn n"
  show ?case
  proof (cases "m_ctx M s")
    case (Some t)
    with Suc.prems show ?thesis by (auto intro: takes_no_effect)
  next
    case None
    have find: "answers V (\<lambda>_. True) (m_find M ?q k) (\<lambda>s d s'. d_docs V s (?q, k) = Some d \<and> unchanged V s s')
        (\<lambda>s g. g = NotFoundG \<and> d_docs V s (?q, k) = None)"
      using laws by (simp add: mongo_laws_def read_laws_def)
    let ?h = "\<lambda>e. if g_kind e = NotFoundG then if \<not> create then fail err_not_found else create_attempt M ?q k fn ?again
       else fail (mongo_err ''update'' (doc_name ?q k) e)"
    let ?g = "\<lambda>d. modify_attempt M ?q k fn d ?again"
    have run: "ecase (mcall M (m_find M ?q k)) ?h ?g s = (r, s')" using Suc.prems(2) None by simp
    show ?thesis
    proof (rule one_call [OF laws Suc.prems(1) find TrueI run])
      fix t d u
      assume a: "sound V u" "d_docs V t (?q, k) = Some d \<and> unchanged V t u"
      then have d: "d_docs V u (?q, k) = Some d" by (simp add: unchanged_def)
      show "takes_effect M V (update_body p k create fn) t (fst (?g d u)) (snd (?g d u))"
      proof (cases "fn (Some (md_data d))")
        case (Inl e)
        then show ?thesis using a p by (auto simp: modify_attempt_def ebind_apply update_body_def mongo_rel_lookup mongo_rel_unchanged intro!: takes_effect_now)
      next
        case (Inr out)
        have s: "md_path d = ?q" "md_key d = k" "d_log V u (d_stamp V (md_model d)) = Some (md_path d, md_key d, md_data d)"
          using soundD [OF a(1) d] by simp_all
        have "takes_effect M V (update_body p k create fn) u (fst (?g d u)) (snd (?g d u))"
          by (rule modify_takes [OF laws a(1) p Inr s _ Suc.IH]) (simp_all add: modify_attempt_def ebind_apply Inr)
        with a(2) show ?thesis by (blast intro: takes_effect_later [OF idle [OF start]])
      qed
    next
      fix t e u
      assume a: "sound V u" "unchanged V t u" "g_kind e = NotFoundG \<and> d_docs V t (?q, k) = None"
      show "takes_effect M V (update_body p k create fn) t (fst (?h e u)) (snd (?h e u))"
      proof (cases "\<not> create \<or> (\<exists>e'. fn None = Inl e')")
        case True
        then show ?thesis using a p by (auto simp: create_attempt_def ebind_apply update_body_def mongo_rel_lookup mongo_rel_unchanged intro!: takes_effect_now)
      next
        case False
        then obtain out where fn: "fn None = Inr out" and c: create by (cases "fn None") auto
        have "takes_effect M V (update_body p k create fn) u (fst (?h e u)) (snd (?h e u))"
          by (rule create_takes [OF laws a(1) p fn c _ Suc.IH]) (use a(3) c in \<open>simp_all add: create_attempt_def ebind_apply fn\<close>)
        with a(2) show ?thesis by (blast intro: takes_effect_later [OF idle [OF start]])
      qed
    next
      show "takes_effect M V (update_body p k create fn) t (fst (?h e u)) (snd (?h e u))"
        if "sound V u" "g_kind e = OtherG" "unchanged V t u \<or> (\<exists>d. d_docs V t (?q, k) = Some d \<and> unchanged V t u)" for t e u
        by (rule takes_effect_now) (use that in \<open>auto simp: library_error mongo_rel_unchanged\<close>)
    qed
  qed
qed

lemma update_linear:
  assumes laws: "mongo_laws M V" and p: "slashless p"
  shows "linearizes E M V (mongo_update M p k create fn) (\<lambda>E. update E p k create (\<lambda>data. lift_sum (fn data)))"
proof (rule linearizesI [OF update_by_body])
  fix s r s'
  assume s: "sound V s" and run: "mongo_update M p k create fn s = (r, s')"
  show "takes_effect M V (update_body p k create fn) s r s'"
    by (rule with_path [OF s run [unfolded mongo_update_def]])
      (simp add: update_body_def, rule update_attempts_take [OF laws _ p s])
qed

lemma put_linear:
  assumes "mongo_laws M V" "slashless p"
  shows "linearizes (E :: 'x env_scheme) M V (mongo_put M p k d) (\<lambda>E. put E p k d)"
proof -
  have "update E p k True (\<lambda>_. lift_sum (Inr d)) = put E p k d" for E :: "'x env_scheme"
    unfolding put_def update_as_effect [where fn = "\<lambda>_. Inr d"] by (rule arg_cong [where f = "effect E"]) auto
  with update_linear [OF assms, of E k True "\<lambda>_. Inr d"] show ?thesis by (simp add: mongo_put_def)
qed

lemma seq_attempts_take:
  assumes laws: "mongo_laws M V" and p: "p \<noteq> []" "slashless p"
  shows "sound V s \<Longrightarrow> seq_attempts M (join_with ''/'' p) n s = (r, s') \<Longrightarrow>
    takes_effect M V (\<lambda>w. if p = [] then (Inl err_empty_path, w) else let n = seq_of w p + 1 in (Inr n, w\<lparr>seqs := AList.update p n (seqs w)\<rparr>)) s r s'"
    (is "_ \<Longrightarrow> _ \<Longrightarrow> takes_effect M V ?body s r s'")
proof (induction n arbitrary: s r s')
  case 0
  then show ?case by (auto simp: gave_up_def intro: takes_no_effect)
next
  case (Suc n)
  let ?q = "join_with ''/'' p"
  let ?h = "\<lambda>e. if g_kind e = DuplicateG then seq_attempts M ?q n else fail (mongo_err ''next-seq'' ?q e)"
  have inc: "answers V (\<lambda>_. True) (m_inc M ?q) (\<lambda>s n s'. n = d_seq V s ?q + 1 \<and> d_seq V s' = (d_seq V s)(?q := n) \<and> d_docs V s' = d_docs V s)
     (\<lambda>s g. g = DuplicateG)"
    using laws by (simp add: mongo_laws_def write_laws_def)
  have next_rel: "seq_of w p = d_seq V t ?q \<and> mongo_rel V u (w\<lparr>seqs := AList.update p (d_seq V t ?q + 1) (seqs w)\<rparr>)"
    if "mongo_rel V t w" "d_seq V u = (d_seq V t)(?q := d_seq V t ?q + 1)" "d_docs V u = d_docs V t" for t u w
  proof -
    have "lookup (w\<lparr>seqs := AList.update p n (seqs w)\<rparr>) = lookup w" for n by (simp add: lookup_def fun_eq_iff)
    then show ?thesis using that p by (auto simp: mongo_rel_def seq_of_next join_with_inject)
  qed
  show ?case
  proof (cases "m_ctx M s")
    case (Some t)
    with Suc.prems show ?thesis by (auto intro: takes_no_effect)
  next
    case None
    have run: "ecase (mcall M (m_inc M ?q)) ?h ret s = (r, s')" using Suc.prems(2) None by simp
    show ?thesis
    proof (rule one_call [OF laws Suc.prems(1) inc TrueI run])
      show "takes_effect M V ?body t (fst (ret x u)) (snd (ret x u))"
        if "sound V u" "x = d_seq V t ?q + 1 \<and> d_seq V u = (d_seq V t)(?q := x) \<and> d_docs V u = d_docs V t" for t x u
        by (rule takes_effect_now) (use that p next_rel [of t _ u] in \<open>auto simp: Let_def\<close>)
      show "takes_effect M V ?body t (fst (?h e u)) (snd (?h e u))" if "sound V u" "unchanged V t u" "g_kind e = DuplicateG" for t e u
        using that Suc.IH [of u "fst (?h e u)" "snd (?h e u)"] by (auto intro: takes_effect_later [OF idle [OF start]])
      show "takes_effect M V ?body t (fst (?h e u)) (snd (?h e u))"
        if "sound V u" "g_kind e = OtherG"
          "unchanged V t u \<or> (\<exists>x. x = d_seq V t ?q + 1 \<and> d_seq V u = (d_seq V t)(?q := x) \<and> d_docs V u = d_docs V t)" for t e u
        by (rule takes_effect_now) (use that p next_rel [of t _ u] in \<open>auto simp: Let_def library_error mongo_rel_unchanged\<close>)
    qed
  qed
qed

lemma next_seq_linear:
  assumes laws: "mongo_laws M V" and p: "slashless p"
  shows "linearizes E M V (mongo_next_seq M p) (\<lambda>E. next_seq E p)"
proof (rule linearizesI [OF next_seq_def])
  fix s r s'
  assume s: "sound V s" and run: "mongo_next_seq M p s = (r, s')"
  show "takes_effect M V (\<lambda>w. if p = [] then (Inl err_empty_path, w)
     else let n = seq_of w p + 1 in (Inr n, w\<lparr>seqs := AList.update p n (seqs w)\<rparr>)) s r s'"
    by (rule with_path [OF s run [unfolded mongo_next_seq_def]])
      (simp, rule seq_attempts_take [OF laws _ p s])
qed

text \<open>
  Claim C10: the MongoDB store is linearizable.  Over a library with the documented laws, and whatever
  the other replicas do between its calls, each operation on a document takes effect at one moment:
  in the state of that moment the store model has a run of the same operation, for one outcome of the
  call, with the same answer and a related end.  In particular no update is lost: the value an update
  stores was computed from the value it replaces.
\<close>

theorem mongo_linearizable:
  assumes "mongo_laws M V" and "slashless p"
  shows "linearizes E M V (mongo_put M p k d) (\<lambda>E. put E p k d)
    \<and> linearizes E M V (mongo_put_if_absent M p k d) (\<lambda>E. put_if_absent E p k d)
    \<and> linearizes E M V (mongo_get M p k) (\<lambda>E. get E p k)
    \<and> linearizes E M V (mongo_take M p k) (\<lambda>E. take_doc E p k)
    \<and> linearizes E M V (mongo_delete M p k) (\<lambda>E. delete E p k)
    \<and> linearizes E M V (mongo_update M p k create fn) (\<lambda>E. update E p k create (\<lambda>data. lift_sum (fn data)))
    \<and> linearizes E M V (mongo_next_seq M p) (\<lambda>E. next_seq E p)"
  by (intro conjI put_linear put_if_absent_linear get_linear take_linear delete_linear update_linear next_seq_linear assms)

section \<open>Updates are not starved\<close>

text \<open>The library does not fail, and the context of the request is not cancelled.\<close>

definition never_fails :: "('s, gerr, 'a) action \<Rightarrow> bool" where
  "never_fails f \<longleftrightarrow> (\<forall>s e s'. f s = (Inl e, s') \<longrightarrow> g_kind e \<noteq> OtherG)"

definition calm :: "('s, 'm) mongo \<Rightarrow> bool" where
  "calm M \<longleftrightarrow> (\<forall>s. m_ctx M s = None) \<and> (\<forall>q k. never_fails (m_find M q k)) \<and> (\<forall>q k d. never_fails (m_create M q k d)) \<and>
     (\<forall>d. never_fails (m_update M d))"

text \<open>\<open>rivals\<close> bounds the writes to one document that the other clients have still to make.\<close>

definition bounds_rivals :: "('s, 'm) mongo \<Rightarrow> ('s, 'm, 'i) mview \<Rightarrow> string \<Rightarrow> string \<Rightarrow> ('s \<Rightarrow> nat) \<Rightarrow> bool" where
  "bounds_rivals M V q k rivals \<longleftrightarrow>
     (\<forall>s. rivals (m_others M s) < rivals s \<or> rivals (m_others M s) \<le> rivals s \<and> d_docs V (m_others M s) (q, k) = d_docs V s (q, k)) \<and>
     (\<forall>s. rivals (snd (m_find M q k s)) \<le> rivals s) \<and> (\<forall>d s. rivals (snd (m_create M q k d s)) \<le> rivals s) \<and>
     (\<forall>d s. rivals (snd (m_update M d s)) \<le> rivals s)"

lemma calm_answers:
  assumes "answers V pre f eff refused" "sound V s" "pre s" "f s = (Inl e, s')" "never_fails f"
  shows "unchanged V s s' \<and> refused s (g_kind e) \<and> sound V s'"
  using assms unfolding answers_def never_fails_def advances_def by fastforce

definition settled :: "bool \<Rightarrow> (json option \<Rightarrow> err + json) \<Rightarrow> err + unit \<Rightarrow> bool" where
  "settled create fn r \<longleftrightarrow> r = Inr () \<or> (\<not> create \<and> r = Inl err_not_found) \<or> (\<exists>d e. fn d = Inl e \<and> r = Inl e)"

text \<open>An attempt that is refused has met a rival's write to the document between its two calls.\<close>

lemma rival_met:
  assumes riv: "bounds_rivals M V q k rivals" and "rivals u < Suc n"
    and "rivals v \<le> rivals (m_others M u)" "d_docs V (m_others M u) (q, k) \<noteq> d_docs V u (q, k)"
  shows "rivals v < n"
  using assms unfolding bounds_rivals_def by (metis less_trans_Suc not_less_eq order_le_less_trans)

lemma modify_settles:
  assumes laws: "mongo_laws M V" and calm: "calm M" and riv: "bounds_rivals M V q k rivals"
    and u: "sound V u" "d_docs V u (q, k) = Some d" "rivals u < Suc n"
    and again: "\<And>v. sound V v \<Longrightarrow> rivals v < n \<Longrightarrow> settled create fn (fst (again v))"
  shows "settled create fn (fst (modify_attempt M q k fn d again u))"
proof (cases "fn (Some (md_data d))")
  case (Inr out)
  let ?d = "d\<lparr>md_data := out\<rparr>" and ?t = "m_others M u"
  have t: "advances V u ?t" by (rule others_advance [OF laws u(1)])
  note d = soundD [OF u(1,2)]
  obtain c v where up: "m_update M ?d ?t = (c, v)" by (cases "m_update M ?d ?t")
  show ?thesis
  proof (cases c)
    case (Inl e)
    have r: "unchanged V ?t v \<and> ((g_kind e = ConflictG \<or> g_kind e = NotFoundG) \<and> outdated V ?d ?t) \<and> sound V v"
    proof (rule calm_answers [OF update_answers [OF laws] advances_sound [OF t] _ up [unfolded Inl]])
      show "\<exists>x. d_log V ?t (d_stamp V (md_model ?d)) = Some (md_path ?d, md_key ?d, x)"
        using log_kept [OF t] d by auto
      show "never_fails (m_update M ?d)" using calm by (simp add: calm_def)
    qed
    then have "d_docs V ?t (q, k) \<noteq> d_docs V u (q, k)" using u(2) d by (auto simp: outdated_def)
    moreover have "rivals v \<le> rivals ?t" using riv up unfolding bounds_rivals_def by (metis snd_conv)
    ultimately have "rivals v < n" by (intro rival_met [OF riv u(3)])
    with r again show ?thesis by (simp add: modify_attempt_def ebind_apply ecase_apply mcall_def Inr up Inl stale_def)
  next
    case (Inr y)
    then show ?thesis
      by (simp add: modify_attempt_def ebind_apply ecase_apply mcall_def \<open>fn (Some (md_data d)) = Inr out\<close> up settled_def)
  qed
qed (auto simp: modify_attempt_def ebind_apply settled_def)

lemma create_settles:
  assumes laws: "mongo_laws M V" and calm: "calm M" and riv: "bounds_rivals M V q k rivals" and "create"
    and u: "sound V u" "d_docs V u (q, k) = None" "rivals u < Suc n"
    and again: "\<And>v. sound V v \<Longrightarrow> rivals v < n \<Longrightarrow> settled create fn (fst (again v))"
  shows "settled create fn (fst (create_attempt M q k fn again u))"
proof (cases "fn None")
  case (Inr out)
  let ?t = "m_others M u"
  have t: "sound V ?t" by (rule advances_sound [OF others_advance [OF laws u(1)]])
  obtain c v where cr: "m_create M q k out ?t = (c, v)" by (cases "m_create M q k out ?t")
  show ?thesis
  proof (cases c)
    case (Inl e)
    have r: "unchanged V ?t v \<and> (g_kind e = DuplicateG \<and> d_docs V ?t (q, k) \<noteq> None) \<and> sound V v"
      using calm by (intro calm_answers [OF create_answers [OF laws] t TrueI cr [unfolded Inl]]) (simp add: calm_def)
    moreover have "rivals v \<le> rivals ?t" using riv cr unfolding bounds_rivals_def by (metis snd_conv)
    ultimately have "rivals v < n" using u(2) by (intro rival_met [OF riv u(3)]) simp_all
    with r again show ?thesis by (simp add: create_attempt_def ebind_apply ecase_apply mcall_def Inr cr Inl)
  next
    case (Inr y)
    then show ?thesis by (simp add: create_attempt_def ebind_apply ecase_apply mcall_def \<open>fn None = Inr out\<close> cr settled_def)
  qed
qed (auto simp: create_attempt_def ebind_apply settled_def)

lemma attempts_settle:
  assumes laws: "mongo_laws M V" and calm: "calm M" and riv: "bounds_rivals M V q k rivals"
  shows "sound V s \<Longrightarrow> rivals s < n \<Longrightarrow> settled create fn (fst (update_attempts M q k create fn n s))"
proof (induction n arbitrary: s)
  case (Suc n)
  let ?t = "m_others M s"
  have find: "answers V (\<lambda>_. True) (m_find M q k) (\<lambda>s d s'. d_docs V s (q, k) = Some d \<and> unchanged V s s')
        (\<lambda>s g. g = NotFoundG \<and> d_docs V s (q, k) = None)"
    using laws by (simp add: mongo_laws_def read_laws_def)
  have t: "sound V ?t" by (rule advances_sound [OF others_advance [OF laws Suc.prems(1)]])
  have ctx: "m_ctx M s = None" using calm by (simp add: calm_def)
  obtain c u where f: "m_find M q k ?t = (c, u)" by (cases "m_find M q k ?t")
  have "rivals u \<le> rivals ?t" "rivals ?t \<le> rivals s"
    using riv f unfolding bounds_rivals_def by (metis snd_conv less_imp_le)+
  then have u: "rivals u < Suc n" using Suc.prems(2) by simp
  show ?case
  proof (cases c)
    case (Inr d)
    have "d_docs V ?t (q, k) = Some d \<and> unchanged V ?t u \<and> advances V ?t u"
      using find t f unfolding answers_def Inr by fastforce
    then have "sound V u" "d_docs V u (q, k) = Some d" by (simp_all add: unchanged_def advances_def)
    from modify_settles [OF laws calm riv this u Suc.IH] show ?thesis
      by (simp add: ctx ecase_apply mcall_def f Inr)
  next
    case (Inl e)
    have e: "unchanged V ?t u \<and> (g_kind e = NotFoundG \<and> d_docs V ?t (q, k) = None) \<and> sound V u"
      using calm by (intro calm_answers [OF find t TrueI f [unfolded Inl]]) (simp add: calm_def)
    then have "d_docs V u (q, k) = None" by (simp add: unchanged_def)
    with e create_settles [OF laws calm riv _ _ this u Suc.IH] show ?thesis
      by (simp add: ctx ecase_apply mcall_def f Inl settled_def)
  qed
qed simp


end
