(* ===== verification/Store_Samples.thy ===== *)
theory Store_Samples
  imports Store_Bolt Store_Linear Sample_Env "HOL-Library.Sublist"
begin

text \<open>
  Concrete libraries for the two stores, in which what their documentation promises holds.
\<close>

section \<open>An embedded database\<close>

text \<open>
  Buckets, values and counters as lists.  A path is a bucket when all its beginnings are listed; a
  bucket that is made anew starts empty.
\<close>

record flat_db =
  fb_buckets :: "bpath list"
  fb_vals :: "((bpath \<times> string) \<times> json) list"
  fb_seqs :: "(bpath \<times> u64) list"

definition is_bucket :: "flat_db \<Rightarrow> bpath \<Rightarrow> bool" where
  "is_bucket db p \<longleftrightarrow> p \<noteq> [] \<and> (\<forall>q \<in> set (prefixes p). q \<noteq> [] \<longrightarrow> q \<in> set (fb_buckets db))"

definition flat_make :: "bpath \<Rightarrow> flat_db \<Rightarrow> (string + bpath) \<times> flat_db" where
  "flat_make q db = (if is_bucket db q then (Inr q, db) else (Inr q, \<lparr>fb_buckets = q # filter (\<lambda>r. \<not> prefix q r) (fb_buckets db),
     fb_vals = filter (\<lambda>v. fst (fst v) \<noteq> q) (fb_vals db), fb_seqs = filter (\<lambda>v. fst v \<noteq> q) (fb_seqs db)\<rparr>))"

definition flat_val :: "flat_db \<Rightarrow> bpath \<Rightarrow> string \<Rightarrow> json option" where
  "flat_val db p k = (if is_bucket db p then map_of (fb_vals db) (p, k) else None)"

definition flat_seq :: "flat_db \<Rightarrow> bpath \<Rightarrow> u64" where
  "flat_seq db p = (if is_bucket db p then (case map_of (fb_seqs db) p of None \<Rightarrow> 0 | Some n \<Rightarrow> n) else 0)"

definition flat_keys :: "flat_db \<Rightarrow> bpath \<Rightarrow> string list" where
  "flat_keys db p = sort (remdups (map (snd \<circ> fst) (filter (\<lambda>v. fst (fst v) = p) (fb_vals db)) @
     map last (filter (\<lambda>q. q \<noteq> [] \<and> butlast q = p) (fb_buckets db))))"

definition parent :: "bpath option \<Rightarrow> bpath" where
  "parent b = (case b of None \<Rightarrow> [] | Some p \<Rightarrow> p)"

definition flat_bolt :: "(flat_db, bpath, json) bbolt" where
  "flat_bolt = \<lparr>b_begin = (\<lambda>db. None), b_commit = (\<lambda>db db1. (Inr (), db1)),
     b_open = (\<lambda>b seg db. if is_bucket db (parent b @ [seg]) then Some (parent b @ [seg]) else None),
     b_make = (\<lambda>b seg. flat_make (parent b @ [seg])), b_get = (\<lambda>p k db. map_of (fb_vals db) (p, k)),
     b_put = (\<lambda>p k d db. if k = [] then (Inl ''key required'', db) else if is_bucket db (p @ [k]) then (Inl ''incompatible value'', db)
        else (Inr (), db\<lparr>fb_vals := AList.update (p, k) d (fb_vals db)\<rparr>)),
     b_delete = (\<lambda>p k db. (Inr (), db\<lparr>fb_vals := AList.delete (p, k) (fb_vals db)\<rparr>)),
     b_items = (\<lambda>p db. map (\<lambda>k. (k, map_of (fb_vals db) (p, k))) (flat_keys db p)),
     b_next = (\<lambda>p db. let n = flat_seq db p + 1 in (Inr n, db\<lparr>fb_seqs := AList.update p n (fb_seqs db)\<rparr>))\<rparr>"

definition flat_view :: "(flat_db, bpath, json) bview" where
  "flat_view = \<lparr>v_path = (\<lambda>p. p), v_buckets = (\<lambda>db. {p. is_bucket db p}), v_val = flat_val, v_seq = flat_seq\<rparr>"

lemma is_bucket_prefix:
  assumes "is_bucket db r" and q: "prefix q r" "q \<noteq> []"
  shows "is_bucket db q"
proof -
  have "x \<in> set (fb_buckets db)" if "prefix x q" "x \<noteq> []" for x
    using assms(1) that(2) prefix_order.order_trans [OF that(1) q(1)] by (simp add: is_bucket_def)
  with q(2) show ?thesis by (simp add: is_bucket_def)
qed

lemma is_bucket_snoc: "is_bucket db (p @ [seg]) \<longleftrightarrow> (p = [] \<or> is_bucket db p) \<and> p @ [seg] \<in> set (fb_buckets db)"
  by (auto simp: is_bucket_def simp del: prefixes.simps)

lemma flat_make_buckets:
  assumes p: "p = [] \<or> is_bucket db p" and m: "flat_make (p @ [seg]) db = (Inr h, db')"
  shows "is_bucket db' r \<longleftrightarrow> r = p @ [seg] \<or> is_bucket db r"
proof (cases "is_bucket db (p @ [seg])")
  case True
  with m show ?thesis by (auto simp: flat_make_def)
next
  case False
  let ?q = "p @ [seg]"
  have b: "x \<in> set (fb_buckets db') \<longleftrightarrow> x = ?q \<or> x \<in> set (fb_buckets db) \<and> \<not> prefix ?q x" for x
    using m False by (auto simp: flat_make_def)
  show ?thesis
  proof (cases "prefix ?q r")
    case True
    have "\<not> is_bucket db r" using is_bucket_prefix [OF _ True] False by blast
    moreover have "is_bucket db' r \<longleftrightarrow> r = ?q"
    proof
      assume r: "is_bucket db' r"
      then have "r \<in> set (fb_buckets db')" by (simp add: is_bucket_def)
      with b True show "r = ?q" by blast
    next
      assume r: "r = ?q"
      have "p = [] \<or> is_bucket db' p"
        using p b by (auto simp: is_bucket_def dest!: prefix_length_le)
      with b r show "is_bucket db' r" by (simp add: is_bucket_snoc)
    qed
    ultimately show ?thesis by blast
  next
    case other: False
    then have "\<not> prefix ?q x" if "prefix x r" for x using prefix_order.order_trans [OF _ that] by blast
    moreover have "r \<noteq> ?q" using other by blast
    ultimately show ?thesis using b by (auto simp: is_bucket_def)
  qed
qed

lemma drop_vals: "map_of (filter (\<lambda>v. fst (fst v) \<noteq> r) xs) (q, k) = (if q = r then None else map_of xs (q, k))"
  by (induction xs) auto

lemma drop_seqs: "map_of (filter (\<lambda>v. fst v \<noteq> r) xs) q = (if q = r then None else map_of xs q)"
  by (induction xs) auto

lemma flat_make_laws:
  assumes p: "p = [] \<or> is_bucket db p" and m: "flat_make (p @ [seg]) db = (Inr h, db')"
  shows "h = p @ [seg]" "flat_val db' = flat_val db" "flat_seq db' = flat_seq db"
proof -
  show "h = p @ [seg]" using m by (auto simp: flat_make_def split: if_splits)
  note bs = flat_make_buckets [OF p m]
  have "flat_val db' q k = flat_val db q k \<and> flat_seq db' q = flat_seq db q" for q k
  proof (cases "is_bucket db (p @ [seg])")
    case True
    with m show ?thesis by (simp add: flat_make_def)
  next
    case False
    then have f: "fb_vals db' = filter (\<lambda>v. fst (fst v) \<noteq> p @ [seg]) (fb_vals db)" "fb_seqs db' = filter (\<lambda>v. fst v \<noteq> p @ [seg]) (fb_seqs db)"
      using m by (auto simp: flat_make_def)
    show ?thesis
    proof (cases "q = p @ [seg]")
      case True
      then show ?thesis using False by (simp add: flat_val_def flat_seq_def f drop_vals drop_seqs)
    next
      case other: False
      then show ?thesis using bs [of q] by (simp add: flat_val_def flat_seq_def f drop_vals drop_seqs)
    qed
  qed
  then show "flat_val db' = flat_val db" "flat_seq db' = flat_seq db" by (auto simp: fun_eq_iff)
qed

lemma flat_laws: "bbolt_laws flat_bolt flat_view"
  unfolding bbolt_laws_def
proof (intro conjI)
  show "tree_laws flat_view"
    by (auto simp: tree_laws_def flat_view_def flat_val_def flat_seq_def is_bucket_snoc)
  show "commit_laws flat_bolt" by (simp add: commit_laws_def flat_bolt_def)
  have u: "under flat_view b = parent b" for b by (cases b) (simp_all add: under_def parent_def flat_view_def)
  have l: "live flat_view db b \<Longrightarrow> parent b = [] \<or> is_bucket db (parent b)" for db b
    by (cases b) (simp_all add: live_def parent_def flat_view_def)
  show "bucket_laws flat_bolt flat_view"
    unfolding bucket_laws_def u
  proof (intro conjI allI impI)
    fix db b seg h db'
    show "(b_open flat_bolt b seg db = None) = (parent b @ [seg] \<notin> v_buckets flat_view db)" by (simp add: flat_bolt_def flat_view_def)
    show "b_open flat_bolt b seg db = Some h \<Longrightarrow> v_path flat_view h = parent b @ [seg]" by (simp add: flat_bolt_def flat_view_def split: if_splits)
    assume lv: "live flat_view db b" and "b_make flat_bolt b seg db = (Inr h, db')"
    then have m: "flat_make (parent b @ [seg]) db = (Inr h, db')" by (simp add: flat_bolt_def)
    show "v_path flat_view h = parent b @ [seg]" "v_val flat_view db' = v_val flat_view db" "v_seq flat_view db' = v_seq flat_view db"
      using flat_make_laws [OF l [OF lv] m] by (simp_all add: flat_view_def)
    show "v_buckets flat_view db' = insert (parent b @ [seg]) (v_buckets flat_view db)"
      using flat_make_buckets [OF l [OF lv] m] by (auto simp: flat_view_def)
  qed
  show "value_laws flat_bolt flat_view"
    unfolding value_laws_def
  proof (intro conjI allI impI)
    fix db h k d n db'
    assume "v_path flat_view h \<in> v_buckets flat_view db"
    then have h: "is_bucket db h" by (simp add: flat_view_def)
    then show "b_get flat_bolt h k db = v_val flat_view db (v_path flat_view h) k" by (simp add: flat_bolt_def flat_view_def flat_val_def)
    have frame: "is_bucket (db\<lparr>fb_vals := vs\<rparr>) = is_bucket db" "is_bucket (db\<lparr>fb_seqs := qs\<rparr>) = is_bucket db" for vs qs
      by (simp_all add: is_bucket_def fun_eq_iff)
    show "v_val flat_view db' = (v_val flat_view db)(v_path flat_view h := (v_val flat_view db (v_path flat_view h))(k \<mapsto> d))"
      "v_seq flat_view db' = v_seq flat_view db" if "b_put flat_bolt h k d db = (Inr (), db')"
      using that h by (auto simp: flat_bolt_def flat_view_def flat_val_def flat_seq_def frame fun_eq_iff update_conv' split: if_splits)
    show "v_val flat_view db' = (v_val flat_view db)(v_path flat_view h := (v_val flat_view db (v_path flat_view h))(k := None))"
      "v_seq flat_view db' = v_seq flat_view db" if "b_delete flat_bolt h k db = (Inr (), db')"
      using that h by (auto simp: flat_bolt_def flat_view_def flat_val_def flat_seq_def frame fun_eq_iff delete_conv')
    assume run: "b_next flat_bolt h db = (Inr n, db')"
    have "b_next flat_bolt h db = (Inr (flat_seq db h + 1), db\<lparr>fb_seqs := AList.update h (flat_seq db h + 1) (fb_seqs db)\<rparr>)"
      by (simp add: flat_bolt_def Let_def)
    with run have n: "n = flat_seq db h + 1" "db' = db\<lparr>fb_seqs := AList.update h n (fb_seqs db)\<rparr>" by auto
    then show "n = v_seq flat_view db (v_path flat_view h) + 1" "v_val flat_view db' = v_val flat_view db"
      by (simp_all add: flat_view_def flat_val_def frame fun_eq_iff)
    show "v_seq flat_view db' = (v_seq flat_view db)(v_path flat_view h := n)"
      using h by (auto simp: flat_view_def n(2) flat_seq_def frame fun_eq_iff update_conv')
  qed
  show "item_laws flat_bolt flat_view"
  proof -
    have "k \<in> set (flat_keys db p)" if "map_of (fb_vals db) (p, k) = Some d" for db p k d
    proof -
      have "((p, k), d) \<in> set (fb_vals db)" using that by (rule map_of_SomeD)
      then have "k \<in> (snd \<circ> fst) ` {v \<in> set (fb_vals db). fst (fst v) = p}" by (intro image_eqI [of _ _ "((p, k), d)"]) simp_all
      then show ?thesis by (simp add: flat_keys_def)
    qed
    then have "(k, Some d) \<in> set (map (\<lambda>k. (k, map_of (fb_vals db) (p, k))) (flat_keys db p)) \<longleftrightarrow> map_of (fb_vals db) (p, k) = Some d" for db p k d
      unfolding set_map image_iff by (metis (lifting) prod.inject)
    moreover have "map fst (map (\<lambda>k. (k, map_of (fb_vals db) (p, k))) (flat_keys db p)) = flat_keys db p" for db p
      by (simp add: o_def)
    moreover have "sorted (flat_keys db p)" "distinct (flat_keys db p)" for db p
      by (simp_all add: flat_keys_def)
    ultimately show ?thesis
      unfolding item_laws_def flat_bolt_def flat_view_def by (simp add: flat_val_def del: set_map)
  qed
qed

definition flat_start :: flat_db where
  "flat_start = \<lparr>fb_buckets = [], fb_vals = [], fb_seqs = []\<rparr>"

text \<open>A document is written to the empty database and to the empty model of the store.\<close>

theorem bolt_refines_store_witness:
  "\<exists>db f w r. bolt_put flat_bolt [''a'', ''b''] ''k'' JNull flat_start = (Inr (), db) \<and> flat_val db [''a'', ''b''] ''k'' = Some JNull \<and>
     put (sample_env\<lparr>fault_at := \<lambda>_. f\<rparr>) [''a'', ''b''] ''k'' JNull empty_world = (r, w) \<and> lookup w [''a'', ''b''] ''k'' = Some JNull"
proof -
  have "\<exists>db. bolt_put flat_bolt [''a'', ''b''] ''k'' JNull flat_start = (Inr (), db) \<and> flat_val db [''a'', ''b''] ''k'' = Some JNull"
    by (simp add: bolt_put_def db_update_def flat_bolt_def ebind_apply enter_def told_def flat_make_def parent_def flat_start_def is_bucket_def flat_val_def)
  then obtain db where db: "bolt_put flat_bolt [''a'', ''b''] ''k'' JNull flat_start = (Inr (), db)" "flat_val db [''a'', ''b''] ''k'' = Some JNull" by blast
  have R: "bolt_rel flat_view flat_start empty_world"
    by (simp add: bolt_rel_def flat_view_def flat_val_def flat_seq_def is_bucket_def flat_start_def fun_eq_iff lookup_def empty_world_def seq_of_def)
  have "simulates sample_env (bolt_rel flat_view) (bolt_put flat_bolt [''a'', ''b''] ''k'' JNull) (\<lambda>E. put E [''a'', ''b''] ''k'' JNull)"
    by (rule conjunct1 [OF bolt_refines_store [OF flat_laws]])
  from simulatesD [OF this R db(1)] obtain f r w where
    "put (sample_env\<lparr>fault_at := \<lambda>_. f\<rparr>) [''a'', ''b''] ''k'' JNull empty_world = (r, w)" "bolt_rel flat_view db w" by blast
  moreover from this(2) db(2) have "lookup w [''a'', ''b''] ''k'' = Some JNull" by (simp add: bolt_rel_def flat_view_def)
  ultimately show ?thesis using db by blast
qed

section \<open>A shared database\<close>

text \<open>
  Documents with a version drawn anew for each write, all that was ever written, and the values that
  another replica is still to write to one document, one before each call.
\<close>

record shared =
  sh_docs :: "((string \<times> string) \<times> nat mdoc) list"
  sh_seqs :: "(string \<times> u64) list"
  sh_log :: "(nat \<times> string \<times> string \<times> json) list"
  sh_rivals :: "json list"

definition drawn_version :: "shared \<Rightarrow> nat" where
  "drawn_version s = Suc (sum_list (map fst (sh_log s)))"

definition sh_write :: "string \<Rightarrow> string \<Rightarrow> json \<Rightarrow> shared \<Rightarrow> shared" where
  "sh_write q k d s = (let m = drawn_version s in
     s\<lparr>sh_docs := AList.update (q, k) \<lparr>md_model = m, md_path = q, md_key = k, md_data = d\<rparr> (sh_docs s), sh_log := (m, q, k, d) # sh_log s\<rparr>)"

definition sh_remove :: "string \<Rightarrow> string \<Rightarrow> shared \<Rightarrow> shared" where
  "sh_remove q k s = s\<lparr>sh_docs := AList.delete (q, k) (sh_docs s)\<rparr>"

definition sh_others :: "shared \<Rightarrow> shared" where
  "sh_others s = (case sh_rivals s of [] \<Rightarrow> s | d # ds \<Rightarrow> sh_write ''a/b'' ''k'' d (s\<lparr>sh_rivals := ds\<rparr>))"

definition sh_get :: "gkind \<Rightarrow> string \<Rightarrow> string \<Rightarrow> (nat mdoc \<Rightarrow> shared \<Rightarrow> (gerr + 'a) \<times> shared) \<Rightarrow> (shared, gerr, 'a) action" where
  "sh_get g q k f s = (case map_of (sh_docs s) (q, k) of None \<Rightarrow> (Inl (Gerr g ''no document''), s) | Some d \<Rightarrow> f d s)"

definition shared_mongo :: "(shared, nat) mongo" where
  "shared_mongo = \<lparr>m_others = sh_others, m_ctx = (\<lambda>s. None),
     m_find = (\<lambda>q k. sh_get NotFoundG q k (\<lambda>d s. (Inr d, s))),
     m_create = (\<lambda>q k d s. if map_of (sh_docs s) (q, k) = None then (Inr (), sh_write q k d s) else (Inl (Gerr DuplicateG ''duplicate key''), s)),
     m_update = (\<lambda>d. sh_get NotFoundG (md_path d) (md_key d) (\<lambda>d0 s. if md_model d0 = md_model d
        then (Inr (), sh_write (md_path d) (md_key d) (md_data d) s) else (Inl (Gerr ConflictG ''version conflict''), s))),
     m_delete = (\<lambda>q k. sh_get NotFoundG q k (\<lambda>d s. (Inr (), sh_remove q k s))),
     m_take = (\<lambda>q k. sh_get NoDocumentsG q k (\<lambda>d s. (Inr d, sh_remove q k s))),
     m_scan = (\<lambda>q s. (Inr (map Inr (sort_key md_key (map snd (filter (\<lambda>d. fst (fst d) = q) (sh_docs s)))), None), s)),
     m_inc = (\<lambda>q s. let n = (case map_of (sh_seqs s) q of None \<Rightarrow> 0 | Some n \<Rightarrow> n) + 1 in (Inr n, s\<lparr>sh_seqs := AList.update q n (sh_seqs s)\<rparr>))\<rparr>"

definition shared_view :: "(shared, nat, nat) mview" where
  "shared_view = \<lparr>d_stamp = (\<lambda>m. m), d_docs = (\<lambda>s. map_of (sh_docs s)),
     d_seq = (\<lambda>s q. case map_of (sh_seqs s) q of None \<Rightarrow> 0 | Some n \<Rightarrow> n), d_log = (\<lambda>s. map_of (sh_log s))\<rparr>"

lemma write_docs:
  "map_of (sh_docs (sh_write q k d s)) = (map_of (sh_docs s))((q, k) \<mapsto> \<lparr>md_model = drawn_version s, md_path = q, md_key = k, md_data = d\<rparr>)"
  "sh_seqs (sh_write q k d s) = sh_seqs s" "sh_rivals (sh_write q k d s) = sh_rivals s"
  "sh_log (sh_write q k d s) = (drawn_version s, q, k, d) # sh_log s"
  by (simp_all add: sh_write_def Let_def update_conv')

lemma rewritten: "\<lparr>md_model = m, md_path = md_path d, md_key = md_key d, md_data = md_data d\<rparr> = (d :: 'm mdoc)\<lparr>md_model := m\<rparr>"
  by (cases d) simp

lemma drawn_version_new: "map_of (sh_log s) (drawn_version s) = None"
proof (rule ccontr)
  assume "map_of (sh_log s) (drawn_version s) \<noteq> None"
  then have "drawn_version s \<in> set (map fst (sh_log s))" by (simp add: map_of_eq_None_iff)
  from member_le_sum_list [OF this] show False by (simp add: drawn_version_def)
qed

lemma write_advances:
  assumes "sound shared_view s" shows "advances shared_view s (sh_write q k d s)"
proof -
  have new: "map_of (sh_log s) i = Some x \<Longrightarrow> i \<noteq> drawn_version s" for i x
    using drawn_version_new [of s] by auto
  then show ?thesis using assms
    by (auto simp: advances_def sound_def shared_view_def write_docs map_le_def split: if_splits)
qed

lemma frame_advances:
  assumes "sound shared_view s" and "sh_log s' = sh_log s" and "\<And>x d. map_of (sh_docs s') x = Some d \<Longrightarrow> map_of (sh_docs s) x = Some d"
  shows "advances shared_view s s'"
  using assms(1,3) by (simp add: advances_def sound_def shared_view_def assms(2)) blast

lemma remove_advances: "sound shared_view s \<Longrightarrow> advances shared_view s (sh_remove q k s)"
  by (rule frame_advances) (auto simp: sh_remove_def delete_conv' split: if_splits)

lemma others_advances: "sound shared_view s \<Longrightarrow> advances shared_view s (sh_others s)"
proof (cases "sh_rivals s")
  case (Cons d ds)
  assume s: "sound shared_view s"
  let ?s = "s\<lparr>sh_rivals := ds\<rparr>"
  have "advances shared_view s ?s" by (rule frame_advances [OF s]) simp_all
  moreover from this have "advances shared_view ?s (sh_write ''a/b'' ''k'' d ?s)" by (intro write_advances advances_sound)
  ultimately show ?thesis by (auto simp: sh_others_def Cons advances_def intro: map_le_trans)
qed (simp add: sh_others_def advances_def)

lemma shared_laws: "mongo_laws shared_mongo shared_view"
proof -
  have self: "advances shared_view s s" if "sound shared_view s" for s using that by (simp add: advances_def)
  note adv = self write_advances remove_advances
  show ?thesis
    unfolding mongo_laws_def read_laws_def write_laws_def remove_laws_def
  proof (intro conjI allI impI)
    show "advances shared_view s (m_others shared_mongo s)" if "sound shared_view s" for s
      using others_advances [OF that] by (simp add: shared_mongo_def)
  next
    fix q k
    show "answers shared_view (\<lambda>_. True) (m_find shared_mongo q k) (\<lambda>s d s'. d_docs shared_view s (q, k) = Some d \<and> unchanged shared_view s s')
        (\<lambda>s g. g = NotFoundG \<and> d_docs shared_view s (q, k) = None)"
      by (auto simp: answers_def shared_mongo_def sh_get_def unchanged_def self split: option.splits) (simp_all add: shared_view_def)
  next
    fix q k d
    show "answers shared_view (\<lambda>_. True) (m_create shared_mongo q k d)
        (\<lambda>s _ s'. d_docs shared_view s (q, k) = None \<and> d_seq shared_view s' = d_seq shared_view s \<and>
           (\<exists>m. d_docs shared_view s' = (d_docs shared_view s)((q, k) \<mapsto> \<lparr>md_model = m, md_path = q, md_key = k, md_data = d\<rparr>)))
        (\<lambda>s g. g = DuplicateG \<and> d_docs shared_view s (q, k) \<noteq> None)"
      unfolding answers_def
      by (auto simp: shared_mongo_def unchanged_def adv split: if_splits) (auto simp: shared_view_def write_docs rewritten)
  next
    fix d :: "nat mdoc"
    show "answers shared_view (\<lambda>s. \<exists>x. d_log shared_view s (d_stamp shared_view (md_model d)) = Some (md_path d, md_key d, x)) (m_update shared_mongo d)
        (\<lambda>s _ s'. d_seq shared_view s' = d_seq shared_view s \<and> (\<exists>d0 m. d_docs shared_view s (md_path d, md_key d) = Some d0 \<and>
           d_stamp shared_view (md_model d0) = d_stamp shared_view (md_model d) \<and>
           d_docs shared_view s' = (d_docs shared_view s)((md_path d, md_key d) \<mapsto> d\<lparr>md_model := m\<rparr>)))
        (\<lambda>s g. (g = ConflictG \<or> g = NotFoundG) \<and>
           (\<forall>d0. d_docs shared_view s (md_path d, md_key d) = Some d0 \<longrightarrow> d_stamp shared_view (md_model d0) \<noteq> d_stamp shared_view (md_model d)))"
      unfolding answers_def
      by (auto simp: shared_mongo_def sh_get_def unchanged_def adv split: if_splits option.splits)
        (auto simp: shared_view_def write_docs rewritten)
  next
    fix q
    show "answers shared_view (\<lambda>_. True) (m_inc shared_mongo q)
        (\<lambda>s n s'. n = d_seq shared_view s q + 1 \<and> d_seq shared_view s' = (d_seq shared_view s)(q := n) \<and> d_docs shared_view s' = d_docs shared_view s)
        (\<lambda>s g. g = DuplicateG)"
      unfolding answers_def
      by (auto simp: shared_mongo_def Let_def intro!: frame_advances) (auto simp: shared_view_def update_conv' fun_eq_iff)
  next
    fix q k
    show "answers shared_view (\<lambda>_. True) (m_take shared_mongo q k)
        (\<lambda>s d s'. d_docs shared_view s (q, k) = Some d \<and> d_docs shared_view s' = (d_docs shared_view s)((q, k) := None) \<and> d_seq shared_view s' = d_seq shared_view s)
        (\<lambda>s g. g = NoDocumentsG \<and> d_docs shared_view s (q, k) = None)"
      unfolding answers_def
      by (auto simp: shared_mongo_def sh_get_def unchanged_def adv split: option.splits) (auto simp: shared_view_def sh_remove_def delete_conv' fun_eq_iff)
    show "answers shared_view (\<lambda>_. True) (m_delete shared_mongo q k)
        (\<lambda>s _ s'. d_docs shared_view s' = (d_docs shared_view s)((q, k) := None) \<and> d_seq shared_view s' = d_seq shared_view s)
        (\<lambda>s g. g = NotFoundG \<and> d_docs shared_view s (q, k) = None)"
      unfolding answers_def
      by (auto simp: shared_mongo_def sh_get_def unchanged_def adv split: option.splits) (auto simp: shared_view_def sh_remove_def delete_conv' fun_eq_iff)
  qed
qed

definition shared_start :: "json list \<Rightarrow> shared" where
  "shared_start rivals = \<lparr>sh_docs = [], sh_seqs = [], sh_log = [], sh_rivals = rivals\<rparr>"

lemma start_sound: "sound shared_view (shared_start rs)"
  by (simp add: sound_def shared_view_def shared_start_def)

text \<open>Replicas share a database; a document is taken by one of them.\<close>

theorem mongo_linearizable_witness:
  "linearizes sample_env shared_mongo shared_view (mongo_take shared_mongo [''a'', ''b''] ''k'') (\<lambda>E. take_doc E [''a'', ''b''] ''k'') \<and>
   fst (mongo_take shared_mongo [''a'', ''b''] ''k'' (shared_start [JNull])) = Inr JNull"
proof -
  have p: "slashless [''a'', ''b'']" by (simp add: slashless_def)
  have "fst (mongo_take shared_mongo [''a'', ''b''] ''k'' (shared_start [JNull])) = Inr JNull"
    by (simp add: mongo_take_def join_path_def ebind_apply ecase_apply mcall_def shared_mongo_def sh_get_def sh_others_def shared_start_def sh_write_def Let_def)
  then show ?thesis using mongo_linearizable [OF shared_laws p, of sample_env "''k''"] by blast
qed

text \<open>
  The other replica writes twice, the second time between the two calls of the first attempt; the
  update meets a conflict and then stores what it made of the second value.
\<close>

lemma calm_shared: "calm shared_mongo"
  by (auto simp: calm_def never_fails_def shared_mongo_def sh_get_def split: option.splits if_splits)

lemma shared_rivals: "bounds_rivals shared_mongo shared_view q k (\<lambda>s. length (sh_rivals s))"
  unfolding bounds_rivals_def
  by (auto simp: shared_mongo_def sh_get_def sh_others_def write_docs split: option.split list.split)

definition appended :: "json option \<Rightarrow> err + json" where
  "appended d = (case d of None \<Rightarrow> Inr (JArr []) | Some x \<Rightarrow> Inr (JArr [x]))"


end
