(* ===== verification/Ca_Env.thy ===== *)
theory Ca_Env
  imports Ca_Issued
begin

text \<open>
  The environment of a CA (internal/ca/env.go): the store, the key backends and the audit log of a
  data directory or of a MongoDB database, opened together, and the initialisation that switches the
  manager to the audit log.  The audit log is open once the root document could be read.  Closing
  leaves nothing in the state and is left out, but for the tries to close after a failure.
\<close>

section \<open>Opening\<close>

record ca_config =
  cf_dir :: string
  cf_pass :: string
  cf_db :: string
  cf_mongo_uri :: string
  cf_hsm_module :: string
  cf_hsm_token :: string

record ca_env =
  en_db :: string
  en_manager :: manager
  en_log :: "audit_log option"

definition db_bolt :: string where "db_bolt = ''bolt''"
definition db_mongo :: string where "db_mongo = ''mongo''"

text \<open>Calls that make or open something outside the model's state.\<close>

definition outside :: "'x env_scheme \<Rightarrow> unit act" where
  "outside E = effect E (ret ())"

definition close_store :: "'x env_scheme \<Rightarrow> unit act" where
  "close_store E = ecase (outside E) (\<lambda>_. ret ()) ret"

definition open_bolt :: "'x env_scheme \<Rightarrow> string \<Rightarrow> unit act" where
  "open_bolt E path = wrap_err (wrapf (''store: opening '' @ path @ '': '')) (outside E)"

definition open_mongo :: "'x env_scheme \<Rightarrow> string \<Rightarrow> unit act" where
  "open_mongo E uri =
     (if uri = [] then fail (errorf ''store: mongo URI is empty (set --mongo-uri or $MNEMOCA_MONGO_URI)'')
      else ebind (wrap_err (wrapf ''store: registering mongo models: '') (outside E)) (\<lambda>_.
           ebind (wrap_err (wrapf ''store: connecting to mongo: '') (outside E)) (\<lambda>_.
           ecase (outside E) (\<lambda>e. ebind (close_store E) (\<lambda>_. fail (wrapf ''store: enforcing mongo indexes: '' e))) ret)))"

definition new_pkcs11 :: "string \<Rightarrow> string \<Rightarrow> err + backend" where
  "new_pkcs11 module token =
     (if module = [] then Inl (errorf ''pkcs11: module path is required (MNEMOCA_PKCS11_MODULE)'')
      else if token = [] then Inl (errorf ''pkcs11: token label is required (MNEMOCA_PKCS11_TOKEN)'')
      else Inr Pkcs11)"

definition hsm_backend :: "ca_config \<Rightarrow> err + backend" where
  "hsm_backend C = (if cf_hsm_module C = [] then Inr Pkcs11
     else wrap_sum ''ca: configuring pkcs11 backend: '' (new_pkcs11 (cf_hsm_module C) (cf_hsm_token C)))"

text \<open>The store, with the backends that come with it and the name of the one for new keys.\<close>

definition open_store :: "'x env_scheme \<Rightarrow> ca_config \<Rightarrow> string \<Rightarrow> (backend list \<times> string) act" where
  "open_store E C db =
     (if db = db_bolt then ebind (open_bolt E (cf_dir C @ ''/ca.db'')) (\<lambda>_. ret ([], ''softkey''))
      else if db = db_mongo then ebind (open_mongo E (cf_mongo_uri C)) (\<lambda>_.
        case new_storekey (cf_pass C) of
          Inl e \<Rightarrow> ebind (close_store E) (\<lambda>_. fail e)
        | Inr sk \<Rightarrow> ret ([sk], ''storekey''))
      else fail (errorf (''ca: unknown db backend '' @ quoted db @ '' (want bolt or mongo)'')))"

definition open_audit :: "'x cenv_scheme \<Rightarrow> ca_env \<Rightarrow> root_info \<Rightarrow> ca_env act" where
  "open_audit E en info =
     ebind (wrap_err (wrapf ''ca: opening audit key: '')
       (registry_open E (mg_signers (en_manager en)) (ri_audit_key_ref info))) (\<lambda>sg.
     ebind (if en_db en = db_mongo then ebind (open_store_log E sg ''audit-1'') (\<lambda>l. ret (StoreLog l))
            else ebind (open_log E sg ''audit-1'') (\<lambda>l. ret (FileLog l))) (\<lambda>log.
       ret (en\<lparr>en_log := Some log, en_manager := (en_manager en)\<lparr>mg_audit := log\<rparr>\<rparr>)))"

text \<open>The audit log is opened when the root document is read; any error of reading leaves it closed.\<close>

definition attach_audit :: "'x cenv_scheme \<Rightarrow> ca_env \<Rightarrow> ca_env act" where
  "attach_audit E en = ecase (get_json E root_info_of meta_bucket root_key)
     (\<lambda>_. ret en)
     (\<lambda>info. ecase (open_audit E en info) (\<lambda>e. ebind (close_store E) (\<lambda>_. fail e)) ret)"

definition open_env :: "'x cenv_scheme \<Rightarrow> ca_config \<Rightarrow> ca_env act" where
  "open_env E C = (let db = (if cf_db C = [] then db_bolt else cf_db C) in
     ebind (outside E) (\<lambda>_.
     ebind (lift_sum (new_softkey (cf_pass C))) (\<lambda>soft.
     ebind (outside E) (\<lambda>_.
     ebind (lift_sum (hsm_backend C)) (\<lambda>hsm.
     ebind (open_store E C db) (\<lambda>(extra, backend).
       attach_audit E \<lparr>en_db = db, en_manager = \<lparr>mg_signers = new_registry ([soft, hsm, Kms] @ extra), mg_audit = NopLog,
         mg_backend = backend\<rparr>, en_log = None\<rparr>))))))"

section \<open>Initialisation\<close>

definition env_init :: "'x cenv_scheme \<Rightarrow> ca_env \<Rightarrow> init_options \<Rightarrow> (root_info \<times> ca_env) act" where
  "env_init E en opts =
     (if en_log en \<noteq> None then fail (errorf ''ca: already initialized'')
      else ebind (init_root E (en_manager en) opts) (\<lambda>info.
           ebind (open_audit E en info) (\<lambda>en'.
           ebind (log_event E (mg_audit (en_manager en')) (init_event (io_actor opts) (ri_name info) (ri_alg info) (ri_pair_alg info))) (\<lambda>_.
             ret (info, en')))))"

section \<open>What an opened environment is\<close>

lemma outside_Inr [act_elims]: "outside E w = (Inr u, w') \<longleftrightarrow> fault_at E (tick w) = NoFault \<and> w' = advance w"
  by (auto simp: outside_def effect_def Let_def split: fault.splits)

context world_contract
begin

lemma steps_outside: "steps R (outside E)"
  unfolding outside_def by (intro world_rules)

lemma steps_close_store: "steps R (close_store E)"
  unfolding close_store_def by (intro world_rules steps_outside)

lemma steps_open_store: "steps R (open_store E C db)"
  unfolding open_store_def open_bolt_def open_mongo_def
  by (auto intro!: world_rules steps_outside steps_close_store split: sum.split)

end

text \<open>An environment without an audit log audits nothing; one with it audits there.\<close>

definition env_ok :: "ca_env \<Rightarrow> bool" where
  "env_ok en \<longleftrightarrow> manager_ok (en_manager en) \<and> mg_audit (en_manager en) = (case en_log en of None \<Rightarrow> NopLog | Some l \<Rightarrow> l) \<and>
     (\<forall>l. en_log en = Some l \<longrightarrow> (case l of NopLog \<Rightarrow> False | FileLog _ \<Rightarrow> en_db en \<noteq> db_mongo | StoreLog _ \<Rightarrow> en_db en = db_mongo))"

text \<open>What a configuration determines: whether it can be opened, and the environment without its log.\<close>

definition env_db :: "ca_config \<Rightarrow> string" where
  "env_db C = (if cf_db C = [] then db_bolt else cf_db C)"

definition config_ok :: "ca_config \<Rightarrow> bool" where
  "config_ok C \<longleftrightarrow> cf_pass C \<noteq> [] \<and> (\<exists>h. hsm_backend C = Inr h) \<and>
     (env_db C = db_bolt \<or> env_db C = db_mongo \<and> cf_mongo_uri C \<noteq> [])"

definition blank_env :: "ca_config \<Rightarrow> ca_env" where
  "blank_env C = \<lparr>en_db = env_db C, en_manager =
     \<lparr>mg_signers = new_registry ([Softkey (cf_pass C), Pkcs11, Kms] @ (if env_db C = db_mongo then [Storekey (cf_pass C)] else [])),
       mg_audit = NopLog, mg_backend = (if env_db C = db_mongo then ''storekey'' else ''softkey'')\<rparr>, en_log = None\<rparr>"

lemma blank_env_ok [simp]: "env_ok (blank_env C)" "en_log (blank_env C) = None" "en_db (blank_env C) = env_db C"
  "mg_audit (en_manager (blank_env C)) = NopLog" "manager_ok (en_manager (blank_env C))"
  by (simp_all add: env_ok_def blank_env_def manager_ok_def registered_def new_registry_def update_conv' pkcs11_scheme_def)

lemma db_names [simp]: "db_bolt \<noteq> db_mongo" "db_mongo \<noteq> db_bolt" "db_bolt \<noteq> []" "db_mongo \<noteq> []"
  by (simp_all add: db_bolt_def db_mongo_def)

lemma hsm_backend_Inr: "hsm_backend C = Inr h \<Longrightarrow> h = Pkcs11"
  by (auto simp: hsm_backend_def new_pkcs11_def wrap_sum_def split: if_splits)

lemma open_audit_ok:
  assumes "open_audit E en info w = (Inr en', w')" "manager_ok (en_manager en)"
  shows "env_ok en' \<and> en_log en' \<noteq> None \<and> en_db en' = en_db en \<and> mg_signers (en_manager en') = mg_signers (en_manager en)"
  using assms by (cases "en_db en = db_mongo") (auto simp: open_audit_def env_ok_def manager_ok_def act_elims)

text \<open>Until the root is read, an opening start only lets time pass.\<close>

lemma but_tick_fields:
  assumes "same but_tick w v"
  shows "lookup v = lookup w" "bucket v = bucket w" "log_lines v = log_lines w" "key_files v = key_files w" "text_files v = text_files w"
proof -
  have "but_tick v = but_tick w" using assms by (simp add: same_def)
  then have "docs v = docs w \<and> log_lines v = log_lines w \<and> key_files v = key_files w \<and> text_files v = text_files w"
    by (auto simp: but_tick_def) (metis world.select_convs world.surjective world.update_convs(8))+
  moreover from this have "lookup v = lookup w" by (simp add: lookup_def fun_eq_iff)
  moreover from this have "bucket v = bucket w" by (intro ext bucket_cong) simp
  ultimately show "lookup v = lookup w" "bucket v = bucket w" "log_lines v = log_lines w" "key_files v = key_files w" "text_files v = text_files w"
    by simp_all
qed

lemma open_env_Inr:
  assumes "open_env E C w = (Inr en, w')"
  obtains v where "config_ok C" "same but_tick w v" "attach_audit E (blank_env C) v = (Inr en, w')"
proof -
  obtain soft hsm extra backend v1 v2 v3 where o: "outside E w = (Inr (), v1)" "outside E v1 = (Inr (), v2)" "open_store E C (env_db C) v2 = (Inr (extra, backend), v3)"
    and b: "new_softkey (cf_pass C) = Inr soft" "hsm_backend C = Inr hsm"
    and rest: "attach_audit E \<lparr>en_db = env_db C, en_manager = \<lparr>mg_signers = new_registry ([soft, hsm, Kms] @ extra), mg_audit = NopLog,
         mg_backend = backend\<rparr>, en_log = None\<rparr> v3 = (Inr en, w')"
    using assms by (auto simp: open_env_def env_db_def Let_def act_elims)
  have p: "cf_pass C \<noteq> []" "soft = Softkey (cf_pass C)" using b(1) by (simp_all add: new_softkey_def split: if_splits)
  have st: "env_db C = db_bolt \<and> extra = [] \<and> backend = ''softkey'' \<or>
      env_db C = db_mongo \<and> cf_mongo_uri C \<noteq> [] \<and> extra = [Storekey (cf_pass C)] \<and> backend = ''storekey''"
    using o(3) p(1) by (auto simp: open_store_def open_mongo_def new_storekey_def act_elims split: if_splits)
  have "\<lparr>en_db = env_db C, en_manager = \<lparr>mg_signers = new_registry ([soft, hsm, Kms] @ extra), mg_audit = NopLog,
         mg_backend = backend\<rparr>, en_log = None\<rparr> = blank_env C"
    using st p(2) hsm_backend_Inr [OF b(2)] by (auto simp: blank_env_def)
  moreover have "config_ok C" using st p(1) b(2) by (auto simp: config_ok_def)
  moreover have "same but_tick w v3"
    by (rule same.contract_trans [OF stepsD [OF timed.steps_outside o(1)] same.contract_trans [OF stepsD [OF timed.steps_outside o(2)]
          stepsD [OF timed.steps_open_store o(3)]]])
  ultimately show thesis using rest that by simp
qed

text \<open>From a moment without failures on, opening succeeds as far as the root.\<close>

definition calm_from :: "'x env_scheme \<Rightarrow> nat \<Rightarrow> bool" where
  "calm_from E n \<longleftrightarrow> (\<forall>t \<ge> n. fault_at E t = NoFault)"

lemma calm_fromD: "calm_from E n \<Longrightarrow> n \<le> t \<Longrightarrow> fault_at E t = NoFault"
  by (simp add: calm_from_def)

lemma outside_calm: "calm_from E (tick w) \<Longrightarrow> outside E w = (Inr (), advance w) \<and> calm_from E (tick (advance w))"
  by (simp add: outside_Inr calm_from_def)

lemma open_env_calm:
  assumes C: "config_ok C" and calm: "calm_from E (tick w)"
  shows "\<exists>v. same but_tick w v \<and> tick w \<le> tick v \<and> open_env E C w = attach_audit E (blank_env C) v"
proof -
  obtain h where h: "hsm_backend C = Inr h" "h = Pkcs11" using C hsm_backend_Inr by (auto simp: config_ok_def)
  have o: "outside E v = (Inr (), advance v)" if "tick w \<le> tick v" for v
    using that calm by (simp add: outside_Inr calm_fromD)
  have pass: "new_softkey (cf_pass C) = Inr (Softkey (cf_pass C))" "new_storekey (cf_pass C) = Inr (Storekey (cf_pass C))"
    using C by (simp_all add: config_ok_def new_softkey_def new_storekey_def)
  consider "env_db C = db_bolt" | "env_db C = db_mongo" "cf_mongo_uri C \<noteq> []" using C by (auto simp: config_ok_def)
  then show ?thesis
  proof cases
    case 1
    have "open_env E C w = attach_audit E (blank_env C) (advance (advance (advance w)))"
      using 1 h by (simp add: open_env_def env_db_def [symmetric] Let_def ebind_apply o pass open_store_def open_bolt_def wrap_err_apply blank_env_def)
    moreover have "same but_tick w (advance (advance (advance w)))" by (simp add: same_def but_tick_def advance_def)
    ultimately show ?thesis by (intro exI [of _ "advance (advance (advance w))"]) simp
  next
    case 2
    have "open_env E C w = attach_audit E (blank_env C) (advance (advance (advance (advance (advance w)))))"
      using 2 h by (simp add: open_env_def env_db_def [symmetric] Let_def ebind_apply o pass open_store_def open_mongo_def wrap_err_apply ecase_apply
          blank_env_def)
    moreover have "same but_tick w (advance (advance (advance (advance (advance w)))))" by (simp add: same_def but_tick_def advance_def)
    ultimately show ?thesis by (intro exI [of _ "advance (advance (advance (advance (advance w))))"]) simp
  qed
qed

section \<open>The log of an environment\<close>

text \<open>The log that the environment's verifier reads is a chain of n records under the audit key.\<close>

definition verified :: "'x cenv_scheme \<Rightarrow> string \<Rightarrow> signer \<Rightarrow> world \<Rightarrow> nat \<Rightarrow> bool" where
  "verified E db sg w n \<longleftrightarrow> (if db = db_mongo then \<exists>rs. chain_stored E sg w rs \<and> length rs = n
     else verify_file E (audit_pub sg) (log_lines w) = (n, None))"

definition no_log :: "string \<Rightarrow> world \<Rightarrow> bool" where
  "no_log db w \<longleftrightarrow> (if db = db_mongo then (\<forall>k. lookup w audit_records_bucket k = None) \<and> lookup w audit_meta_bucket head_key = None
     else log_lines w = [])"

lemma audit_key_signer: "fit_key E MLDSA65 (sg_key s) \<Longrightarrow> sg_alg s = MLDSA65 \<Longrightarrow> audit_signer E s"
  by (simp add: audit_signer_def fit_key_def sign_capable_def check_audit_alg_def plain_info_def)

lemma verified_cong:
  assumes "\<And>p k. p \<in> log_buckets \<Longrightarrow> lookup w' p k = lookup w p k" "log_lines w' = log_lines w"
  shows "verified E db sg w' n = verified E db sg w n" "no_log db w' = no_log db w"
  using assms chain_stored_cong [of w' w E sg] by (simp_all add: verified_def no_log_def log_buckets_def)

lemma open_audit_Inr:
  assumes "open_audit E en info w = (Inr en', w')" and "holds_key E (mg_signers (en_manager en)) w (ri_audit_key_ref info) s"
  obtains v l log where "same but_tick w v" "en' = en\<lparr>en_log := Some log, en_manager := (en_manager en)\<lparr>mg_audit := log\<rparr>\<rparr>"
    "if en_db en = db_mongo then log = StoreLog l \<and> open_store_log E s ''audit-1'' v = (Inr l, w')
     else log = FileLog l \<and> open_log E s ''audit-1'' v = (Inr l, w')"
proof -
  obtain sg v where o: "registry_open E (mg_signers (en_manager en)) (ri_audit_key_ref info) w = (Inr sg, v)"
    using assms(1) by (auto simp: open_audit_def act_elims)
  then have "sg = s" "same but_tick w v"
    using holds_key_opened [OF assms(2) o] stepsD [OF timed.steps_registry_open o] by simp_all
  with assms(1) o show thesis
    by (cases "en_db en = db_mongo") (auto simp: open_audit_def act_elims intro: that)
qed

text \<open>A fresh log has its first record after opening and its second after the first event.\<close>

lemma fresh_log_grows:
  assumes sg: "audit_signer E s" and key: "holds_key E (mg_signers (en_manager en)) w (ri_audit_key_ref info) s"
    and fresh: "no_log (en_db en) w" and opn: "open_audit E en info w = (Inr en', w1)"
    and log: "log_event E (mg_audit (en_manager en')) r w1 = (Inr (), w2)" and r: "wf_map (ar_detail r)"
  shows "verified E (en_db en) s w2 2"
  using opn key
proof (rule open_audit_Inr)
  fix v l lg
  assume v: "same but_tick w v" and en': "en' = en\<lparr>en_log := Some lg, en_manager := (en_manager en)\<lparr>mg_audit := lg\<rparr>\<rparr>"
    and o: "if en_db en = db_mongo then lg = StoreLog l \<and> open_store_log E s ''audit-1'' v = (Inr l, w1)
     else lg = FileLog l \<and> open_log E s ''audit-1'' v = (Inr l, w1)"
  note f = but_tick_fields [OF v]
  show ?thesis
  proof (cases "en_db en = db_mongo")
    case True
    then have "lookup v audit_records_bucket k = None" "lookup v audit_meta_bucket head_key = None" for k
      using fresh f(1) by (simp_all add: no_log_def)
    moreover have "open_store_log E s ''audit-1'' v = (Inr l, w1)" using o True by simp
    ultimately have "cl_signer l = s \<and> (\<exists>g. chain_stored E s w1 [g] \<and> event_of g = event_of genesis_event)"
      by (rule open_store_log_genesis [OF sg])
    then obtain g where g: "cl_signer l = s" "chain_stored E s w1 [g]" by blast
    have "store_log E l r w1 = (Inr (), w2)" using log o True en' by simp
    from store_log_ok [OF _ _ _ r this, of "[g]"] g sg obtain t where "chain_stored E s w2 [g, t]" by auto
    then show ?thesis using True by (auto simp: verified_def intro!: exI [of _ "[g, t]"])
  next
    case False
    then have nil: "log_lines v = []" using fresh f(3) by (simp add: no_log_def)
    have "verify_file E (audit_pub s) (log_lines v) = (0, None)"
      using sg nil by (simp add: verify_file_def audit_signer_def)
    from open_log_inv [OF sg this] o False have i: "log_inv E s w1" "cl_signer l = s" "length (log_lines w1) = 1"
      using nil by auto
    have "file_log E l r w1 = (Inr (), w2)" using log o False en' by simp
    with file_log_inv [OF _ _ r this] i sg have "log_inv E s w2" "length (log_lines w2) = 2" by auto
    with log_inv_verifies [OF sg] show ?thesis using False by (simp add: verified_def)
  qed
qed

section \<open>An initialised CA\<close>

text \<open>The root document, the audit key it names and a log of n records under that key.\<close>

definition ca_live :: "'x cenv_scheme \<Rightarrow> ca_config \<Rightarrow> world \<Rightarrow> root_info \<Rightarrow> signer \<Rightarrow> nat \<Rightarrow> bool" where
  "ca_live E C w ri s n \<longleftrightarrow> lookup w meta_bucket root_key = Some (root_info_json ri) \<and>
     holds_key E (mg_signers (en_manager (blank_env C))) w (ri_audit_key_ref ri) s \<and> audit_signer E s \<and>
     parse_public_key_pem E (ri_audit_pub_pem ri) = Inr (audit_pub s) \<and> verified E (env_db C) s w n"

lemma ca_live_kept:
  assumes l: "ca_live E C w ri s n" and k: "keeps_keys w w'" and view: "same log_view w w'"
    and root: "lookup w' meta_bucket root_key = lookup w meta_bucket root_key"
  shows "ca_live E C w' ri s n"
proof -
  have "p \<in> log_buckets \<Longrightarrow> lookup w' p k = lookup w p k" for p k
    using view by (simp add: same_def log_view_def fun_eq_iff) metis
  then have "verified E db s w' n = verified E db s w n" for db
    using verified_cong(1) [of w' w] view by (simp add: same_def log_view_def)
  with l root holds_key_kept [OF k] show ?thesis unfolding ca_live_def by metis
qed

lemma ca_live_cong:
  assumes "ca_live E C w ri s n" and "lookup w' = lookup w" "log_lines w' = log_lines w" "keeps_keys w w'"
  shows "ca_live E C w' ri s n"
  using assms(1,2) holds_key_kept [OF assms(4)] verified_cong(1) [of w' w, OF _ assms(3)] unfolding ca_live_def by metis

lemma keeps_open_audit: "steps keeps_keys (open_audit E en info)"
proof -
  have "keys_bucket \<noteq> audit_meta_bucket" "keys_bucket \<noteq> audit_records_bucket"
    by (simp_all add: keys_bucket_def audit_meta_bucket_def audit_records_bucket_def)
  then have "steps keeps_keys (open_store_log E sg kid)" for sg kid
    unfolding open_store_log_def ensure_genesis_def make_genesis_def
    by (intro keeps_keys.store_rules keeps_keys.steps_seal_record) (simp_all add: keeps_keys_set_doc [OF not_sym])
  moreover have "steps keeps_keys (open_log E sg kid)" for sg kid
    using keeps_keys_log [of E "FileLog l" for l] unfolding open_log_def
    by (intro keeps_keys.world_rules keeps_keys.steps_pure)
      (simp_all add: keeps_keys_def keeps_files_def keeps_docs_def key_file_def lookup_def)
  ultimately show ?thesis unfolding open_audit_def by (intro keeps_keys.ca_rules)
qed

lemma only_open_audit: "steps (only_buckets log_buckets) (open_audit E en info)"
proof -
  have "audit_meta_bucket \<in> log_buckets" "audit_records_bucket \<in> log_buckets" by (simp_all add: log_buckets_def)
  then have "steps (only_buckets log_buckets) (open_store_log E sg kid)" for sg kid
    unfolding open_store_log_def ensure_genesis_def make_genesis_def
    by (intro only.store_rules only.steps_seal_record) simp_all
  moreover have "steps (only_buckets log_buckets) (open_log E sg kid)" for sg kid
    unfolding open_log_def
    by (intro only.world_rules only.steps_pure only_file_log) (auto intro!: only_buckets_docs simp: lookup_def fun_eq_iff)
  ultimately show ?thesis unfolding open_audit_def by (intro only.ca_rules)
qed

lemma only_open_env: "steps (only_buckets log_buckets) (open_env E C)"
  unfolding open_env_def attach_audit_def
  by (intro only.store_rules only.steps_outside only.steps_open_store only.steps_close_store only_open_audit)

lemma view_generate: "steps (same log_view) (backend_generate E b alg label)"
  by (intro log_view.steps_backend_generate log_view_set_doc) (simp_all add: same_def log_view_def lookup_def cong: if_cong)

lemma view_new_root: "steps (same log_view) (new_root_cert E m name alg validity label)"
  unfolding new_root_cert_def by (intro log_view.ca_rules view_generate log_view.steps_serial)

lemma view_init_root:
  assumes "mg_audit m = NopLog"
  shows "steps (same log_view) (init_root E m opts)"
  unfolding init_root_def not_initialized_def add_pair_root_def assms log_event.simps
  by (intro log_view.ca_rules view_new_root view_generate) simp_all

lemma same_view_no_log:
  assumes "same log_view w w'"
  shows "no_log db w' = no_log db w"
proof -
  have "p \<in> log_buckets \<Longrightarrow> lookup w' p = lookup w p" for p
    using assms by (simp add: same_def log_view_def fun_eq_iff) metis
  moreover have "log_lines w' = log_lines w" using assms by (simp add: same_def log_view_def)
  ultimately show ?thesis by (simp add: no_log_def log_buckets_def)
qed

text \<open>Initialising a CA without a log makes it live, with the genesis record and the event in its log.\<close>

lemma env_init_live:
  assumes libs: "libs_ok E" and fresh: "no_log (env_db C) w"
    and run: "env_init E (blank_env C) opts w = (Inr (ri, en'), w')"
  shows "\<exists>s. ca_live E C w' ri s 2 \<and> lookup w meta_bucket root_key = None \<and> ri_alg ri = io_alg opts \<and> ri_pair_alg ri = io_pair_alg opts"
proof -
  let ?m = "en_manager (blank_env C)" and ?ev = "init_event (io_actor opts) (ri_name ri) (ri_alg ri) (ri_pair_alg ri)"
  obtain v1 v2 where i: "init_root E ?m opts w = (Inr ri, v1)" and o: "open_audit E (blank_env C) ri v1 = (Inr en', v2)"
    and l: "log_event E (mg_audit (en_manager en')) ?ev v2 = (Inr (), w')"
    using run by (auto simp: env_init_def act_elims)
  note r = init_root_sound [OF libs blank_env_ok(5) i]
  obtain s where s: "holds_key E (mg_signers ?m) v1 (ri_audit_key_ref ri) s" "fit_key E MLDSA65 (sg_key s)" "sg_alg s = MLDSA65"
    "parse_public_key_pem E (ri_audit_pub_pem ri) = Inr (audit_pub s)" using r by blast
  have sg: "audit_signer E s" using s(2,3) by (rule audit_key_signer)
  have "no_log (env_db C) v1"
    using same_view_no_log [OF stepsD [OF view_init_root i]] fresh by simp
  then have "verified E (env_db C) s w' 2"
    using fresh_log_grows [OF sg s(1) _ o l] by (simp add: init_event_def)
  moreover have "keeps_keys v1 w'"
    by (rule keeps_keys.contract_trans [OF stepsD [OF keeps_open_audit o] stepsD [OF keeps_keys_log l]])
  then have "holds_key E (mg_signers ?m) w' (ri_audit_key_ref ri) s" using s(1) by (rule holds_key_kept)
  moreover have "lookup w' meta_bucket root_key = Some (root_info_json ri)"
    using log_event_lookup [OF l, of meta_bucket] only_bucketsD [OF stepsD [OF only_open_audit o], of meta_bucket] r by simp
  ultimately show ?thesis using r sg s(4) unfolding ca_live_def by blast
qed

section \<open>Opening an initialised CA\<close>

lemma calm_later: "calm_from E n \<Longrightarrow> n \<le> k \<Longrightarrow> calm_from E k"
  by (simp add: calm_from_def)

text \<open>Opening the log of a live CA writes nothing to it.\<close>

lemma open_log_existing:
  assumes sg: "audit_signer E sg" and ok: "verify_file E (audit_pub sg) (log_lines w) = (Suc n, None)" and calm: "calm_from E (tick w)"
  shows "\<exists>l w'. open_log E sg kid w = (Inr l, w') \<and> log_lines w' = log_lines w \<and> lookup w' = lookup w \<and>
    key_files w' = key_files w \<and> text_files w' = text_files w \<and> tick w \<le> tick w'"
proof -
  have alg: "algorithm_for_key (audit_pub sg) = Inr (sg_alg sg)" "check_audit_alg sg = Inr ()"
    using sg by (simp_all add: audit_signer_def)
  obtain rs where "all_some (map audit_rec_of (log_lines w)) = Some rs" "Suc n = length rs"
    using ok by (auto simp: verifies_chain [OF alg(1)])
  then have rs: "all_some (map audit_rec_of (log_lines w)) = Some rs" "rs \<noteq> []" by auto
  have "fault_at E (tick w) = NoFault" "fault_at E (Suc (tick w)) = NoFault" using calm by (simp_all add: calm_fromD)
  then show ?thesis
    using rs alg(2) by (simp add: open_log_def ebind_apply effect_ok last_record_ok [OF rs(1)] lookup_def [abs_def] advance_def Let_def)
qed

lemma open_store_log_again:
  assumes sg: "audit_signer E sg" and c: "chain_stored E sg w rs" and calm: "calm_from E (tick w)"
  shows "\<exists>l w'. open_store_log E sg kid w = (Inr l, w') \<and> log_lines w' = log_lines w \<and> lookup w' = lookup w \<and>
    key_files w' = key_files w \<and> text_files w' = text_files w \<and> tick w \<le> tick w'"
proof -
  obtain d where d: "lookup w audit_meta_bucket head_key = Some d" using c by (auto simp: chain_stored_def)
  have a: "check_audit_alg sg = Inr ()" using sg by (simp add: audit_signer_def)
  have f: "fault_at E (tick w) = NoFault" using calm by (simp add: calm_fromD)
  obtain l w' where o: "open_store_log E sg kid w = (Inr l, w')"
    "w' = set_doc (advance w) audit_meta_bucket head_key d"
    using a f d by (simp add: open_store_log_def ensure_genesis_def make_genesis_def ebind_apply effect_ok wrap_err_apply update_out_def
        audit_buckets Let_def lookup_def advance_def)
  then show ?thesis
    using open_store_log_existing [OF d o(1)] by (simp add: set_doc_def)
qed

lemma open_audit_live:
  assumes l: "ca_live E C w ri s (Suc n)" and calm: "calm_from E (tick w)"
  shows "\<exists>en w'. open_audit E (blank_env C) ri w = (Inr en, w') \<and> ca_live E C w' ri s (Suc n) \<and> tick w \<le> tick w' \<and>
    text_files w' = text_files w"
proof -
  have h: "registry_open E (mg_signers (en_manager (blank_env C))) (ri_audit_key_ref ri) w = (Inr s, advance w)"
    using l calm holds_key_opens calm_fromD [OF calm] unfolding ca_live_def by blast
  have sg: "audit_signer E s" and calm': "calm_from E (tick (advance w))" using l calm by (simp_all add: ca_live_def calm_from_def)
  obtain lg w' where o: "(if env_db C = db_mongo then ebind (open_store_log E s ''audit-1'') (\<lambda>l. ret (StoreLog l))
            else ebind (open_log E s ''audit-1'') (\<lambda>l. ret (FileLog l))) (advance w) = (Inr lg, w')"
    and f: "log_lines w' = log_lines w" "lookup w' = lookup w" "text_files w' = text_files w" "tick w \<le> tick w'"
  proof (cases "env_db C = db_mongo")
    case True
    then obtain rs where "chain_stored E s (advance w) rs"
      using l chain_stored_cong [of "advance w" w E s] by (auto simp: ca_live_def verified_def)
    from open_store_log_again [OF sg this calm', of "''audit-1''"] that True show thesis by (auto simp: ebind_apply)
  next
    case False
    then have "verify_file E (audit_pub s) (log_lines (advance w)) = (Suc n, None)"
      using l by (auto simp: ca_live_def verified_def)
    from open_log_existing [OF sg this calm', of "''audit-1''"] that False show thesis by (auto simp: ebind_apply)
  qed
  then obtain en where r: "open_audit E (blank_env C) ri w = (Inr en, w')"
    using h by (cases "env_db C = db_mongo") (simp_all add: open_audit_def ebind_apply wrap_err_apply)
  moreover have "ca_live E C w' ri s (Suc n)"
    by (rule ca_live_cong [OF l f(2,1) stepsD [OF keeps_open_audit r]])
  ultimately show ?thesis using f by blast
qed

text \<open>Opening a live CA leaves it live, and attaches its log.\<close>

lemma open_env_live:
  assumes l: "ca_live E C w ri s (Suc n)" and C: "config_ok C" and calm: "calm_from E (tick w)"
  shows "\<exists>en w'. open_env E C w = (Inr en, w') \<and> ca_live E C w' ri s (Suc n) \<and> calm_from E (tick w') \<and>
    en_db en = env_db C \<and> en_log en \<noteq> None \<and> text_files w' = text_files w"
proof -
  obtain v where v: "same but_tick w v" "tick w \<le> tick v" "open_env E C w = attach_audit E (blank_env C) v"
    using open_env_calm [OF C calm] by blast
  note f = but_tick_fields [OF v(1)]
  have "ca_live E C (advance v) ri s (Suc n)"
    by (rule ca_live_cong [OF l]) (simp_all add: f keeps_keys_def keeps_files_def keeps_docs_def key_file_def)
  moreover have c: "calm_from E (tick (advance v))" using calm v(2) by (auto intro: calm_later)
  ultimately obtain en w' where o: "open_audit E (blank_env C) ri (advance v) = (Inr en, w')" "ca_live E C w' ri s (Suc n)"
    "tick (advance v) \<le> tick w'" "text_files w' = text_files (advance v)"
    using open_audit_live by blast
  have "get_json E root_info_of meta_bucket root_key v = (Inr ri, advance v)"
    using l f(1) calm_fromD [OF calm v(2)] by (simp add: get_json_Inr ca_live_def meta_bucket_def)
  then have "open_env E C w = (Inr en, w')" using v(3) o(1) by (simp add: attach_audit_def ecase_apply)
  then show ?thesis
    using o f calm_later [OF c o(3)] open_audit_ok [OF o(1)] by simp
qed

end
