(* ===== verification/Cli.thy ===== *)
theory Cli
  imports Ca_Env Api_Bootstrap Acme_Handlers
begin

text \<open>
  The command line (cmd/mnemoca/cmd): the commands that work on a CA, from their flags and the
  process environment to the calls of the engine.  A command returns what it reports; the layout of
  what it prints on the terminal is left out.
\<close>

section \<open>Flags and environment variables\<close>

record cli =
  fl_data_dir :: string
  fl_passphrase_file :: string
  fl_db :: string
  fl_mongo_uri :: string
  os_passphrase :: string
  os_hsm_module :: string
  os_hsm_token :: string
  os_user :: string
  os_allow_private :: string
  os_bootstrap_key :: string

definition passphrase :: "'x env_scheme \<Rightarrow> cli \<Rightarrow> string act" where
  "passphrase E fl =
     (if fl_passphrase_file fl \<noteq> []
      then ebind (wrap_err (wrapf ''reading passphrase file: '') (read_file E (fl_passphrase_file fl))) (\<lambda>data. ret (trim_space data))
      else if os_passphrase fl \<noteq> [] then ret (os_passphrase fl)
      else fail (errorf ''no passphrase: set --passphrase-file or $MNEMOCA_PASSPHRASE''))"

definition cli_config :: "cli \<Rightarrow> string \<Rightarrow> ca_config" where
  "cli_config fl pass = \<lparr>cf_dir = fl_data_dir fl, cf_pass = pass, cf_db = fl_db fl, cf_mongo_uri = fl_mongo_uri fl,
     cf_hsm_module = os_hsm_module fl, cf_hsm_token = os_hsm_token fl\<rparr>"

definition open_cli_env :: "'x cenv_scheme \<Rightarrow> cli \<Rightarrow> ca_env act" where
  "open_cli_env E fl = ebind (passphrase E fl) (\<lambda>pass.
     wrap_err (wrapf (''opening CA environment ('' @ fl_db fl @ ''): '')) (open_env E (cli_config fl pass)))"

definition cli_actor :: "cli \<Rightarrow> actor" where
  "cli_actor fl = \<lparr>ac_type = ''operator'', ac_id = (if os_user fl = [] then ''cli'' else os_user fl), ac_ip = []\<rparr>"

definition write_output :: "'x env_scheme \<Rightarrow> string \<Rightarrow> string \<Rightarrow> unit act" where
  "write_output E path data =
     (if path = [] \<or> path = ''-'' then outside E
      else wrap_err (wrapf (''writing '' @ path @ '': '')) (write_text E path data))"

section \<open>Initialisation and the audit log\<close>

definition write_roots :: "'x env_scheme \<Rightarrow> cli \<Rightarrow> root_info \<Rightarrow> unit act" where
  "write_roots E fl info =
     ebind (wrap_err (wrapf ''writing root certificate: '') (write_text E (fl_data_dir fl @ ''/root.pem'') (ri_cert_pem info))) (\<lambda>_.
       if ri_pair_alg info = [] then ret ()
       else wrap_err (wrapf ''writing pair root certificate: '')
         (write_text E (fl_data_dir fl @ ''/root-pair.pem'') (ri_pair_cert_pem info)))"

text \<open>With \<open>--if-needed\<close> an initialised CA is left as it is.\<close>

definition init_cmd :: "'x cenv_scheme \<Rightarrow> cli \<Rightarrow> bool \<Rightarrow> string \<Rightarrow> algorithm \<Rightarrow> algorithm \<Rightarrow> bool \<Rightarrow> root_info act" where
  "init_cmd E fl if_needed name alg pair_alg experimental =
     ebind (open_cli_env E fl) (\<lambda>en.
       if if_needed \<and> en_log en \<noteq> None then root E
       else ebind (env_init E en \<lparr>io_name = name, io_alg = alg, io_pair_alg = pair_alg, io_root_validity = 0,
              io_experimental = experimental, io_actor = cli_actor fl\<rparr>) (\<lambda>(info, _).
            ebind (write_roots E fl info) (\<lambda>_. ret info)))"

text \<open>
  The log to verify is the one of the environment unless a path is given; the contents of other
  paths are an argument.  The number of records in the message of an error is left out.
\<close>

definition verify_log :: "'x cenv_scheme \<Rightarrow> ca_env \<Rightarrow> (string \<Rightarrow> json list) \<Rightarrow> string \<Rightarrow> public_key \<Rightarrow> nat act" where
  "verify_log E en files path pub =
     (if en_db en = db_mongo \<and> path = [] then verify_store E pub
      else ebind (effect E (\<lambda>w. (Inr (if path = [] then log_lines w else files path), w))) (\<lambda>lines.
        case verify_file E pub lines of (n, None) \<Rightarrow> ret n | (n, Some e) \<Rightarrow> fail e))"

definition audit_verify_cmd :: "'x cenv_scheme \<Rightarrow> cli \<Rightarrow> (string \<Rightarrow> json list) \<Rightarrow> string \<Rightarrow> nat act" where
  "audit_verify_cmd E fl files path =
     ebind (open_cli_env E fl) (\<lambda>en.
     ebind (root E) (\<lambda>info.
     ebind (wrap_err (wrapf ''parsing audit public key: '') (lift_sum (parse_public_key_pem E (ri_audit_pub_pem info)))) (\<lambda>pub.
       wrap_err (wrapf ''after valid record(s): '') (verify_log E en files path pub))))"

section \<open>Certificates\<close>

definition issue_cmd :: "'x aenv_scheme \<Rightarrow> cli \<Rightarrow> string \<Rightarrow> string \<Rightarrow> string \<Rightarrow> string \<Rightarrow> chain \<Rightarrow> bool \<Rightarrow> string \<Rightarrow> string act" where
  "issue_cmd E fl tenant csr_file profile validity chain experimental out =
     ebind (wrap_err (wrapf ''reading CSR: '') (read_file E csr_file)) (\<lambda>data.
     ebind (lift_sum (parse_csr_pem E data)) (\<lambda>csr.
     ebind (lift_sum (if validity = [] then Inr 0 else wrap_sum ''invalid --validity: '' (parse_duration E validity))) (\<lambda>v.
     ebind (open_cli_env E fl) (\<lambda>en.
     ebind (issue E (en_manager en) \<lparr>iq_tenant = tenant, iq_profile = profile, iq_csr = Some csr, iq_validity = v, iq_chain = chain,
         iq_experimental = experimental, iq_actor = cli_actor fl\<rparr>) (\<lambda>issued.
     let pem = concat (map (\<lambda>i. encode_chain_pem E (is_path i)) issued) in
     ebind (write_output E out pem) (\<lambda>_. ret pem))))))"

definition revoke_cmd :: "'x cenv_scheme \<Rightarrow> cli \<Rightarrow> string \<Rightarrow> string \<Rightarrow> int \<Rightarrow> unit act" where
  "revoke_cmd E fl tenant serial reason =
     ebind (open_cli_env E fl) (\<lambda>en. revoke E (en_manager en) tenant serial reason (cli_actor fl))"

definition crl_cmd :: "'x cenv_scheme \<Rightarrow> cli \<Rightarrow> string \<Rightarrow> chain \<Rightarrow> string \<Rightarrow> crl act" where
  "crl_cmd E fl tenant chain out =
     (if chain \<noteq> chain_primary \<and> chain \<noteq> chain_pair then fail (errorf (''invalid --chain '' @ quoted chain @ '' (want primary or pair)''))
      else ebind (open_cli_env E fl) (\<lambda>en.
           ebind (build_crl E (en_manager en) tenant chain (cli_actor fl)) (\<lambda>c.
           ebind (write_output E out (encode_crl_pem E c)) (\<lambda>_. ret c))))"

text \<open>A table is printed to the terminal at its end, which may fail.\<close>

definition print_table :: "'x env_scheme \<Rightarrow> 'v \<Rightarrow> 'v act" where
  "print_table E rows = ebind (outside E) (\<lambda>_. ret rows)"

definition certs_cmd :: "'x cenv_scheme \<Rightarrow> cli \<Rightarrow> string \<Rightarrow> cert_record list act" where
  "certs_cmd E fl tenant = ebind (open_cli_env E fl) (\<lambda>_. ebind (list_certificates E tenant) (print_table E))"

section \<open>Tenants and profiles\<close>

definition tenant_create_cmd :: "'x cenv_scheme \<Rightarrow> cli \<Rightarrow> string \<Rightarrow> string \<Rightarrow> algorithm \<Rightarrow> bool \<Rightarrow> tenant act" where
  "tenant_create_cmd E fl i name alg hybrid =
     ebind (open_cli_env E fl) (\<lambda>en. create_tenant E (en_manager en) i name alg hybrid (cli_actor fl))"

definition tenant_list_cmd :: "'x cenv_scheme \<Rightarrow> cli \<Rightarrow> tenant list act" where
  "tenant_list_cmd E fl = ebind (open_cli_env E fl) (\<lambda>_. ebind (list_tenants E) (print_table E))"

definition tenant_show_cmd :: "'x cenv_scheme \<Rightarrow> cli \<Rightarrow> string \<Rightarrow> tenant act" where
  "tenant_show_cmd E fl i = ebind (open_cli_env E fl) (\<lambda>_. get_tenant E i)"

definition split_list :: "string list \<Rightarrow> string list" where
  "split_list vals = filter (\<lambda>p. p \<noteq> []) (map trim_space (concat (map (split_at (CHR '','')) vals)))"

text \<open>A row of the listing of the profiles: name, usages, validities, key algorithms, chain.\<close>

definition profile_row :: "'x cenv_scheme \<Rightarrow> profile \<Rightarrow> string list" where
  "profile_row E p = (let ekus = join_with '','' (pf_ekus p); kus = join_with '','' (pf_key_usages p) in
     [pf_name p,
      if ekus = [] then join_with '','' ((if pf_server_auth p then [''server_auth''] else []) @
        (if pf_client_auth p then [''client_auth''] else [])) else ekus,
      if kus = [] then ''digital_signature'' else kus,
      duration_text E (pf_default_validity p), duration_text E (pf_max_validity p),
      if pf_allowed_key_algs p = [] then ''any'' else join_with '','' (pf_allowed_key_algs p), pf_hybrid p])"

definition profile_list_cmd :: "'x cenv_scheme \<Rightarrow> cli \<Rightarrow> string \<Rightarrow> string list list act" where
  "profile_list_cmd E fl tenant = ebind (open_cli_env E fl) (\<lambda>_.
     ebind (get_tenant E tenant) (\<lambda>t. print_table E (map (profile_row E \<circ> snd) (tn_profiles t))))"

definition profile_set_cmd :: "'x cenv_scheme \<Rightarrow> cli \<Rightarrow> string \<Rightarrow> string \<Rightarrow> string list \<Rightarrow> string list \<Rightarrow> string list \<Rightarrow> int \<Rightarrow> int \<Rightarrow>
    chain \<Rightarrow> unit act" where
  "profile_set_cmd E fl tenant name ekus kus algs default_validity max_validity hybrid =
     ebind (open_cli_env E fl) (\<lambda>en.
       set_profile E (en_manager en) tenant \<lparr>pf_name = name, pf_default_validity = default_validity, pf_max_validity = max_validity,
         pf_server_auth = False, pf_client_auth = False, pf_ekus = split_list ekus, pf_key_usages = split_list kus,
         pf_allowed_key_algs = split_list algs, pf_hybrid = hybrid\<rparr> (cli_actor fl))"

definition profile_delete_cmd :: "'x cenv_scheme \<Rightarrow> cli \<Rightarrow> string \<Rightarrow> string \<Rightarrow> unit act" where
  "profile_delete_cmd E fl tenant name =
     ebind (open_cli_env E fl) (\<lambda>en. delete_profile E (en_manager en) tenant name (cli_actor fl))"

section \<open>Keys and requests\<close>

text \<open>
  Keys in files: writing and reading PKCS 8 with ML-DSA keys is a library, here the arguments
  \<open>p8\<close> and \<open>unp8\<close>; what is read may be a key that cannot sign.
\<close>

definition pem_private_key :: string where "pem_private_key = ''PRIVATE KEY''"

definition keygen_cmd :: "'x cenv_scheme \<Rightarrow> (private_key \<Rightarrow> string option) \<Rightarrow> algorithm \<Rightarrow> string \<Rightarrow> unit act" where
  "keygen_cmd E p8 alg out =
     ebind (lift_sum (lookup_alg alg)) (\<lambda>i.
     if i_hybrid i then fail (errorf ''composite keys cannot be generated with keygen yet; generate them via CSR tooling'')
     else ebind (generate_key E alg) (\<lambda>key. case p8 key of
         None \<Rightarrow> fail (errorf ''x509: unknown key type'')
       | Some der \<Rightarrow> write_output E out (pem_encode E pem_private_key der)))"

definition csr_cmd :: "'x cenv_scheme \<Rightarrow> (string \<Rightarrow> private_key option option) \<Rightarrow> string \<Rightarrow> string \<Rightarrow> string list \<Rightarrow> string list \<Rightarrow>
    algorithm \<Rightarrow> string \<Rightarrow> cert_request act" where
  "csr_cmd E unp8 kpath cn dns emails alg out =
     ebind (wrap_err (wrapf ''reading key: '') (read_file E kpath)) (\<lambda>data.
     case pem_decode E data of
       None \<Rightarrow> fail (errorf (''no PRIVATE KEY PEM block in '' @ kpath))
     | Some (ty, der, rest) \<Rightarrow>
        if ty \<noteq> pem_private_key then fail (errorf (''no PRIVATE KEY PEM block in '' @ kpath))
        else (case unp8 der of
          None \<Rightarrow> fail (errorf ''parsing key: '')
        | Some None \<Rightarrow> fail (errorf ''key type cannot sign'')
        | Some (Some key) \<Rightarrow>
            ebind (if alg = [] then lift_sum (algorithm_for_key (public_of key)) else ret alg) (\<lambda>alg'.
            ebind (create_certificate_request E \<lparr>ct_subject = NamedSubject cn [] [], ct_dns = dns, ct_emails = emails, ct_ips = [],
                ct_uris = []\<rparr> key alg') (\<lambda>r.
            ebind (write_output E out (encode_csr_pem E r)) (\<lambda>_. ret r)))))"

text \<open>What is printed of a certificate or a request is read off its fields.\<close>

definition inspect_cmd :: "'x cenv_scheme \<Rightarrow> string \<Rightarrow> (certificate + cert_request) act" where
  "inspect_cmd E path = ebind (read_file E path) (\<lambda>data. case parse_certificate_pem E data of
     Inr c \<Rightarrow> ret (Inl c)
   | Inl _ \<Rightarrow> (case parse_csr_pem E data of
        Inl _ \<Rightarrow> fail (errorf (path @ '' is neither a certificate nor a CSR PEM''))
      | Inr r \<Rightarrow> ret (Inr r)))"

definition csr_sans :: "'x cenv_scheme \<Rightarrow> cert_request \<Rightarrow> string list" where
  "csr_sans E r = map (\<lambda>d. ''dns:'' @ d) (csr_dns r) @ map (\<lambda>e. ''email:'' @ e) (csr_emails r) @
     map (\<lambda>i. ''ip:'' @ ip_text E i) (csr_ips r) @ map (\<lambda>u. ''uri:'' @ u) (csr_uris r)"

section \<open>Starting the server\<close>

definition parse_bool :: "string \<Rightarrow> bool option" where
  "parse_bool s = (if s \<in> {''1'', ''t'', ''T'', ''TRUE'', ''true'', ''True''} then Some True
     else if s \<in> {''0'', ''f'', ''F'', ''FALSE'', ''false'', ''False''} then Some False else None)"

definition acme_allow_private :: "cli \<Rightarrow> err + bool" where
  "acme_allow_private fl = (if os_allow_private fl = [] then Inr False else case parse_bool (os_allow_private fl) of
     None \<Rightarrow> Inl (errorf (''MNEMOCA_ACME_ALLOW_PRIVATE: '' @ quoted (os_allow_private fl) @ '' is not a boolean''))
   | Some b \<Rightarrow> Inr b)"

text \<open>A flag that was given counts even when it is empty.\<close>

definition bootstrap_key_file :: "cli \<Rightarrow> string option \<Rightarrow> string" where
  "bootstrap_key_file fl given = (case given of Some f \<Rightarrow> f | None \<Rightarrow> os_bootstrap_key fl)"

definition bootstrap_key_source :: "string option \<Rightarrow> string" where
  "bootstrap_key_source given = (case given of Some f \<Rightarrow> ''--bootstrap-api-key-file'' | None \<Rightarrow> ''$MNEMOCA_BOOTSTRAP_API_KEY_FILE'')"

definition acme_of :: "cli \<Rightarrow> ca_env \<Rightarrow> string \<Rightarrow> bool \<Rightarrow> err + acme_server" where
  "acme_of fl en url eab = sbind (acme_allow_private fl) (\<lambda>allow.
     Inr (new_acme (en_manager en) (mg_audit (en_manager en)) url eab allow))"

text \<open>What is served once the checks of a start have passed; \<open>mount\<close> puts the ACME server under its path.\<close>

definition serve_cmd :: "'x cenv_scheme \<Rightarrow> cli \<Rightarrow> (acme_server \<Rightarrow> request \<Rightarrow> response act) \<Rightarrow> string \<Rightarrow> string \<Rightarrow> string \<Rightarrow> bool \<Rightarrow>
    string option \<Rightarrow> server act" where
  "serve_cmd E fl mount tls_cert tls_key url eab boot =
     (if (tls_cert = []) \<noteq> (tls_key = []) then fail (errorf ''--tls-cert and --tls-key must be set together'')
      else ebind (open_cli_env E fl) (\<lambda>en.
        if en_log en = None then fail (errorf ''CA not initialized (run `mnemoca init`)'')
        else ebind (lift_sum (acme_of fl en url eab)) (\<lambda>acme.
          let s = \<lparr>sv_manager = en_manager en, sv_db = en_db en, sv_dir = fl_data_dir fl, sv_key_file = bootstrap_key_file fl boot,
                sv_key_source = bootstrap_key_source boot, sv_acme = Some (mount acme)\<rparr> in
          ebind (wrap_err (wrapf ''api: bootstrap operator key: '') (bootstrap_key E s)) (\<lambda>_. ret s))))"

end
