(* ===== verification/Cli_Run.thy ===== *)
theory Cli_Run
  imports Cli
begin

text \<open>
  What the commands promise together: a CA that was initialised passes the verification of its audit
  log, a server is never started without one, and what happens when the root cannot be read.
\<close>

section \<open>Plain files\<close>

lemma files_log: "steps (same text_files) (log_event E a r)"
  using quiet_log by (rule steps_mono) (simp add: quiet_def same_def)

lemma files_generate: "steps (same text_files) (backend_generate E b alg label)"
  by (intro files.steps_backend_generate) (simp_all add: same_def)

lemma files_new_root: "steps (same text_files) (new_root_cert E m name alg validity label)"
  unfolding new_root_cert_def by (intro files.ca_rules files_generate files.steps_serial)

lemma files_init_root: "steps (same text_files) (init_root E m opts)"
  unfolding init_root_def not_initialized_def add_pair_root_def
  by (intro files.ca_rules files_new_root files_generate files_log) (simp_all add: same_def)

lemma files_open_audit: "steps (same text_files) (open_audit E en info)"
proof -
  have "steps (same text_files) (open_store_log E sg kid)" for sg kid
    unfolding open_store_log_def ensure_genesis_def make_genesis_def
    by (intro files.store_rules files.steps_seal_record) (simp_all add: same_def)
  moreover have "steps (same text_files) (open_log E sg kid)" for sg kid
    using files_log [of E "FileLog l" for l] unfolding open_log_def
    by (intro files.world_rules same.steps_pure) (simp_all add: same_def)
  ultimately show ?thesis unfolding open_audit_def by (intro files.ca_rules)
qed

lemma files_env_init: "steps (same text_files) (env_init E en opts)"
  unfolding env_init_def by (intro files.world_rules files_init_root files_open_audit files_log)

section \<open>Opening from the command line\<close>

lemma passphrase_Inr: "passphrase E fl w = (Inr p, w') \<Longrightarrow> same but_tick w w'"
  by (auto simp: passphrase_def act_elims same_def but_tick_def advance_def split: if_splits)

lemma passphrase_again:
  assumes "passphrase E fl w = (Inr p, w')" and "map_of (text_files v) (fl_passphrase_file fl) = map_of (text_files w) (fl_passphrase_file fl)"
    and "calm_from E (tick v)"
  shows "\<exists>v'. passphrase E fl v = (Inr p, v') \<and> same but_tick v v' \<and> calm_from E (tick v')"
proof -
  have "fault_at E (tick v) = NoFault" using assms(3) by (simp add: calm_from_def)
  then have "passphrase E fl v = (Inr p, if fl_passphrase_file fl = [] then v else advance v)"
    using assms(1,2) by (auto simp: passphrase_def act_elims split: if_splits)
  then have "\<exists>v'. passphrase E fl v = (Inr p, v') \<and> tick v \<le> tick v'" by auto
  then show ?thesis using passphrase_Inr calm_later [OF assms(3)] by blast
qed

lemma get_json_absent:
  assumes "lookup w p k = None"
  shows "\<exists>e. get_json E d p k w = (Inl e, advance w)"
proof (cases "get_json E d p k w")
  case (Pair r v)
  then show ?thesis using assms get_json_world [of E d p k w] by (cases r) (auto simp: get_json_Inr)
qed

text \<open>On a store without a root the environment has no log.\<close>

lemma attach_blank: "lookup v meta_bucket root_key = None \<Longrightarrow> attach_audit E en v = (Inr en', w') \<Longrightarrow> en' = en \<and> w' = advance v"
  using get_json_absent [of v meta_bucket root_key E root_info_of] by (auto simp: attach_audit_def ecase_apply)

lemma open_cli_blank:
  assumes "lookup w meta_bucket root_key = None" and "open_cli_env E fl w = (Inr en, w')"
  obtains pass v where "passphrase E fl w = (Inr pass, v)" "config_ok (cli_config fl pass)" "en = blank_env (cli_config fl pass)"
    "same but_tick w w'"
proof -
  obtain pass v where p: "passphrase E fl w = (Inr pass, v)" and o: "open_env E (cli_config fl pass) v = (Inr en, w')"
    using assms(2) by (auto simp: open_cli_env_def act_elims)
  have s: "same but_tick w v" using p by (rule passphrase_Inr)
  show thesis
    using o
  proof (rule open_env_Inr)
    fix u
    assume c: "config_ok (cli_config fl pass)" and u: "same but_tick v u" and a: "attach_audit E (blank_env (cli_config fl pass)) u = (Inr en, w')"
    have t: "same but_tick w u" using s u by (rule same.contract_trans)
    have "lookup u meta_bucket root_key = None" using assms(1) but_tick_fields(1) [OF t] by simp
    from attach_blank [OF this a] have "en = blank_env (cli_config fl pass)" "w' = advance u" by simp_all
    moreover have "same but_tick w (advance u)" using t timed.advance_ok by (rule same.contract_trans)
    ultimately show thesis using that p c by blast
  qed
qed

section \<open>Initialising and verifying\<close>

lemma write_text_Inr [act_elims]:
  "write_text E path c w = (Inr u, w') \<longleftrightarrow> fault_at E (tick w) = NoFault \<and> w' = put_file path c (advance w)"
  by (auto simp: write_text_def effect_def Let_def split: fault.splits)

lemma write_roots_Inr:
  assumes "write_roots E fl info w = (Inr u, w')"
  shows "lookup w' = lookup w \<and> log_lines w' = log_lines w \<and> keeps_keys w w' \<and>
    map_of (text_files w') (fl_data_dir fl @ ''/root.pem'') = Some (ri_cert_pem info) \<and>
    (\<forall>p. p \<notin> {fl_data_dir fl @ ''/root.pem'', fl_data_dir fl @ ''/root-pair.pem''} \<longrightarrow> map_of (text_files w') p = map_of (text_files w) p)"
  using assms by (auto simp: write_roots_def act_elims put_file_def lookup_def [abs_def] update_conv' keeps_keys_def keeps_files_def keeps_docs_def
      key_file_def split: if_splits)

lemma verify_log_live:
  assumes l: "ca_live E C w ri s n" and en: "en_db en = env_db C" and calm: "calm_from E (tick w)"
  shows "\<exists>w'. verify_log E en files [] (audit_pub s) w = (Inr n, w')"
proof (cases "env_db C = db_mongo")
  case True
  then obtain rs where rs: "chain_stored E s w rs" "length rs = n" using l by (auto simp: ca_live_def verified_def)
  have "verify_store E (audit_pub s) w = (Inr n, advance (advance w))"
    using chain_stored_verifies [OF _ rs(1)] l rs(2) calm by (simp add: ca_live_def calm_from_def)
  then show ?thesis using True en by (simp add: verify_log_def)
next
  case False
  then show ?thesis
    using l en calm by (simp add: verify_log_def ca_live_def verified_def ebind_apply effect_ok calm_from_def)
qed

lemma audit_verify_live:
  assumes l: "ca_live E (cli_config fl pass) w ri s (Suc n)" and C: "config_ok (cli_config fl pass)"
    and p: "passphrase E fl w = (Inr pass, v)" "same but_tick w v" "calm_from E (tick v)"
  shows "\<exists>w'. audit_verify_cmd E fl files [] w = (Inr (Suc n), w')"
proof -
  let ?C = "cli_config fl pass"
  note f = but_tick_fields [OF p(2)]
  have "ca_live E ?C v ri s (Suc n)"
    by (rule ca_live_cong [OF l]) (simp_all add: f keeps_keys_def keeps_files_def keeps_docs_def key_file_def)
  from open_env_live [OF this C p(3)] obtain en u where o: "open_env E ?C v = (Inr en, u)" "ca_live E ?C u ri s (Suc n)"
    "calm_from E (tick u)" "en_db en = env_db ?C" by blast
  have r: "root E u = (Inr ri, advance u)"
    using o(2,3) by (simp add: root_def wrap_err_Inr_iff get_json_Inr ca_live_def meta_bucket_def calm_from_def)
  have "ca_live E ?C (advance u) ri s (Suc n)"
    by (rule ca_live_cong [OF o(2)]) (simp_all add: keeps_keys.advance_ok)
  moreover have "calm_from E (tick (advance u))" using o(3) by (simp add: calm_from_def)
  ultimately obtain w' where "verify_log E en files [] (audit_pub s) (advance u) = (Inr (Suc n), w')"
    using verify_log_live o(4) by blast
  then show ?thesis
    using p(1) o(1,2) r by (simp add: audit_verify_cmd_def open_cli_env_def ebind_apply wrap_err_apply ca_live_def)
qed

text \<open>What a successful initialisation on a fresh store leaves.\<close>

lemma init_cmd_live:
  assumes libs: "libs_ok E" and fresh: "lookup w meta_bucket root_key = None" "no_log (env_db (cli_config fl [])) w"
    and run: "init_cmd E fl if_needed name alg pair_alg experimental w = (Inr info, w1)"
  obtains pw v s where "passphrase E fl w = (Inr pw, v)" "config_ok (cli_config fl pw)" "ca_live E (cli_config fl pw) w1 info s (Suc 1)"
    "map_of (text_files w1) (fl_data_dir fl @ ''/root.pem'') = Some (ri_cert_pem info)"
    "\<And>p. p \<notin> {fl_data_dir fl @ ''/root.pem'', fl_data_dir fl @ ''/root-pair.pem''} \<Longrightarrow> map_of (text_files w1) p = map_of (text_files w) p"
proof -
  let ?opts = "\<lparr>io_name = name, io_alg = alg, io_pair_alg = pair_alg, io_root_validity = 0,
              io_experimental = experimental, io_actor = cli_actor fl\<rparr>"
  obtain en v1 where o: "open_cli_env E fl w = (Inr en, v1)"
    and rest: "(if if_needed \<and> en_log en \<noteq> None then root E
       else ebind (env_init E en ?opts) (\<lambda>(info, _). ebind (write_roots E fl info) (\<lambda>_. ret info))) v1 = (Inr info, w1)"
    using run unfolding init_cmd_def by (auto simp: ebind_Inr_iff)
  show thesis
    using fresh(1) o
  proof (rule open_cli_blank)
    fix pw v
    let ?C = "cli_config fl pw"
    assume p: "passphrase E fl w = (Inr pw, v)" and C: "config_ok ?C" and en: "en = blank_env ?C" and t: "same but_tick w v1"
    note f = but_tick_fields [OF t]
    obtain en' v2 where i: "env_init E (blank_env ?C) ?opts v1 = (Inr (info, en'), v2)"
      and wr: "write_roots E fl info v2 = (Inr (), w1)"
      using rest en by (auto simp: act_elims)
    have db: "env_db ?C = env_db (cli_config fl [])" by (simp add: env_db_def cli_config_def)
    have "no_log (env_db ?C) v1" unfolding db using fresh(2) f(1,3) by (simp add: no_log_def)
    from env_init_live [OF libs this i] obtain s where live: "ca_live E ?C v2 info s 2" by blast
    note r = write_roots_Inr [OF wr]
    have "ca_live E ?C w1 info s (Suc 1)" using ca_live_cong [OF live] r by (simp add: numeral_2_eq_2)
    moreover have "text_files v2 = text_files w" using stepsD [OF files_env_init i] f(5) by (simp add: same_def)
    ultimately show thesis using that [OF p C] r by simp
  qed
qed

text \<open>
  Claim C17: a CA initialised from the command line on a fresh store passes \<open>audit verify\<close> afterwards,
  which counts two records: the genesis record and the initialisation.  The root certificate that was
  written is the one of the stored root.
\<close>

theorem init_then_verify:
  assumes libs: "libs_ok E" and fresh: "lookup w meta_bucket root_key = None" "no_log (env_db (cli_config fl [])) w"
    and run: "init_cmd E fl if_needed name alg pair_alg experimental w = (Inr info, w1)"
    and pass: "fl_passphrase_file fl \<notin> {fl_data_dir fl @ ''/root.pem'', fl_data_dir fl @ ''/root-pair.pem''}"
    and calm: "calm_from E (tick w1)"
  shows "map_of (text_files w1) (fl_data_dir fl @ ''/root.pem'') = Some (ri_cert_pem info) \<and>
    lookup w1 meta_bucket root_key = Some (root_info_json info) \<and> (\<exists>w2. audit_verify_cmd E fl files [] w1 = (Inr 2, w2))"
proof (rule init_cmd_live [OF libs fresh run])
  fix pw v s
  assume p: "passphrase E fl w = (Inr pw, v)" and C: "config_ok (cli_config fl pw)" and live: "ca_live E (cli_config fl pw) w1 info s (Suc 1)"
    and pem: "map_of (text_files w1) (fl_data_dir fl @ ''/root.pem'') = Some (ri_cert_pem info)"
    and files: "\<And>p. p \<notin> {fl_data_dir fl @ ''/root.pem'', fl_data_dir fl @ ''/root-pair.pem''} \<Longrightarrow> map_of (text_files w1) p = map_of (text_files w) p"
  obtain u where u: "passphrase E fl w1 = (Inr pw, u)" "same but_tick w1 u" "calm_from E (tick u)"
    using passphrase_again [OF p files [OF pass] calm] by blast
  from audit_verify_live [OF live C u] pem live show ?thesis by (simp add: ca_live_def numeral_2_eq_2)
qed

section \<open>A server has a log\<close>

lemma open_env_sound: "open_env E C w = (Inr en, w') \<Longrightarrow> env_ok en \<and> en_db en = env_db C"
proof (erule open_env_Inr)
  fix v
  assume "attach_audit E (blank_env C) v = (Inr en, w')"
  then show ?thesis
    by (auto simp: attach_audit_def ecase_eq_iff act_elims dest!: open_audit_ok)
qed

text \<open>
  Claim C21: the server is only started with an audit log: every handler that is served writes its events
  to the log of the environment, which is the log file of the data directory or the store's chain.
\<close>

theorem served_is_audited:
  assumes "serve_cmd E fl mount tls_cert tls_key url eab boot w = (Inr s, w')"
  shows "mg_audit (sv_manager s) \<noteq> NopLog \<and> manager_ok (sv_manager s) \<and>
    ((\<exists>l. mg_audit (sv_manager s) = StoreLog l) \<longleftrightarrow> sv_db s = db_mongo)"
proof -
  obtain en v where o: "open_cli_env E fl w = (Inr en, v)" and l: "en_log en \<noteq> None"
    and s: "sv_manager s = en_manager en" "sv_db s = en_db en"
    using assms unfolding serve_cmd_def by (auto simp: act_elims Let_def split: if_splits)
  obtain pw u where "open_env E (cli_config fl pw) u = (Inr en, v)" using o by (auto simp: open_cli_env_def act_elims)
  then have "env_ok en" using open_env_sound by blast
  moreover obtain lg where "en_log en = Some lg" using l by blast
  ultimately show ?thesis using s by (cases lg) (auto simp: env_ok_def)
qed

section \<open>Keys and requests\<close>

lemma parsed_csr_pem:
  assumes "pem_laws E" and "parse_certificate_request E der = Inr r"
  shows "parse_csr_pem E (encode_csr_pem E r) = Inr r"
proof -
  have "pem_decode E (pem_encode E pem_csr (csr_raw r) @ []) = Some (pem_csr, csr_raw r, [])"
    using assms(1) unfolding pem_laws_def by blast
  moreover have "csr_raw r = der" using assms(2) by (rule parse_request_Inr) simp
  ultimately show ?thesis using assms(2) by (simp add: parse_csr_pem_def encode_csr_pem_def pem_block_def)
qed

lemma created_csr_parsed: "create_certificate_request E t key alg w = (Inr r, w') \<Longrightarrow> \<exists>der. parse_certificate_request E der = Inr r"
  by (auto simp: create_certificate_request_def create_pq_csr_def act_elims Let_def split: option.splits if_splits)

lemma write_output_file:
  "write_output E path data w = (Inr u, w') \<Longrightarrow> path \<notin> {[], ''-''} \<Longrightarrow> map_of (text_files w') path = Some data"
  by (auto simp: write_output_def act_elims update_conv')

text \<open>
  Claim C32: a request made with \<open>csr\<close> from a key file that \<open>keygen\<close> wrote for an ML-DSA algorithm is read
  back as it was made, passes the check of its self-signature, and is for the key that was generated,
  with the algorithm that was asked for.
\<close>

theorem keygen_then_csr:
  assumes libs: "libs_ok E" "csr_laws E" and p8: "\<And>k d. p8 k = Some d \<Longrightarrow> unp8 d = Some (Some k)"
    and pq: "lookup_alg alg = Inr i" "i_pq i"
    and keygen: "keygen_cmd E p8 alg path w = (Inr (), w1)" "path \<notin> {[], ''-''}"
    and kept: "map_of (text_files v) path = map_of (text_files w1) path"
    and csr: "csr_cmd E unp8 path cn dns emails [] out v = (Inr r, w2)"
  shows "parse_csr_pem E (encode_csr_pem E r) = Inr r \<and> csr_check_signature E r = Inr () \<and> csr_pub_alg r = alg \<and> csr_alg r = alg \<and>
    (\<exists>key v'. generate_key E alg w = (Inr key, v') \<and> csr_pub r = public_of key)"
proof -
  obtain key der v' where key: "generate_key E alg w = (Inr key, v')" and der: "p8 key = Some der"
    and wr: "write_output E path (pem_encode E pem_private_key der) v' = (Inr (), w1)"
    using keygen(1) pq by (auto simp: keygen_cmd_def act_elims split: if_splits option.splits)
  have "pem_decode E (pem_encode E pem_private_key der @ []) = Some (pem_private_key, der, [])"
    using libs_okD(6) [OF libs(1)] unfolding pem_laws_def by blast
  moreover have "map_of (text_files v) path = Some (pem_encode E pem_private_key der)"
    using write_output_file [OF wr keygen(2)] kept by simp
  moreover have fit: "fit_key E alg key" using generated_key_fit key libs_okD(1,2) [OF libs(1)] by blast
  ultimately obtain t v1 v2 where c: "create_certificate_request E t key alg v1 = (Inr r, v2)"
    using csr p8 [OF der] by (auto simp: csr_cmd_def act_elims fit_key_def)
  have "csr_check_signature E r = Inr () \<and> csr_pub r = public_of key \<and> csr_alg r = alg"
    by (rule pq_csr_verifies [OF libs(2) libs_okD(5) [OF libs(1)] _ _ _ _ pq c]) (use fit in \<open>auto simp: fit_key_def wf_pub_def\<close>)
  moreover obtain d where d: "parse_certificate_request E d = Inr r" using created_csr_parsed [OF c] by blast
  moreover from this have "algorithm_for_key (csr_pub r) = Inr (csr_pub_alg r)" by (rule parse_request_Inr) simp
  ultimately show ?thesis
    using parsed_csr_pem [OF libs_okD(6) [OF libs(1)] d] key fit by (auto simp: fit_key_def)
qed

section \<open>A root that cannot be read\<close>

lemma view_revoke:
  assumes "mg_audit m = NopLog"
  shows "steps (same log_view) (revoke E m tenant serial reason who)"
  unfolding revoke_def mark_revoked_def assms log_event.simps
  by (intro log_view.store_rules) simp_all

lemma get_json_failed:
  assumes "fault_at E (tick w) \<noteq> NoFault"
  shows "\<exists>e. get_json E d p k w = (Inl e, advance w)"
proof (cases "get_json E d p k w")
  case (Pair r v)
  then show ?thesis using assms get_json_world [of E d p k w] by (cases r) (auto simp: get_json_Inr)
qed


end
