(* ===== verification/Cli_Samples.thy ===== *)
theory Cli_Samples
  imports Cli_Run Api_Samples
begin

text \<open>
  The commands on the sample environment with a MongoDB store: initialisation, verification of the log
  and the start of a server.
\<close>

section \<open>Initialisation\<close>

definition mongo_cli :: cli where
  "mongo_cli = \<lparr>fl_data_dir = ''/ca'', fl_passphrase_file = [], fl_db = ''mongo'', fl_mongo_uri = ''mongodb'', os_passphrase = ''pw'',
     os_hsm_module = [], os_hsm_token = [], os_user = [], os_allow_private = [], os_bootstrap_key = []\<rparr>"

abbreviation mongo_config :: ca_config where
  "mongo_config \<equiv> cli_config mongo_cli ''pw''"

lemma mongo_simps: "env_db mongo_config = db_mongo" "config_ok mongo_config" "passphrase E mongo_cli w = (Inr ''pw'', w)"
  "registry_backend (mg_signers (en_manager (blank_env mongo_config))) (mg_backend (en_manager (blank_env mongo_config))) = Inr (Storekey ''pw'')"
  by (simp_all add: mongo_cli_def cli_config_def env_db_def db_mongo_def config_ok_def hsm_backend_def passphrase_def blank_env_def
      registry_backend_def new_registry_def update_conv' pkcs11_scheme_def)

text \<open>The root is made with the backend for new keys only.\<close>

lemma init_root_cong:
  assumes "registry_backend (mg_signers m) (mg_backend m) = registry_backend (mg_signers n) (mg_backend n)" "mg_audit m = mg_audit n"
  shows "init_root E m opts = init_root E n opts"
  unfolding init_root_def new_root_cert_def add_pair_root_def assms ..

lemma sample_calm: "calm_from (sample_at xe) n"
  by (simp add: calm_from_def)

lemma mldsa_signs:
  assumes "fit_key (sample_at xe) MLDSA65 (sg_key s)"
  shows "signs (sample_at xe) s"
proof -
  have no: "map_of composite_profiles MLDSA65 = None" by (simp add: composite_profiles_def alg_defs)
  have "\<exists>p seed pk. sg_key s = MldsaPriv p seed pk"
    using assms no by (cases "sg_key s") (auto simp: fit_key_def bit_len_ge alg_defs split: public_key.splits curve.splits if_splits)
  then show ?thesis by (auto simp: signs_def prim_sign_def) (simp add: sample_env_def)
qed

lemma sample_open_blank:
  assumes "\<And>p k. lookup w p k = None"
  shows "\<exists>v. open_cli_env sample_env mongo_cli w = (Inr (blank_env mongo_config), v) \<and> (\<forall>p k. lookup v p k = None) \<and> text_files v = text_files w"
proof -
  obtain v where v: "same but_tick w v" "open_env sample_env mongo_config w = attach_audit sample_env (blank_env mongo_config) v"
    using open_env_calm [OF mongo_simps(2) sample_calm [where xe = "()"], of w] by blast
  note f = but_tick_fields [OF v(1)]
  obtain e where "get_json sample_env root_info_of meta_bucket root_key v = (Inl e, advance v)"
    using get_json_absent [of v meta_bucket root_key sample_env root_info_of] assms f(1) by auto
  then have "attach_audit sample_env (blank_env mongo_config) v = (Inr (blank_env mongo_config), advance v)"
    by (simp add: attach_audit_def ecase_apply)
  then show ?thesis
    using v(2) f assms by (auto simp: open_cli_env_def ebind_apply mongo_simps wrap_err_apply)
qed

lemma sample_env_init:
  assumes none: "\<And>p k. lookup w p k = None"
  shows "\<exists>ri en' w'. env_init sample_env (blank_env mongo_config) (sample_options\<lparr>io_actor := who\<rparr>) w = (Inr (ri, en'), w') \<and>
    ri_pair_alg ri = [] \<and> (\<forall>p k. p \<notin> log_buckets \<union> {keys_bucket, meta_bucket} \<longrightarrow> lookup w' p k = None)"
proof -
  let ?en = "blank_env mongo_config" and ?opts = "sample_options\<lparr>io_actor := who\<rparr>"
  have "registry_backend (mg_signers (en_manager ?en)) (mg_backend (en_manager ?en)) = registry_backend (mg_signers store_manager) (mg_backend store_manager)"
    by (simp add: mongo_simps store_manager_ok)
  then have cong: "init_root sample_env (en_manager ?en) ?opts = init_root sample_env store_manager ?opts"
    by (rule init_root_cong) (simp add: store_manager_ok)
  obtain ri v where i: "init_root sample_env (en_manager ?en) ?opts w = (Inr ri, v)"
    and n: "\<And>p k. p \<notin> {keys_bucket, meta_bucket} \<Longrightarrow> lookup v p k = None"
    unfolding cong by (rule sample_init_from [where xe = "()" and who = who, OF none]) blast
  note r = init_root_sound [OF sample_libs_ok blank_env_ok(5) i]
  obtain s where s: "holds_key sample_env (mg_signers (en_manager ?en)) v (ri_audit_key_ref ri) s" "fit_key sample_env MLDSA65 (sg_key s)"
    "sg_alg s = MLDSA65" using r by blast
  have sg: "signs sample_env s" "audit_signer sample_env s"
    using mldsa_signs [OF s(2)] audit_key_signer [OF s(2,3)] by simp_all
  have ro: "registry_open sample_env (mg_signers (en_manager ?en)) (ri_audit_key_ref ri) v = (Inr s, advance v)"
    using s(1) by (rule holds_key_opens) simp
  have apart: "audit_records_bucket \<notin> {keys_bucket, meta_bucket}" "audit_meta_bucket \<notin> {keys_bucket, meta_bucket}"
    using log_buckets_apart(1,4) by (auto simp: log_buckets_def)
  have fresh: "lookup (advance v) audit_records_bucket k = None" "lookup (advance v) audit_meta_bucket head_key = None" for k
    using n apart by simp_all
  obtain u where u: "open_store_log sample_env s ''audit-1'' (advance v) = (Inr \<lparr>cl_signer = s, cl_key_id = ''audit-1''\<rparr>, u)"
    using signs_open_store [OF sg fresh(2)] by blast
  obtain g where g: "chain_stored sample_env s u [g]" using open_store_log_genesis [OF sg(2) fresh u] by blast
  let ?log = "StoreLog \<lparr>cl_signer = s, cl_key_id = ''audit-1''\<rparr>" and ?ev = "init_event who (ri_name ri) (ri_alg ri) (ri_pair_alg ri)"
  let ?en' = "?en\<lparr>en_log := Some ?log, en_manager := (en_manager ?en)\<lparr>mg_audit := ?log\<rparr>\<rparr>"
  have o: "open_audit sample_env ?en ri v = (Inr ?en', u)"
    using ro u by (simp add: open_audit_def ebind_apply wrap_err_apply mongo_simps)
  obtain w' where l: "log_event sample_env ?log ?ev u = (Inr (), w')"
    using signs_store_log [OF sg(1) g] by auto
  have "env_init sample_env ?en ?opts w = (Inr (ri, ?en'), w')"
    using i o l by (simp add: env_init_def ebind_apply)
  moreover have "lookup w' p k = None" if "p \<notin> log_buckets \<union> {keys_bucket, meta_bucket}" for p k
    using that log_event_lookup [OF l, of p k] only_bucketsD [OF stepsD [OF only_open_audit o], of p k] n by simp
  moreover have "ri_pair_alg ri = []" using r by (simp add: sample_options_def)
  ultimately show ?thesis by blast
qed

lemma sample_init_cmd:
  "\<exists>info w. init_cmd sample_env mongo_cli False ''Root'' Ed25519 [] False empty_world = (Inr info, w) \<and>
    (\<forall>p k. p \<notin> log_buckets \<union> {keys_bucket, meta_bucket} \<longrightarrow> lookup w p k = None)"
proof -
  let ?opts = "\<lparr>io_name = ''Root'', io_alg = Ed25519, io_pair_alg = [], io_root_validity = 0, io_experimental = False, io_actor = cli_actor mongo_cli\<rparr>"
  have opts: "?opts = sample_options\<lparr>io_actor := cli_actor mongo_cli\<rparr>" by (simp add: sample_options_def)
  have "lookup empty_world p k = None" for p k by (simp add: lookup_def empty_world_def)
  then obtain v where v: "open_cli_env sample_env mongo_cli empty_world = (Inr (blank_env mongo_config), v)" "\<And>p k. lookup v p k = None"
    using sample_open_blank [of empty_world] by blast
  obtain ri en' u where i: "env_init sample_env (blank_env mongo_config) ?opts v = (Inr (ri, en'), u)" "ri_pair_alg ri = []"
    "\<forall>p k. p \<notin> log_buckets \<union> {keys_bucket, meta_bucket} \<longrightarrow> lookup u p k = None"
    using sample_env_init [OF v(2), of "cli_actor mongo_cli"] unfolding opts by blast
  have "write_roots sample_env mongo_cli ri u = (Inr (), put_file ''/ca/root.pem'' (ri_cert_pem ri) (advance u))"
    using i(2) by (simp add: write_roots_def act_elims mongo_cli_def)
  then show ?thesis using v(1) i by (simp add: init_cmd_def ebind_apply)
qed

theorem init_then_verify_witness:
  "\<exists>info w1. init_cmd sample_env mongo_cli False ''Root'' Ed25519 [] False empty_world = (Inr info, w1) \<and>
    (\<exists>w2. audit_verify_cmd sample_env mongo_cli (\<lambda>_. []) [] w1 = (Inr 2, w2))"
proof -
  obtain info w1 where i: "init_cmd sample_env mongo_cli False ''Root'' Ed25519 [] False empty_world = (Inr info, w1)"
    using sample_init_cmd by blast
  have e: "lookup empty_world p k = None" for p k by (simp add: lookup_def empty_world_def)
  have "no_log (env_db (cli_config mongo_cli [])) empty_world"
    using e by (simp add: no_log_def) (simp add: empty_world_def)
  from init_then_verify [OF sample_libs_ok e this i _ sample_calm] i show ?thesis by (auto simp: mongo_cli_def)
qed

section \<open>An unread root\<close>

definition bolt_cli :: cli where
  "bolt_cli = mongo_cli\<lparr>fl_db := []\<rparr>"

definition flaky_env :: "unit cenv_scheme" where
  "flaky_env = sample_env\<lparr>fault_at := \<lambda>t. if t = 3 then FailClean [] else NoFault\<rparr>"

lemma flaky_revoke:
  assumes r: "lookup w (certs_bucket acme) ''7'' = Some (cert_record_json sample_record)" and t: "tick w \<ge> 4" and m: "mg_audit m = NopLog"
  shows "\<exists>w'. revoke flaky_env m acme ''7'' 1 who w = (Inr (), w') \<and> revoked_in acme ''7'' w'"
proof -
  have f: "fault_at flaky_env (tick w) = NoFault" using t by (simp add: flaky_env_def)
  define r' where "r' = revoked_record sample_record (now_at flaky_env (Suc (tick w))) 1"
  have mark: "mark_revoked flaky_env ''7'' 1 sample_record (advance w) = (Inr r', advance (advance w))"
    by (simp add: mark_revoked_def ebind_apply clock_def revoked_record_def r'_def sample_record_def zero_record_def)
  have "revoke flaky_env m acme ''7'' 1 who w = (Inr (), set_doc (advance (advance w)) (certs_bucket acme) ''7'' (cert_record_json r'))"
    using r f mark by (simp add: revoke_def ebind_apply wrap_err_apply m)
       (simp add: update_json_def update_json_out_def update_out_def effect_def Let_def ebind_apply decode_def)
  moreover have "cr_revoked r'" by (simp add: r'_def revoked_record_def)
  ultimately show ?thesis by (auto simp: revoked_in_def lookup_set_doc)
qed


section \<open>Starting a server\<close>

definition running_key :: api_key where
  "running_key = zero_key\<lparr>ak_id := ''k'', ak_role := role_operator\<rparr>"

text \<open>A start on a store with one operator key.\<close>

lemma sample_bootstrap:
  assumes keys: "\<And>l. lookup w api_keys_bucket l = (if l = ''k'' then Some (api_key_json running_key) else None)"
    and ops: "\<And>l. lookup w operator_meta_bucket l = None" and s: "sv_db s = db_mongo" "sv_key_file s = []"
  shows "\<exists>w'. bootstrap_key sample_env s w = (Inr (), w')"
proof -
  have b: "bucket v api_keys_bucket = [(''k'', api_key_json running_key)]"
    if "\<And>l. lookup v api_keys_bucket l = lookup w api_keys_bucket l" for v
    by (rule bucket_eqI) (auto simp: that keys)
  have role: "ak_role running_key = role_operator" "\<not> ak_bootstrap running_key" by (simp_all add: running_key_def zero_key_def)
  have "reconciled sample_env [''k''] \<lparr>op_ids = [], op_revoking = []\<rparr> (advance (advance w)) =
      (Inr \<lparr>op_ids = [''k''], op_revoking = []\<rparr>, advance (advance (advance w)))"
    using keys by (simp add: reconciled_def recheck_def ebind_apply ecase_apply get_def effect_ok)
  then have "\<exists>v. reconcile_operators sample_env w = (Inr (), v) \<and> (\<forall>l. lookup v api_keys_bucket l = lookup w api_keys_bucket l)"
    using ops by (simp add: reconcile_operators_def act_elims b update_operators_def role lookup_set_doc)
  then obtain v where v: "reconcile_operators sample_env w = (Inr (), v)" "\<And>l. lookup v api_keys_bucket l = lookup w api_keys_bucket l"
    by blast
  have survey: "survey_keys sample_env v = (Inr (True, True, []), advance v)"
    by (simp add: survey_keys_def act_elims b v(2) role)
  show ?thesis
    using v(1) survey s
    by (simp add: bootstrap_key_def read_supplied_def ebind_apply audit_pending_def recover_minted_file_def db_mongo_def)
qed

theorem served_is_audited_witness:
  "\<exists>s w w'. serve_cmd sample_env mongo_cli (\<lambda>_ _. fail err_not_found) [] [] [] True None w = (Inr s, w') \<and>
     (\<exists>l. mg_audit (sv_manager s) = StoreLog l)"
proof -
  obtain info w1 where i: "init_cmd sample_env mongo_cli False ''Root'' Ed25519 [] False empty_world = (Inr info, w1)"
    and none: "\<forall>p k. p \<notin> log_buckets \<union> {keys_bucket, meta_bucket} \<longrightarrow> lookup w1 p k = None"
    using sample_init_cmd by blast
  have e: "lookup empty_world p k = None" for p k by (simp add: lookup_def empty_world_def)
  have "no_log (env_db (cli_config mongo_cli [])) empty_world"
    using e by (simp add: no_log_def) (simp add: empty_world_def)
  then obtain sg where l1: "ca_live sample_env mongo_config w1 info sg (Suc 1)"
    using init_cmd_live [OF sample_libs_ok e _ i] by (auto simp: mongo_simps)
  define w where "w = set_doc w1 api_keys_bucket ''k'' (api_key_json running_key)"
  have apart: "api_keys_bucket \<notin> log_buckets \<union> {keys_bucket, meta_bucket}" "operator_meta_bucket \<notin> log_buckets \<union> {keys_bucket, meta_bucket}"
    "operator_meta_bucket \<noteq> api_keys_bucket"
    by (simp_all add: api_keys_bucket_def operator_meta_bucket_def log_buckets_def audit_records_bucket_def audit_meta_bucket_def
        keys_bucket_def meta_bucket_def)
  have "same log_view w1 w" unfolding w_def using apart by (intro log_view_set_doc) simp
  moreover have "keeps_keys w1 w" unfolding w_def using apart by (intro keeps_keys_set_doc) simp
  ultimately have "ca_live sample_env mongo_config w info sg (Suc 1)"
    using apart by (intro ca_live_kept [OF l1]) (auto simp: w_def lookup_set_doc)
  from open_env_live [OF this mongo_simps(2) sample_calm] obtain en v where
    o: "open_env sample_env mongo_config w = (Inr en, v)" "en_db en = db_mongo" "en_log en \<noteq> None" by (auto simp: mongo_simps)
  have lk: "p \<notin> log_buckets \<Longrightarrow> lookup v p k = lookup w p k" for p k
    by (rule only_bucketsD [OF stepsD [OF only_open_env o(1)]])
  define acme where "acme = new_acme (en_manager en) (mg_audit (en_manager en)) [] True False"
  define s where "s = \<lparr>sv_manager = en_manager en, sv_db = en_db en, sv_dir = ''/ca'', sv_key_file = [],
    sv_key_source = bootstrap_key_source None, sv_acme = Some ((\<lambda>_ _. fail err_not_found) acme)\<rparr>"
  have "lookup v api_keys_bucket l = (if l = ''k'' then Some (api_key_json running_key) else None)"
    "lookup v operator_meta_bucket l = None" for l
    using lk apart none by (simp_all add: w_def lookup_set_doc)
  then obtain w' where "bootstrap_key sample_env s v = (Inr (), w')"
    using sample_bootstrap [of v s] o(2) by (auto simp: s_def)
  then have run: "serve_cmd sample_env mongo_cli (\<lambda>_ _. fail err_not_found) [] [] [] True None w = (Inr s, w')"
    using o by (simp add: serve_cmd_def open_cli_env_def ebind_apply wrap_err_apply mongo_simps acme_of_def acme_allow_private_def)
      (simp add: mongo_cli_def bootstrap_key_file_def s_def acme_def Let_def ebind_apply wrap_err_apply)
  have "\<exists>l. mg_audit (sv_manager s) = StoreLog l" using served_is_audited [OF run] o(2) by (simp add: s_def)
  with run show ?thesis by blast
qed

section \<open>Keys and requests\<close>

text \<open>Key files that hold the seed of an ML-DSA-65 key.\<close>

definition sample_p8 :: "private_key \<Rightarrow> string option" where
  "sample_p8 k = (case k of MldsaPriv p seed pk \<Rightarrow> if p = ''ML-DSA-65'' then Some (pack [seed, pk]) else None | _ \<Rightarrow> None)"

definition sample_unp8 :: "string \<Rightarrow> private_key option option" where
  "sample_unp8 s = (case unpack s of [seed, pk] \<Rightarrow> Some (Some (MldsaPriv ''ML-DSA-65'' seed pk)) | _ \<Rightarrow> None)"

theorem keygen_then_csr_witness:
  "\<exists>w1 r w2. keygen_cmd sample_env sample_p8 MLDSA65 ''/k.pem'' empty_world = (Inr (), w1) \<and>
     csr_cmd sample_env sample_unp8 ''/k.pem'' ''leaf'' [''a.example''] [] [] ''/r.pem'' w1 = (Inr r, w2) \<and>
     csr_check_signature sample_env r = Inr () \<and> csr_pub_alg r = MLDSA65 \<and> csr_dns r = [''a.example'']"
proof -
  have i: "lookup_alg MLDSA65 = Inr ((plain_info MLDSA65 [2, 16, 840, 1, 101, 3, 4, 3, 18] NoHash)\<lparr>i_pq := True\<rparr>)" by simp
  obtain seed where g: "generate_key sample_env MLDSA65 empty_world = (Inr (MldsaPriv ''ML-DSA-65'' seed (take 4 seed)), advance empty_world)"
    using sample_generate_key(2) [where xe = "()"] by blast
  let ?key = "MldsaPriv ''ML-DSA-65'' seed (take 4 seed)"
  obtain der where der: "sample_p8 ?key = Some der" "sample_unp8 der = Some (Some ?key)"
    by (simp add: sample_p8_def sample_unp8_def del: pack.simps)
  define w1 where "w1 = put_file ''/k.pem'' (pem_encode sample_env pem_private_key der) (advance (advance empty_world))"
  have k: "keygen_cmd sample_env sample_p8 MLDSA65 ''/k.pem'' empty_world = (Inr (), w1)"
    using g der by (simp add: keygen_cmd_def act_elims plain_info_def write_output_def w1_def)
  have t: "\<lparr>ct_subject = NamedSubject ''leaf'' [] [], ct_dns = [''a.example''], ct_emails = [], ct_ips = [], ct_uris = []\<rparr> = sample_csr_template"
    by (simp add: sample_csr_template_def)
  obtain r v where c: "create_certificate_request sample_env sample_csr_template ?key MLDSA65 (advance w1) = (Inr r, v)" "csr_dns r = [''a.example'']"
    using sample_csr_create_key [where xe = "()"] by blast
  have "pem_decode sample_env (pem_encode sample_env pem_private_key der @ []) = Some (pem_private_key, der, [])"
    using sample_pem_laws [where xe = "()"] unfolding pem_laws_def by blast
  moreover have "map_of (text_files w1) ''/k.pem'' = Some (pem_encode sample_env pem_private_key der)" by (simp add: w1_def update_conv')
  ultimately obtain w2 where run: "csr_cmd sample_env sample_unp8 ''/k.pem'' ''leaf'' [''a.example''] [] [] ''/r.pem'' w1 = (Inr r, w2)"
    using der(2) c(1) by (simp add: csr_cmd_def t act_elims write_output_def)
  have "sample_unp8 d = Some (Some key)" if "sample_p8 key = Some d" for key d
    using that by (auto simp: sample_p8_def sample_unp8_def split: private_key.splits if_splits simp del: pack.simps)
  from keygen_then_csr [OF sample_libs_ok sample_csr_laws this i _ k _ _ run] k run c(2) show ?thesis by (auto simp: plain_info_def)
qed

end
