(* ===== verification/Spec2Isabelle.thy ===== *)
theory Spec2Isabelle
  imports Acme_Samples Store_Samples Cli_Samples
begin

text \<open>
  MnemoCA: a certificate authority with post-quantum and composite signatures, a tamper-evident
  audit log, tenants with issuing CAs of their own, and a REST API with bearer keys.

  How the program is put together.  \<open>internal/pkix\<close> makes and checks keys, certificates, requests
  and revocation lists; \<open>internal/signer\<close> keeps private keys behind references; \<open>internal/store\<close>
  keeps JSON documents in buckets; \<open>internal/audit\<close> appends signed, chained records to a file or
  to the store.  \<open>internal/ca\<close> builds the CA on these four: initialisation, tenants, profiles,
  issuance, revocation, lists.  \<open>internal/api\<close> serves it over HTTP, and \<open>internal/acme\<close> serves ACME
  clients, who prove the names they order and then have the CA issue.  \<open>cmd/mnemoca\<close> opens the
  environment of an instance and runs one operation on it, or the server.

  Conventions.  A Go function that may fail is an action (theory Prelude): it takes the state and
  returns an error or a value with the new state, and what it did before an error stays done.  Every
  call that leaves the process (clock, random bytes, store, files, log) takes one tick, and the
  environment (World, Externals) answers by the tick; such a call may work, fail without effect, or
  fail after its effect.  A theorem that does not restrict the environment therefore holds for every
  pattern of failures.  Cryptographic and encoding libraries are fields of the environment; a theorem
  that needs a law of theirs names it (\<open>libs_ok\<close>, \<open>key_libs\<close>, \<open>prims_correct\<close>,
  \<open>no_collision\<close>), and Sample_Env is a concrete environment in which these laws hold.  Sequence
  numbers are 64-bit words.  Go maps are association lists in key order.

  Contracts.  \<open>steps R m\<close> says that the action m relates the state before to the state after by R,
  whatever it returns; the locales \<open>step_contract\<close> and \<open>world_contract\<close> derive the contract of a
  handler from those of its calls, and each use of them is an interpretation on a relation of the
  model (only these buckets change, the log only grows, keys stay, time passes).

  Theories, with the code they model.

  \<^item> Prelude, Json, World: actions, Go's string functions, JSON documents, errors with their
    sentinels, the environment and the state.
  \<^item> Store (store/store.go): the Store interface over documents and counters; the locale
    \<open>doc_store\<close> states its laws and is interpreted on the model's documents.
  \<^item> Store_Refine, Store_Bolt (store/bolt.go): the embedded store as transactions over a bucket
    library, an argument with the documented laws \<open>bbolt_laws\<close>; it refines the model of Store, each
    of its runs being a run of the model for some outcome of the call.
  \<^item> Store_Mongo, Store_Linear (store/mongo.go): the store that replicas share, over the calls of the
    goodm library with the documented laws \<open>mongo_laws\<close>, other clients acting between any two calls.
    Each operation on a document is linearizable to the model of Store, so that no optimistic update
    is lost, and an update with fewer than 128 rivals comes to its end.
  \<^item> Pkix_Algs, Externals, Pkix_Sign, Pkix_Keys (pkix/algs.go, composite.go): the registry of
    algorithms, signing and verification; composite signatures need both components.
  \<^item> Pkix_X509, Pkix_Csr, Pkix_Crl (pkix/cert.go, spki.go, pem.go, csr.go, crl.go): certificates,
    chains, requests and lists; what is made parses back and verifies.
  \<^item> Key_Refs, Signer, Backends (signer/*.go without cgo): references, software keys in encrypted
    files, keys in the store; a generated key is never overwritten and opens again.
  \<^item> Audit_Log, Audit_Store (audit/audit.go, storelog.go): the two logs and their verifiers; the
    locale \<open>audit_sink\<close> is the interface both provide.  What is appended without an error
    verifies, a log that verifies cannot be changed without a hash collision, replicas never fork.
  \<^item> Ca_Types, Ca_Frames, Ca_Profiles, Ca_Roots, Ca_Keys, Ca_Ready (ca/ca.go, profiles.go):
    documents, profiles, roots and tenants; what initialisation and tenant creation leave is a
    working CA.
  \<^item> Ca_Issue, Ca_Issued, Ca_Revoke, Ca_Publish (ca/issue.go): issuance with its checks and the
    compensating revocation after a failure, revocation, revocation lists.
  \<^item> Api_Keys, Api_Operators, Api_Bootstrap (api/auth.go): tokens, the document that counts the
    operator keys under concurrent revocations (a step relation with its invariant), the first key.
  \<^item> Api_Handlers, Api_Access (api/api.go, handlers.go, profiles.go): bodies, handlers, routes, and
    who may do what.
  \<^item> Acme_Types, Acme_Ssrf, Acme_Jws, Acme_Challenges, Acme_Handlers (acme/*.go): documents, the
    guarded HTTP client, signed requests and nonces, the checks of challenges, handlers and routes.
  \<^item> Acme_Nonces, Acme_Orders, Acme_Proved: nonces open one request; assertions on actions
    (\<open>triple\<close>), the invariant of accounts, orders, authorizations and challenges that every
    request keeps, and from it that a certificate is only for names its account has proved.
  \<^item> Ca_Env (ca/env.go): the environment of a data directory or a MongoDB database, opened with its key
    backends and its audit log (\<open>blank_env\<close> is what a configuration determines without the log,
    \<open>ca_live\<close> an initialised CA whose log verifies); opening a live CA leaves it live.
  \<^item> Cli, Cli_Run (cmd/mnemoca): the commands, from their flags to the calls of the engine, and what
    they promise together: a CA that was initialised passes the verification of its log, a server is
    never started without one, a request made from a generated key file verifies.
  \<^item> Sample_Env, Ca_Samples, Ca_Issue_Samples, Api_Samples, Acme_Samples, Store_Samples, Cli_Samples:
    concrete instances for the witnesses.

  Bounds.  Loops over slices are folds; the retry loops of the MongoDB store count their attempts down from
  the code's 128; the PEM and ASN.1 loops consume their input, which their
  termination proofs use; the HTTP client ends because its redirects are limited.  No fuel is used.

  Not modelled: the PKCS 11 calls through cgo, closing the stores, the client library, and of the command
  line the parsing of flags, the layout of what is printed, and the listening and shutting down of the
  server.  Of the listing of a MongoDB bucket
  only the function is given: its cursor reads while others write, and no theorem is about it.  The ACME server's
  network is an argument: the addresses of a host, the reply of a server, TXT records; its timeouts and
  the racing of several addresses are left out, and a server that accepts and then does not answer
  counts as one that does not accept.  Of HTTP, the redirects of the router and the headers that carry no data are left out.
\<close>

end
